(* ===== verification/Mb_Prelude.thy ===== *)
theory Mb_Prelude
  imports Main "HOL-Library.Word" "HOL-Library.AList" "HOL-Library.Sublist"
begin

text \<open>
  What every component of the development shares: the machine types of the Rust code
  (\<open>u8\<close>, \<open>usize\<close> with its saturating operations), HTTP status codes and the error
  pair \<open>(StatusCode, String)\<close> that the handlers return, Rust's \<open>?\<close> operator on
  results, decimal printing, association lists for the \<open>DashMap\<close> tables, and the
  generic lemmas on lists the component proofs use.
\<close>

section \<open>Hint collections\<close>

named_theorems result_simps \<open>inversion of the error-propagating combinators\<close>
named_theorems table_simps \<open>lookup after insert and remove in association lists\<close>

section \<open>Machine integers\<close>

type_synonym u8 = "8 word"
type_synonym u32 = "32 word"
type_synonym bytes = "u8 list"

text \<open>
  \<open>usize\<close> and \<open>u64\<close> values are natural numbers below \<open>2 ^ 64\<close>; the operations
  the code applies to them are the saturating ones, written out here.
\<close>

definition u64_max :: nat where
  "u64_max = 2 ^ 64 - 1"

definition sat_add :: "nat \<Rightarrow> nat \<Rightarrow> nat" where
  "sat_add a b = min (a + b) u64_max"

definition sat_mul :: "nat \<Rightarrow> nat \<Rightarrow> nat" where
  "sat_mul a b = min (a * b) u64_max"

definition clamp_nat :: "nat \<Rightarrow> nat \<Rightarrow> nat \<Rightarrow> nat" where
  "clamp_nat lo hi x = (if x < lo then lo else if hi < x then hi else x)"

lemma clamp_nat_bounds: "lo \<le> hi \<Longrightarrow> lo \<le> clamp_nat lo hi x \<and> clamp_nat lo hi x \<le> hi"
  by (simp add: clamp_nat_def)

lemma u64_max_pos [simp]: "0 < u64_max"
  by (simp add: u64_max_def)

lemma sat_add_pos_iff: "0 < sat_add a b \<longleftrightarrow> 0 < a \<or> 0 < b"
  by (auto simp: sat_add_def)

lemma sat_add_assoc: "sat_add (sat_add a b) c = sat_add a (b + c)"
  by (simp add: sat_add_def)

lemma sat_add_0: "a \<le> u64_max \<Longrightarrow> sat_add a 0 = a"
  by (simp add: sat_add_def)

section \<open>HTTP statuses, errors and results\<close>

type_synonym status = nat

abbreviation OK_S :: status where "OK_S \<equiv> 200"
abbreviation CREATED :: status where "CREATED \<equiv> 201"
abbreviation ACCEPTED :: status where "ACCEPTED \<equiv> 202"
abbreviation NO_CONTENT :: status where "NO_CONTENT \<equiv> 204"
abbreviation BAD_REQUEST :: status where "BAD_REQUEST \<equiv> 400"
abbreviation UNAUTHORIZED :: status where "UNAUTHORIZED \<equiv> 401"
abbreviation FORBIDDEN :: status where "FORBIDDEN \<equiv> 403"
abbreviation NOT_FOUND :: status where "NOT_FOUND \<equiv> 404"
abbreviation CONFLICT :: status where "CONFLICT \<equiv> 409"
abbreviation UNSUPPORTED_MEDIA_TYPE :: status where "UNSUPPORTED_MEDIA_TYPE \<equiv> 415"
abbreviation TOO_MANY_REQUESTS :: status where "TOO_MANY_REQUESTS \<equiv> 429"
abbreviation INTERNAL_SERVER_ERROR :: status where "INTERNAL_SERVER_ERROR \<equiv> 500"
abbreviation NOT_IMPLEMENTED :: status where "NOT_IMPLEMENTED \<equiv> 501"
abbreviation BAD_GATEWAY :: status where "BAD_GATEWAY \<equiv> 502"
abbreviation SERVICE_UNAVAILABLE :: status where "SERVICE_UNAVAILABLE \<equiv> 503"

type_synonym http_err = "status \<times> string"
type_synonym 'a result = "http_err + 'a"

text \<open>\<open>rtry r f\<close> is \<open>let x = r?; f(x)\<close>: an error returns early.\<close>

fun rtry :: "'e + 'a \<Rightarrow> ('a \<Rightarrow> 'e + 'b) \<Rightarrow> 'e + 'b" where
  "rtry (Inl e) f = Inl e"
| "rtry (Inr x) f = f x"

fun ok_or :: "'e \<Rightarrow> 'a option \<Rightarrow> 'e + 'a" where
  "ok_or e None = Inl e"
| "ok_or e (Some x) = Inr x"

fun map_err :: "('e \<Rightarrow> 'f) \<Rightarrow> 'e + 'a \<Rightarrow> 'f + 'a" where
  "map_err f (Inl e) = Inl (f e)"
| "map_err f (Inr x) = Inr x"

lemma rtry_Inr_iff [result_simps]: "rtry r f = Inr y \<longleftrightarrow> (\<exists>x. r = Inr x \<and> f x = Inr y)"
  by (cases r) auto

lemma rtry_Inl_iff [result_simps]:
  "rtry r f = Inl e \<longleftrightarrow> r = Inl e \<or> (\<exists>x. r = Inr x \<and> f x = Inl e)"
  by (cases r) auto

lemma ok_or_Inr_iff [result_simps]: "ok_or e v = Inr x \<longleftrightarrow> v = Some x"
  by (cases v) auto

lemma ok_or_Inl_iff [result_simps]: "ok_or e v = Inl e' \<longleftrightarrow> v = None \<and> e' = e"
  by (cases v) auto

lemma map_err_Inr_iff [result_simps]: "map_err f r = Inr x \<longleftrightarrow> r = Inr x"
  by (cases r) auto

lemma map_err_Inl_iff [result_simps]: "map_err f r = Inl e \<longleftrightarrow> (\<exists>d. r = Inl d \<and> e = f d)"
  by (cases r) auto

text \<open>\<open>unwrap_or\<close> and \<open>or\<close>.\<close>

fun or_default :: "'a option \<Rightarrow> 'a \<Rightarrow> 'a" where
  "or_default None d = d"
| "or_default (Some x) d = x"

fun or_else :: "'a option \<Rightarrow> 'a option \<Rightarrow> 'a option" where
  "or_else (Some x) y = Some x"
| "or_else None y = y"

text \<open>
  The operator \<open>?\<close> on calls that also change a state: the new state is kept when the call fails.
\<close>

definition io_try :: "('d \<Rightarrow> ('e + 'a) \<times> 'd) \<Rightarrow> ('a \<Rightarrow> 'd \<Rightarrow> ('e + 'b) \<times> 'd) \<Rightarrow> 'd \<Rightarrow> ('e + 'b) \<times> 'd" where
  "io_try m f d = (case m d of (Inl e, d') \<Rightarrow> (Inl e, d') | (Inr x, d') \<Rightarrow> f x d')"

definition io_err :: "('e \<Rightarrow> 'f) \<Rightarrow> ('d \<Rightarrow> ('e + 'a) \<times> 'd) \<Rightarrow> 'd \<Rightarrow> ('f + 'a) \<times> 'd" where
  "io_err g m d = (case m d of (r, d') \<Rightarrow> (map_err g r, d'))"

definition io_lift :: "'e + 'a \<Rightarrow> 'd \<Rightarrow> ('e + 'a) \<times> 'd" where
  "io_lift r d = (r, d)"

text \<open>The process environment: \<open>std::env::var\<close> as a function.\<close>

type_synonym env = "string \<Rightarrow> string option"

section \<open>Printing numbers\<close>

fun show_nat :: "nat \<Rightarrow> string" where
  "show_nat n = (if n < 10 then [char_of (48 + n)]
                 else show_nat (n div 10) @ [char_of (48 + n mod 10)])"

declare show_nat.simps [simp del]

definition show_int :: "int \<Rightarrow> string" where
  "show_int i = (if i < 0 then ''-'' @ show_nat (nat (- i)) else show_nat (nat i))"

section \<open>Tables\<close>

text \<open>
  A \<open>DashMap\<close> or \<open>HashMap\<close> is an association list with distinct keys; the list order
  stands for the (unspecified) iteration order of the table. Insertion is
  \<^const>\<open>AList.update\<close>, removal \<^const>\<open>AList.delete\<close>, lookup \<^const>\<open>map_of\<close>.
\<close>

type_synonym ('k, 'v) table = "('k \<times> 'v) list"

abbreviation keys :: "('k, 'v) table \<Rightarrow> 'k list" where
  "keys t \<equiv> map fst t"

lemma lookup_update [table_simps]:
  "map_of (AList.update k v t) k' = (if k' = k then Some v else map_of t k')"
  by (simp add: update_conv')

lemma lookup_delete [table_simps]:
  "map_of (AList.delete k t) k' = (if k' = k then None else map_of t k')"
  by (simp add: delete_conv')

lemma keys_update [table_simps]: "set (keys (AList.update k v t)) = insert k (set (keys t))"
  using dom_update [of k v t] by simp

lemma keys_delete [table_simps]: "set (keys (AList.delete k t)) = set (keys t) - {k}"
  by (simp add: delete_keys)

lemma image_keys_update [table_simps]: "fst ` set (AList.update k v t) = insert k (fst ` set t)"
  using keys_update [of k v t] by simp

lemma image_keys_delete [table_simps]: "fst ` set (AList.delete k t) = fst ` set t - {k}"
  using keys_delete [of k t] by simp

lemma length_update_le: "length (AList.update k v t) \<le> Suc (length t)"
  by (induction t) auto

lemma lookup_keys: "map_of t k = Some v \<Longrightarrow> k \<in> set (keys t)"
  by (induction t) (auto split: if_splits)

lemma keys_lookup: "k \<in> set (keys t) \<Longrightarrow> \<exists>v. map_of t k = Some v"
  by (induction t) auto

lemma lookup_None_iff: "map_of t k = None \<longleftrightarrow> k \<notin> set (keys t)"
  by (induction t) auto

lemma distinct_lookup: "distinct (keys t) \<Longrightarrow> (k, v) \<in> set t \<Longrightarrow> map_of t k = Some v"
  by simp

section \<open>Lists\<close>

lemma take_append_drop_mid:
  "i \<le> j \<Longrightarrow> take i xs @ take (j - i) (drop i xs) @ drop j xs = xs"
  by (metis append_assoc append_take_drop_id drop_drop le_add_diff_inverse2)

lemma take_drop_eqD: "take (length ys) (drop i xs) = ys \<Longrightarrow> xs = take i xs @ ys @ drop (i + length ys) xs"
  by (metis append_take_drop_id drop_drop add.commute)

end
