(* ===== verification/Stream_Buffer.thy ===== *)
theory Stream_Buffer
  imports Mb_Prelude
begin

text \<open>
  The bounded ring buffer behind one stdio stream of a child process
  (\<open>StreamBuffer\<close> in \<open>tools-rust/src/process.rs\<close>). The record is
  \<open>StreamBufferInner\<close> together with the capacity; the mutex makes every operation atomic
  and the \<open>Notify\<close> only wakes waiting readers, so neither is part of the state.

  The interface is the locale \<open>byte_channel\<close>: what a reader of the channel may rely on.
  The channel is interpreted on the operations of the code, and the facts about whole
  runs (nothing invented, nothing reordered, nothing lost without the flag) come from it.
\<close>

section \<open>State and operations\<close>

record stream_buffer =
  sb_buf :: bytes
  sb_truncated_total :: nat
  sb_closed :: bool
  sb_cap :: nat

definition sb_new :: "nat \<Rightarrow> stream_buffer" where
  "sb_new cap = \<lparr>sb_buf = [], sb_truncated_total = 0, sb_closed = False, sb_cap = cap\<rparr>"

text \<open>One iteration of the loop in \<open>push\<close>: drop the oldest byte when the buffer is full.\<close>

definition sb_push_byte :: "stream_buffer \<Rightarrow> u8 \<Rightarrow> stream_buffer" where
  "sb_push_byte g b =
     (let g' = (if length (sb_buf g) = sb_cap g
                then g\<lparr>sb_buf := tl (sb_buf g),
                       sb_truncated_total := sat_add (sb_truncated_total g) 1\<rparr>
                else g)
      in g'\<lparr>sb_buf := sb_buf g' @ [b]\<rparr>)"

definition sb_push :: "bytes \<Rightarrow> stream_buffer \<Rightarrow> stream_buffer" where
  "sb_push bs g = foldl sb_push_byte g bs"

definition sb_close :: "stream_buffer \<Rightarrow> stream_buffer" where
  "sb_close g = g\<lparr>sb_closed := True\<rparr>"

text \<open>\<open>drain\<close> returns \<open>(bytes, truncated since the last call, eof)\<close>.\<close>

definition sb_drain :: "nat option \<Rightarrow> stream_buffer \<Rightarrow> (bytes \<times> bool \<times> bool) \<times> stream_buffer" where
  "sb_drain mx g =
     (let n = (case mx of Some m \<Rightarrow> min m (length (sb_buf g)) | None \<Rightarrow> length (sb_buf g));
          out = take n (sb_buf g);
          truncated = 0 < sb_truncated_total g;
          g' = g\<lparr>sb_buf := drop n (sb_buf g),
                 sb_truncated_total := (if truncated then 0 else sb_truncated_total g)\<rparr>;
          eof = (sb_closed g \<and> sb_buf g' = [])
      in ((out, truncated, eof), g'))"

section \<open>One push\<close>

definition sb_invar :: "stream_buffer \<Rightarrow> bool" where
  "sb_invar g \<longleftrightarrow> 0 < sb_cap g \<and> length (sb_buf g) \<le> sb_cap g \<and> sb_truncated_total g \<le> u64_max"

lemma sb_push_Nil [simp]: "sb_push [] g = g"
  by (simp add: sb_push_def)

lemma sb_push_Cons: "sb_push (b # bs) g = sb_push bs (sb_push_byte g b)"
  by (simp add: sb_push_def)

lemma sb_push_append: "sb_push (xs @ ys) g = sb_push ys (sb_push xs g)"
  by (simp add: sb_push_def)

lemma sb_push_frame [simp]:
  "sb_cap (sb_push bs g) = sb_cap g" "sb_closed (sb_push bs g) = sb_closed g"
  by (induction bs arbitrary: g) (auto simp: sb_push_Cons sb_push_byte_def Let_def)

text \<open>How many of the oldest bytes a push of \<open>n\<close> more bytes drops.\<close>

definition sb_overflow :: "stream_buffer \<Rightarrow> nat \<Rightarrow> nat" where
  "sb_overflow g n = length (sb_buf g) + n - sb_cap g"

lemma sb_push_byte_invar: "sb_invar g \<Longrightarrow> sb_invar (sb_push_byte g b)"
  by (auto simp: sb_invar_def sb_push_byte_def Let_def sat_add_def)

lemma sb_push_exact:
  "sb_invar g \<Longrightarrow>
     sb_buf (sb_push bs g) = drop (sb_overflow g (length bs)) (sb_buf g @ bs)
     \<and> sb_truncated_total (sb_push bs g)
         = sat_add (sb_truncated_total g) (sb_overflow g (length bs))
     \<and> sb_invar (sb_push bs g)"
proof (induction bs arbitrary: g)
  case Nil
  then show ?case by (simp add: sb_overflow_def sb_invar_def sat_add_def)
next
  case (Cons b bs)
  let ?g = "sb_push_byte g b"
  have inv: "sb_invar ?g" using Cons.prems by (rule sb_push_byte_invar)
  have cap: "sb_cap ?g = sb_cap g" by (simp add: sb_push_byte_def Let_def)
  show ?case
  proof (cases "length (sb_buf g) = sb_cap g")
    case full: True
    with Cons.prems have ne: "sb_buf g \<noteq> []" by (auto simp: sb_invar_def)
    then obtain x xs where buf: "sb_buf g = x # xs" by (cases "sb_buf g") auto
    from full buf have g: "sb_buf ?g = xs @ [b]"
      "sb_truncated_total ?g = sat_add (sb_truncated_total g) 1"
      by (simp_all add: sb_push_byte_def)
    with cap buf full have "sb_overflow ?g (length bs) = length bs"
      "sb_overflow g (length (b # bs)) = Suc (length bs)" by (simp_all add: sb_overflow_def)
    with Cons.IH [OF inv] g buf show ?thesis by (simp add: sb_push_Cons sat_add_assoc)
  next
    case room: False
    with Cons.prems have "sb_overflow ?g (length bs) = sb_overflow g (length (b # bs))"
      by (simp add: sb_overflow_def sb_push_byte_def)
    with Cons.IH [OF inv] room show ?thesis by (simp add: sb_push_Cons sb_push_byte_def)
  qed
qed

text \<open>With capacity 0 the guard \<open>len == cap\<close> holds only for the very first byte.\<close>

lemma sb_push_unbounded:
  "sb_cap g < length (sb_buf g) \<Longrightarrow> sb_buf (sb_push bs g) = sb_buf g @ bs"
  by (induction bs arbitrary: g) (auto simp: sb_push_Cons sb_push_byte_def)

section \<open>The channel interface\<close>

text \<open>
  What the readers and writers of a channel do to it, in any order, and what the
  \<open>Drain\<close> operations returned.
\<close>

datatype channel_op = Push bytes | Drain "nat option" | Close

fun chan_run ::
  "(bytes \<Rightarrow> 's \<Rightarrow> 's) \<Rightarrow> (nat option \<Rightarrow> 's \<Rightarrow> (bytes \<times> bool \<times> bool) \<times> 's) \<Rightarrow> ('s \<Rightarrow> 's)
   \<Rightarrow> channel_op list \<Rightarrow> 's \<Rightarrow> (bytes \<times> bool \<times> bool) list \<times> 's" where
  "chan_run push drain close [] s = ([], s)"
| "chan_run push drain close (Push bs # ops) s = chan_run push drain close ops (push bs s)"
| "chan_run push drain close (Close # ops) s = chan_run push drain close ops (close s)"
| "chan_run push drain close (Drain m # ops) s =
     (let (r, s') = drain m s; (rs, s'') = chan_run push drain close ops s' in (r # rs, s''))"

fun pushed :: "channel_op list \<Rightarrow> bytes" where
  "pushed [] = []"
| "pushed (Push bs # ops) = bs @ pushed ops"
| "pushed (_ # ops) = pushed ops"

definition delivered :: "(bytes \<times> bool \<times> bool) list \<Rightarrow> bytes" where
  "delivered rs = concat (map fst rs)"

definition any_truncated :: "(bytes \<times> bool \<times> bool) list \<Rightarrow> bool" where
  "any_truncated rs \<longleftrightarrow> (\<exists>r \<in> set rs. fst (snd r))"

locale byte_channel =
  fixes fresh :: 's
    and push :: "bytes \<Rightarrow> 's \<Rightarrow> 's"
    and drain :: "nat option \<Rightarrow> 's \<Rightarrow> (bytes \<times> bool \<times> bool) \<times> 's"
    and close :: "'s \<Rightarrow> 's"
    and pending :: "'s \<Rightarrow> bytes"
    and lossy :: "'s \<Rightarrow> bool"
    and closed :: "'s \<Rightarrow> bool"
    and invar :: "'s \<Rightarrow> bool"
  assumes fresh: "invar fresh" "pending fresh = []" "\<not> lossy fresh" "\<not> closed fresh"
    and push_invar: "invar s \<Longrightarrow> invar (push bs s)"
    and push_pending: "invar s \<Longrightarrow> \<exists>d. pending s @ bs = d @ pending (push bs s)
      \<and> (lossy (push bs s) \<longleftrightarrow> lossy s \<or> d \<noteq> [])"
    and push_closed: "closed (push bs s) \<longleftrightarrow> closed s"
    and drain_invar: "invar s \<Longrightarrow> invar (snd (drain m s))"
    and drain_law: "drain m s = ((out, tr, eof), s') \<Longrightarrow>
      pending s = out @ pending s' \<and> tr = lossy s \<and> \<not> lossy s'
      \<and> (eof \<longleftrightarrow> closed s \<and> pending s' = []) \<and> closed s' = closed s"
    and close_law: "invar (close s) = invar s" "pending (close s) = pending s"
      "lossy (close s) = lossy s" "closed (close s)"
begin

text \<open>Nothing is invented, duplicated or reordered, whatever the interleaving.\<close>

lemma run_subseq:
  "invar s \<Longrightarrow> chan_run push drain close ops s = (rs, s') \<Longrightarrow>
     subseq (delivered rs @ pending s') (pending s @ pushed ops)"
proof (induction ops arbitrary: s rs)
  case (Cons op ops)
  show ?case
  proof (cases op)
    case (Push bs)
    with Cons.prems have run: "chan_run push drain close ops (push bs s) = (rs, s')" by simp
    obtain d where d: "pending s @ bs = d @ pending (push bs s)"
      using push_pending [OF Cons.prems(1)] by blast
    have "subseq (delivered rs @ pending s') (pending (push bs s) @ pushed ops)"
      by (rule Cons.IH [OF push_invar [OF Cons.prems(1)] run])
    then have "subseq (delivered rs @ pending s') (d @ pending (push bs s) @ pushed ops)"
      by (rule list_emb_append2)
    then show ?thesis using Push d by (metis append_assoc pushed.simps(2))
  next
    case (Drain m)
    obtain out tr eof t where dr: "drain m s = ((out, tr, eof), t)" by (metis surj_pair)
    obtain rs1 where rs: "rs = (out, tr, eof) # rs1"
      and run: "chan_run push drain close ops t = (rs1, s')"
      using Cons.prems(2) Drain dr by (auto split: prod.splits)
    have "invar t" using drain_invar [OF Cons.prems(1), of m] dr by simp
    from Cons.IH [OF this run] have "subseq (delivered rs1 @ pending s') (pending t @ pushed ops)" .
    then show ?thesis
      using drain_law [OF dr] Drain rs by (simp add: delivered_def subseq_append')
  next
    case Close
    with Cons.prems show ?thesis using Cons.IH [of "close s" rs] by (simp add: close_law)
  qed
qed (simp add: delivered_def)

text \<open>Without a truncation flag the run is lossless.\<close>

lemma run_lossless:
  "invar s \<Longrightarrow> chan_run push drain close ops s = (rs, s') \<Longrightarrow>
     \<not> any_truncated rs \<Longrightarrow> \<not> lossy s' \<Longrightarrow>
     \<not> lossy s \<and> delivered rs @ pending s' = pending s @ pushed ops"
proof (induction ops arbitrary: s rs)
  case (Cons op ops)
  show ?case
  proof (cases op)
    case (Push bs)
    with Cons.prems have run: "chan_run push drain close ops (push bs s) = (rs, s')" by simp
    obtain d where d: "pending s @ bs = d @ pending (push bs s)"
        "lossy (push bs s) \<longleftrightarrow> lossy s \<or> d \<noteq> []"
      using push_pending [OF Cons.prems(1)] by blast
    with Cons.IH [OF push_invar [OF Cons.prems(1)] run Cons.prems(3,4)] Push
    show ?thesis by (metis append_Nil append_assoc pushed.simps(2))
  next
    case (Drain m)
    obtain out tr eof t where dr: "drain m s = ((out, tr, eof), t)" by (metis surj_pair)
    obtain rs1 where rs: "rs = (out, tr, eof) # rs1"
      and run: "chan_run push drain close ops t = (rs1, s')"
      using Cons.prems(2) Drain dr by (auto split: prod.splits)
    have t: "invar t" using drain_invar [OF Cons.prems(1), of m] dr by simp
    have "\<not> any_truncated rs1" "\<not> tr" using Cons.prems(3) rs by (auto simp: any_truncated_def)
    with Cons.IH [OF t run _ Cons.prems(4)] drain_law [OF dr] Drain rs
    show ?thesis by (simp add: delivered_def)
  next
    case Close
    with Cons.prems show ?thesis using Cons.IH [of "close s" rs] by (simp add: close_law)
  qed
qed (simp add: delivered_def)

lemma run_fresh:
  assumes "chan_run push drain close ops fresh = (rs, s')"
  shows "subseq (delivered rs @ pending s') (pushed ops)"
    and "\<not> any_truncated rs \<Longrightarrow> \<not> lossy s' \<Longrightarrow> delivered rs @ pending s' = pushed ops"
  using run_subseq [OF fresh(1) assms] run_lossless [OF fresh(1) assms] fresh(2) by auto

end

section \<open>The code provides the interface\<close>

definition sb_lossy :: "stream_buffer \<Rightarrow> bool" where
  "sb_lossy g \<longleftrightarrow> 0 < sb_truncated_total g"

text \<open>
  A buffer of capacity \<open>Suc c\<close>: any positive capacity. (Capacity 0 does not provide the
  interface, see the property on it below.)
\<close>

interpretation ring: byte_channel "sb_new (Suc c)" sb_push sb_drain sb_close sb_buf sb_lossy sb_closed
  sb_invar for c
proof
  fix s :: stream_buffer and bs :: bytes
  assume inv: "sb_invar s"
  define X n where "X = sb_buf s @ bs" and "n = sb_overflow s (length bs)"
  have "n \<le> length X" by (simp add: X_def n_def sb_overflow_def)
  then have none: "0 < n \<and> X \<noteq> [] \<longleftrightarrow> 0 < n" by auto
  have "sb_buf (sb_push bs s) = drop n X"
    "sb_truncated_total (sb_push bs s) = sat_add (sb_truncated_total s) n"
    using sb_push_exact [OF inv, of bs] by (simp_all only: X_def n_def)
  then show "\<exists>d. sb_buf s @ bs = d @ sb_buf (sb_push bs s)
      \<and> (sb_lossy (sb_push bs s) \<longleftrightarrow> sb_lossy s \<or> d \<noteq> [])"
    unfolding X_def [symmetric]
    by (intro exI [of _ "take n X"]) (simp add: sb_lossy_def sat_add_pos_iff none)
qed (auto simp: sb_push_exact sb_overflow_def sat_add_def sb_new_def sb_invar_def sb_lossy_def sb_close_def sb_drain_def Let_def
    split: option.splits dest: arg_cong [where f = snd])

section \<open>Properties\<close>

text \<open>A push keeps exactly the newest bytes that fit: the buffer is the old content
  followed by the new bytes with the oldest dropped to make it fit the capacity, the number of
  dropped bytes is added (saturating) to the truncation counter, and the buffer never grows
  past its capacity.\<close>

theorem push_keeps_newest:
  assumes "0 < sb_cap g" "length (sb_buf g) \<le> sb_cap g" "sb_truncated_total g \<le> u64_max"
  shows "sb_buf (sb_push bs g) =
           drop (length (sb_buf g) + length bs - sb_cap g) (sb_buf g @ bs)
       \<and> sb_truncated_total (sb_push bs g) =
           sat_add (sb_truncated_total g) (length (sb_buf g) + length bs - sb_cap g)
       \<and> length (sb_buf (sb_push bs g)) \<le> sb_cap g"
  using sb_push_exact [of g bs] assms by (auto simp: sb_invar_def sb_overflow_def)

theorem push_keeps_newest_witness:
  "sb_buf (sb_push [4, 5, 6] (sb_push [1, 2, 3] (sb_new 4))) = [3, 4, 5, 6]"
proof -
  let ?g = "sb_push [1, 2, 3] (sb_new 4)"
  have g: "?g = \<lparr>sb_buf = [1, 2, 3], sb_truncated_total = 0, sb_closed = False, sb_cap = 4\<rparr>"
    by (simp add: sb_push_def sb_new_def sb_push_byte_def)
  show ?thesis using push_keeps_newest [of ?g "[4, 5, 6]"] by (simp add: g)
qed

text \<open>C8: Incremental reads of a buffer of positive capacity. For every interleaving of pushes
  by the drain task, reads, and the close: what the reads returned followed by what is still
  buffered is a subsequence of what the process wrote (nothing invented, repeated or
  reordered), and it is all of it unless some read, or the next one, reports truncation.\<close>

theorem incremental_reads:
  assumes "0 < cap" "chan_run sb_push sb_drain sb_close ops (sb_new cap) = (rs, g)"
  shows "subseq (delivered rs @ sb_buf g) (pushed ops)
       \<and> (\<not> any_truncated rs \<and> sb_truncated_total g = 0 \<longrightarrow> delivered rs @ sb_buf g = pushed ops)"
proof -
  obtain c where "cap = Suc c" using assms(1) by (cases cap) auto
  with assms(2) show ?thesis using ring.run_fresh [of ops c rs g] by (simp add: sb_lossy_def)
qed

theorem incremental_reads_witness:
  "fst (chan_run sb_push sb_drain sb_close [Push [1, 2], Drain None, Push [3], Drain (Some 5), Close] (sb_new 8))
     = [([1, 2], False, False), ([3], False, False)]
   \<and> delivered [([1, 2], False, False), ([3], False, False)] @ [] = [1, 2, 3]"
proof -
  let ?ops = "[Push [1, 2], Drain None, Push [3], Drain (Some 5), Close]"
  let ?rs = "[([1, 2], False, False), ([3], False, False)] :: (bytes \<times> bool \<times> bool) list"
  let ?g = "\<lparr>sb_buf = [], sb_truncated_total = 0, sb_closed = True, sb_cap = 8\<rparr>"
  have run: "chan_run sb_push sb_drain sb_close ?ops (sb_new 8) = (?rs, ?g)"
    by (simp add: sb_push_def sb_new_def sb_push_byte_def sb_drain_def sb_close_def)
  show ?thesis
    using incremental_reads [OF _ run] run by (simp add: any_truncated_def)
qed

text \<open>The capacity is a bound only when it is positive: with
  \<open>TOOLS_PROCESS_BUFFER_BYTES=0\<close> the test \<open>len == cap\<close> succeeds for the first byte only, and
  the buffer then keeps every byte the process ever writes (while reporting truncation).\<close>

theorem zero_capacity_is_unbounded:
  "sb_buf (sb_push bs (sb_new 0)) = bs
   \<and> sb_truncated_total (sb_push bs (sb_new 0)) = (if bs = [] then 0 else 1)"
proof (cases bs)
  case (Cons b r)
  have count: "sb_cap g < length (sb_buf g) \<Longrightarrow>
      sb_truncated_total (sb_push r g) = sb_truncated_total g" for g
    by (induction r arbitrary: g) (auto simp: sb_push_Cons sb_push_byte_def)
  have g: "sb_push_byte (sb_new 0) b =
      \<lparr>sb_buf = [b], sb_truncated_total = 1, sb_closed = False, sb_cap = 0\<rparr>"
    by (simp add: sb_push_byte_def sb_new_def sat_add_def u64_max_def)
  show ?thesis
    unfolding Cons sb_push_Cons g
    using sb_push_unbounded [of "\<lparr>sb_buf = [b], sb_truncated_total = 1, sb_closed = False, sb_cap = 0\<rparr>" r]
      count [of "\<lparr>sb_buf = [b], sb_truncated_total = 1, sb_closed = False, sb_cap = 0\<rparr>"]
    by simp
qed (simp add: sb_new_def)

end
