(* ===== verification/Rust_Str.thy ===== *)
theory Rust_Str
  imports Mb_Prelude
begin

text \<open>
  The part of Rust's \<open>str\<close> library the code uses. A Rust \<open>String\<close> is a sequence of
  UTF-8 bytes, and an Isabelle \<open>string\<close> is a list of 8-bit \<open>char\<close>s: the model of a
  Rust string is the list of its bytes, so that lengths and offsets are byte counts as in
  Rust. Since UTF-8 is self-synchronising, searching a valid needle byte-wise in a valid
  string finds exactly the matches Rust finds.
\<close>

section \<open>Prefixes, suffixes and trimming\<close>

definition starts_with :: "string \<Rightarrow> string \<Rightarrow> bool" where
  "starts_with s p \<longleftrightarrow> take (length p) s = p"

definition strip_prefix :: "string \<Rightarrow> string \<Rightarrow> string option" where
  "strip_prefix s p = (if starts_with s p then Some (drop (length p) s) else None)"

definition ends_with :: "string \<Rightarrow> string \<Rightarrow> bool" where
  "ends_with s p \<longleftrightarrow> starts_with (rev s) (rev p)"

definition strip_suffix :: "string \<Rightarrow> string \<Rightarrow> string option" where
  "strip_suffix s p = (if ends_with s p then Some (take (length s - length p) s) else None)"

definition trim_start_matches :: "char \<Rightarrow> string \<Rightarrow> string" where
  "trim_start_matches c s = dropWhile (\<lambda>x. x = c) s"

definition trim_end_matches :: "char \<Rightarrow> string \<Rightarrow> string" where
  "trim_end_matches c s = rev (dropWhile (\<lambda>x. x = c) (rev s))"

definition trim_matches :: "char \<Rightarrow> string \<Rightarrow> string" where
  "trim_matches c s = trim_end_matches c (trim_start_matches c s)"

lemma starts_with_prefix: "starts_with s p \<longleftrightarrow> prefix p s"
  by (metis append_eq_conv_conj prefix_def starts_with_def)

lemma starts_with_append [simp]: "starts_with (p @ s) p"
  by (simp add: starts_with_def)

lemma trim_end_matches_append: "\<exists>n. s = trim_end_matches c s @ replicate n c"
proof -
  let ?d = "dropWhile (\<lambda>x. x = c) (rev s)" and ?t = "takeWhile (\<lambda>x. x = c) (rev s)"
  have "?t = replicate (length ?t) c"
    by (metis (full_types) replicate_eqI set_takeWhileD)
  moreover have "s = rev ?d @ rev ?t"
    by (metis rev_append rev_rev_ident takeWhile_dropWhile_id)
  ultimately show ?thesis
    unfolding trim_end_matches_def by (metis rev_replicate)
qed

lemma trim_end_matches_last: "trim_end_matches c s \<noteq> [] \<Longrightarrow> last (trim_end_matches c s) \<noteq> c"
  using hd_dropWhile [of "\<lambda>x. x = c" "rev s"]
  by (simp add: trim_end_matches_def last_rev)

lemma trim_start_matches_hd: "trim_start_matches c s \<noteq> [] \<Longrightarrow> hd (trim_start_matches c s) \<noteq> c"
  using hd_dropWhile [of "\<lambda>x. x = c" s] by (simp add: trim_start_matches_def)

text \<open>
  \<open>str::trim\<close> removes Unicode white space at both ends. \<open>ws_seqs\<close> lists the UTF-8
  encodings of all code points with the \<open>White_Space\<close> property.
\<close>

definition ws_seqs :: "string list" where
  "ws_seqs = map (map char_of)
     ([[9], [10], [11], [12], [13], [32], [194, 133], [194, 160], [225, 154, 128],
       [226, 128, 168], [226, 128, 169], [226, 128, 175], [226, 129, 159], [227, 128, 128]]
      @ map (\<lambda>b. [226, 128, b]) [128, 129, 130, 131, 132, 133, 134, 135, 136, 137, 138 :: nat])"

definition ws_head :: "string \<Rightarrow> nat option" where
  "ws_head s = map_option length (find (starts_with s) ws_seqs)"

lemma ws_seqs_nonempty: "w \<in> set ws_seqs \<Longrightarrow> w \<noteq> []"
  by (auto simp: ws_seqs_def)

lemma ws_head_bounds: "ws_head s = Some n \<Longrightarrow> 0 < n \<and> n \<le> length s"
  by (auto simp: ws_head_def find_Some_iff starts_with_prefix dest: ws_seqs_nonempty[OF nth_mem] prefix_length_le)

function trim_start :: "string \<Rightarrow> string" where
  "trim_start s = (case ws_head s of None \<Rightarrow> s | Some n \<Rightarrow> trim_start (drop n s))"
  by pat_completeness auto
termination
  by (relation "measure length") (auto dest: ws_head_bounds)

declare trim_start.simps [simp del]

definition ws_tail :: "string \<Rightarrow> nat option" where
  "ws_tail s = map_option length (find (ends_with s) ws_seqs)"

lemma ws_tail_bounds: "ws_tail s = Some n \<Longrightarrow> 0 < n \<and> n \<le> length s"
  by (auto simp: ws_tail_def find_Some_iff ends_with_def starts_with_prefix
      dest: ws_seqs_nonempty[OF nth_mem] prefix_length_le)

function trim_end :: "string \<Rightarrow> string" where
  "trim_end s = (case ws_tail s of None \<Rightarrow> s | Some n \<Rightarrow> trim_end (take (length s - n) s))"
  by pat_completeness auto
termination
  by (relation "measure length") (auto dest: ws_tail_bounds)

declare trim_end.simps [simp del]

definition trim :: "string \<Rightarrow> string" where
  "trim s = trim_end (trim_start s)"

text \<open>Printable ASCII text has nothing to trim.\<close>

definition plain :: "string \<Rightarrow> bool" where
  "plain s \<longleftrightarrow> (\<forall>c \<in> set s. 32 < (of_char c :: nat) \<and> (of_char c :: nat) < 128)"

lemma ws_seqs_not_plain: "w \<in> set ws_seqs \<Longrightarrow> \<exists>c \<in> set w. \<not> (32 < (of_char c :: nat) \<and> (of_char c :: nat) < 128)"
  by (auto simp: ws_seqs_def)

lemma trim_plain: "plain s \<Longrightarrow> trim s = s"
proof -
  assume p: "plain s"
  have "\<not> starts_with s w" "\<not> ends_with s w" if "w \<in> set ws_seqs" for w
  proof -
    have "\<not> set w \<subseteq> set s" using ws_seqs_not_plain [OF that] p by (auto simp: plain_def)
    then show "\<not> starts_with s w" "\<not> ends_with s w"
      using set_mono_prefix [of w s] set_mono_prefix [of "rev w" "rev s"]
      by (auto simp: ends_with_def starts_with_prefix)
  qed
  then have "ws_head s = None" "ws_tail s = None"
    by (auto simp: ws_head_def ws_tail_def find_None_iff)
  then show ?thesis by (simp add: trim_def trim_start.simps [of s] trim_end.simps [of s])
qed

section \<open>Case and number parsing\<close>

definition is_ascii :: "string \<Rightarrow> bool" where
  "is_ascii s \<longleftrightarrow> (\<forall>c \<in> set s. of_char c < (128 :: nat))"

definition ascii_lower :: "char \<Rightarrow> char" where
  "ascii_lower c = (let n = of_char c :: nat in if 65 \<le> n \<and> n \<le> 90 then char_of (n + 32) else c)"

definition ascii_upper :: "char \<Rightarrow> char" where
  "ascii_upper c = (let n = of_char c :: nat in if 97 \<le> n \<and> n \<le> 122 then char_of (n - 32) else c)"

text \<open>
  \<open>to_lowercase\<close> and \<open>to_uppercase\<close> are the Unicode mappings; on ASCII strings they are
  the ASCII ones. The Unicode tables are the parameter \<open>uni\<close>, consulted only for strings
  with a non-ASCII byte.
\<close>

definition to_lowercase :: "(string \<Rightarrow> string) \<Rightarrow> string \<Rightarrow> string" where
  "to_lowercase uni s = (if is_ascii s then map ascii_lower s else uni s)"

definition to_uppercase :: "(string \<Rightarrow> string) \<Rightarrow> string \<Rightarrow> string" where
  "to_uppercase uni s = (if is_ascii s then map ascii_upper s else uni s)"

definition is_digit :: "char \<Rightarrow> bool" where
  "is_digit c \<longleftrightarrow> 48 \<le> (of_char c :: nat) \<and> (of_char c :: nat) \<le> 57"

definition digit_val :: "char \<Rightarrow> nat" where
  "digit_val c = of_char c - 48"

definition parse_digits :: "string \<Rightarrow> nat option" where
  "parse_digits s = (if s \<noteq> [] \<and> list_all is_digit s
                     then Some (foldl (\<lambda>n c. 10 * n + digit_val c) 0 s) else None)"

text \<open>
  \<open>str::parse\<close> at a signed type with bounds \<open>lo\<close>, \<open>hi\<close>: an optional sign, at least one
  digit, and an error when the value does not fit. Unsigned types accept a leading \<open>+\<close>
  only.
\<close>

definition parse_signed :: "int \<Rightarrow> int \<Rightarrow> string \<Rightarrow> int option" where
  "parse_signed lo hi s =
     (case (case s of
              CHR ''+'' # r \<Rightarrow> map_option int (parse_digits r)
            | CHR ''-'' # r \<Rightarrow> map_option (\<lambda>n. - int n) (parse_digits r)
            | _ \<Rightarrow> map_option int (parse_digits s)) of
        None \<Rightarrow> None
      | Some i \<Rightarrow> if lo \<le> i \<and> i \<le> hi then Some i else None)"

definition parse_unsigned :: "nat \<Rightarrow> string \<Rightarrow> nat option" where
  "parse_unsigned hi s =
     (case (case s of CHR ''+'' # r \<Rightarrow> parse_digits r | _ \<Rightarrow> parse_digits s) of
        None \<Rightarrow> None
      | Some n \<Rightarrow> if n \<le> hi then Some n else None)"

definition parse_i32 :: "string \<Rightarrow> int option" where
  "parse_i32 = parse_signed (- (2 ^ 31)) (2 ^ 31 - 1)"

definition parse_i64 :: "string \<Rightarrow> int option" where
  "parse_i64 = parse_signed (- (2 ^ 63)) (2 ^ 63 - 1)"

definition parse_usize :: "string \<Rightarrow> nat option" where
  "parse_usize = parse_unsigned u64_max"

lemma parse_signed_bounds: "parse_signed lo hi s = Some i \<Longrightarrow> lo \<le> i \<and> i \<le> hi"
  by (auto simp: parse_signed_def split: option.splits if_splits)

lemma parse_digits_show: "parse_digits (show_nat n) = Some n"
proof -
  have dig: "list_all is_digit (show_nat n) \<and> show_nat n \<noteq> []
      \<and> foldl (\<lambda>n c. 10 * n + digit_val c) 0 (show_nat n) = n" for n
  proof (induction n rule: show_nat.induct)
    case (1 n)
    have small: "is_digit (char_of (48 + m))" "digit_val (char_of (48 + m)) = m" if "m < 10" for m :: nat
      using that by (simp_all add: is_digit_def digit_val_def)
    show ?case
    proof (cases "n < 10")
      case True
      then show ?thesis by (simp add: show_nat.simps [of n] small)
    next
      case False
      with "1.IH" show ?thesis by (simp add: show_nat.simps [of n] small)
    qed
  qed
  then show ?thesis by (simp add: parse_digits_def)
qed

lemma show_nat_digits: "list_all is_digit (show_nat n)" "show_nat n \<noteq> []"
  using parse_digits_show [of n] by (auto simp: parse_digits_def split: if_splits)

lemma digits_plain: "list_all is_digit s \<Longrightarrow> plain s"
  by (auto simp: plain_def is_digit_def list_all_iff)

lemma parse_signed_no_sign:
  assumes "c \<noteq> CHR ''+''" "c \<noteq> CHR ''-''"
  shows "parse_signed lo hi (c # r) =
    (case parse_digits (c # r) of None \<Rightarrow> None | Some n \<Rightarrow> if lo \<le> int n \<and> int n \<le> hi then Some (int n) else None)"
proof -
  have "(case c # r of
              CHR ''+'' # r \<Rightarrow> map_option int (parse_digits r)
            | CHR ''-'' # r \<Rightarrow> map_option (\<lambda>n. - int n) (parse_digits r)
            | _ \<Rightarrow> map_option int (parse_digits (c # r))) = map_option int (parse_digits (c # r))"
    using assms by (auto split: char.splits bool.splits)
  then show ?thesis by (simp add: parse_signed_def split: option.splits)
qed

lemma parse_signed_digits:
  assumes "list_all is_digit s" "s \<noteq> []"
  shows "parse_signed lo hi s =
    (case parse_digits s of None \<Rightarrow> None | Some n \<Rightarrow> if lo \<le> int n \<and> int n \<le> hi then Some (int n) else None)"
proof -
  obtain c r where s: "s = c # r" using assms(2) by (cases s) auto
  then have "c \<noteq> CHR ''+''" "c \<noteq> CHR ''-''" using assms(1) by (auto simp: is_digit_def)
  then show ?thesis unfolding s by (rule parse_signed_no_sign)
qed

lemma parse_signed_letter:
  assumes "64 < (of_char c :: nat)"
  shows "parse_signed lo hi (c # r) = None"
proof -
  have "c \<noteq> CHR ''+''" "c \<noteq> CHR ''-''" "\<not> is_digit c" using assms by (auto simp: is_digit_def)
  then show ?thesis by (simp add: parse_signed_no_sign parse_digits_def)
qed

lemma ascii_upper_lower: "ascii_upper (ascii_lower c) = ascii_upper c"
  by (auto simp: ascii_upper_def ascii_lower_def Let_def)

lemma ascii_lower_range: "64 < (of_char c :: nat) \<Longrightarrow> 64 < (of_char (ascii_lower c) :: nat)"
  by (auto simp: ascii_lower_def Let_def)

lemma plain_lower: "plain s \<Longrightarrow> plain (map ascii_lower s)"
  by (auto simp: plain_def ascii_lower_def Let_def)

lemma parse_signed_show:
  "parse_signed lo hi (show_nat n) = (if lo \<le> int n \<and> int n \<le> hi then Some (int n) else None)"
  by (simp add: parse_signed_digits show_nat_digits parse_digits_show)

section \<open>Searching and replacing\<close>

text \<open>
  \<open>match_indices\<close> lists the byte offsets of the non-overlapping matches from left to
  right; \<open>matches(..).count()\<close> is its length. The callers refuse empty needles before
  they search, so the empty needle (which Rust matches between any two characters) is
  outside these definitions: it has no match here.
\<close>

function match_from :: "nat \<Rightarrow> string \<Rightarrow> string \<Rightarrow> nat list" where
  "match_from off pat [] = []"
| "match_from off pat (c # s) =
     (if pat \<noteq> [] \<and> starts_with (c # s) pat
      then off # match_from (off + length pat) pat (drop (length pat) (c # s))
      else match_from (Suc off) pat s)"
  by pat_completeness auto
termination
  by (relation "measure (\<lambda>(off, pat, s). length s)") auto

definition match_indices :: "string \<Rightarrow> string \<Rightarrow> nat list" where
  "match_indices s pat = match_from 0 pat s"

definition match_count :: "string \<Rightarrow> string \<Rightarrow> nat" where
  "match_count s pat = length (match_indices s pat)"

text \<open>\<open>str::split\<close> with a string separator, and joining the pieces again.\<close>

function split_str :: "string \<Rightarrow> string \<Rightarrow> string list" where
  "split_str pat [] = [[]]"
| "split_str pat (c # s) =
     (if pat \<noteq> [] \<and> starts_with (c # s) pat
      then [] # split_str pat (drop (length pat) (c # s))
      else (case split_str pat s of [] \<Rightarrow> [[c]] | p # ps \<Rightarrow> (c # p) # ps))"
  by pat_completeness auto
termination
  by (relation "measure (\<lambda>(pat, s). length s)") auto

fun join :: "string \<Rightarrow> string list \<Rightarrow> string" where
  "join sep [] = []"
| "join sep [p] = p"
| "join sep (p # q # ps) = p @ sep @ join sep (q # ps)"

text \<open>\<open>str::replace\<close> and \<open>replacen(.., 1)\<close>.\<close>

function replace :: "string \<Rightarrow> string \<Rightarrow> string \<Rightarrow> string" where
  "replace old new [] = []"
| "replace old new (c # s) =
     (if old \<noteq> [] \<and> starts_with (c # s) old
      then new @ replace old new (drop (length old) (c # s))
      else c # replace old new s)"
  by pat_completeness auto
termination
  by (relation "measure (\<lambda>(old, new, s). length s)") auto

fun replace_first :: "string \<Rightarrow> string \<Rightarrow> string \<Rightarrow> string" where
  "replace_first old new [] = []"
| "replace_first old new (c # s) =
     (if old \<noteq> [] \<and> starts_with (c # s) old then new @ drop (length old) (c # s)
      else c # replace_first old new s)"

definition str_contains :: "string \<Rightarrow> string \<Rightarrow> bool" where
  "str_contains s pat \<longleftrightarrow> pat = [] \<or> match_indices s pat \<noteq> []"

lemma split_str_nonempty [simp]: "split_str pat s \<noteq> []"
  by (induction pat s rule: split_str.induct) (auto split: list.splits)

lemma join_Cons: "ps \<noteq> [] \<Longrightarrow> join sep (p # ps) = p @ sep @ join sep ps"
  by (cases ps) auto

lemma join_hd: "join sep ((c # p) # ps) = c # join sep (p # ps)"
  by (cases ps) auto

lemma starts_with_decomp: "starts_with s p \<Longrightarrow> s = p @ drop (length p) s"
  by (metis append_take_drop_id starts_with_def)

lemma join_split: "join pat (split_str pat s) = s"
proof (induction pat s rule: split_str.induct)
  case (2 pat c s)
  then show ?case
    by (auto simp: join_Cons join_hd split: list.splits dest: starts_with_decomp)
qed simp

lemma replace_join: "replace old new s = join new (split_str old s)"
proof (induction old s rule: split_str.induct)
  case (2 old c s)
  then show ?case by (auto simp: join_Cons join_hd split: list.splits)
qed simp

lemma length_split_str: "length (split_str pat s) = Suc (length (match_from off pat s))"
proof (induction off pat s rule: match_from.induct)
  case (2 off pat c s)
  show ?case
  proof (cases "pat \<noteq> [] \<and> starts_with (c # s) pat")
    case True
    with "2.IH"(1) show ?thesis by simp
  next
    case False
    with "2.IH"(2) show ?thesis by (auto split: list.splits)
  qed
qed simp

lemma match_from_sound:
  "i \<in> set (match_from off pat s) \<Longrightarrow>
     off \<le> i \<and> pat \<noteq> [] \<and> i - off + length pat \<le> length s \<and> take (length pat) (drop (i - off) s) = pat"
proof (induction off pat s rule: match_from.induct)
  case (2 off pat c s)
  show ?case
  proof (cases "pat \<noteq> [] \<and> starts_with (c # s) pat")
    case True
    then have len: "length pat \<le> length (c # s)"
      by (metis starts_with_prefix prefix_length_le)
    from True "2.prems" consider "i = off"
      | "i \<in> set (match_from (off + length pat) pat (drop (length pat) (c # s)))" by auto
    then show ?thesis
    proof cases
      case 1
      with True len show ?thesis by (simp add: starts_with_def)
    next
      case 2
      with "2.IH"(1) [OF True] have le: "off + length pat \<le> i"
        and fits: "i - (off + length pat) + length pat \<le> length (drop (length pat) (c # s))"
        and eq: "take (length pat) (drop (i - (off + length pat)) (drop (length pat) (c # s))) = pat"
        by auto
      from le have "i - (off + length pat) + length pat = i - off" by simp
      with eq have "take (length pat) (drop (i - off) (c # s)) = pat"
        by (simp only: drop_drop)
      with True le fits len show ?thesis by auto
    qed
  next
    case False
    with 2 have "Suc off \<le> i" "i - Suc off + length pat \<le> length s"
      "take (length pat) (drop (i - Suc off) s) = pat" "pat \<noteq> []" by auto
    moreover from this have "i - off = Suc (i - Suc off)" by simp
    ultimately show ?thesis by simp
  qed
qed simp

lemma match_indices_sound:
  assumes "i \<in> set (match_indices s pat)"
  shows "pat \<noteq> []" "i + length pat \<le> length s" "take (length pat) (drop i s) = pat"
  using match_from_sound [of i 0 pat s] assms by (auto simp: match_indices_def)

lemma match_count_0_replace: "match_count s old = 0 \<Longrightarrow> replace old new s = s"
  using length_split_str [of old s 0] join_split [of old s]
  by (auto simp: match_count_def match_indices_def replace_join length_Suc_conv)

text \<open>With at least one match, \<open>replacen(.., 1)\<close> replaces exactly the first one.\<close>

lemma replace_first_match:
  "match_from off old s = i # is \<Longrightarrow>
     replace_first old new s = take (i - off) s @ new @ drop (i - off + length old) s"
proof (induction old new s arbitrary: off rule: replace_first.induct)
  case (2 old new c s)
  show ?case
  proof (cases "old \<noteq> [] \<and> starts_with (c # s) old")
    case True
    with "2.prems" show ?thesis by simp
  next
    case False
    with "2.prems" have m: "match_from (Suc off) old s = i # is" by auto
    then have "Suc off \<le> i" using match_from_sound [of i "Suc off" old s] by simp
    with "2.IH" [OF False m] False show ?thesis by (auto simp: Suc_diff_le Suc_le_eq numeral_2_eq_2
        elim!: less_natE)
  qed
qed simp

section \<open>Lines\<close>

fun split_inclusive :: "char \<Rightarrow> string \<Rightarrow> string list" where
  "split_inclusive sep [] = []"
| "split_inclusive sep (c # s) =
     (if c = sep then [c] # split_inclusive sep s
      else (case split_inclusive sep s of [] \<Rightarrow> [[c]] | l # ls \<Rightarrow> (c # l) # ls))"

lemma concat_split_inclusive [simp]: "concat (split_inclusive sep s) = s"
  by (induction sep s rule: split_inclusive.induct) (auto split: list.splits)

lemma split_inclusive_nonempty: "l \<in> set (split_inclusive sep s) \<Longrightarrow> l \<noteq> []"
  by (induction sep s rule: split_inclusive.induct) (auto split: list.splits if_splits)

lemma split_inclusive_sep_last:
  "l \<in> set (split_inclusive sep s) \<Longrightarrow> sep \<notin> set (butlast l)"
  by (induction sep s arbitrary: l rule: split_inclusive.induct) (auto split: list.splits if_splits)

section \<open>Bytes and UTF-8\<close>

definition as_bytes :: "string \<Rightarrow> bytes" where
  "as_bytes = map (\<lambda>c. word_of_nat (of_char c))"

definition of_bytes :: "bytes \<Rightarrow> string" where
  "of_bytes = map (\<lambda>b. char_of (unat b))"

lemma unat_of_char [simp]: "unat (word_of_nat (of_char c) :: u8) = of_char c"
proof -
  have "(of_char c :: nat) < 256" by simp
  then show ?thesis by (simp add: unat_of_nat take_bit_nat_eq_self)
qed

lemma of_bytes_as_bytes [simp]: "of_bytes (as_bytes s) = s"
  by (simp add: of_bytes_def as_bytes_def comp_def)

lemma as_bytes_of_bytes [simp]: "as_bytes (of_bytes bs) = bs"
proof -
  have "word_of_nat (of_char (char_of (unat b) :: char)) = b" for b :: u8
    using unsigned_less [of b, where 'a = nat] by (simp add: of_char_of)
  then show ?thesis by (simp add: of_bytes_def as_bytes_def comp_def)
qed

lemma length_as_bytes [simp]: "length (as_bytes s) = length s"
  by (simp add: as_bytes_def)

lemma length_of_bytes [simp]: "length (of_bytes s) = length s"
  by (simp add: of_bytes_def)

text \<open>
  \<open>utf8_seq bs\<close> reads one UTF-8 sequence: whether it is well formed, and how many bytes it
  takes; for an ill-formed one, the length of the maximal prefix that
  \<open>String::from_utf8_lossy\<close> replaces by one U+FFFD.
\<close>

definition utf8_width :: "u8 \<Rightarrow> nat" where
  "utf8_width b = (if b < 128 then 1 else if 194 \<le> b \<and> b \<le> 223 then 2
     else if 224 \<le> b \<and> b \<le> 239 then 3 else if 240 \<le> b \<and> b \<le> 244 then 4 else 0)"

definition utf8_cont :: "u8 \<Rightarrow> bool" where
  "utf8_cont b \<longleftrightarrow> 128 \<le> b \<and> b \<le> 191"

definition utf8_second :: "u8 \<Rightarrow> u8 \<Rightarrow> bool" where
  "utf8_second b c \<longleftrightarrow>
     (if b = 224 then 160 \<le> c \<and> c \<le> 191
      else if b = 237 then 128 \<le> c \<and> c \<le> 159
      else if b = 240 then 144 \<le> c \<and> c \<le> 191
      else if b = 244 then 128 \<le> c \<and> c \<le> 143
      else utf8_cont c)"

definition utf8_seq :: "u8 \<Rightarrow> bytes \<Rightarrow> bool \<times> nat" where
  "utf8_seq b r =
     (if utf8_width b = 0 then (False, 1)
      else if utf8_width b = 1 then (True, 1)
      else (case r of [] \<Rightarrow> (False, 1) | c # r2 \<Rightarrow>
        if \<not> utf8_second b c then (False, 1)
        else if utf8_width b = 2 then (True, 2)
        else (case r2 of [] \<Rightarrow> (False, 2) | d # r3 \<Rightarrow>
          if \<not> utf8_cont d then (False, 2)
          else if utf8_width b = 3 then (True, 3)
          else (case r3 of [] \<Rightarrow> (False, 3) | e # _ \<Rightarrow>
            if utf8_cont e then (True, 4) else (False, 3)))))"

lemma utf8_seq_length: "utf8_seq b r = (ok, n) \<Longrightarrow> 0 < n \<and> n \<le> Suc (length r)"
  by (auto simp: utf8_seq_def split: if_splits list.splits)

lemma utf8_seq_snd_pos [simp]: "0 < snd (utf8_seq b r)"
  using utf8_seq_length [of b r "fst (utf8_seq b r)" "snd (utf8_seq b r)"] by simp

lemma utf8_seq_stable:
  "utf8_seq b r = (True, n) \<Longrightarrow> utf8_seq b (take (n - 1) r @ x) = (True, n)"
  by (auto simp: utf8_seq_def split: if_splits list.splits)

function valid_utf8 :: "bytes \<Rightarrow> bool" where
  "valid_utf8 [] = True"
| "valid_utf8 (b # r) = (fst (utf8_seq b r) \<and> valid_utf8 (drop (snd (utf8_seq b r)) (b # r)))"
  by pat_completeness auto
termination
  by (relation "measure length") auto

definition replacement_char :: bytes where
  "replacement_char = [239, 191, 189]"

function utf8_lossy :: "bytes \<Rightarrow> bytes" where
  "utf8_lossy [] = []"
| "utf8_lossy (b # r) =
     (if fst (utf8_seq b r) then take (snd (utf8_seq b r)) (b # r) else replacement_char)
     @ utf8_lossy (drop (snd (utf8_seq b r)) (b # r))"
  by pat_completeness auto
termination
  by (relation "measure length") auto

definition from_utf8_lossy :: "bytes \<Rightarrow> string" where
  "from_utf8_lossy bs = of_bytes (utf8_lossy bs)"

lemma utf8_lossy_valid_id: "valid_utf8 bs \<Longrightarrow> utf8_lossy bs = bs"
proof (induction bs rule: valid_utf8.induct)
  case (2 b r)
  then show ?case by (auto simp del: drop_Cons' take_Cons')
qed simp

lemma valid_utf8_append_seq:
  assumes "utf8_seq b r = (True, n)" "valid_utf8 x"
  shows "valid_utf8 (take n (b # r) @ x)"
proof -
  obtain m where n: "n = Suc m" and len: "m \<le> length r"
    using utf8_seq_length [OF assms(1)] by (cases n) auto
  have "utf8_seq b (take m r @ x) = (True, n)"
    using utf8_seq_stable [OF assms(1), of x] n by simp
  with assms(2) n len show ?thesis by simp
qed

lemma valid_utf8_replacement: "valid_utf8 x \<Longrightarrow> valid_utf8 (replacement_char @ x)"
  by (simp add: replacement_char_def utf8_seq_def utf8_width_def utf8_second_def utf8_cont_def)

lemma valid_utf8_lossy: "valid_utf8 (utf8_lossy bs)"
proof (induction bs rule: utf8_lossy.induct)
  case (2 b r)
  obtain ok n where s: "utf8_seq b r = (ok, n)" by fastforce
  with 2 have "valid_utf8 (utf8_lossy (drop n (b # r)))" by simp
  with s show ?case
    by (cases ok) (auto simp: valid_utf8_append_seq valid_utf8_replacement simp del: take_Cons')
qed simp

lemma from_utf8_lossy_valid: "valid_utf8 bs \<Longrightarrow> as_bytes (from_utf8_lossy bs) = bs"
  by (simp add: from_utf8_lossy_def utf8_lossy_valid_id)

lemma from_utf8_lossy_string: "valid_utf8 (as_bytes s) \<Longrightarrow> from_utf8_lossy (as_bytes s) = s"
  by (simp add: from_utf8_lossy_def utf8_lossy_valid_id)


end
