(* ===== verification/Rust_Path.thy ===== *)
theory Rust_Path
  imports Rust_Str
begin

text \<open>
  The part of \<open>std::path\<close> the code uses, for Unix. A \<open>PathBuf\<close> is the list of its
  components: Rust compares paths, and defines \<open>starts_with\<close>, \<open>strip_prefix\<close> and
  \<open>parent\<close>, by components. Repeated and trailing slashes and inner \<open>.\<close> components do not
  show in the list, exactly as \<open>Path::components\<close> drops them.
\<close>

datatype component = RootDir | CurDir | ParentDir | Normal string

type_synonym path = "component list"

fun split_slash :: "string \<Rightarrow> string list" where
  "split_slash [] = [[]]"
| "split_slash (c # s) =
     (if c = CHR ''/'' then [] # split_slash s
      else (case split_slash s of [] \<Rightarrow> [[c]] | l # ls \<Rightarrow> (c # l) # ls))"

lemma split_slash_one: "CHR ''/'' \<notin> set s \<Longrightarrow> split_slash s = [s]"
  by (induction s) auto

lemma split_slash_cons: "CHR ''/'' \<notin> set s \<Longrightarrow> split_slash (s @ ''/'' @ r) = s # split_slash r"
  by (induction s) auto

text \<open>The component of one segment that is not at the head of a relative path.\<close>

definition inner_component :: "string \<Rightarrow> component list" where
  "inner_component seg =
     (if seg = [] \<or> seg = ''.'' then [] else if seg = ''..'' then [ParentDir] else [Normal seg])"

definition inner_components :: "string \<Rightarrow> component list" where
  "inner_components s = concat (map inner_component (split_slash s))"

definition is_absolute :: "string \<Rightarrow> bool" where
  "is_absolute s \<longleftrightarrow> starts_with s ''/''"

definition components :: "string \<Rightarrow> path" where
  "components s =
     (if is_absolute s then RootDir # inner_components s
      else if hd (split_slash s) = ''.'' then CurDir # inner_components s
      else inner_components s)"

text \<open>\<open>Path::join\<close>: an absolute argument replaces the path; a relative one is appended, and a
  leading \<open>.\<close> of it survives only when it is appended to the empty path.\<close>

definition path_join :: "path \<Rightarrow> string \<Rightarrow> path" where
  "path_join p s =
     (if is_absolute s \<or> p = [] then components s else p @ inner_components s)"

text \<open>\<open>PathBuf::push\<close> of one component and \<open>PathBuf::pop\<close>.\<close>

fun push_component :: "path \<Rightarrow> component \<Rightarrow> path" where
  "push_component p RootDir = [RootDir]"
| "push_component p CurDir = (if p = [] then [CurDir] else p)"
| "push_component p ParentDir = p @ [ParentDir]"
| "push_component p (Normal s) = p @ [Normal s]"

definition path_pop :: "path \<Rightarrow> path" where
  "path_pop p = (if p = [] \<or> last p = RootDir then p else butlast p)"

text \<open>\<open>Path::parent\<close>, \<open>starts_with\<close>, \<open>strip_prefix\<close> and \<open>file_name\<close>.\<close>

definition path_parent :: "path \<Rightarrow> path option" where
  "path_parent p = (if p = [] \<or> last p = RootDir then None else Some (butlast p))"

definition path_starts_with :: "path \<Rightarrow> path \<Rightarrow> bool" where
  "path_starts_with p base \<longleftrightarrow> prefix base p"

definition path_strip_prefix :: "path \<Rightarrow> path \<Rightarrow> path option" where
  "path_strip_prefix p base =
     (if path_starts_with p base then Some (drop (length base) p) else None)"

definition path_file_name :: "path \<Rightarrow> string option" where
  "path_file_name p = (if p = [] then None else case last p of Normal s \<Rightarrow> Some s | _ \<Rightarrow> None)"

text \<open>\<open>Path::display\<close> of a normalised path.\<close>

fun component_str :: "component \<Rightarrow> string" where
  "component_str RootDir = ''''"
| "component_str CurDir = ''.''"
| "component_str ParentDir = ''..''"
| "component_str (Normal s) = s"

definition path_str :: "path \<Rightarrow> string" where
  "path_str p = (if p = [RootDir] then ''/'' else join ''/'' (map component_str p))"

section \<open>Normal components\<close>

definition is_Normal :: "component \<Rightarrow> bool" where
  "is_Normal c \<longleftrightarrow> (\<exists>s. c = Normal s)"

lemma is_Normal_simps [simp]:
  "is_Normal (Normal s)" "\<not> is_Normal RootDir" "\<not> is_Normal CurDir" "\<not> is_Normal ParentDir"
  by (simp_all add: is_Normal_def)

text \<open>An absolute path without \<open>..\<close>: what a session directory is.\<close>

definition clean_abs :: "path \<Rightarrow> bool" where
  "clean_abs p \<longleftrightarrow> (\<exists>ns. p = RootDir # map Normal ns)"

lemma clean_abs_append: "clean_abs (p @ map Normal ns) \<longleftrightarrow> clean_abs p" if "p \<noteq> []"
proof
  assume "clean_abs (p @ map Normal ns)"
  then obtain ms where ms: "p @ map Normal ns = RootDir # map Normal ms" by (auto simp: clean_abs_def)
  with that obtain q where q: "p = RootDir # q" by (cases p) auto
  with ms have "q @ map Normal ns = map Normal ms" by simp
  then have "q = map Normal (take (length q) ms)" by (metis append_eq_conv_conj take_map)
  with q show "clean_abs p" by (auto simp: clean_abs_def)
next
  assume "clean_abs p"
  then obtain ms where "p = RootDir # map Normal ms" by (auto simp: clean_abs_def)
  then have "p @ map Normal ns = RootDir # map Normal (ms @ ns)" by simp
  then show "clean_abs (p @ map Normal ns)" unfolding clean_abs_def by blast
qed

lemma split_slash_nonempty [simp]: "split_slash s \<noteq> []"
  by (induction s) (auto split: list.splits)

lemma split_slash_no_slash: "l \<in> set (split_slash s) \<Longrightarrow> CHR ''/'' \<notin> set l"
  by (induction s arbitrary: l) (auto split: list.splits if_splits)

lemma inner_components_cases:
  "c \<in> set (inner_components s) \<Longrightarrow> c = ParentDir \<or>
     (\<exists>n. c = Normal n \<and> n \<noteq> [] \<and> n \<noteq> ''.'' \<and> n \<noteq> ''..'' \<and> CHR ''/'' \<notin> set n)"
  by (auto simp: inner_components_def inner_component_def dest: split_slash_no_slash split: if_splits)

end
