(* ===== verification/Tools_Paths.thy ===== *)
theory Tools_Paths
  imports Rust_Path
begin

text \<open>
  Path confinement in the tools daemon: \<open>resolve_in\<close> of \<open>tools-rust/src/main.rs\<close>. The
  locale \<open>confining_resolver\<close> is what the tools rely on (a resolved path lies under the
  session directory and has no \<open>..\<close> left); \<open>resolve_in\<close> provides it.
\<close>

section \<open>The resolver\<close>

definition normalize_step :: "path \<Rightarrow> component \<Rightarrow> path" where
  "normalize_step acc c = (case c of ParentDir \<Rightarrow> path_pop acc | other \<Rightarrow> push_component acc other)"

definition resolve_in :: "path \<Rightarrow> string \<Rightarrow> path result" where
  "resolve_in cwd rel =
     (if starts_with rel ''/'' then
        Inl (BAD_REQUEST, ''absolute path not allowed: '' @ rel)
      else
        let p = path_join cwd rel;
            normalized = foldl normalize_step [] p
        in if \<not> path_starts_with normalized cwd then
             Inl (BAD_REQUEST, ''path escapes session cwd: '' @ rel)
           else Inr normalized)"

section \<open>The interface\<close>

locale confining_resolver =
  fixes resolve :: "path \<Rightarrow> string \<Rightarrow> path result"
  assumes below: "clean_abs cwd \<Longrightarrow> resolve cwd rel = Inr p \<Longrightarrow> \<exists>ns. p = cwd @ map Normal ns"
    and rejects_absolute: "is_absolute rel \<Longrightarrow> \<exists>e. resolve cwd rel = Inl e \<and> fst e = BAD_REQUEST"
begin

lemma resolved_clean: "clean_abs cwd \<Longrightarrow> resolve cwd rel = Inr p \<Longrightarrow> clean_abs p"
  using below [of cwd rel p] clean_abs_append [of cwd] by (auto simp: clean_abs_def)

lemma resolved_prefix: "clean_abs cwd \<Longrightarrow> resolve cwd rel = Inr p \<Longrightarrow> prefix cwd p"
  using below [of cwd rel p] by (auto simp: prefix_def)

text \<open>Two sessions whose directories are not nested never resolve to the same path.\<close>

lemma resolved_disjoint:
  assumes "clean_abs c1" "clean_abs c2" "\<not> prefix c1 c2" "\<not> prefix c2 c1"
    and "resolve c1 r1 = Inr p1" "resolve c2 r2 = Inr p2"
  shows "\<not> prefix p1 p2"
proof
  assume "prefix p1 p2"
  with resolved_prefix [OF assms(1,5)] have "prefix c1 p2" by (rule prefix_order.trans)
  with resolved_prefix [OF assms(2,6)] assms(3,4) show False
    by (meson prefix_same_cases)
qed

end

section \<open>Lexical normalisation\<close>

lemma normalize_normals: "acc \<noteq> [] \<Longrightarrow> foldl normalize_step acc (map Normal ns) = acc @ map Normal ns"
  by (induction ns arbitrary: acc) (auto simp: normalize_step_def)

lemma normalize_clean: "clean_abs p \<Longrightarrow> foldl normalize_step [] p = p"
  using normalize_normals [of "[RootDir]"] by (auto simp: clean_abs_def normalize_step_def)

lemma path_join_rel:
  "cwd \<noteq> [] \<Longrightarrow> \<not> starts_with rel ''/'' \<Longrightarrow> path_join cwd rel = cwd @ inner_components rel"
  by (simp add: path_join_def is_absolute_def)

text \<open>Folding more components over a clean absolute path keeps it clean and absolute.\<close>

lemma normalize_step_clean:
  assumes "clean_abs p" "c \<in> set (inner_components rel)"
  shows "clean_abs (normalize_step p c)"
proof -
  from assms(1) obtain ns where p: "p = RootDir # map Normal ns" by (auto simp: clean_abs_def)
  from inner_components_cases [OF assms(2)] show ?thesis
  proof
    assume "c = ParentDir"
    then have "normalize_step p c = RootDir # map Normal (butlast ns)"
      using p by (cases ns rule: rev_cases) (auto simp: normalize_step_def path_pop_def)
    then show ?thesis by (auto simp: clean_abs_def)
  next
    assume "\<exists>n. c = Normal n \<and> n \<noteq> [] \<and> n \<noteq> ''.'' \<and> n \<noteq> ''..'' \<and> CHR ''/'' \<notin> set n"
    then obtain n where "normalize_step p c = RootDir # map Normal (ns @ [n])"
      using p by (auto simp: normalize_step_def)
    then show ?thesis unfolding clean_abs_def by blast
  qed
qed

lemma normalize_fold_clean:
  "clean_abs p \<Longrightarrow> set cs \<subseteq> set (inner_components rel) \<Longrightarrow> clean_abs (foldl normalize_step p cs)"
  by (induction cs arbitrary: p) (auto intro: normalize_step_clean)

lemma resolve_in_clean:
  assumes "clean_abs cwd"
  shows "resolve_in cwd rel =
    (if starts_with rel ''/'' then Inl (BAD_REQUEST, ''absolute path not allowed: '' @ rel)
     else let q = foldl normalize_step cwd (inner_components rel)
          in if prefix cwd q then Inr q
             else Inl (BAD_REQUEST, ''path escapes session cwd: '' @ rel))"
proof -
  from assms have "cwd \<noteq> []" by (auto simp: clean_abs_def)
  then show ?thesis
    by (simp add: resolve_in_def path_join_rel normalize_clean [OF assms] path_starts_with_def Let_def)
qed

interpretation resolver: confining_resolver resolve_in
proof
  fix cwd rel p
  assume cwd: "clean_abs cwd" and ok: "resolve_in cwd rel = Inr p"
  then have pre: "prefix cwd p" and q: "p = foldl normalize_step cwd (inner_components rel)"
    by (auto simp: resolve_in_clean Let_def split: if_splits)
  from q have "clean_abs p" using normalize_fold_clean [OF cwd order_refl] by simp
  then obtain ns where ns: "p = RootDir # map Normal ns" by (auto simp: clean_abs_def)
  from cwd obtain cs where cs: "cwd = RootDir # map Normal cs" by (auto simp: clean_abs_def)
  from pre obtain zs where "p = cwd @ zs" by (auto simp: prefix_def)
  with ns cs have "map Normal ns = map Normal cs @ zs" by simp
  then have "zs = map Normal (drop (length cs) ns)"
    by (metis append_eq_conv_conj drop_map length_map)
  with \<open>p = cwd @ zs\<close> show "\<exists>ns. p = cwd @ map Normal ns" by blast
qed (auto simp: resolve_in_def is_absolute_def)

section \<open>What is accepted\<close>

text \<open>
  \<open>lexical cs\<close> reads relative components from the session directory: the names below
  it, or \<open>None\<close> when a \<open>..\<close> would step above it.
\<close>

fun lexical :: "string list \<Rightarrow> component list \<Rightarrow> string list option" where
  "lexical st [] = Some st"
| "lexical st (Normal n # cs) = lexical (st @ [n]) cs"
| "lexical st (ParentDir # cs) = (if st = [] then None else lexical (butlast st) cs)"
| "lexical st (RootDir # cs) = lexical st cs"
| "lexical st (CurDir # cs) = lexical st cs"

lemma lexical_normalize:
  assumes "clean_abs cwd"
  shows "set cs \<subseteq> set (inner_components rel) \<Longrightarrow> lexical st cs = Some ns \<Longrightarrow>
    foldl normalize_step (cwd @ map Normal st) cs = cwd @ map Normal ns"
proof (induction st cs arbitrary: ns rule: lexical.induct)
  case (3 st cs)
  then have st: "st \<noteq> []" by (auto split: if_splits)
  then obtain st' n where "st = st' @ [n]" by (cases st rule: rev_cases) auto
  with 3 show ?case by (auto simp: normalize_step_def path_pop_def butlast_append)
next
  case (4 st cs)
  then show ?case using inner_components_cases [of RootDir rel] by auto
next
  case (5 st cs)
  then show ?case using inner_components_cases [of CurDir rel] by auto
qed (auto simp: normalize_step_def)

text \<open>C20: Path confinement. For a session directory (absolute, without \<open>..\<close>) every path that
  \<open>resolve_in\<close> accepts is the session directory extended by ordinary names, so no \<open>..\<close>, no root
  and no foreign prefix is left in it; an absolute request is refused with 400.\<close>

theorem resolve_in_confined:
  assumes "clean_abs cwd"
  shows "(\<forall>p. resolve_in cwd rel = Inr p \<longrightarrow> (\<exists>ns. p = cwd @ map Normal ns))
       \<and> (is_absolute rel \<longrightarrow> (\<exists>m. resolve_in cwd rel = Inl (BAD_REQUEST, m)))"
  using resolver.below [OF assms] resolver.rejects_absolute [of rel cwd] by auto

theorem resolve_in_confined_witness:
  "\<exists>ns. [RootDir, Normal ''sandboxes'', Normal ''a'', Normal ''bar''] =
     [RootDir, Normal ''sandboxes'', Normal ''a''] @ map Normal ns"
proof -
  let ?cwd = "[RootDir, Normal ''sandboxes'', Normal ''a'']"
  have c: "clean_abs ?cwd" unfolding clean_abs_def by (rule exI [of _ "[''sandboxes'', ''a'']"]) simp
  have r: "resolve_in ?cwd ''foo/../bar'' = Inr (?cwd @ [Normal ''bar''])"
    by (simp add: resolve_in_def starts_with_def path_join_def is_absolute_def inner_components_def
        inner_component_def normalize_step_def path_pop_def path_starts_with_def)
  show ?thesis using resolve_in_confined [OF c, of "''foo/../bar''"] r by auto
qed

text \<open>Completeness of the resolver. A relative path whose \<open>..\<close> components never step above
  the session directory is accepted and resolves to the names that remain after the \<open>..\<close> are
  cancelled.\<close>

theorem resolve_in_accepts_inner:
  assumes "clean_abs cwd" "\<not> is_absolute rel" "lexical [] (inner_components rel) = Some ns"
  shows "resolve_in cwd rel = Inr (cwd @ map Normal ns)"
  using lexical_normalize [OF assms(1) order_refl assms(3)] assms(2)
  by (simp add: resolve_in_clean [OF assms(1)] is_absolute_def)

theorem resolve_in_accepts_inner_witness:
  "resolve_in [RootDir, Normal ''s''] ''a//./b/../c'' = Inr [RootDir, Normal ''s'', Normal ''a'', Normal ''c'']"
proof -
  have c: "clean_abs [RootDir, Normal ''s'']" unfolding clean_abs_def by (rule exI [of _ "[''s'']"]) simp
  have l: "lexical [] (inner_components ''a//./b/../c'') = Some [''a'', ''c'']"
    by (simp add: inner_components_def inner_component_def)
  show ?thesis
    using resolve_in_accepts_inner [OF c _ l] by (simp add: is_absolute_def starts_with_def)
qed

text \<open>The documentation of \<open>resolve_in\<close> (and the API notes) say that \<open>..\<close> segments are
  rejected; the code accepts a path that leaves the session directory and comes back into it.\<close>

theorem resolve_in_accepts_reentry:
  "resolve_in [RootDir, Normal ''sandboxes'', Normal ''a''] ''../a/x''
     = Inr [RootDir, Normal ''sandboxes'', Normal ''a'', Normal ''x'']
   \<and> lexical [] (inner_components ''../a/x'') = None"
  by (simp add: resolve_in_def starts_with_def path_join_def is_absolute_def inner_components_def
      inner_component_def normalize_step_def path_pop_def path_starts_with_def)

end
