(* ===== verification/Tools_Edit.thy ===== *)
theory Tools_Edit
  imports Rust_Str "HOL-Library.Multiset"
begin

text \<open>
  The pure text operations behind the \<open>read\<close> and \<open>edit\<close> tools of the daemon:
  \<open>slice_lines\<close> and \<open>apply_edit_req\<close> of \<open>tools-rust/src/main.rs\<close>. The abstract meaning
  of a multi-edit is \<^emph>\<open>simultaneous\<close> replacement: the source is cut into segments around
  the old texts, and the result is the same segments around the new texts.
\<close>

section \<open>Slicing lines\<close>

definition slice_lines :: "string \<Rightarrow> nat option \<Rightarrow> nat option \<Rightarrow> string result" where
  "slice_lines content offset limit =
     (let start = (case offset of Some o' \<Rightarrow> o' | None \<Rightarrow> 1)
      in if start = 0 then
           Inl (BAD_REQUEST, ''offset is 1-indexed and must be greater than 0'')
         else case limit of
             None \<Rightarrow> Inr (concat (drop (start - 1) (split_inclusive CHR ''\<newline>'' content)))
           | Some l \<Rightarrow>
               if l = 0 then Inr []
               else Inr (concat (take l (drop (start - 1) (split_inclusive CHR ''\<newline>'' content)))))"

text \<open>Reading a file page by page loses and repeats nothing: without offset and limit the
  slice is the whole content, a page of \<open>l\<close> lines followed by everything from the next page on is
  everything from the first page on, and the offset 0 is refused with 400.\<close>

theorem slice_lines_pages:
  assumes "0 < k"
  shows "slice_lines s None None = Inr s
    \<and> (\<exists>page rest. slice_lines s (Some k) (Some l) = Inr page
         \<and> slice_lines s (Some (k + l)) None = Inr rest
         \<and> slice_lines s (Some k) None = Inr (page @ rest))
    \<and> (\<exists>m. slice_lines s (Some 0) lim = Inl (BAD_REQUEST, m))"
proof -
  let ?ls = "split_inclusive CHR ''\<newline>'' s"
  have d: "drop (k + l - 1) ?ls = drop l (drop (k - 1) ?ls)"
    using assms by (simp add: add.commute)
  have c: "concat xs = concat (take l xs) @ concat (drop l xs)" for xs :: "string list"
    by (metis append_take_drop_id concat_append)
  show ?thesis
    using assms d c [of "drop (k - 1) ?ls"] by (cases "l = 0") (auto simp: slice_lines_def)
qed

theorem slice_lines_pages_witness:
  "slice_lines ''a\<newline>b\<newline>c\<newline>'' (Some 2) None = Inr (''b\<newline>'' @ ''c\<newline>'')"
  using slice_lines_pages [of 2 "''a\<newline>b\<newline>c\<newline>''" 1 None]
  by (simp add: slice_lines_def numeral_2_eq_2)

section \<open>The edit request\<close>

record edit_replacement =
  old_text :: string
  new_text :: string

record edit_req =
  edit_path :: string
  edits :: "edit_replacement list"
  old_string :: "string option"
  new_string :: "string option"
  replace_all :: bool

text \<open>The loop over \<open>req.edits\<close>: one range per edit, or the first error.\<close>

fun collect_ranges ::
  "string \<Rightarrow> string \<Rightarrow> edit_replacement list \<Rightarrow> (nat \<times> nat \<times> string) list result" where
  "collect_ranges src path [] = Inr []"
| "collect_ranges src path (edit # es) =
     (if old_text edit = [] then Inl (BAD_REQUEST, ''oldText must not be empty'')
      else let found = match_indices src (old_text edit)
        in if found = [] then Inl (BAD_REQUEST, ''oldText not found in '' @ path)
           else if 1 < length found then
             Inl (BAD_REQUEST, ''oldText matches '' @ show_nat (length found) @ '' times in '' @ path)
           else rtry (collect_ranges src path es) (\<lambda>rs.
             Inr ((hd found, hd found + length (old_text edit), new_text edit) # rs)))"

text \<open>The test on \<open>ranges.windows(2)\<close>.\<close>

fun windows_overlap :: "(nat \<times> nat \<times> string) list \<Rightarrow> bool" where
  "windows_overlap (a # b # rs) \<longleftrightarrow> fst b < fst (snd a) \<or> windows_overlap (b # rs)"
| "windows_overlap _ \<longleftrightarrow> False"

text \<open>The copying loop with its cursor.\<close>

fun splice :: "string \<Rightarrow> nat \<Rightarrow> (nat \<times> nat \<times> string) list \<Rightarrow> string" where
  "splice src cursor [] = drop cursor src"
| "splice src cursor ((start, stop, new) # rs) =
     take (start - cursor) (drop cursor src) @ new @ splice src stop rs"

definition apply_legacy :: "string \<Rightarrow> string \<Rightarrow> edit_req \<Rightarrow> (string \<times> nat) result" where
  "apply_legacy src path req =
     rtry (ok_or (BAD_REQUEST, ''legacy edit requires old_string'') (old_string req)) (\<lambda>old.
     rtry (ok_or (BAD_REQUEST, ''legacy edit requires new_string'') (new_string req)) (\<lambda>new.
       if old = [] then Inl (BAD_REQUEST, ''old_string must not be empty'')
       else let n = match_count src old
         in if n = 0 then Inl (BAD_REQUEST, ''old_string not found in '' @ path)
            else if 1 < n \<and> \<not> replace_all req then
              Inl (BAD_REQUEST, ''old_string matches '' @ show_nat n
                     @ '' times; set replace_all=true to confirm bulk replace'')
            else Inr (if replace_all req then replace old new src else replace_first old new src, n)))"

definition apply_edit_req :: "string \<Rightarrow> string \<Rightarrow> edit_req \<Rightarrow> (string \<times> nat) result" where
  "apply_edit_req src path req =
     (let has_legacy = (old_string req \<noteq> None \<or> new_string req \<noteq> None)
      in if has_legacy \<and> edits req \<noteq> [] then
           Inl (BAD_REQUEST, ''use either edits[] or legacy old_string/new_string, not both'')
         else if has_legacy then apply_legacy src path req
         else if edits req = [] then
           Inl (BAD_REQUEST, ''edit requires at least one edits[] replacement'')
         else rtry (collect_ranges src path (edits req)) (\<lambda>ranges.
           let sorted_ranges = sort_key fst ranges
           in if windows_overlap sorted_ranges then
                Inl (BAD_REQUEST, ''edits[] replacements must not overlap'')
              else Inr (splice src 0 sorted_ranges, length (edits req))))"

section \<open>Ranges\<close>

definition edit_range :: "string \<Rightarrow> edit_replacement \<Rightarrow> nat \<times> nat \<times> string" where
  "edit_range src e =
     (let i = hd (match_indices src (old_text e)) in (i, i + length (old_text e), new_text e))"

definition edit_start :: "string \<Rightarrow> edit_replacement \<Rightarrow> nat" where
  "edit_start src e = hd (match_indices src (old_text e))"

lemma collect_ranges_Inr:
  "collect_ranges src path es = Inr rs \<longleftrightarrow>
     (\<forall>e \<in> set es. match_count src (old_text e) = 1) \<and> rs = map (edit_range src) es"
proof (induction es arbitrary: rs)
  case (Cons e es)
  have "old_text e = [] \<Longrightarrow> match_count src (old_text e) = 0"
    using match_indices_sound(1) [of _ src "[]"]
    by (metis length_0_conv list.set_intros(1) match_count_def neq_Nil_conv)
  moreover have "match_count src (old_text e) = 1 \<longleftrightarrow>
      match_indices src (old_text e) \<noteq> [] \<and> \<not> 1 < length (match_indices src (old_text e))"
    by (auto simp: match_count_def not_less length_Suc_conv le_Suc_eq)
  ultimately show ?case
    using Cons.IH by (auto simp: Let_def edit_range_def result_simps)
qed auto

lemma edit_range_occurrence:
  assumes "match_count src (old_text e) = 1"
  shows "edit_range src e = (edit_start src e, edit_start src e + length (old_text e), new_text e)"
    and "edit_start src e + length (old_text e) \<le> length src"
    and "take (length (old_text e)) (drop (edit_start src e) src) = old_text e"
    and "old_text e \<noteq> []"
proof -
  from assms obtain i where i: "match_indices src (old_text e) = [i]"
    by (auto simp: match_count_def length_Suc_conv)
  then show "edit_start src e + length (old_text e) \<le> length src"
    "take (length (old_text e)) (drop (edit_start src e) src) = old_text e" "old_text e \<noteq> []"
    using match_indices_sound [of i src "old_text e"] by (auto simp: edit_start_def)
qed (simp add: edit_range_def edit_start_def Let_def)

text \<open>Ranges in order from a cursor, none overlapping the one before.\<close>

fun in_order :: "string \<Rightarrow> nat \<Rightarrow> edit_replacement list \<Rightarrow> bool" where
  "in_order src c [] \<longleftrightarrow> True"
| "in_order src c (e # es) \<longleftrightarrow>
     c \<le> edit_start src e \<and> in_order src (edit_start src e + length (old_text e)) es"

lemma windows_in_order:
  "\<forall>e \<in> set (e0 # es). match_count src (old_text e) = 1 \<Longrightarrow>
   \<not> windows_overlap (map (edit_range src) (e0 # es)) \<Longrightarrow>
     in_order src (edit_start src e0 + length (old_text e0)) es"
proof (induction es arbitrary: e0)
  case (Cons e es)
  then show ?case by (auto simp: edit_range_occurrence(1))
qed simp

lemma in_order_sorted_starts:
  "in_order src c es \<Longrightarrow> \<forall>e \<in> set es. match_count src (old_text e) = 1 \<Longrightarrow>
     sorted_wrt (<) (map (edit_start src) es) \<and> (\<forall>e \<in> set es. c \<le> edit_start src e)"
proof (induction es arbitrary: c)
  case (Cons e es)
  then have pos: "0 < length (old_text e)" using edit_range_occurrence(4) [of src e] by simp
  have "sorted_wrt (<) (map (edit_start src) es)
      \<and> (\<forall>e' \<in> set es. edit_start src e + length (old_text e) \<le> edit_start src e')"
    using Cons.IH [of "edit_start src e + length (old_text e)"] Cons.prems by simp
  moreover have "c \<le> edit_start src e" using Cons.prems by simp
  moreover have "edit_start src e < edit_start src e' \<and> c \<le> edit_start src e'" if "e' \<in> set es" for e'
  proof -
    have "edit_start src e + length (old_text e) \<le> edit_start src e'" using calculation that by blast
    with pos \<open>c \<le> edit_start src e\<close> show ?thesis by linarith
  qed
  ultimately show ?case by auto
qed simp

section \<open>Simultaneous replacement\<close>

fun weave :: "string list \<Rightarrow> string list \<Rightarrow> string" where
  "weave (s # segs) (t # ts) = s @ t @ weave segs ts"
| "weave segs _ = concat segs"

lemma splice_weave:
  "in_order src c es \<Longrightarrow> \<forall>e \<in> set es. match_count src (old_text e) = 1 \<Longrightarrow> c \<le> length src \<Longrightarrow>
   \<exists>segs. length segs = Suc (length es)
     \<and> drop c src = weave segs (map old_text es)
     \<and> splice src c (map (edit_range src) es) = weave segs (map new_text es)"
proof (induction es arbitrary: c)
  case Nil
  then show ?case by (intro exI [of _ "[drop c src]"]) simp
next
  case (Cons e es)
  let ?i = "edit_start src e" and ?n = "length (old_text e)"
  have one: "match_count src (old_text e) = 1" using Cons.prems by simp
  note occ = edit_range_occurrence [OF one]
  obtain segs where segs: "length segs = Suc (length es)"
      "drop (?i + ?n) src = weave segs (map old_text es)"
      "splice src (?i + ?n) (map (edit_range src) es) = weave segs (map new_text es)"
    using Cons.IH [of "?i + ?n"] Cons.prems occ(2) by auto
  have le: "c \<le> ?i" using Cons.prems by simp
  have "drop c src = take (?i - c) (drop c src) @ drop ?i src"
    using le by (metis append_take_drop_id drop_drop le_add_diff_inverse2)
  also have "drop ?i src = old_text e @ drop (?i + ?n) src"
    using occ(3) by (metis append_take_drop_id drop_drop add.commute)
  finally have "drop c src = weave (take (?i - c) (drop c src) # segs) (map old_text (e # es))"
    using segs(2) by simp
  with segs show ?case
    by (intro exI [of _ "take (?i - c) (drop c src) # segs"]) (simp add: occ(1))
qed

lemma sort_ranges: "sort_key fst (map (edit_range src) es) = map (edit_range src) (sort_key (edit_start src) es)"
proof -
  have f: "edit_start src = fst \<circ> edit_range src"
    by (auto simp: edit_start_def edit_range_def Let_def)
  have ins: "insort_key fst (edit_range src e) (map (edit_range src) xs)
      = map (edit_range src) (insort_key (edit_start src) e xs)" for e xs
    by (induction xs) (auto simp: f)
  show ?thesis by (induction es) (auto simp: ins)
qed

text \<open>What a successful multi-edit did, in terms of the sorted edits.\<close>

lemma apply_edits_Inr:
  assumes "old_string req = None" "new_string req = None"
  shows "apply_edit_req src path req = Inr (out, n) \<longleftrightarrow>
    edits req \<noteq> [] \<and> (\<forall>e \<in> set (edits req). match_count src (old_text e) = 1)
    \<and> \<not> windows_overlap (map (edit_range src) (sort_key (edit_start src) (edits req)))
    \<and> out = splice src 0 (map (edit_range src) (sort_key (edit_start src) (edits req)))
    \<and> n = length (edits req)"
  using assms by (auto simp: apply_edit_req_def result_simps collect_ranges_Inr sort_ranges Let_def)

lemma sorted_edits_in_order:
  assumes "\<forall>e \<in> set es. match_count src (old_text e) = 1"
    and "\<not> windows_overlap (map (edit_range src) (sort_key (edit_start src) es))"
  shows "in_order src 0 (sort_key (edit_start src) es)"
proof (cases "sort_key (edit_start src) es")
  case (Cons e0 es0)
  have "set (sort_key (edit_start src) es) = set es" by simp
  with Cons assms have "\<forall>e \<in> set (e0 # es0). match_count src (old_text e) = 1" by metis
  with Cons assms(2) windows_in_order [of e0 es0 src] show ?thesis by simp
qed simp

section \<open>Properties\<close>


text \<open>A concrete request used by the witnesses.\<close>

definition demo_edits :: edit_req where
  "demo_edits = \<lparr>edit_path = ''f'', edits = [\<lparr>old_text = ''delta'', new_text = ''D''\<rparr>,
     \<lparr>old_text = ''beta'', new_text = ''BETA''\<rparr>], old_string = None, new_string = None,
     replace_all = False\<rparr>"

lemma demo_edits_run:
  "apply_edit_req ''alpha beta gamma delta'' ''f'' demo_edits = Inr (''alpha BETA gamma D'', 2)"
  by (simp add: apply_edit_req_def demo_edits_def match_indices_def starts_with_def Let_def)


text \<open>The order in which the edits are listed does not matter: a permutation of an accepted
  list of edits is accepted with the same result.\<close>

theorem edits_order_irrelevant:
  assumes "old_string req = None" "new_string req = None"
    and "apply_edit_req src path req = Inr (out, n)" "mset es' = mset (edits req)"
  shows "apply_edit_req src path (req\<lparr>edits := es'\<rparr>) = Inr (out, n)"
proof -
  let ?f = "edit_start src"
  have ok: "\<forall>e \<in> set (edits req). match_count src (old_text e) = 1"
    "\<not> windows_overlap (map (edit_range src) (sort_key ?f (edits req)))"
    using assms apply_edits_Inr by auto
  have sets: "set es' = set (edits req)" using assms(4) by (metis set_mset_mset)
  have "sorted_wrt (<) (map ?f (sort_key ?f (edits req)))"
    using in_order_sorted_starts [OF sorted_edits_in_order [OF ok]] ok(1) by simp
  then have "distinct (map ?f (sort_key ?f (edits req)))"
    by (simp add: strict_sorted_iff)
  then have "distinct (map ?f (edits req))"
    by (metis distinct_map distinct_sort set_sort)
  moreover from this have "distinct (map ?f es')"
    using assms(4) by (metis mset_eq_imp_distinct_iff mset_map)
  ultimately have "sort_key ?f es' = sort_key ?f (edits req)"
    using sets
    by (intro map_sorted_distinct_set_unique [where f = ?f]) (auto simp: distinct_map)
  moreover have "length es' = length (edits req)" using assms(4) by (metis size_mset)
  moreover have "es' = [] \<longleftrightarrow> edits req = []" using sets by (metis set_empty)
  ultimately show ?thesis
    using assms(1-3) sets apply_edits_Inr [of req] apply_edits_Inr [of "req\<lparr>edits := es'\<rparr>"] by simp
qed

theorem edits_order_irrelevant_witness:
  "apply_edit_req ''alpha beta gamma delta'' ''f'' (demo_edits\<lparr>edits := rev (edits demo_edits)\<rparr>)
     = Inr (''alpha BETA gamma D'', 2)"
  using edits_order_irrelevant [OF _ _ demo_edits_run] by (simp add: demo_edits_def)

text \<open>The legacy form. With \<open>replace_all\<close> the result is the source with every occurrence
  replaced: the pieces between the occurrences, joined by the new text instead of the old one,
  and the count is the number of joints; without it the request succeeds exactly when the old
  text matches once, and that one occurrence is replaced.\<close>

theorem legacy_edit_replaces:
  assumes "edits req = []" "old_string req = Some old" "new_string req = Some new" "old \<noteq> []"
  shows "(replace_all req \<and> match_count src old \<noteq> 0 \<longrightarrow>
      (\<exists>ps. src = join old ps \<and> length ps = Suc (match_count src old)
         \<and> apply_edit_req src path req = Inr (join new ps, match_count src old)))
    \<and> (\<not> replace_all req \<longrightarrow>
        ((\<exists>r. apply_edit_req src path req = Inr r) \<longleftrightarrow> match_count src old = 1)
        \<and> (match_count src old = 1 \<longrightarrow>
            (\<exists>a b. src = a @ old @ b \<and> apply_edit_req src path req = Inr (a @ new @ b, 1))))
    \<and> (match_count src old = 0 \<longrightarrow> (\<exists>m. apply_edit_req src path req = Inl (BAD_REQUEST, m)))"
proof -
  have leg: "apply_edit_req src path req = apply_legacy src path req"
    using assms by (simp add: apply_edit_req_def)
  have pieces: "src = join old (split_str old src)"
      "length (split_str old src) = Suc (match_count src old)"
    by (simp_all add: join_split length_split_str [of old src 0] match_count_def match_indices_def)
  have single: "\<exists>a b. src = a @ old @ b \<and> replace_first old new src = a @ new @ b"
    if one: "match_count src old = 1"
  proof -
    from one obtain i where i: "match_from 0 old src = [i]"
      by (auto simp: match_count_def match_indices_def length_Suc_conv)
    then have "take (length old) (drop i src) = old"
      using match_indices_sound(3) [of i src old] by (simp add: match_indices_def)
    with replace_first_match [OF i, of new] show ?thesis
      by (metis take_drop_eqD diff_zero)
  qed
  show ?thesis
    using assms pieces single
    by (auto simp: leg apply_legacy_def result_simps Let_def replace_join)
qed

theorem legacy_edit_replaces_witness:
  "\<exists>ps. ''ab ab ab'' = join ''ab'' ps \<and> length ps = 4
     \<and> apply_edit_req ''ab ab ab'' ''f'' \<lparr>edit_path = ''f'', edits = [], old_string = Some ''ab'',
          new_string = Some ''Z'', replace_all = True\<rparr> = Inr (join ''Z'' ps, 3)"
proof -
  have n: "match_count ''ab ab ab'' ''ab'' = 3"
    by (simp add: match_count_def match_indices_def starts_with_def)
  show ?thesis
    using legacy_edit_replaces [of "\<lparr>edit_path = ''f'', edits = [], old_string = Some ''ab'',
          new_string = Some ''Z'', replace_all = True\<rparr>" "''ab''" "''Z''" "''ab ab ab''" "''f''"]
    by (simp add: n)
qed

text \<open>\<open>match_indices\<close> counts non-overlapping matches, so an old text that occurs twice with
  an overlap passes the uniqueness check: \<open>aa\<close> occurs at two positions of \<open>aaa\<close>, and the edit is
  applied at the first of them instead of being refused as ambiguous.\<close>

theorem overlapping_occurrences_accepted:
  "take 2 (drop 0 ''aaa'') = ''aa'' \<and> take 2 (drop 1 ''aaa'') = ''aa''
   \<and> apply_edit_req ''aaa'' ''f'' \<lparr>edit_path = ''f'', edits = [\<lparr>old_text = ''aa'', new_text = ''b''\<rparr>],
        old_string = None, new_string = None, replace_all = False\<rparr> = Inr (''ba'', 1)"
  by (simp add: apply_edit_req_def match_indices_def starts_with_def numeral_2_eq_2)

end
