(* ===== verification/Fs_Model.thy ===== *)
theory Fs_Model
  imports Rust_Path
begin

text \<open>
  The file system behind \<open>std::fs\<close> and \<open>tokio::fs\<close>: a table from absolute paths (lists
  of names) to nodes, with the kernel's path walk (symbolic links followed, at most 40 of
  them, \<open>..\<close> leading to the parent directory). Only what the code calls is modelled:
  \<open>read\<close>, \<open>write\<close>, \<open>create_dir\<close>, \<open>create_dir_all\<close>, \<open>remove_dir_all\<close>, \<open>remove_file\<close>,
  \<open>read_dir\<close>, \<open>is_dir\<close>, \<open>exists\<close>. Permissions, disk space and concurrent changes by other
  processes are not in the model. \<open>Other\<close> is a socket: it can be listed but not opened.
\<close>

section \<open>Nodes, errors, the path walk\<close>

datatype node = File bytes | Dir | Symlink string | Other

type_synonym fs = "(string list, node) table"

datatype io_error = ENOENT | ENXIO | EEXIST | ENOTDIR | EISDIR | ELOOP

fun io_msg :: "io_error \<Rightarrow> string" where
  "io_msg ENOENT = ''No such file or directory (os error 2)''"
| "io_msg ENXIO = ''No such device or address (os error 6)''"
| "io_msg EEXIST = ''File exists (os error 17)''"
| "io_msg ENOTDIR = ''Not a directory (os error 20)''"
| "io_msg EISDIR = ''Is a directory (os error 21)''"
| "io_msg ELOOP = ''Too many levels of symbolic links (os error 40)''"

definition node_at :: "fs \<Rightarrow> string list \<Rightarrow> node option" where
  "node_at fs k = (if k = [] then Some Dir else map_of fs k)"

function walk :: "fs \<Rightarrow> nat \<Rightarrow> string list \<Rightarrow> path \<Rightarrow> io_error + string list" where
  "walk fs n cur [] = Inr cur"
| "walk fs n cur (RootDir # cs) = walk fs n [] cs"
| "walk fs n cur (CurDir # cs) = walk fs n cur cs"
| "walk fs n cur (ParentDir # cs) = walk fs n (butlast cur) cs"
| "walk fs n cur (Normal s # cs) =
     (case node_at fs (cur @ [s]) of
        None \<Rightarrow> if cs = [] then Inr (cur @ [s]) else Inl ENOENT
      | Some Dir \<Rightarrow> walk fs n (cur @ [s]) cs
      | Some (Symlink t) \<Rightarrow>
          (case n of 0 \<Rightarrow> Inl ELOOP | Suc m \<Rightarrow> walk fs m cur (components t @ cs))
      | Some _ \<Rightarrow> if cs = [] then Inr (cur @ [s]) else Inl ENOTDIR)"
  by pat_completeness auto
termination
  by (relation "measures [\<lambda>(fs, n, cur, cs). n, \<lambda>(fs, n, cur, cs). length cs]") auto

definition max_links :: nat where
  "max_links = 40"

definition canon :: "fs \<Rightarrow> path \<Rightarrow> io_error + string list" where
  "canon fs p = walk fs max_links [] p"

section \<open>Operations\<close>

definition fs_read :: "fs \<Rightarrow> path \<Rightarrow> io_error + bytes" where
  "fs_read fs p = rtry (canon fs p) (\<lambda>k.
     case node_at fs k of
       Some (File b) \<Rightarrow> Inr b
     | Some Dir \<Rightarrow> Inl EISDIR
     | Some _ \<Rightarrow> Inl ENXIO
     | None \<Rightarrow> Inl ENOENT)"

definition fs_write :: "fs \<Rightarrow> path \<Rightarrow> bytes \<Rightarrow> io_error + fs" where
  "fs_write fs p b = rtry (canon fs p) (\<lambda>k.
     case node_at fs k of
       Some Dir \<Rightarrow> Inl EISDIR
     | Some Other \<Rightarrow> Inl ENXIO
     | _ \<Rightarrow> Inr (AList.update k (File b) fs))"

definition fs_is_dir :: "fs \<Rightarrow> path \<Rightarrow> bool" where
  "fs_is_dir fs p \<longleftrightarrow> (case canon fs p of Inr k \<Rightarrow> node_at fs k = Some Dir | Inl _ \<Rightarrow> False)"

definition fs_exists :: "fs \<Rightarrow> path \<Rightarrow> bool" where
  "fs_exists fs p \<longleftrightarrow> (case canon fs p of Inr k \<Rightarrow> node_at fs k \<noteq> None | Inl _ \<Rightarrow> False)"

text \<open>
  The position of a path whose last component is not followed when it is a link: where
  \<open>mkdir\<close>, \<open>unlink\<close> and \<open>rmdir\<close> act.
\<close>

definition entry_pos :: "fs \<Rightarrow> path \<Rightarrow> io_error + string list" where
  "entry_pos fs p =
     (case path_parent p of
        None \<Rightarrow> canon fs p
      | Some par \<Rightarrow>
          (case last p of
             Normal s \<Rightarrow> rtry (canon fs par) (\<lambda>k.
               case node_at fs k of
                 Some Dir \<Rightarrow> Inr (k @ [s])
               | None \<Rightarrow> Inl ENOENT
               | _ \<Rightarrow> Inl ENOTDIR)
           | _ \<Rightarrow> canon fs p))"

definition fs_mkdir :: "fs \<Rightarrow> path \<Rightarrow> io_error + fs" where
  "fs_mkdir fs p = rtry (entry_pos fs p) (\<lambda>k.
     if node_at fs k \<noteq> None then Inl EEXIST else Inr (AList.update k Dir fs))"

text \<open>
  \<open>std::fs::create_dir_all\<close>: try the directory itself, create the parents when one is
  missing, try again. The table is returned with the error, since some parents may have
  been created before it.
\<close>

function create_dir_all :: "fs \<Rightarrow> path \<Rightarrow> (io_error + unit) \<times> fs" where
  "create_dir_all fs p =
     (if p = [] then (Inr (), fs)
      else case fs_mkdir fs p of
        Inr fs' \<Rightarrow> (Inr (), fs')
      | Inl e \<Rightarrow>
          if e = ENOENT then
            (if last p = RootDir then (Inl ENOENT, fs)
             else case create_dir_all fs (butlast p) of
               (Inl e', fs') \<Rightarrow> (Inl e', fs')
             | (Inr _, fs') \<Rightarrow>
                 (case fs_mkdir fs' p of
                    Inr fs'' \<Rightarrow> (Inr (), fs'')
                  | Inl e' \<Rightarrow> if fs_is_dir fs' p then (Inr (), fs') else (Inl e', fs')))
          else if fs_is_dir fs p then (Inr (), fs) else (Inl e, fs))"
  by pat_completeness auto
termination
  by (relation "measure (\<lambda>(fs, p). length p)") auto

declare create_dir_all.simps [simp del]

definition fs_remove_dir_all :: "fs \<Rightarrow> path \<Rightarrow> io_error + fs" where
  "fs_remove_dir_all fs p = rtry (entry_pos fs p) (\<lambda>k.
     case node_at fs k of
       None \<Rightarrow> Inl ENOENT
     | Some Dir \<Rightarrow> Inr (filter (\<lambda>(k', _). \<not> prefix k k') fs)
     | Some (Symlink _) \<Rightarrow> Inr (AList.delete k fs)
     | Some _ \<Rightarrow> Inl ENOTDIR)"

definition fs_remove_file :: "fs \<Rightarrow> path \<Rightarrow> io_error + fs" where
  "fs_remove_file fs p = rtry (entry_pos fs p) (\<lambda>k.
     case node_at fs k of
       None \<Rightarrow> Inl ENOENT
     | Some Dir \<Rightarrow> Inl EISDIR
     | Some _ \<Rightarrow> Inr (AList.delete k fs))"

definition fs_read_dir :: "fs \<Rightarrow> path \<Rightarrow> io_error + (string \<times> node) list" where
  "fs_read_dir fs p = rtry (canon fs p) (\<lambda>k.
     case node_at fs k of
       Some Dir \<Rightarrow> Inr (List.map_filter
         (\<lambda>(k', nd). if k' \<noteq> [] \<and> butlast k' = k then Some (last k', nd) else None) fs)
     | None \<Rightarrow> Inl ENOENT
     | _ \<Rightarrow> Inl ENOTDIR)"

section \<open>The walk after a write\<close>

lemma node_at_update [simp]:
  "k \<noteq> [] \<Longrightarrow> node_at (AList.update k nd fs) k' = (if k' = k then Some nd else node_at fs k')"
  by (auto simp: node_at_def table_simps)

text \<open>
  Putting a file or a directory where there was nothing or a file does not change where
  paths lead.
\<close>

lemma walk_update:
  assumes "k \<noteq> []" "node_at fs k = None \<or> (\<exists>b0. node_at fs k = Some (File b0))"
    and "nd = Dir \<or> (\<exists>b. nd = File b)" "walk fs n cur cs = Inr q"
  shows "walk (AList.update k nd fs) n cur cs = Inr q"
  using assms
proof (induction fs n cur cs rule: walk.induct)
  case (5 fs n cur s cs)
  show ?case
  proof (cases "cur @ [s] = k")
    case True
    then have "node_at fs (cur @ [s]) = None \<or> (\<exists>b0. node_at fs (cur @ [s]) = Some (File b0))"
      using "5.prems"(2) True by simp
    with "5.prems"(4) have cs: "cs = []" "q = cur @ [s]"
      by (auto split: if_split_asm)
    from True cs "5.prems"(1,3) show ?thesis by auto
  next
    case False
    then have same: "node_at (AList.update k nd fs) (cur @ [s]) = node_at fs (cur @ [s])"
      using "5.prems"(1) by simp
    show ?thesis
    proof (cases "node_at fs (cur @ [s])")
      case (Some n1)
      then show ?thesis using 5 same by (cases n1) (auto split: nat.splits if_splits)
    qed (use 5 same in auto)
  qed
qed auto

lemma canon_not_root_file: "node_at fs k \<noteq> Some Dir \<Longrightarrow> k \<noteq> []"
  by (auto simp: node_at_def)

text \<open>With no link below a real directory, the walk from it is the path itself.\<close>

definition no_links_below :: "fs \<Rightarrow> string list \<Rightarrow> bool" where
  "no_links_below fs k \<longleftrightarrow> (\<forall>k' t. prefix k k' \<longrightarrow> node_at fs k' \<noteq> Some (Symlink t))"

lemma no_links_update:
  "no_links_below fs k \<Longrightarrow> k' \<noteq> [] \<Longrightarrow> (\<And>t. nd \<noteq> Symlink t) \<Longrightarrow>
     no_links_below (AList.update k' nd fs) k"
  by (auto simp: no_links_below_def)

lemma walk_no_links:
  assumes "no_links_below fs k"
  shows "prefix k cur \<Longrightarrow> walk fs n cur (map Normal ns) = Inr q \<Longrightarrow> q = cur @ ns"
proof (induction ns arbitrary: cur)
  case (Cons s ns)
  have "prefix k (cur @ [s])" using Cons.prems(1) by (metis prefix_append prefix_def)
  then have "node_at fs (cur @ [s]) \<noteq> Some (Symlink t)" for t
    using assms by (auto simp: no_links_below_def)
  then show ?case
    using Cons.prems Cons.IH [of "cur @ [s]"] \<open>prefix k (cur @ [s])\<close>
    by (auto split: option.splits node.splits if_splits)
qed simp

lemma walk_append_Dir:
  "walk fs n cur (cs @ ds) = Inr q \<Longrightarrow> ds \<noteq> [] \<Longrightarrow>
     \<exists>k m. walk fs n cur cs = Inr k \<and> m \<le> n \<and> walk fs m k ds = Inr q"
proof (induction fs n cur cs rule: walk.induct)
  case (5 fs n cur s cs)
  show ?case
  proof (cases "node_at fs (cur @ [s])")
    case None
    with 5 show ?thesis by (auto split: if_splits)
  next
    case (Some nd)
    show ?thesis
    proof (cases nd)
      case (Symlink t)
      with Some 5 obtain m where n: "n = Suc m" by (auto split: nat.splits)
      with Some Symlink "5.prems" "5.IH"(2) [OF Some Symlink n]
      show ?thesis by (auto simp: le_Suc_eq)
    qed (use Some 5 in \<open>auto split: if_splits\<close>)
  qed
qed auto

section \<open>The interface of a file store\<close>

text \<open>
  What the file tools rely on: reading a path after a successful write of it gives the
  written bytes, files elsewhere keep their content, and the nodes elsewhere do not change.
\<close>

locale file_store =
  fixes rd :: "'s \<Rightarrow> path \<Rightarrow> 'e + bytes"
    and wr :: "'s \<Rightarrow> path \<Rightarrow> bytes \<Rightarrow> 'e + 's"
    and loc :: "'s \<Rightarrow> path \<Rightarrow> 'e + 'k"
  assumes read_written: "wr s p b = Inr s' \<Longrightarrow> rd s' p = Inr b"
    and write_locate: "wr s p b = Inr s' \<Longrightarrow> loc s q = Inr k \<Longrightarrow> loc s' q = Inr k"
    and read_other: "wr s p b = Inr s' \<Longrightarrow> loc s p = Inr k \<Longrightarrow> loc s q = Inr k' \<Longrightarrow> k' \<noteq> k \<Longrightarrow>
      rd s' q = rd s q"
    and write_located: "wr s p b = Inr s' \<Longrightarrow> \<exists>k. loc s p = Inr k"
begin

text \<open>Writes to two different files commute as far as a reader can see.\<close>

lemma two_writes:
  assumes "wr s p b = Inr s1" "wr s1 q c = Inr s2"
    and "loc s p = Inr k" "loc s q = Inr k'" "k \<noteq> k'"
  shows "rd s2 p = Inr b \<and> rd s2 q = Inr c"
proof -
  have "loc s1 p = Inr k" "loc s1 q = Inr k'"
    using write_locate [OF assms(1)] assms(3,4) by auto
  then have "rd s2 p = rd s1 p"
    using read_other [OF assms(2)] assms(5) by blast
  then show ?thesis using read_written [OF assms(1)] read_written [OF assms(2)] by simp
qed

lemma last_write_wins:
  assumes "wr s p b = Inr s1" "wr s1 q c = Inr s2" "loc s p = Inr k" "loc s q = Inr k"
  shows "rd s2 q = Inr c"
  using read_written [OF assms(2)] .

end

text \<open>The walk never ends on a link.\<close>

lemma walk_not_link:
  "walk fs n cur cs = Inr k \<Longrightarrow> (\<And>t. node_at fs cur \<noteq> Some (Symlink t)) \<Longrightarrow>
   (\<And>i t. node_at fs (take i cur) \<noteq> Some (Symlink t)) \<Longrightarrow> node_at fs k \<noteq> Some (Symlink t)"
proof (induction fs n cur cs rule: walk.induct)
  case (2 fs n cur cs)
  then show ?case by (simp add: node_at_def)
next
  case (4 fs n cur cs)
  then show ?case by (simp add: butlast_conv_take)
next
  case (5 fs n cur s cs)
  show ?case
  proof (cases "node_at fs (cur @ [s])")
    case None
    with 5 show ?thesis by (auto split: if_splits)
  next
    case (Some nd)
    have pre: "node_at fs (take i (cur @ [s])) \<noteq> Some (Symlink t)" if "\<And>t. nd \<noteq> Symlink t" for i t
      using 5(5) [of i t] Some that by (cases "i \<le> length cur") auto
    show ?thesis
    proof (cases nd)
      case Dir
      with Some 5 pre show ?thesis by auto
    next
      case (Symlink t)
      with Some 5 show ?thesis by (auto split: nat.splits)
    qed (use Some 5 in \<open>auto split: if_splits\<close>)
  qed
qed auto

lemma canon_not_link: "canon fs p = Inr k \<Longrightarrow> node_at fs k \<noteq> Some (Symlink t)"
  unfolding canon_def by (rule walk_not_link) (auto simp: node_at_def)

lemma fs_write_canon:
  assumes "fs_write fs p b = Inr fs'"
  obtains k where "canon fs p = Inr k" "k \<noteq> []" "fs' = AList.update k (File b) fs"
    "node_at fs k = None \<or> (\<exists>b0. node_at fs k = Some (File b0))"
proof -
  from assms obtain k where k: "canon fs p = Inr k"
    and fs': "(case node_at fs k of Some Dir \<Rightarrow> Inl EISDIR | Some Other \<Rightarrow> Inl ENXIO
              | _ \<Rightarrow> Inr (AList.update k (File b) fs)) = Inr fs'"
    by (auto simp: fs_write_def rtry_Inr_iff)
  have "node_at fs k \<noteq> Some Dir" using fs' by auto
  then have "k \<noteq> []" by (rule canon_not_root_file)
  moreover have "fs' = AList.update k (File b) fs"
    "node_at fs k = None \<or> (\<exists>b0. node_at fs k = Some (File b0))"
    using fs' canon_not_link [OF k] by (auto split: option.splits node.splits)
  ultimately show thesis using k that by blast
qed

lemma canon_after_write:
  assumes "fs_write fs p b = Inr fs'" "canon fs q = Inr k"
  shows "canon fs' q = Inr k"
  using assms(1)
proof (rule fs_write_canon)
  fix k0
  assume "k0 \<noteq> []" "fs' = AList.update k0 (File b) fs"
    "node_at fs k0 = None \<or> (\<exists>b0. node_at fs k0 = Some (File b0))"
  then show ?thesis using walk_update assms(2) by (auto simp: canon_def)
qed

interpretation host_fs: file_store fs_read fs_write canon
proof
  fix s p b s'
  assume w: "fs_write s p b = Inr s'"
  then obtain k where k: "canon s p = Inr k" "k \<noteq> []" "s' = AList.update k (File b) s"
    by (rule fs_write_canon)
  show "fs_read s' p = Inr b"
    using canon_after_write [OF w k(1)] k(2,3) by (simp add: fs_read_def)
  show "\<exists>k. canon s p = Inr k" using k by blast
  fix q k1 k2
  assume "canon s p = Inr k1" "canon s q = Inr k2" "k2 \<noteq> k1"
  then show "fs_read s' q = fs_read s q"
    using canon_after_write [OF w] k by (simp add: fs_read_def)
qed (rule canon_after_write)

section \<open>Creating directories below a directory without links\<close>

lemma entry_pos_below:
  assumes "no_links_below fs k" "canon fs cwd = Inr k" "cwd \<noteq> []"
    and "entry_pos fs (cwd @ map Normal ns) = Inr q" "ns \<noteq> []"
  shows "q = k @ ns"
proof -
  obtain ms s where ns: "ns = ms @ [s]" using assms(5) by (cases ns rule: rev_cases) auto
  then have par: "path_parent (cwd @ map Normal ns) = Some (cwd @ map Normal ms)"
    by (simp add: path_parent_def butlast_append)
  have "rtry (canon fs (cwd @ map Normal ms)) (\<lambda>k'. case node_at fs k' of
      Some Dir \<Rightarrow> Inr (k' @ [s]) | None \<Rightarrow> Inl ENOENT | _ \<Rightarrow> Inl ENOTDIR) = Inr q"
    using assms(4) par ns by (simp add: entry_pos_def)
  then obtain k' where "canon fs (cwd @ map Normal ms) = Inr k'"
    and "(case node_at fs k' of Some Dir \<Rightarrow> Inr (k' @ [s]) | None \<Rightarrow> Inl ENOENT | _ \<Rightarrow> Inl ENOTDIR) = Inr q"
    unfolding rtry_Inr_iff by blast
  then have k': "canon fs (cwd @ map Normal ms) = Inr k'" "q = k' @ [s]"
    by (simp_all split: option.split_asm node.split_asm)
  have "k' = k @ ms"
  proof (cases "ms = []")
    case False
    then obtain k0 m where "walk fs max_links [] cwd = Inr k0" "walk fs m k0 (map Normal ms) = Inr k'"
      using walk_append_Dir [of fs max_links "[]" cwd "map Normal ms" k'] k'(1)
      by (auto simp: canon_def)
    with assms(2) walk_no_links [OF assms(1)] show ?thesis by (auto simp: canon_def)
  qed (use k' assms(2) in simp)
  with k' ns show ?thesis by simp
qed

lemma canon_below:
  assumes "no_links_below fs k" "canon fs cwd = Inr k"
    and "canon fs (cwd @ map Normal ns) = Inr q"
  shows "q = k @ ns"
proof (cases "ns = []")
  case False
  then obtain k0 m where "walk fs max_links [] cwd = Inr k0" "walk fs m k0 (map Normal ns) = Inr q"
    using walk_append_Dir [of fs max_links "[]" cwd "map Normal ns" q] assms(3)
    by (auto simp: canon_def)
  with assms(2) walk_no_links [OF assms(1)] show ?thesis by (auto simp: canon_def)
qed (use assms in simp)

text \<open>A walk that goes on stands on a directory, and so do all directories above it.\<close>

definition dirs_upto :: "fs \<Rightarrow> string list \<Rightarrow> bool" where
  "dirs_upto fs k \<longleftrightarrow> (\<forall>i. node_at fs (take i k) = Some Dir)"

lemma dirs_upto_Nil [simp]: "dirs_upto fs []"
  by (simp add: dirs_upto_def node_at_def)

lemma dirs_upto_snoc: "dirs_upto fs (k @ [s]) \<longleftrightarrow> dirs_upto fs k \<and> node_at fs (k @ [s]) = Some Dir"
proof
  assume d: "dirs_upto fs (k @ [s])"
  have "node_at fs (take i k) = Some Dir" for i
  proof (cases "i \<le> length k")
    case True
    then have "take i k = take i (k @ [s])" by simp
    then show ?thesis using d unfolding dirs_upto_def by metis
  next
    case False
    then have "take i k = take (length k) (k @ [s])" by simp
    then show ?thesis using d unfolding dirs_upto_def by metis
  qed
  moreover have "node_at fs (take (Suc (length k)) (k @ [s])) = Some Dir"
    using d unfolding dirs_upto_def by blast
  ultimately show "dirs_upto fs k \<and> node_at fs (k @ [s]) = Some Dir"
    by (simp add: dirs_upto_def)
next
  assume d: "dirs_upto fs k \<and> node_at fs (k @ [s]) = Some Dir"
  show "dirs_upto fs (k @ [s])"
    unfolding dirs_upto_def
  proof
    fix i
    show "node_at fs (take i (k @ [s])) = Some Dir"
      using d by (cases "i \<le> length k") (auto simp: dirs_upto_def)
  qed
qed

lemma dirs_upto_butlast: "dirs_upto fs k \<Longrightarrow> dirs_upto fs (butlast k)"
  by (cases k rule: rev_cases) (auto simp: dirs_upto_snoc)

lemma dirs_upto_node: "dirs_upto fs k \<Longrightarrow> node_at fs k = Some Dir"
  unfolding dirs_upto_def by (metis take_all order_refl)

lemma walk_split:
  "walk fs n cur (cs @ ds) = Inr q \<Longrightarrow> dirs_upto fs cur \<Longrightarrow> ds \<noteq> [] \<Longrightarrow>
     \<exists>k m. walk fs n cur cs = Inr k \<and> m \<le> n \<and> walk fs m k ds = Inr q \<and> dirs_upto fs k"
proof (induction fs n cur cs rule: walk.induct)
  case (1 fs n cur)
  then show ?case by auto
next
  case (4 fs n cur cs)
  then show ?case by (simp add: dirs_upto_butlast)
next
  case (5 fs n cur s cs)
  show ?case
  proof (cases "node_at fs (cur @ [s])")
    case None
    with 5 show ?thesis by (auto split: if_splits)
  next
    case (Some nd)
    show ?thesis
    proof (cases nd)
      case Dir
      with Some 5 show ?thesis by (simp add: dirs_upto_snoc)
    next
      case (Symlink t)
      with Some 5 obtain m where n: "n = Suc m" by (auto split: nat.splits)
      with Some Symlink "5.prems" "5.IH"(2) [OF Some Symlink n]
      show ?thesis by (auto simp: le_Suc_eq)
    qed (use Some 5 in \<open>auto split: if_splits\<close>)
  qed
qed auto

text \<open>Creating a directory that exists changes nothing, and asks for no parent.\<close>

lemma entry_pos_exists:
  assumes "canon fs (RootDir # map Normal ns) = Inr k" "node_at fs k = Some Dir"
  shows "\<exists>q. entry_pos fs (RootDir # map Normal ns) = Inr q \<and> node_at fs q \<noteq> None"
proof (cases ns rule: rev_cases)
  case Nil
  then show ?thesis by (simp add: entry_pos_def path_parent_def canon_def node_at_def)
next
  case (snoc ms s)
  have "walk fs max_links [] ((RootDir # map Normal ms) @ [Normal s]) = Inr k"
    using assms(1) snoc by (simp add: canon_def)
  from walk_split [OF this] obtain pk m where pk: "walk fs max_links [] (RootDir # map Normal ms) = Inr pk"
    and s: "walk fs m pk [Normal s] = Inr k" and d: "dirs_upto fs pk"
    by auto
  have "node_at fs (pk @ [s]) \<noteq> None"
  proof
    assume n: "node_at fs (pk @ [s]) = None"
    with s have "k = pk @ [s]" by simp
    with n assms(2) show False by simp
  qed
  moreover have "entry_pos fs (RootDir # map Normal ns) = Inr (pk @ [s])"
    using snoc pk dirs_upto_node [OF d] by (simp add: entry_pos_def path_parent_def butlast_append canon_def)
  ultimately show ?thesis by blast
qed

lemma create_dir_all_exists:
  assumes "canon fs (RootDir # map Normal ns) = Inr k" "node_at fs k = Some Dir"
  shows "create_dir_all fs (RootDir # map Normal ns) = (Inr (), fs)"
proof -
  have "fs_mkdir fs (RootDir # map Normal ns) = Inl EEXIST"
    using entry_pos_exists [OF assms] by (auto simp: fs_mkdir_def)
  then show ?thesis
    by (simp add: create_dir_all.simps [of fs "RootDir # map Normal ns"] fs_is_dir_def assms)
qed

text \<open>Changes confined to a directory.\<close>

definition only_below :: "string list \<Rightarrow> fs \<Rightarrow> fs \<Rightarrow> bool" where
  "only_below k fs fs' \<longleftrightarrow> (\<forall>q. \<not> prefix k q \<longrightarrow> node_at fs' q = node_at fs q)"

text \<open>A real directory at \<open>k\<close> reached by \<open>cwd\<close>, with no link below it.\<close>

definition real_dir :: "fs \<Rightarrow> path \<Rightarrow> string list \<Rightarrow> bool" where
  "real_dir fs cwd k \<longleftrightarrow> canon fs cwd = Inr k \<and> node_at fs k = Some Dir \<and> no_links_below fs k"

lemma real_dir_update:
  assumes "real_dir fs cwd k" "q \<noteq> []" "node_at fs q = None \<or> (\<exists>b0. node_at fs q = Some (File b0))"
    and "nd = Dir \<or> (\<exists>b. nd = File b)"
  shows "real_dir (AList.update q nd fs) cwd k"
proof -
  have "canon (AList.update q nd fs) cwd = Inr k"
    using walk_update [OF assms(2-4)] assms(1) by (simp add: real_dir_def canon_def)
  moreover have "node_at (AList.update q nd fs) k = Some Dir"
    using assms by (auto simp: real_dir_def)
  moreover have "no_links_below (AList.update q nd fs) k"
    using no_links_update [of fs k q nd] assms by (auto simp: real_dir_def)
  ultimately show ?thesis by (simp add: real_dir_def)
qed

lemma fs_mkdir_below:
  assumes "real_dir fs cwd k" "cwd \<noteq> []" "ns \<noteq> []" "fs_mkdir fs (cwd @ map Normal ns) = Inr fs'"
  shows "only_below k fs fs' \<and> real_dir fs' cwd k"
proof -
  from assms(4) obtain q where q: "entry_pos fs (cwd @ map Normal ns) = Inr q" "node_at fs q = None"
    and fs': "fs' = AList.update q Dir fs"
    by (auto simp: fs_mkdir_def rtry_Inr_iff split: if_splits)
  have "q = k @ ns" using entry_pos_below [of fs k cwd ns q] assms q(1) by (simp add: real_dir_def)
  moreover have "q \<noteq> []" using q(2) by (auto simp: node_at_def)
  ultimately show ?thesis
    using real_dir_update [OF assms(1), of q Dir] q(2) fs' by (auto simp: only_below_def)
qed

lemma create_dir_all_snoc:
  obtains (same) "snd (create_dir_all fs (q @ [Normal s])) = fs"
  | (parents) "snd (create_dir_all fs (q @ [Normal s])) = snd (create_dir_all fs q)"
  | (made) g g' where "g = fs \<or> g = snd (create_dir_all fs q)" "fs_mkdir g (q @ [Normal s]) = Inr g'" "snd (create_dir_all fs (q @ [Normal s])) = g'"
proof (cases "fs_mkdir fs (q @ [Normal s])")
  case (Inr g)
  then show thesis using made [of fs g] by (simp add: create_dir_all.simps [of fs "q @ [Normal s]"])
next
  case (Inl e)
  obtain r g0 where r: "create_dir_all fs q = (r, g0)" by fastforce
  consider "e \<noteq> ENOENT" | e' where "e = ENOENT" "r = Inl e'" | u where "e = ENOENT" "r = Inr u" by (cases r) auto
  then show thesis
  proof cases
    case 1
    then show thesis using Inl same by (simp add: create_dir_all.simps [of fs "q @ [Normal s]"])
  next
    case 2
    then show thesis using Inl r parents by (simp add: create_dir_all.simps [of fs "q @ [Normal s]"])
  next
    case 3
    then have "snd (create_dir_all fs (q @ [Normal s])) = (case fs_mkdir g0 (q @ [Normal s]) of Inr g \<Rightarrow> g | Inl _ \<Rightarrow> g0)"
      using Inl r by (simp add: create_dir_all.simps [of fs "q @ [Normal s]"] split: sum.split)
    then show thesis using r parents made [of g0] by (cases "fs_mkdir g0 (q @ [Normal s])") auto
  qed
qed

lemma create_dir_all_below:
  assumes "real_dir fs cwd k" "clean_abs cwd"
  shows "only_below k fs (snd (create_dir_all fs (cwd @ map Normal ns)))
    \<and> real_dir (snd (create_dir_all fs (cwd @ map Normal ns))) cwd k"
proof (induction ns rule: rev_induct)
  case Nil
  from assms(2) obtain ms where "cwd = RootDir # map Normal ms" by (auto simp: clean_abs_def)
  then have "create_dir_all fs cwd = (Inr (), fs)"
    using create_dir_all_exists [of fs ms k] assms(1) by (simp add: real_dir_def)
  then show ?case using assms(1) by (simp add: only_below_def)
next
  case (snoc s ns)
  have ne: "cwd \<noteq> []" using assms(2) by (auto simp: clean_abs_def)
  have split: "cwd @ map Normal (ns @ [s]) = (cwd @ map Normal ns) @ [Normal s]" by simp
  have refl: "only_below k fs fs" by (simp add: only_below_def)
  have "only_below k fs (snd (create_dir_all fs ((cwd @ map Normal ns) @ [Normal s])))
    \<and> real_dir (snd (create_dir_all fs ((cwd @ map Normal ns) @ [Normal s]))) cwd k"
  proof (cases rule: create_dir_all_snoc [where fs = fs and q = "cwd @ map Normal ns" and s = s])
    case same
    then show ?thesis
      using refl assms(1) by simp
  next
    case parents
    then show ?thesis
      using snoc by simp
  next
    case (made g g')
    have g: "only_below k fs g" "real_dir g cwd k" using made(1) refl assms(1) snoc by auto
    have "fs_mkdir g (cwd @ map Normal (ns @ [s])) = Inr g'" using made(2) by simp
    from fs_mkdir_below [OF g(2) ne _ this] have "only_below k g g' \<and> real_dir g' cwd k" by simp
    then show ?thesis
      using g(1) made(3) by (auto simp: only_below_def)
  qed
  then show ?case by (simp only: split)
qed

lemma fs_write_below:
  assumes "real_dir fs cwd k" "fs_write fs (cwd @ map Normal ns) b = Inr fs'"
  shows "only_below k fs fs' \<and> real_dir fs' cwd k"
  using assms(2)
proof (rule fs_write_canon)
  fix q
  assume q: "canon fs (cwd @ map Normal ns) = Inr q" "q \<noteq> []" "fs' = AList.update q (File b) fs"
    "node_at fs q = None \<or> (\<exists>b0. node_at fs q = Some (File b0))"
  have "q = k @ ns" using canon_below [OF _ _ q(1)] assms(1) by (simp add: real_dir_def)
  then show ?thesis
    using real_dir_update [OF assms(1) q(2,4)] q(2,3) by (auto simp: only_below_def)
qed

end
