(* ===== verification/Tools_State.thy ===== *)
theory Tools_State
  imports Complex_Main Stream_Buffer Tools_Paths Fs_Model
begin

text \<open>
  The state of the tools daemon: configuration read from the environment (\<open>ProcessCfg\<close>,
  \<open>IsolationCfg\<close>), the wire types of the \<open>process\<close> tool, \<open>ProcessHandle\<close>, \<open>SessionState\<close>
  and \<open>AppState\<close> (\<open>tools-rust/src/process.rs\<close> and \<open>main.rs\<close>), and the world around them.

  Sessions and handles are shared through \<open>Arc\<close>: a handler keeps using a session that has
  been removed from the table meanwhile. So both live in a store indexed by addresses and
  the tables hold addresses. The background tasks a started process owns (the wait task and
  the two drain tasks) are steps of the relation \<open>bg_step\<close>; a handler that awaits lets an
  arbitrary number of such steps happen (the parameter \<open>il\<close>, an interlude per await).
  Durations are exact rationals (\<open>f64\<close> rounding is not modelled), instants nanoseconds.
\<close>

section \<open>Configuration\<close>

definition env_flag :: "env \<Rightarrow> string \<Rightarrow> bool \<Rightarrow> bool" where
  "env_flag env name def =
     (case env name of
        None \<Rightarrow> def
      | Some v \<Rightarrow>
          if v = ''1'' \<or> v = ''true'' \<or> v = ''yes'' then True
          else if v = ''0'' \<or> v = ''false'' \<or> v = ''no'' \<or> v = '''' then False
          else def)"

definition env_num :: "env \<Rightarrow> string \<Rightarrow> nat \<Rightarrow> nat" where
  "env_num env name def =
     (case Option.bind (env name) parse_usize of Some n \<Rightarrow> n | None \<Rightarrow> def)"

record process_cfg =
  enabled :: bool
  max_per_session :: nat
  buffer_bytes :: nat
  idle_reap_sec :: nat
  kill_group :: bool
  force_unsupported :: bool

definition process_cfg_from_env :: "env \<Rightarrow> process_cfg" where
  "process_cfg_from_env env =
     \<lparr>enabled = env_flag env ''TOOLS_PROCESS_ENABLED'' False,
      max_per_session = env_num env ''TOOLS_MAX_PROCESSES_PER_SESSION'' 32,
      buffer_bytes = env_num env ''TOOLS_PROCESS_BUFFER_BYTES'' 262144,
      idle_reap_sec = env_num env ''TOOLS_SESSION_IDLE_REAP_SEC'' 3600,
      kill_group = env_flag env ''TOOLS_PROCESS_KILL_GROUP'' True,
      force_unsupported = env_flag env ''TOOLS_PROCESS_FORCE_UNSUPPORTED'' False\<rparr>"

record isolation_cfg =
  iso_chroot :: bool
  iso_seccomp :: bool
  iso_cgroup :: bool
  cgroup_root :: "path option"

definition cgroup_v2_root :: path where
  "cgroup_v2_root = components ''/sys/fs/cgroup''"

text \<open>
  Cgroup v2 counts as available when its controllers file exists and a probe directory can
  be made; the probe is removed again.
\<close>

definition detect_cgroup_v2 :: "fs \<Rightarrow> nat \<Rightarrow> path option" where
  "detect_cgroup_v2 fs own_pid =
     (let root = cgroup_v2_root in
      if \<not> fs_exists fs (path_join root ''cgroup.controllers'') then None
      else (case fs_mkdir fs (path_join root (''.mindbox-probe-'' @ show_nat own_pid)) of
              Inr _ \<Rightarrow> Some root
            | Inl _ \<Rightarrow> None))"

definition isolation_from_env :: "env \<Rightarrow> fs \<Rightarrow> nat \<Rightarrow> isolation_cfg" where
  "isolation_from_env env fs own_pid =
     (let raw = (case env ''TOOLS_ISOLATION'' of Some s \<Rightarrow> s | None \<Rightarrow> '''');
          ls = filter (\<lambda>s. s \<noteq> []) (map trim (split_str '','' raw));
          cg = ''cgroup'' \<in> set ls
      in \<lparr>iso_chroot = (''chroot'' \<in> set ls), iso_seccomp = (''seccomp'' \<in> set ls),
          iso_cgroup = cg,
          cgroup_root = (if cg then detect_cgroup_v2 fs own_pid else None)\<rparr>)"

definition any_active :: "isolation_cfg \<Rightarrow> bool" where
  "any_active c \<longleftrightarrow> iso_chroot c \<or> iso_seccomp c \<or> cgroup_root c \<noteq> None"

section \<open>Wire types of the process tool\<close>

datatype process_action = Start | Write | Read | Signal | Wait | Stop | List

datatype process_encoding = Utf8 | Base64

record process_req =
  rq_action :: process_action
  rq_process_id :: "string option"
  rq_command :: "string option"
  rq_args :: "string list option"
  rq_cwd :: "string option"
  rq_env :: "(string \<times> string) list option"
  rq_input :: "string option"
  rq_encoding :: process_encoding
  rq_eof :: bool
  rq_signal :: "string option"
  rq_timeout_sec :: "rat option"
  rq_max_bytes :: "nat option"

record process_summary =
  ps_process_id :: string
  ps_command :: string
  ps_running :: bool
  ps_exit_code :: "int option"
  ps_started_at_secs_ago :: nat

record process_result =
  rs_process_id :: "string option"
  rs_running :: "bool option"
  rs_exit_code :: "int option"
  rs_signal :: "int option"
  rs_stdout :: "string option"
  rs_stderr :: "string option"
  rs_encoding :: "process_encoding option"
  rs_eof_stdout :: "bool option"
  rs_eof_stderr :: "bool option"
  rs_truncated :: "bool option"
  rs_processes :: "process_summary list option"

definition process_result_default :: process_result where
  "process_result_default =
     \<lparr>rs_process_id = None, rs_running = None, rs_exit_code = None, rs_signal = None,
      rs_stdout = None, rs_stderr = None, rs_encoding = None, rs_eof_stdout = None,
      rs_eof_stderr = None, rs_truncated = None, rs_processes = None\<rparr>"

section \<open>Processes\<close>

datatype process_state = Running | Exited int | Terminated int

fun is_running :: "process_state \<Rightarrow> bool" where
  "is_running Running = True"
| "is_running _ = False"

lemma is_running_iff [simp]: "is_running st \<longleftrightarrow> st = Running"
  by (cases st) auto

text \<open>
  The wait task of a process, by the program point it has reached: waiting for the child,
  about to store the terminal state, about to close the two buffers, about to notify.
\<close>

datatype wait_pc = WaitChild | StoreState process_state | CloseStdout | CloseStderr | NotifyAll | TaskDone

text \<open>
  \<open>h_locked\<close>: some other task holds the state mutex at this moment (\<open>try_lock\<close> fails).
  \<open>h_stdout_open\<close>, \<open>h_stderr_open\<close>: the drain task of the stream is still reading.
  \<open>h_input\<close>: what was written to the child's stdin so far.
\<close>

record handle =
  process_id :: string
  pid :: u32
  command_line :: string
  started_at :: nat
  h_stdout :: stream_buffer
  h_stderr :: stream_buffer
  h_stdin :: bool
  h_state :: process_state
  h_locked :: bool
  h_wait :: wait_pc
  h_stdout_open :: bool
  h_stderr_open :: bool
  h_input :: bytes

definition snapshot_running :: "handle \<Rightarrow> bool" where
  "snapshot_running h = (if h_locked h then True else is_running (h_state h))"

text \<open>What \<open>child.wait()\<close> yields: an exit status with code or signal, or an I/O error.\<close>

datatype wait_result = WaitStatus "int option" "int option" | WaitFailed

fun state_of_result :: "wait_result \<Rightarrow> process_state" where
  "state_of_result (WaitStatus (Some code) _) = Exited code"
| "state_of_result (WaitStatus None (Some sig)) = Terminated sig"
| "state_of_result (WaitStatus None None) = Exited (- 1)"
| "state_of_result WaitFailed = Exited (- 1)"

section \<open>Sessions, the daemon, the world\<close>

record session =
  s_cwd :: path
  last_touched :: nat
  processes :: "(string, nat) table"

text \<open>
  A seccomp program is represented by what it was compiled from: the default action allows,
  each listed call is refused with \<open>EPERM\<close>.
\<close>

datatype syscall_name =
    SYS_mount | SYS_umount2 | SYS_pivot_root | SYS_setuid | SYS_setgid | SYS_setresuid
  | SYS_setresgid | SYS_setreuid | SYS_setregid | SYS_capset | SYS_ptrace | SYS_personality
  | SYS_keyctl | SYS_add_key | SYS_request_key | SYS_reboot | SYS_init_module
  | SYS_finit_module | SYS_delete_module | SYS_kexec_load | SYS_chroot | SYS_bpf
  | SYS_perf_event_open | SYS_userfaultfd | SYS_unshare | SYS_setns | SYS_clone | SYS_open

datatype seccomp_action = Allow | Errno int

record bpf_program =
  bpf_rules :: "syscall_name list"
  bpf_default :: seccomp_action
  bpf_match :: seccomp_action

record app_state =
  sandbox_root :: path
  session_root :: path
  chroot_root :: "path option"
  sessions :: "(string, nat) table"
  isolation :: isolation_cfg
  seccomp_filter :: "bpf_program option"
  process_cfg :: process_cfg

text \<open>What runs in the child between fork and exec, in order.\<close>

datatype pre_exec_op = Setsid | Chroot string | Chdir string | NoNewPrivs | ApplyFilter bpf_program

datatype stdio = Inherit | Piped | Null

record command =
  c_program :: string
  c_args :: "string list"
  c_kill_on_drop :: bool
  c_current_dir :: "path option"
  c_pre_exec :: "pre_exec_op list"
  c_stdin :: stdio
  c_stdout :: stdio
  c_stderr :: stdio
  c_env :: "(string \<times> string) list"

text \<open>What the daemon asks of the kernel, in order.\<close>

datatype sys_op =
    Kill int int
  | Spawn command
  | CgMkdir path
  | CgWrite path string
  | CgRmdir path

record world =
  app :: app_state
  sess_heap :: "nat \<Rightarrow> session"
  sess_next :: nat
  proc_heap :: "nat \<Rightarrow> handle"
  proc_next :: nat
  now :: nat
  files :: fs
  trace :: "sys_op list"
  waits :: "nat list"
  awaits :: nat

definition upd_handle :: "nat \<Rightarrow> (handle \<Rightarrow> handle) \<Rightarrow> world \<Rightarrow> world" where
  "upd_handle a f w = w\<lparr>proc_heap := (proc_heap w)(a := f (proc_heap w a))\<rparr>"

definition upd_session :: "nat \<Rightarrow> (session \<Rightarrow> session) \<Rightarrow> world \<Rightarrow> world" where
  "upd_session a f w = w\<lparr>sess_heap := (sess_heap w)(a := f (sess_heap w a))\<rparr>"

definition sys :: "sys_op \<Rightarrow> world \<Rightarrow> world" where
  "sys s w = w\<lparr>trace := trace w @ [s]\<rparr>"

section \<open>Awaiting\<close>

text \<open>
  \<open>il n\<close> is what happens in the background during the \<open>n\<close>-th await. A timed await also
  records its timeout in milliseconds.
\<close>

type_synonym interlude = "nat \<Rightarrow> world \<Rightarrow> world"

definition await :: "interlude \<Rightarrow> world \<Rightarrow> world" where
  "await il w = il (awaits w) (w\<lparr>awaits := Suc (awaits w)\<rparr>)"

definition timed_await :: "interlude \<Rightarrow> nat \<Rightarrow> world \<Rightarrow> world" where
  "timed_await il ms w = await il (w\<lparr>waits := waits w @ [ms]\<rparr>)"

text \<open>\<open>f64::clamp\<close> and \<open>(t * 1000.0) as u64\<close>.\<close>

definition clamp_rat :: "rat \<Rightarrow> rat \<Rightarrow> rat \<Rightarrow> rat" where
  "clamp_rat lo hi t = (if t < lo then lo else if hi < t then hi else t)"

definition millis :: "rat \<Rightarrow> nat" where
  "millis t = min (nat \<lfloor>t * 1000\<rfloor>) u64_max"

lemma clamp_rat_bounds: "lo \<le> hi \<Longrightarrow> lo \<le> clamp_rat lo hi t \<and> clamp_rat lo hi t \<le> hi"
  by (auto simp: clamp_rat_def)

lemma millis_le:
  assumes "t \<le> of_nat n"
  shows "millis t \<le> n * 1000"
proof -
  have "t * 1000 \<le> of_int (int (n * 1000))" using assms by simp
  then have "\<lfloor>t * 1000\<rfloor> \<le> int (n * 1000)" by (simp add: floor_le_iff)
  then show ?thesis by (simp add: millis_def)
qed

section \<open>Background tasks\<close>

inductive task_step :: "handle \<Rightarrow> handle \<Rightarrow> bool" where
  child_ends: "h_wait h = WaitChild \<Longrightarrow> task_step h (h\<lparr>h_wait := StoreState (state_of_result r)\<rparr>)"
| store: "h_wait h = StoreState s \<Longrightarrow> \<not> h_locked h \<Longrightarrow>
    task_step h (h\<lparr>h_state := s, h_wait := CloseStdout\<rparr>)"
| close_out: "h_wait h = CloseStdout \<Longrightarrow>
    task_step h (h\<lparr>h_stdout := sb_close (h_stdout h), h_wait := CloseStderr\<rparr>)"
| close_err: "h_wait h = CloseStderr \<Longrightarrow>
    task_step h (h\<lparr>h_stderr := sb_close (h_stderr h), h_wait := NotifyAll\<rparr>)"
| notify: "h_wait h = NotifyAll \<Longrightarrow> task_step h (h\<lparr>h_wait := TaskDone\<rparr>)"
| drain_out: "h_stdout_open h \<Longrightarrow> bs \<noteq> [] \<Longrightarrow> length bs \<le> 4096 \<Longrightarrow>
    task_step h (h\<lparr>h_stdout := sb_push bs (h_stdout h)\<rparr>)"
| drain_out_end: "h_stdout_open h \<Longrightarrow> task_step h (h\<lparr>h_stdout_open := False\<rparr>)"
| drain_err: "h_stderr_open h \<Longrightarrow> bs \<noteq> [] \<Longrightarrow> length bs \<le> 4096 \<Longrightarrow>
    task_step h (h\<lparr>h_stderr := sb_push bs (h_stderr h)\<rparr>)"
| drain_err_end: "h_stderr_open h \<Longrightarrow> task_step h (h\<lparr>h_stderr_open := False\<rparr>)"
| lock_state: "task_step h (h\<lparr>h_locked := \<not> h_locked h\<rparr>)"

inductive_cases task_stepE: "task_step h h'"

inductive bg_step :: "world \<Rightarrow> world \<Rightarrow> bool" where
  task: "a < proc_next w \<Longrightarrow> task_step (proc_heap w a) h' \<Longrightarrow> bg_step w (upd_handle a (\<lambda>_. h') w)"
| tick: "n \<le> t \<Longrightarrow> n = now w \<Longrightarrow> bg_step w (w\<lparr>now := t\<rparr>)"

inductive_cases bg_stepE: "bg_step w w'"

text \<open>A legal interlude consists of background steps.\<close>

definition legal :: "interlude \<Rightarrow> bool" where
  "legal il \<longleftrightarrow> (\<forall>n w. bg_step\<^sup>*\<^sup>* w (il n w))"

lemma legal_idle: "legal (\<lambda>n w. w)"
  by (simp add: legal_def)

end
