(* ===== verification/Tools_Process.thy ===== *)
theory Tools_Process
  imports Tools_State
begin

text \<open>
  The \<open>process\<close> tool of the tools daemon (\<open>tools-rust/src/process.rs\<close>): the sandboxed
  command, one definition per action, termination, reaping and the dispatcher.

  What the code calls outside the repository is the record \<open>os\<close>: \<open>kill(2)\<close> (the error
  number, if any), spawning, writing to the child's stdin, the \<open>base64\<close> crate,
  \<open>str::to_uppercase\<close> on non-ASCII text, whether a cgroup directory can be made, and what
  a one-shot child does (its output, or nothing within the timeout, and the files it leaves).
\<close>

record os =
  os_kill :: "world \<Rightarrow> int \<Rightarrow> int \<Rightarrow> nat option"
  os_strerror :: "nat \<Rightarrow> string"
  os_spawn :: "world \<Rightarrow> command \<Rightarrow> string + u32 option"
  os_stdin_write :: "handle \<Rightarrow> bytes \<Rightarrow> string option"
  os_b64_encode :: "bytes \<Rightarrow> string"
  os_b64_decode :: "string \<Rightarrow> string + bytes"
  os_uppercase :: "string \<Rightarrow> string"
  os_cg_mkdir :: "path \<Rightarrow> bool"
  os_output :: "world \<Rightarrow> command \<Rightarrow> nat \<Rightarrow> (string + bytes \<times> bytes \<times> int option) option \<times> fs"

section \<open>The sandboxed command\<close>

definition cstring :: "string \<Rightarrow> string result" where
  "cstring s =
     (if char_of (0 :: nat) \<in> set s
      then Inl (INTERNAL_SERVER_ERROR,
        ''cstr: nul byte found in provided data at position: ''
          @ show_nat (length (takeWhile (\<lambda>c. c \<noteq> char_of (0 :: nat)) s)))
      else Inr s)"

definition apply_chroot :: "string \<Rightarrow> string \<Rightarrow> pre_exec_op list" where
  "apply_chroot rootfs cwd_in_chroot = [Chroot rootfs, Chdir cwd_in_chroot]"

definition apply_bash_isolation :: "bpf_program \<Rightarrow> pre_exec_op list" where
  "apply_bash_isolation f = [NoNewPrivs, ApplyFilter f]"

definition command_new :: "string \<Rightarrow> command" where
  "command_new p =
     \<lparr>c_program = p, c_args = [], c_kill_on_drop = False, c_current_dir = None, c_pre_exec = [],
      c_stdin = Inherit, c_stdout = Inherit, c_stderr = Inherit, c_env = []\<rparr>"

definition build_sandboxed_command ::
  "app_state \<Rightarrow> string \<Rightarrow> path \<Rightarrow> string \<Rightarrow> string list \<Rightarrow> command result" where
  "build_sandboxed_command st sid session_cwd prog args =
     (let cmd0 = command_new prog;
          cmd1 = (if args \<noteq> [] then cmd0\<lparr>c_args := args\<rparr> else cmd0);
          cmd = cmd1\<lparr>c_kill_on_drop := True\<rparr>
      in rtry
        (case chroot_root st of
           Some rootfs \<Rightarrow>
             rtry (cstring (path_str rootfs)) (\<lambda>rootfs_c.
             rtry (cstring (''/sessions/'' @ sid)) (\<lambda>cwd_c.
             Inr (cmd, Some (rootfs_c, cwd_c))))
         | None \<Rightarrow> Inr (cmd\<lparr>c_current_dir := Some session_cwd\<rparr>, None))
        (\<lambda>(cmd, chroot_data).
           Inr (cmd\<lparr>c_pre_exec :=
             (case chroot_data of Some (r, c) \<Rightarrow> apply_chroot r c | None \<Rightarrow> [])
             @ (case seccomp_filter st of Some f \<Rightarrow> apply_bash_isolation f | None \<Rightarrow> [])\<rparr>)))"

definition cgroup_attach_pid :: "path \<Rightarrow> u32 \<Rightarrow> world \<Rightarrow> world" where
  "cgroup_attach_pid dir p = sys (CgWrite (path_join dir ''cgroup.procs'') (show_nat (unat p) @ ''\<newline>''))"

definition session_cgroup :: "path \<Rightarrow> string \<Rightarrow> path" where
  "session_cgroup cg sid = path_join cg (''mindbox-'' @ sid)"

section \<open>Shared pieces of the actions\<close>

definition process_running_and_code :: "handle \<Rightarrow> bool \<times> int option" where
  "process_running_and_code h =
     (case h_state h of
        Running \<Rightarrow> (True, None)
      | Exited code \<Rightarrow> (False, Some code)
      | Terminated _ \<Rightarrow> (False, None))"

text \<open>The signal number, read under a second lock when the first read saw no exit code.\<close>

definition signal_num :: "interlude \<Rightarrow> nat \<Rightarrow> bool \<Rightarrow> int option \<Rightarrow> world \<Rightarrow> int option \<times> world" where
  "signal_num il a running code w =
     (if \<not> running \<and> code = None then
        let w1 = await il w
        in (case h_state (proc_heap w1 a) of Terminated sig \<Rightarrow> (Some sig, w1) | _ \<Rightarrow> (None, w1))
      else (None, w))"

definition describe_state :: "interlude \<Rightarrow> string \<Rightarrow> nat \<Rightarrow> world \<Rightarrow> process_result result \<times> world" where
  "describe_state il pr a w =
     (let w1 = await il w;
          (running, code) = process_running_and_code (proc_heap w1 a);
          (sig, w2) = signal_num il a running code w1
      in (Inr (process_result_default\<lparr>rs_process_id := Some pr, rs_running := Some running,
                 rs_exit_code := code, rs_signal := sig\<rparr>), w2))"

definition find_process :: "string \<Rightarrow> nat \<Rightarrow> process_req \<Rightarrow> world \<Rightarrow> (string \<times> nat) result" where
  "find_process verb s req w =
     rtry (ok_or (BAD_REQUEST, verb @ '' requires process_id'') (rq_process_id req)) (\<lambda>pr.
     rtry (ok_or (NOT_FOUND, ''process not found'') (map_of (processes (sess_heap w s)) pr)) (\<lambda>a.
     Inr (pr, a)))"

section \<open>start\<close>

definition new_handle :: "string \<Rightarrow> u32 \<Rightarrow> string \<Rightarrow> nat \<Rightarrow> nat \<Rightarrow> handle" where
  "new_handle pr p cmdline t cap =
     \<lparr>process_id = pr, pid = p, command_line = cmdline, started_at = t,
      h_stdout = sb_new cap, h_stderr = sb_new cap, h_stdin = True, h_state = Running,
      h_locked = False, h_wait = WaitChild, h_stdout_open = True, h_stderr_open = True,
      h_input = []\<rparr>"

text \<open>The command of a request: sandbox layers, piped stdio, environment, own session.\<close>

definition start_command :: "app_state \<Rightarrow> string \<Rightarrow> path \<Rightarrow> string \<Rightarrow> process_req \<Rightarrow> command result" where
  "start_command st sid session_cwd cmd req =
     rtry (build_sandboxed_command st sid session_cwd cmd
             (case rq_args req of Some xs \<Rightarrow> xs | None \<Rightarrow> [])) (\<lambda>c.
     let c1 = c\<lparr>c_stdin := Piped, c_stdout := Piped, c_stderr := Piped\<rparr>;
         c2 = (case rq_env req of
                 Some kvs \<Rightarrow> c1\<lparr>c_env := foldl (\<lambda>e (k, v). AList.update k v e) (c_env c1) kvs\<rparr>
               | None \<Rightarrow> c1);
         c3 = (if kill_group (process_cfg st) then c2\<lparr>c_pre_exec := c_pre_exec c2 @ [Setsid]\<rparr> else c2)
     in Inr c3)"

definition action_start ::
  "os \<Rightarrow> string \<Rightarrow> string \<Rightarrow> nat \<Rightarrow> process_req \<Rightarrow> world \<Rightarrow> process_result result \<times> world" where
  "action_start os uuid sid s req w =
     (if rq_process_id req \<noteq> None then (Inl (BAD_REQUEST, ''start MUST NOT supply process_id''), w)
      else case rq_command req of
        None \<Rightarrow> (Inl (BAD_REQUEST, ''start requires command''), w)
      | Some cmd \<Rightarrow>
        if length (processes (sess_heap w s)) \<ge> max_per_session (process_cfg (app w)) then
          (Inl (TOO_MANY_REQUESTS, ''session process cap reached''), w)
        else case (case rq_cwd req of
                     Some rel \<Rightarrow> resolve_in (s_cwd (sess_heap w s)) rel
                   | None \<Rightarrow> Inr (s_cwd (sess_heap w s))) of
          Inl e \<Rightarrow> (Inl e, w)
        | Inr session_cwd \<Rightarrow>
          (case start_command (app w) sid session_cwd cmd req of
             Inl e \<Rightarrow> (Inl e, w)
           | Inr c \<Rightarrow>
             let w1 = sys (Spawn c) w in
             (case os_spawn os w c of
                Inl e \<Rightarrow> (Inl (INTERNAL_SERVER_ERROR, ''spawn: '' @ e), w1)
              | Inr None \<Rightarrow> (Inl (INTERNAL_SERVER_ERROR, ''no child pid''), w1)
              | Inr (Some p) \<Rightarrow>
                let w2 = (case cgroup_root (isolation (app w)) of
                            Some cg \<Rightarrow> cgroup_attach_pid (session_cgroup cg sid) p w1
                          | None \<Rightarrow> w1);
                    args = (case rq_args req of Some xs \<Rightarrow> xs | None \<Rightarrow> []);
                    cmdline = (if args = [] then cmd else cmd @ '' '' @ join '' '' args);
                    h = new_handle uuid p cmdline (now w) (buffer_bytes (process_cfg (app w)));
                    a = proc_next w2;
                    w3 = w2\<lparr>proc_heap := (proc_heap w2)(a := h), proc_next := Suc a\<rparr>;
                    w4 = upd_session s (\<lambda>ss. ss\<lparr>processes := AList.update uuid a (processes ss)\<rparr>) w3
                in (Inr (process_result_default\<lparr>rs_process_id := Some uuid, rs_running := Some True\<rparr>), w4))))"

section \<open>read\<close>

definition drain_stdout :: "interlude \<Rightarrow> nat \<Rightarrow> nat option \<Rightarrow> world \<Rightarrow> (bytes \<times> bool \<times> bool) \<times> world" where
  "drain_stdout il a mx w =
     (let w1 = await il w; (r, g) = sb_drain mx (h_stdout (proc_heap w1 a))
      in (r, upd_handle a (\<lambda>h. h\<lparr>h_stdout := g\<rparr>) w1))"

definition drain_stderr :: "interlude \<Rightarrow> nat \<Rightarrow> nat option \<Rightarrow> world \<Rightarrow> (bytes \<times> bool \<times> bool) \<times> world" where
  "drain_stderr il a mx w =
     (let w1 = await il w; (r, g) = sb_drain mx (h_stderr (proc_heap w1 a))
      in (r, upd_handle a (\<lambda>h. h\<lparr>h_stderr := g\<rparr>) w1))"

fun encode_streams :: "os \<Rightarrow> process_encoding \<Rightarrow> bytes \<Rightarrow> bytes \<Rightarrow> string \<times> string" where
  "encode_streams os Utf8 out err = (from_utf8_lossy out, from_utf8_lossy err)"
| "encode_streams os Base64 out err = (os_b64_encode os out, os_b64_encode os err)"

text \<open>The wait for more data, when the first drain found nothing and a timeout was asked for.\<close>

definition read_wait :: "process_req \<Rightarrow> (bytes \<times> bool \<times> bool) \<Rightarrow> (bytes \<times> bool \<times> bool) \<Rightarrow> nat option" where
  "read_wait req = (\<lambda>(out, _, eof_out) (err, _, eof_err).
     if out = [] \<and> err = [] \<and> \<not> eof_out \<and> \<not> eof_err then
       (case map_option (clamp_rat 0 60) (rq_timeout_sec req) of
          Some t \<Rightarrow> if t > 0 then Some (millis t) else None
        | None \<Rightarrow> None)
     else None)"

definition action_read :: "os \<Rightarrow> interlude \<Rightarrow> nat \<Rightarrow> process_req \<Rightarrow> world \<Rightarrow> process_result result \<times> world" where
  "action_read os il s req w =
     (case find_process ''read'' s req w of
        Inl e \<Rightarrow> (Inl e, w)
      | Inr (pr, a) \<Rightarrow>
        let mx = rq_max_bytes req;
            (o1, w1) = drain_stdout il a mx w;
            (e1, w2) = drain_stderr il a mx w1;
            (res, w5) =
              (case read_wait req o1 e1 of
                 None \<Rightarrow> ((o1, e1), w2)
               | Some ms \<Rightarrow>
                 let w3 = timed_await il ms w2;
                     (o2, w4) = drain_stdout il a mx w3;
                     (e2, w5) = drain_stderr il a mx w4
                 in (((fst o2, fst (snd o1) \<or> fst (snd o2), snd (snd o2)),
                      (fst e2, fst (snd e1) \<or> fst (snd e2), snd (snd e2))), w5));
            ((out, tr_out, eof_out), (err, tr_err, eof_err)) = res;
            w6 = await il w5;
            (running, code) = process_running_and_code (proc_heap w6 a);
            (out_enc, err_enc) = encode_streams os (rq_encoding req) out err
        in (Inr (process_result_default\<lparr>rs_process_id := Some pr, rs_running := Some running,
               rs_exit_code := code, rs_stdout := Some out_enc, rs_stderr := Some err_enc,
               rs_encoding := Some (rq_encoding req), rs_eof_stdout := Some eof_out,
               rs_eof_stderr := Some eof_err, rs_truncated := Some (tr_out \<or> tr_err)\<rparr>), w6))"

section \<open>wait\<close>

definition action_wait :: "interlude \<Rightarrow> nat \<Rightarrow> process_req \<Rightarrow> world \<Rightarrow> process_result result \<times> world" where
  "action_wait il s req w =
     (case find_process ''wait'' s req w of
        Inl e \<Rightarrow> (Inl e, w)
      | Inr (pr, a) \<Rightarrow>
        let ceiling = clamp_rat 0 300 (case rq_timeout_sec req of Some t \<Rightarrow> t | None \<Rightarrow> 300);
            w1 = (if ceiling > 0 \<and> snapshot_running (proc_heap w a)
                  then timed_await il (millis ceiling) w else w)
        in describe_state il pr a w1)"

section \<open>list\<close>

definition summary_of :: "nat \<Rightarrow> handle \<Rightarrow> process_summary" where
  "summary_of t h =
     (let (running, code) = (if h_locked h then (True, None) else process_running_and_code h)
      in \<lparr>ps_process_id = process_id h, ps_command = command_line h, ps_running = running,
          ps_exit_code = code, ps_started_at_secs_ago = (t - started_at h) div 10 ^ 9\<rparr>)"

definition action_list :: "nat \<Rightarrow> world \<Rightarrow> process_result" where
  "action_list s w =
     process_result_default\<lparr>rs_processes := Some
       (sort_key (\<lambda>x. - int (ps_started_at_secs_ago x))
         (map (\<lambda>(k, a). summary_of (now w) (proc_heap w a)) (processes (sess_heap w s))))\<rparr>"

section \<open>write\<close>

definition decode_input :: "os \<Rightarrow> process_req \<Rightarrow> bytes result" where
  "decode_input os req =
     (case rq_input req of
        None \<Rightarrow> Inr []
      | Some s \<Rightarrow>
        (case rq_encoding req of
           Utf8 \<Rightarrow> Inr (as_bytes s)
         | Base64 \<Rightarrow> map_err (\<lambda>e. (BAD_REQUEST, ''base64 decode: '' @ e)) (os_b64_decode os s)))"

text \<open>
  The stdin slot is taken and put back unless the request carries \<open>eof\<close>; a failed write
  puts it back as well.
\<close>

definition action_write :: "os \<Rightarrow> interlude \<Rightarrow> nat \<Rightarrow> process_req \<Rightarrow> world \<Rightarrow> process_result result \<times> world" where
  "action_write os il s req w =
     (case find_process ''write'' s req w of
        Inl e \<Rightarrow> (Inl e, w)
      | Inr (pr, a) \<Rightarrow>
        (case decode_input os req of
           Inl e \<Rightarrow> (Inl e, w)
         | Inr bs \<Rightarrow>
           let w1 = await il w;
               (running, code) = process_running_and_code (proc_heap w1 a)
           in if \<not> running then
                (Inr (process_result_default\<lparr>rs_process_id := Some pr, rs_running := Some False,
                   rs_exit_code := code\<rparr>), w1)
              else
                let w2 = await il w1
                in if \<not> h_stdin (proc_heap w2 a) then (Inl (BAD_REQUEST, ''stdin already closed''), w2)
                   else
                     let w3 = (if bs \<noteq> [] then await il w2 else w2)
                     in (case (if bs \<noteq> [] then os_stdin_write os (proc_heap w3 a) bs else None) of
                           Some e \<Rightarrow> (Inl (INTERNAL_SERVER_ERROR, ''write stdin: '' @ e), w3)
                         | None \<Rightarrow>
                           (Inr (process_result_default\<lparr>rs_process_id := Some pr, rs_running := Some True\<rparr>),
                            upd_handle a (\<lambda>h. h\<lparr>h_input := h_input h @ bs, h_stdin := \<not> rq_eof req\<rparr>) w3))))"

section \<open>signal and stop\<close>

definition signal_table :: "(string \<times> int) list" where
  "signal_table =
     [(''HUP'', 1), (''INT'', 2), (''QUIT'', 3), (''ILL'', 4), (''ABRT'', 6), (''FPE'', 8),
      (''KILL'', 9), (''USR1'', 10), (''SEGV'', 11), (''USR2'', 12), (''PIPE'', 13),
      (''ALRM'', 14), (''TERM'', 15), (''CHLD'', 17), (''CONT'', 18), (''STOP'', 19),
      (''TSTP'', 20), (''WINCH'', 28)]"

abbreviation SIGKILL :: int where "SIGKILL \<equiv> 9"
abbreviation SIGTERM :: int where "SIGTERM \<equiv> 15"
abbreviation ESRCH :: nat where "ESRCH \<equiv> 3"

definition parse_signal :: "(string \<Rightarrow> string) \<Rightarrow> string \<Rightarrow> int option" where
  "parse_signal uni name =
     (let s = trim name in
      case parse_i32 s of
        Some n \<Rightarrow> Some n
      | None \<Rightarrow>
        let upper = to_uppercase uni s;
            stripped = (case strip_prefix upper ''SIG'' of Some r \<Rightarrow> r | None \<Rightarrow> upper)
        in map_of signal_table stripped)"

definition signal_target :: "u32 \<Rightarrow> bool \<Rightarrow> int" where
  "signal_target p kg = (if kg then sint (- p) else sint p)"

definition send_signal_to :: "os \<Rightarrow> u32 \<Rightarrow> int \<Rightarrow> bool \<Rightarrow> world \<Rightarrow> (string + unit) \<times> world" where
  "send_signal_to os p sig kg w =
     (let target = signal_target p kg; w1 = sys (Kill target sig) w
      in (case os_kill os w target sig of
            None \<Rightarrow> (Inr (), w1)
          | Some e \<Rightarrow> if e = ESRCH then (Inr (), w1) else (Inl (os_strerror os e), w1)))"

definition action_signal :: "os \<Rightarrow> interlude \<Rightarrow> nat \<Rightarrow> process_req \<Rightarrow> world \<Rightarrow> process_result result \<times> world" where
  "action_signal os il s req w =
     (case
        rtry (ok_or (BAD_REQUEST, ''signal requires process_id'') (rq_process_id req)) (\<lambda>pr.
        rtry (ok_or (BAD_REQUEST, ''signal requires signal name'') (rq_signal req)) (\<lambda>name.
        rtry (ok_or (BAD_REQUEST, ''unknown signal: '' @ name) (parse_signal (os_uppercase os) name)) (\<lambda>sig.
        rtry (ok_or (NOT_FOUND, ''process not found'') (map_of (processes (sess_heap w s)) pr)) (\<lambda>a.
        Inr (pr, sig, a))))) of
        Inl e \<Rightarrow> (Inl e, w)
      | Inr (pr, sig, a) \<Rightarrow>
        (case send_signal_to os (pid (proc_heap w a)) sig (kill_group (process_cfg (app w))) w of
           (Inl e, w1) \<Rightarrow> (Inl (INTERNAL_SERVER_ERROR, ''kill: '' @ e), w1)
         | (Inr _, w1) \<Rightarrow> describe_state il pr a w1))"

definition terminate_handle :: "os \<Rightarrow> interlude \<Rightarrow> nat \<Rightarrow> rat \<Rightarrow> bool \<Rightarrow> world \<Rightarrow> world" where
  "terminate_handle os il a grace kg w =
     (if \<not> snapshot_running (proc_heap w a) then w
      else
        let w1 = snd (send_signal_to os (pid (proc_heap w a)) SIGTERM kg w);
            w2 = (if grace > 0 then timed_await il (millis grace) w1 else w1)
        in if snapshot_running (proc_heap w2 a) then
             timed_await il 2000 (snd (send_signal_to os (pid (proc_heap w2 a)) SIGKILL kg w2))
           else w2)"

definition action_stop :: "os \<Rightarrow> interlude \<Rightarrow> nat \<Rightarrow> process_req \<Rightarrow> world \<Rightarrow> process_result result \<times> world" where
  "action_stop os il s req w =
     (case find_process ''stop'' s req w of
        Inl e \<Rightarrow> (Inl e, w)
      | Inr (pr, a) \<Rightarrow>
        let grace = clamp_rat 0 60 (case rq_timeout_sec req of Some t \<Rightarrow> t | None \<Rightarrow> 5);
            w1 = terminate_handle os il a grace (kill_group (process_cfg (app w))) w
        in describe_state il pr a w1)"

section \<open>Reaping and the dispatcher\<close>

definition reap_session_processes :: "os \<Rightarrow> interlude \<Rightarrow> nat \<Rightarrow> bool \<Rightarrow> world \<Rightarrow> world" where
  "reap_session_processes os il s kg w =
     (let handles = map snd (processes (sess_heap w s));
          w1 = foldl (\<lambda>w a. terminate_handle os il a 5 kg w) w handles
      in upd_session s (\<lambda>ss. ss\<lparr>processes := []\<rparr>) w1)"

definition resolve_session :: "world \<Rightarrow> string \<Rightarrow> nat result" where
  "resolve_session w sid =
     ok_or (NOT_FOUND, ''session '' @ sid @ '' not found'') (map_of (sessions (app w)) sid)"

definition touch :: "nat \<Rightarrow> world \<Rightarrow> world" where
  "touch s w = upd_session s (\<lambda>ss. ss\<lparr>last_touched := now w\<rparr>) w"

definition process_action_of ::
  "os \<Rightarrow> interlude \<Rightarrow> string \<Rightarrow> string \<Rightarrow> nat \<Rightarrow> process_req \<Rightarrow> world \<Rightarrow> process_result result \<times> world" where
  "process_action_of os il uuid sid s req w =
     (case rq_action req of
        Start \<Rightarrow> action_start os uuid sid s req w
      | Read \<Rightarrow> action_read os il s req w
      | Wait \<Rightarrow> action_wait il s req w
      | Write \<Rightarrow> action_write os il s req w
      | Signal \<Rightarrow> action_signal os il s req w
      | Stop \<Rightarrow> action_stop os il s req w
      | List \<Rightarrow> (Inr (action_list s w), w))"

definition tool_process ::
  "os \<Rightarrow> interlude \<Rightarrow> string \<Rightarrow> string \<Rightarrow> process_req \<Rightarrow> world \<Rightarrow> process_result result \<times> world" where
  "tool_process os il uuid sid req w =
     (let cfg = process_cfg (app w) in
      if \<not> enabled cfg then (Inl (NOT_FOUND, ''process tool disabled''), w)
      else if force_unsupported cfg then
        (Inl (NOT_IMPLEMENTED,
           ''{\"code\":\"process_unsupported\",\"message\":\"process backend unavailable\"}''), w)
      else case resolve_session w sid of
        Inl e \<Rightarrow> (Inl e, w)
      | Inr s \<Rightarrow> process_action_of os il uuid sid s req (touch s w))"

end
