(* ===== verification/Tools_Daemon.thy ===== *)
theory Tools_Daemon
  imports Tools_Process Tools_Edit "HOL-Library.List_Lexorder" "HOL-Library.Char_ord"
begin

text \<open>
  The session routes, the file tools, \<open>bash\<close>, the idle reaper, the shutdown and the start-up
  of the tools daemon (\<open>tools-rust/src/main.rs\<close>, \<open>process.rs\<close>), as functions on the world.
  \<open>grep\<close> and \<open>find\<close> are in their own theory.
\<close>

section \<open>Cgroups\<close>

definition create_session_cgroup :: "os \<Rightarrow> isolation_cfg \<Rightarrow> string \<Rightarrow> world \<Rightarrow> path option \<times> world" where
  "create_session_cgroup os cfg sid w =
     (case cgroup_root cfg of
        None \<Rightarrow> (None, w)
      | Some cg \<Rightarrow>
        let dir = session_cgroup cg sid; w1 = sys (CgMkdir dir) w
        in if \<not> os_cg_mkdir os dir then (None, w1)
           else
             let w2 = sys (CgWrite (path_join dir ''memory.max'') ''512M\<newline>'') w1;
                 w3 = sys (CgWrite (path_join dir ''cpu.max'') ''50000 100000\<newline>'') w2;
                 w4 = sys (CgWrite (path_join dir ''pids.max'') ''256\<newline>'') w3
             in (Some dir, w4))"

definition cleanup_session_cgroup :: "path \<Rightarrow> world \<Rightarrow> world" where
  "cleanup_session_cgroup dir w =
     sys (CgRmdir dir) (sys (CgWrite (path_join dir ''cgroup.kill'') ''1\<newline>'') w)"

definition drop_cgroup :: "string \<Rightarrow> world \<Rightarrow> world" where
  "drop_cgroup sid w =
     (case cgroup_root (isolation (app w)) of
        Some cg \<Rightarrow> cleanup_session_cgroup (session_cgroup cg sid) w
      | None \<Rightarrow> w)"

section \<open>Sessions\<close>

definition set_sessions :: "(string, nat) table \<Rightarrow> world \<Rightarrow> world" where
  "set_sessions t w = w\<lparr>app := (app w)\<lparr>sessions := t\<rparr>\<rparr>"

record create_session_resp =
  cr_session_id :: string
  cr_cwd :: string

definition create_session :: "os \<Rightarrow> string \<Rightarrow> world \<Rightarrow> create_session_resp result \<times> world" where
  "create_session os uuid w =
     (let cwd = path_join (session_root (app w)) uuid in
      case create_dir_all (files w) cwd of
        (Inl e, fs) \<Rightarrow> (Inl (INTERNAL_SERVER_ERROR, ''mkdir: '' @ io_msg e), w\<lparr>files := fs\<rparr>)
      | (Inr _, fs) \<Rightarrow>
        let w1 = snd (create_session_cgroup os (isolation (app w)) uuid (w\<lparr>files := fs\<rparr>));
            s = sess_next w1;
            w2 = w1\<lparr>sess_heap := (sess_heap w1)(s := \<lparr>s_cwd = cwd, last_touched = now w1, processes = []\<rparr>),
                    sess_next := Suc s\<rparr>;
            w3 = set_sessions (AList.update uuid s (sessions (app w2))) w2
        in (Inr \<lparr>cr_session_id = uuid, cr_cwd = path_str cwd\<rparr>, w3))"

text \<open>Best-effort removal of a session's directory.\<close>

definition remove_cwd :: "nat \<Rightarrow> world \<Rightarrow> world" where
  "remove_cwd s w =
     (case fs_remove_dir_all (files w) (s_cwd (sess_heap w s)) of
        Inr fs \<Rightarrow> w\<lparr>files := fs\<rparr>
      | Inl _ \<Rightarrow> w)"

text \<open>What \<open>delete_session\<close> and the reaper do after taking a session out of the table.\<close>

definition evict :: "os \<Rightarrow> interlude \<Rightarrow> string \<Rightarrow> nat \<Rightarrow> world \<Rightarrow> world" where
  "evict os il sid s w =
     drop_cgroup sid (remove_cwd s (await il
       (reap_session_processes os il s (kill_group (process_cfg (app w))) w)))"

definition delete_session :: "os \<Rightarrow> interlude \<Rightarrow> string \<Rightarrow> world \<Rightarrow> status result \<times> world" where
  "delete_session os il sid w =
     (case map_of (sessions (app w)) sid of
        None \<Rightarrow> (Inl (NOT_FOUND, ''session '' @ sid @ '' not found''), w)
      | Some s \<Rightarrow>
        (Inr NO_CONTENT, evict os il sid s (set_sessions (AList.delete sid (sessions (app w))) w)))"

section \<open>The idle reaper and the shutdown\<close>

text \<open>The period of the reaper in seconds, or no reaper at all.\<close>

definition reaper_tick_sec :: "process_cfg \<Rightarrow> nat option" where
  "reaper_tick_sec cfg =
     (if idle_reap_sec cfg = 0 then None else Some (clamp_nat 1 60 (idle_reap_sec cfg div 4)))"

definition idle_secs :: "world \<Rightarrow> nat \<Rightarrow> nat" where
  "idle_secs w s = (now w - last_touched (sess_heap w s)) div 10 ^ 9"

definition reaper_victims :: "world \<Rightarrow> string list" where
  "reaper_victims w =
     map fst (filter (\<lambda>(sid, s). idle_secs w s \<ge> idle_reap_sec (process_cfg (app w))) (sessions (app w)))"

definition reap_one :: "os \<Rightarrow> interlude \<Rightarrow> string \<Rightarrow> world \<Rightarrow> world" where
  "reap_one os il sid w =
     (case map_of (sessions (app w)) sid of
        None \<Rightarrow> w
      | Some s \<Rightarrow> evict os il sid s (set_sessions (AList.delete sid (sessions (app w))) w))"

definition reaper_round :: "os \<Rightarrow> interlude \<Rightarrow> world \<Rightarrow> world" where
  "reaper_round os il w = foldl (\<lambda>w sid. reap_one os il sid w) w (reaper_victims w)"

definition drain_one :: "os \<Rightarrow> interlude \<Rightarrow> string \<Rightarrow> world \<Rightarrow> world" where
  "drain_one os il sid w =
     (case map_of (sessions (app w)) sid of
        None \<Rightarrow> w
      | Some s \<Rightarrow>
        reap_session_processes os il s (kill_group (process_cfg (app w)))
          (set_sessions (AList.delete sid (sessions (app w))) w))"

definition drain_all_sessions :: "os \<Rightarrow> interlude \<Rightarrow> world \<Rightarrow> world" where
  "drain_all_sessions os il w = foldl (\<lambda>w sid. drain_one os il sid w) w (keys (sessions (app w)))"

section \<open>File tools\<close>

text \<open>\<open>resolve_session(..)?.cwd.clone()\<close>\<close>

definition session_cwd :: "world \<Rightarrow> string \<Rightarrow> path result" where
  "session_cwd w sid = rtry (resolve_session w sid) (\<lambda>s. Inr (s_cwd (sess_heap w s)))"

definition tool_read ::
  "string \<Rightarrow> string \<Rightarrow> nat option \<Rightarrow> nat option \<Rightarrow> world \<Rightarrow> (string \<times> nat) result" where
  "tool_read sid rel off lm w =
     rtry (session_cwd w sid) (\<lambda>cwd.
     rtry (resolve_in cwd rel) (\<lambda>target.
     rtry (map_err (\<lambda>e. (NOT_FOUND, ''read '' @ rel @ '': '' @ io_msg e)) (fs_read (files w) target)) (\<lambda>bs.
     let content = from_utf8_lossy bs in
     if off = None \<and> lm = None then Inr (content, length bs)
     else rtry (slice_lines content off lm) (\<lambda>c. Inr (c, length c)))))"

definition tool_write :: "string \<Rightarrow> string \<Rightarrow> string \<Rightarrow> world \<Rightarrow> nat result \<times> world" where
  "tool_write sid rel content w =
     (case rtry (session_cwd w sid) (\<lambda>cwd. resolve_in cwd rel) of
        Inl e \<Rightarrow> (Inl e, w)
      | Inr target \<Rightarrow>
        let (made, fs) = (case path_parent target of
                            Some par \<Rightarrow> create_dir_all (files w) par
                          | None \<Rightarrow> (Inr (), files w));
            w1 = w\<lparr>files := fs\<rparr>
        in (case made of
              Inl e \<Rightarrow> (Inl (INTERNAL_SERVER_ERROR, ''mkdir: '' @ io_msg e), w1)
            | Inr _ \<Rightarrow>
              (case fs_write fs target (as_bytes content) of
                 Inl e \<Rightarrow> (Inl (INTERNAL_SERVER_ERROR, ''write: '' @ io_msg e), w1)
               | Inr fs' \<Rightarrow> (Inr (length content), w1\<lparr>files := fs'\<rparr>))))"

record ls_entry =
  ls_name :: string
  ls_kind :: string
  ls_size :: nat

text \<open>
  The kind of a directory entry, links not followed; the sizes the file system reports for
  directories and sockets are the parameter \<open>dsize\<close>.
\<close>

fun entry_kind :: "node \<Rightarrow> string" where
  "entry_kind Dir = ''dir''"
| "entry_kind (Symlink _) = ''symlink''"
| "entry_kind (File _) = ''file''"
| "entry_kind Other = ''other''"

fun entry_size :: "nat \<Rightarrow> node \<Rightarrow> nat" where
  "entry_size dsize (File b) = length b"
| "entry_size dsize (Symlink t) = length t"
| "entry_size dsize _ = dsize"

definition tool_ls :: "nat \<Rightarrow> string \<Rightarrow> string \<Rightarrow> nat option \<Rightarrow> world \<Rightarrow> ls_entry list result" where
  "tool_ls dsize sid rel lm w =
     rtry (session_cwd w sid) (\<lambda>cwd.
     rtry (resolve_in cwd rel) (\<lambda>target.
     rtry (map_err (\<lambda>e. (NOT_FOUND, ''ls '' @ rel @ '': '' @ io_msg e)) (fs_read_dir (files w) target)) (\<lambda>ents.
     let entries = sort_key ls_name (map (\<lambda>(n, nd).
           \<lparr>ls_name = from_utf8_lossy (as_bytes n), ls_kind = entry_kind nd, ls_size = entry_size dsize nd\<rparr>) ents)
     in Inr (case lm of Some l \<Rightarrow> take l entries | None \<Rightarrow> entries))))"

definition fs_read_to_string :: "fs \<Rightarrow> path \<Rightarrow> string + string" where
  "fs_read_to_string fs p =
     rtry (map_err io_msg (fs_read fs p)) (\<lambda>bs.
       if valid_utf8 bs then Inr (of_bytes bs) else Inl ''stream did not contain valid UTF-8'')"

definition tool_edit :: "string \<Rightarrow> edit_req \<Rightarrow> world \<Rightarrow> nat result \<times> world" where
  "tool_edit sid req w =
     (case
        rtry (session_cwd w sid) (\<lambda>cwd.
        rtry (resolve_in cwd (edit_path req)) (\<lambda>target.
        rtry (map_err (\<lambda>e. (NOT_FOUND, ''read '' @ edit_path req @ '': '' @ e))
                (fs_read_to_string (files w) target)) (\<lambda>src.
        rtry (apply_edit_req src (edit_path req) req) (\<lambda>(replaced, n).
        rtry (map_err (\<lambda>e. (INTERNAL_SERVER_ERROR, ''write: '' @ io_msg e))
                (fs_write (files w) target (as_bytes replaced))) (\<lambda>fs.
        Inr (n, fs)))))) of
        Inl e \<Rightarrow> (Inl e, w)
      | Inr (n, fs) \<Rightarrow> (Inr n, w\<lparr>files := fs\<rparr>))"

section \<open>bash\<close>

record bash_resp =
  br_stdout :: string
  br_stderr :: string
  br_exit_code :: int
  br_timed_out :: bool

definition tool_bash ::
  "os \<Rightarrow> interlude \<Rightarrow> string \<Rightarrow> string \<Rightarrow> nat \<Rightarrow> world \<Rightarrow> bash_resp result \<times> world" where
  "tool_bash os il sid cmd timeout w =
     (case rtry (session_cwd w sid) (\<lambda>cwd.
             build_sandboxed_command (app w) sid cwd ''/bin/bash'' [''-c'', cmd]) of
        Inl e \<Rightarrow> (Inl e, w)
      | Inr c0 \<Rightarrow>
        let c = c0\<lparr>c_stdout := Piped, c_stderr := Piped, c_stdin := Null\<rparr>;
            secs = clamp_nat 1 300 timeout;
            w1 = sys (Spawn c) w
        in (case os_spawn os w c of
              Inl e \<Rightarrow> (Inl (INTERNAL_SERVER_ERROR, ''spawn: '' @ e), w1)
            | Inr po \<Rightarrow>
              let w2 = (case (cgroup_root (isolation (app w)), po) of
                          (Some cg, Some p) \<Rightarrow> cgroup_attach_pid (session_cgroup cg sid) p w1
                        | _ \<Rightarrow> w1);
                  w3 = timed_await il (secs * 1000) w2;
                  (out, fs) = os_output os w3 c secs;
                  w4 = w3\<lparr>files := fs\<rparr>
              in (case out of
                    Some (Inr (so, se, code)) \<Rightarrow>
                      (Inr \<lparr>br_stdout = from_utf8_lossy so, br_stderr = from_utf8_lossy se,
                           br_exit_code = (case code of Some x \<Rightarrow> x | None \<Rightarrow> - 1), br_timed_out = False\<rparr>, w4)
                  | Some (Inl e) \<Rightarrow> (Inl (INTERNAL_SERVER_ERROR, ''wait: '' @ e), w4)
                  | None \<Rightarrow>
                      (Inr \<lparr>br_stdout = [], br_stderr = ''timeout after '' @ show_nat secs @ ''s'',
                           br_exit_code = 124, br_timed_out = True\<rparr>, w4))))"

section \<open>Start-up\<close>

text \<open>
  The denylist, as the program it is compiled to; compilation is the crate's and may fail.
\<close>

definition seccomp_denied :: "syscall_name list" where
  "seccomp_denied =
     [SYS_mount, SYS_umount2, SYS_pivot_root, SYS_setuid, SYS_setgid, SYS_setresuid,
      SYS_setresgid, SYS_setreuid, SYS_setregid, SYS_capset, SYS_ptrace, SYS_personality,
      SYS_keyctl, SYS_add_key, SYS_request_key, SYS_reboot, SYS_init_module,
      SYS_finit_module, SYS_delete_module, SYS_kexec_load, SYS_chroot, SYS_bpf,
      SYS_perf_event_open, SYS_userfaultfd, SYS_unshare]"

definition build_seccomp_filter :: "(bpf_program \<Rightarrow> string + bpf_program) \<Rightarrow> string + bpf_program" where
  "build_seccomp_filter compile =
     compile \<lparr>bpf_rules = remdups seccomp_denied, bpf_default = Allow, bpf_match = Errno 1\<rparr>"

text \<open>
  \<open>make_state\<close>: \<open>prep\<close> is the preparation of the shared root file system (its result and the
  files it leaves), which the code makes with \<open>prepare_shared_rootfs\<close> of \<open>Tools_Rootfs\<close>. A failure to create a directory ends the daemon.
\<close>

definition make_state ::
  "env \<Rightarrow> nat \<Rightarrow> (bpf_program \<Rightarrow> string + bpf_program) \<Rightarrow> (fs \<Rightarrow> path \<Rightarrow> (io_error + unit) \<times> fs) \<Rightarrow> fs
     \<Rightarrow> (io_error + app_state) \<times> fs" where
  "make_state env own_pid compile prep fs =
     (let sb = components (case env ''TOOLS_SANDBOX_ROOT'' of Some s \<Rightarrow> s | None \<Rightarrow> ''/sandboxes'') in
      case create_dir_all fs sb of
        (Inl e, fs1) \<Rightarrow> (Inl e, fs1)
      | (Inr _, fs1) \<Rightarrow>
        let iso_cfg = isolation_from_env env fs1 own_pid;
            flt = (if iso_seccomp iso_cfg
                   then (case build_seccomp_filter compile of Inr f \<Rightarrow> Some f | Inl _ \<Rightarrow> None)
                   else None);
            mk = (\<lambda>sr cr. \<lparr>sandbox_root = sb, session_root = sr, chroot_root = cr, sessions = [],
                    isolation = iso_cfg, seccomp_filter = flt, process_cfg = process_cfg_from_env env\<rparr>)
        in if iso_chroot iso_cfg then
             let rootfs = path_join sb ''.rootfs'' in
             (case prep fs1 rootfs of
                (Inr _, fs2) \<Rightarrow>
                  let sr = path_join rootfs ''sessions'' in
                  (case create_dir_all fs2 sr of
                     (Inl e, fs3) \<Rightarrow> (Inl e, fs3)
                   | (Inr _, fs3) \<Rightarrow> (Inr (mk sr (Some rootfs)), fs3))
              | (Inl e, fs2) \<Rightarrow> (Inr (mk sb None), fs2))
           else (Inr (mk sb None), fs1))"

end
