(* ===== verification/Process_Facts.thy ===== *)
theory Process_Facts
  imports Tools_Process
begin

text \<open>
  What every part of the process tool leaves alone, and a proof method for facts about
  single handles: the locale \<open>handle_relation\<close> carries a reflexive and transitive relation
  on handles that the background tasks and the few updates of the handlers respect through
  every action, the termination of a handle and the reaping of a session.
\<close>

section \<open>Frames\<close>

text \<open>What background steps cannot change.\<close>

definition bg_frame :: "world \<Rightarrow> world \<Rightarrow> bool" where
  "bg_frame w w' \<longleftrightarrow> app w' = app w \<and> sess_heap w' = sess_heap w \<and> sess_next w' = sess_next w
     \<and> proc_next w' = proc_next w \<and> files w' = files w \<and> trace w' = trace w \<and> waits w' = waits w
     \<and> awaits w' = awaits w"

lemma bg_step_frame: "bg_step w w' \<Longrightarrow> bg_frame w w'"
  by (auto simp: bg_frame_def upd_handle_def elim: bg_stepE)

lemma bg_steps_frame: "bg_step\<^sup>*\<^sup>* w w' \<Longrightarrow> bg_frame w w'"
proof (induction rule: rtranclp_induct)
  case (step y z)
  then show ?case using bg_step_frame [of y z] by (simp add: bg_frame_def)
qed (simp add: bg_frame_def)

lemma legal_frame: "legal il \<Longrightarrow> bg_frame w (il n w)"
  by (auto simp: legal_def intro: bg_steps_frame)

lemma await_frame:
  assumes "legal il"
  shows "app (await il w) = app w" "sess_heap (await il w) = sess_heap w"
    "sess_next (await il w) = sess_next w" "proc_next (await il w) = proc_next w"
    "files (await il w) = files w" "trace (await il w) = trace w" "waits (await il w) = waits w"
  using legal_frame [OF assms, of "w\<lparr>awaits := Suc (awaits w)\<rparr>" "awaits w"]
  by (simp_all add: await_def bg_frame_def)

lemma timed_await_frame:
  assumes "legal il"
  shows "app (timed_await il ms w) = app w" "sess_heap (timed_await il ms w) = sess_heap w"
    "sess_next (timed_await il ms w) = sess_next w" "proc_next (timed_await il ms w) = proc_next w"
    "files (timed_await il ms w) = files w" "trace (timed_await il ms w) = trace w"
    "waits (timed_await il ms w) = waits w @ [ms]"
  by (simp_all add: timed_await_def await_frame [OF assms])

lemma upd_handle_frame [simp]:
  "app (upd_handle a f w) = app w" "sess_heap (upd_handle a f w) = sess_heap w"
  "sess_next (upd_handle a f w) = sess_next w" "proc_next (upd_handle a f w) = proc_next w"
  "files (upd_handle a f w) = files w" "trace (upd_handle a f w) = trace w"
  "waits (upd_handle a f w) = waits w" "now (upd_handle a f w) = now w"
  by (simp_all add: upd_handle_def)

lemma upd_handle_heap [simp]:
  "proc_heap (upd_handle a f w) b = (if b = a then f (proc_heap w a) else proc_heap w b)"
  by (simp add: upd_handle_def)

lemma upd_session_frame [simp]:
  "app (upd_session a f w) = app w" "proc_heap (upd_session a f w) = proc_heap w"
  "sess_next (upd_session a f w) = sess_next w" "proc_next (upd_session a f w) = proc_next w"
  "files (upd_session a f w) = files w" "trace (upd_session a f w) = trace w"
  "waits (upd_session a f w) = waits w" "now (upd_session a f w) = now w"
  by (simp_all add: upd_session_def)

lemma upd_session_heap [simp]:
  "sess_heap (upd_session a f w) b = (if b = a then f (sess_heap w a) else sess_heap w b)"
  by (simp add: upd_session_def)

lemma sys_frame [simp]:
  "app (sys s w) = app w" "sess_heap (sys s w) = sess_heap w" "proc_heap (sys s w) = proc_heap w"
  "sess_next (sys s w) = sess_next w" "proc_next (sys s w) = proc_next w" "files (sys s w) = files w"
  "trace (sys s w) = trace w @ [s]" "waits (sys s w) = waits w" "now (sys s w) = now w"
  by (simp_all add: sys_def)

lemma send_signal_world: "snd (send_signal_to os p sig kg w) = sys (Kill (signal_target p kg) sig) w"
  by (simp add: send_signal_to_def Let_def split: option.splits)

text \<open>What the actions other than \<open>start\<close> leave alone in the daemon's own tables.\<close>

definition tables_same :: "world \<Rightarrow> world \<Rightarrow> bool" where
  "tables_same w w' \<longleftrightarrow> app w' = app w \<and> sess_heap w' = sess_heap w \<and> sess_next w' = sess_next w
     \<and> proc_next w' = proc_next w \<and> files w' = files w"

lemma tables_same_refl [simp]: "tables_same w w"
  by (simp add: tables_same_def)

lemma tables_same_trans: "tables_same w1 w2 \<Longrightarrow> tables_same w2 w3 \<Longrightarrow> tables_same w1 w3"
  by (simp add: tables_same_def)

lemma tables_same_await: "legal il \<Longrightarrow> tables_same w (await il w)"
  by (simp add: tables_same_def await_frame)

lemma tables_same_timed: "legal il \<Longrightarrow> tables_same w (timed_await il ms w)"
  by (simp add: tables_same_def timed_await_frame)

lemma tables_same_terminate: "legal il \<Longrightarrow> tables_same w (terminate_handle os il a g kg w)"
  by (simp add: tables_same_def terminate_handle_def Let_def send_signal_world timed_await_frame)

lemma tables_same_terminate_all:
  "legal il \<Longrightarrow> tables_same w (foldl (\<lambda>w a. terminate_handle os il a g kg w) w as)"
  by (induction "as" arbitrary: w) (auto intro: tables_same_trans tables_same_terminate)

lemma tables_same_describe: "legal il \<Longrightarrow> tables_same w (snd (describe_state il pr a w))"
  by (auto simp: tables_same_def describe_state_def signal_num_def await_frame Let_def
      split: prod.splits process_state.splits)

lemma tables_same_drain:
  "legal il \<Longrightarrow> tables_same w (snd (drain_stdout il a mx w))"
  "legal il \<Longrightarrow> tables_same w (snd (drain_stderr il a mx w))"
  by (simp_all add: tables_same_def drain_stdout_def drain_stderr_def await_frame Let_def split: prod.splits)

section \<open>Relations on handles\<close>

definition handles_rel :: "(nat \<Rightarrow> handle \<Rightarrow> handle \<Rightarrow> bool) \<Rightarrow> world \<Rightarrow> world \<Rightarrow> bool" where
  "handles_rel R w w' \<longleftrightarrow> proc_next w \<le> proc_next w'
     \<and> (\<forall>a < proc_next w. R a (proc_heap w a) (proc_heap w' a))"

text \<open>The addresses of the processes a session holds.\<close>

definition session_procs :: "world \<Rightarrow> nat \<Rightarrow> nat set" where
  "session_procs w s = snd ` set (processes (sess_heap w s))"

lemma find_process_owned: "find_process verb s req w = Inr (pr, a) \<Longrightarrow> a \<in> session_procs w s"
  by (auto simp: find_process_def result_simps session_procs_def dest!: map_of_SomeD
      intro!: rev_image_eqI)

locale handle_relation =
  fixes R :: "nat \<Rightarrow> handle \<Rightarrow> handle \<Rightarrow> bool" and A :: "nat set"
  assumes R_refl: "R a h h"
    and R_trans: "R a h1 h2 \<Longrightarrow> R a h2 h3 \<Longrightarrow> R a h1 h3"
    and R_task: "task_step h h' \<Longrightarrow> R a h h'"
    and R_drain_out: "a \<in> A \<Longrightarrow> R a h (h\<lparr>h_stdout := snd (sb_drain mx (h_stdout h))\<rparr>)"
    and R_drain_err: "a \<in> A \<Longrightarrow> R a h (h\<lparr>h_stderr := snd (sb_drain mx (h_stderr h))\<rparr>)"
    and R_stdin: "a \<in> A \<Longrightarrow> R a h (h\<lparr>h_input := h_input h @ bs, h_stdin := b\<rparr>)"
begin

lemma rel_refl: "handles_rel R w w"
  by (simp add: handles_rel_def R_refl)

lemma rel_trans: "handles_rel R w1 w2 \<Longrightarrow> handles_rel R w2 w3 \<Longrightarrow> handles_rel R w1 w3"
  by (auto simp: handles_rel_def intro: R_trans)

lemma rel_same: "proc_heap w' = proc_heap w \<Longrightarrow> proc_next w' = proc_next w \<Longrightarrow> handles_rel R w w'"
  by (simp add: handles_rel_def R_refl)

lemma rel_upd: "R a (proc_heap w a) (f (proc_heap w a)) \<Longrightarrow> handles_rel R w (upd_handle a f w)"
  by (simp add: handles_rel_def R_refl)

lemma rel_bg: "bg_step w w' \<Longrightarrow> handles_rel R w w'"
  by (erule bg_stepE) (auto simp: R_task R_refl intro: rel_upd rel_same)

lemma rel_bgs: "bg_step\<^sup>*\<^sup>* w w' \<Longrightarrow> handles_rel R w w'"
  by (induction rule: rtranclp_induct) (auto intro: rel_refl rel_trans rel_bg)

lemma rel_await: "legal il \<Longrightarrow> handles_rel R w (await il w)"
  unfolding await_def
  by (rule rel_trans [OF rel_same rel_bgs, of "w\<lparr>awaits := Suc (awaits w)\<rparr>"]) (auto simp: legal_def)

lemma rel_timed: "legal il \<Longrightarrow> handles_rel R w (timed_await il ms w)"
  unfolding timed_await_def by (rule rel_trans [OF rel_same rel_await]) auto

lemma rel_sys: "handles_rel R w (sys s w)"
  by (rule rel_same) auto

lemma rel_terminate: "legal il \<Longrightarrow> handles_rel R w (terminate_handle os il a g kg w)"
  by (auto simp: terminate_handle_def Let_def send_signal_world
      intro: rel_refl rel_sys rel_trans [OF rel_sys] rel_timed
        rel_trans [OF rel_sys rel_trans [OF rel_timed rel_trans [OF rel_sys rel_timed]]]
        rel_trans [OF rel_sys rel_trans [OF rel_sys rel_timed]])

lemma rel_terminate_all:
  "legal il \<Longrightarrow> handles_rel R w (foldl (\<lambda>w a. terminate_handle os il a g kg w) w as)"
  by (induction "as" arbitrary: w) (auto intro: rel_refl rel_trans rel_terminate)

lemma rel_reap: "legal il \<Longrightarrow> handles_rel R w (reap_session_processes os il s kg w)"
  unfolding reap_session_processes_def Let_def
  by (rule rel_trans [OF rel_terminate_all rel_same]) auto

lemma rel_describe: "legal il \<Longrightarrow> handles_rel R w (snd (describe_state il pr a w))"
  by (auto simp: describe_state_def signal_num_def Let_def
      intro: rel_await rel_trans split: prod.splits process_state.splits)

lemma rel_drain:
  "legal il \<Longrightarrow> a \<in> A \<Longrightarrow> handles_rel R w (snd (drain_stdout il a mx w))"
  "legal il \<Longrightarrow> a \<in> A \<Longrightarrow> handles_rel R w (snd (drain_stderr il a mx w))"
  using R_drain_out [of a "proc_heap (await il w) a" mx] R_drain_err [of a "proc_heap (await il w) a" mx]
  by (auto simp: drain_stdout_def drain_stderr_def Let_def split: prod.splits
      intro!: rel_trans [OF rel_await rel_upd])

lemma rel_start: "handles_rel R w (snd (action_start os uuid sid s req w))"
  by (auto simp: action_start_def Let_def handles_rel_def R_refl cgroup_attach_pid_def
      split: option.splits sum.splits)

lemma rel_read:
  assumes "legal il" "session_procs w s \<subseteq> A"
  shows "handles_rel R w (snd (action_read os il s req w))"
proof (cases "find_process ''read'' s req w")
  case (Inr q)
  then obtain pr a where q: "find_process ''read'' s req w = Inr (pr, a)" by (cases q) auto
  then have aA: "a \<in> A" using find_process_owned assms(2) by blast
  obtain o1 w1 where o1: "drain_stdout il a (rq_max_bytes req) w = (o1, w1)"
    by (cases "drain_stdout il a (rq_max_bytes req) w")
  obtain e1 w2 where e1: "drain_stderr il a (rq_max_bytes req) w1 = (e1, w2)"
    by (cases "drain_stderr il a (rq_max_bytes req) w1")
  have r12: "handles_rel R w w2"
    using rel_trans [OF rel_drain(1) [OF assms(1) aA] rel_drain(2) [OF assms(1) aA]] o1 e1
    by (metis snd_conv)
  show ?thesis
  proof (cases "read_wait req o1 e1")
    case None
    then show ?thesis
      using q o1 e1 rel_trans [OF r12 rel_await [OF assms(1)]]
      by (simp add: action_read_def Let_def split: prod.splits)
  next
    case (Some ms)
    obtain o2 w4 where o2: "drain_stdout il a (rq_max_bytes req) (timed_await il ms w2) = (o2, w4)"
      by (cases "drain_stdout il a (rq_max_bytes req) (timed_await il ms w2)")
    obtain e2 w5 where e2: "drain_stderr il a (rq_max_bytes req) w4 = (e2, w5)"
      by (cases "drain_stderr il a (rq_max_bytes req) w4")
    have "handles_rel R (timed_await il ms w2) w4" "handles_rel R w4 w5"
      using rel_drain [OF assms(1) aA] o2 e2 by (metis snd_conv)+
    then have "handles_rel R w w5" using r12 rel_timed [OF assms(1)] rel_trans by blast
    then show ?thesis
      using q o1 e1 o2 e2 Some rel_trans [OF _ rel_await [OF assms(1)]]
      by (simp add: action_read_def Let_def split: prod.splits)
  qed
qed (simp add: action_read_def rel_refl)

lemma rel_wait: "legal il \<Longrightarrow> handles_rel R w (snd (action_wait il s req w))"
  by (auto simp: action_wait_def Let_def rel_refl
      intro: rel_describe rel_trans [OF rel_timed rel_describe] split: sum.splits)

lemma rel_write:
  assumes "legal il" "session_procs w s \<subseteq> A"
  shows "handles_rel R w (snd (action_write os il s req w))"
proof (cases "find_process ''write'' s req w")
  case (Inr q)
  then obtain pr a where q: "find_process ''write'' s req w = Inr (pr, a)" by (cases q) auto
  then have aA: "a \<in> A" using find_process_owned assms(2) by blast
  have slot: "R a h (h\<lparr>h_stdin := b\<rparr>)" for h b
    using R_stdin [where bs = "[]" and b = b and h = h, OF aA] by simp
  note aw = rel_await [OF assms(1)] and aw2 = rel_trans [OF rel_await [OF assms(1)] rel_await [OF assms(1)]]
  note aw3 = rel_trans [OF aw2 rel_await [OF assms(1)]]
  show ?thesis
    using rel_trans [OF aw2 rel_upd] rel_trans [OF aw3 rel_upd] R_stdin [OF aA]
    by (auto simp: q action_write_def Let_def rel_refl aw aw2 aw3 slot
        split: sum.splits prod.splits option.splits)
qed (simp add: action_write_def rel_refl)

lemma rel_signal: "legal il \<Longrightarrow> handles_rel R w (snd (action_signal os il s req w))"
  using send_signal_world
  by (auto simp: action_signal_def Let_def rel_refl send_signal_to_def
      intro: rel_sys rel_trans [OF rel_sys rel_describe] split: sum.splits option.splits prod.splits)

lemma rel_stop: "legal il \<Longrightarrow> handles_rel R w (snd (action_stop os il s req w))"
  by (auto simp: action_stop_def Let_def rel_refl
      intro: rel_trans [OF rel_terminate rel_describe] split: sum.splits)

lemma rel_action: "legal il \<Longrightarrow> session_procs w s \<subseteq> A \<Longrightarrow>
    handles_rel R w (snd (process_action_of os il uuid sid s req w))"
  by (simp add: process_action_of_def rel_start rel_read rel_wait rel_write rel_signal rel_stop rel_refl
      split: process_action.splits)

lemma rel_process:
  assumes "legal il" "\<And>s. resolve_session w sid = Inr s \<Longrightarrow> session_procs w s \<subseteq> A"
  shows "handles_rel R w (snd (tool_process os il uuid sid req w))"
proof (cases "resolve_session w sid")
  case (Inr s)
  then have "session_procs (touch s w) s \<subseteq> A"
    using assms(2) by (simp add: session_procs_def touch_def)
  then have "handles_rel R w (snd (process_action_of os il uuid sid s req (touch s w)))"
    using rel_trans [OF rel_same rel_action [OF assms(1)]] by (simp add: touch_def)
  with Inr show ?thesis by (simp add: tool_process_def Let_def rel_refl)
qed (simp add: tool_process_def Let_def rel_refl)

end

end
