(* ===== verification/Process_Props.thy ===== *)
theory Process_Props
  imports Process_Facts
begin

text \<open>
  The properties of the process tool: terminal states are final, end of file means the
  process has ended, what the actions report is the state of the handle, \<open>stop\<close> escalates
  from SIGTERM to SIGKILL within a bounded time, writes reach the child in order, sessions
  do not touch each other's processes. The locale \<open>handle_relation\<close> is interpreted on the
  evolution of a handle, on the bound of its buffers and on the footprint of a session.
\<close>

section \<open>Evolution of a handle\<close>

text \<open>The wait task's program point determines which fields it has already set.\<close>

definition handle_ok :: "handle \<Rightarrow> bool" where
  "handle_ok h \<longleftrightarrow>
     (case h_wait h of
        WaitChild \<Rightarrow> h_state h = Running \<and> \<not> sb_closed (h_stdout h) \<and> \<not> sb_closed (h_stderr h)
      | StoreState s \<Rightarrow> h_state h = Running \<and> s \<noteq> Running \<and> \<not> sb_closed (h_stdout h) \<and> \<not> sb_closed (h_stderr h)
      | CloseStdout \<Rightarrow> h_state h \<noteq> Running \<and> \<not> sb_closed (h_stdout h) \<and> \<not> sb_closed (h_stderr h)
      | CloseStderr \<Rightarrow> h_state h \<noteq> Running \<and> sb_closed (h_stdout h) \<and> \<not> sb_closed (h_stderr h)
      | _ \<Rightarrow> h_state h \<noteq> Running \<and> sb_closed (h_stdout h) \<and> sb_closed (h_stderr h))"

lemma new_handle_ok: "handle_ok (new_handle pr p cmd t cap)"
  by (simp add: handle_ok_def new_handle_def sb_new_def)

lemma state_of_result_terminal: "state_of_result r \<noteq> Running"
  by (cases r rule: state_of_result.cases) auto

lemma sb_close_closed [simp]: "sb_closed (sb_close g)"
  by (simp add: sb_close_def)

lemma sb_drain_frame [simp]:
  "sb_closed (snd (sb_drain mx g)) = sb_closed g" "sb_cap (snd (sb_drain mx g)) = sb_cap g"
  by (simp_all add: sb_drain_def Let_def)

lemma sb_drain_invar: "sb_invar g \<Longrightarrow> sb_invar (snd (sb_drain mx g))"
  by (auto simp: sb_drain_def sb_invar_def Let_def)

lemma sb_push_invar: "sb_invar g \<Longrightarrow> sb_invar (sb_push bs g)"
  using sb_push_exact by blast

lemma sb_close_invar: "sb_invar g \<Longrightarrow> sb_invar (sb_close g)"
  by (simp add: sb_invar_def sb_close_def)

lemma sb_close_cap [simp]: "sb_cap (sb_close g) = sb_cap g"
  by (simp add: sb_close_def)

definition evolves :: "handle \<Rightarrow> handle \<Rightarrow> bool" where
  "evolves h h' \<longleftrightarrow> (handle_ok h \<longrightarrow> handle_ok h' \<and> process_id h' = process_id h \<and> pid h' = pid h
     \<and> command_line h' = command_line h \<and> started_at h' = started_at h
     \<and> (h_state h \<noteq> Running \<longrightarrow> h_state h' = h_state h))"

lemma evolves_task: "task_step h h' \<Longrightarrow> evolves h h'"
  by (erule task_stepE)
    (auto simp: evolves_def handle_ok_def state_of_result_terminal split: wait_pc.splits)

interpretation lifecycle: handle_relation "\<lambda>_. evolves" UNIV
proof
  show "task_step h h' \<Longrightarrow> evolves h h'" for h h'
    by (rule evolves_task)
  show "evolves h (h\<lparr>h_stdout := snd (sb_drain mx (h_stdout h))\<rparr>)" for h mx
    by (auto simp: evolves_def handle_ok_def split: wait_pc.splits)
  show "evolves h (h\<lparr>h_stderr := snd (sb_drain mx (h_stderr h))\<rparr>)" for h mx
    by (auto simp: evolves_def handle_ok_def split: wait_pc.splits)
  show "evolves h (h\<lparr>h_input := h_input h @ bs, h_stdin := b\<rparr>)" for h bs b
    by (auto simp: evolves_def handle_ok_def split: wait_pc.splits)
qed (auto simp: evolves_def)

definition bounded :: "handle \<Rightarrow> handle \<Rightarrow> bool" where
  "bounded h h' \<longleftrightarrow> sb_cap (h_stdout h') = sb_cap (h_stdout h) \<and> sb_cap (h_stderr h') = sb_cap (h_stderr h)
     \<and> (sb_invar (h_stdout h) \<longrightarrow> sb_invar (h_stdout h'))
     \<and> (sb_invar (h_stderr h) \<longrightarrow> sb_invar (h_stderr h'))"

lemma bounded_task: "task_step h h' \<Longrightarrow> bounded h h'"
  by (erule task_stepE) (auto simp: bounded_def sb_push_invar sb_close_invar)

interpretation buffers: handle_relation "\<lambda>_. bounded" UNIV
proof
  show "task_step h h' \<Longrightarrow> bounded h h'" for h h'
    by (rule bounded_task)
  show "bounded h (h\<lparr>h_stdout := snd (sb_drain mx (h_stdout h))\<rparr>)" for h mx
    by (simp add: bounded_def sb_drain_invar)
  show "bounded h (h\<lparr>h_stderr := snd (sb_drain mx (h_stderr h))\<rparr>)" for h mx
    by (simp add: bounded_def sb_drain_invar)
qed (auto simp: bounded_def)

text \<open>Outside a set of addresses only background tasks act.\<close>

definition only_tasks :: "nat set \<Rightarrow> nat \<Rightarrow> handle \<Rightarrow> handle \<Rightarrow> bool" where
  "only_tasks A a h h' \<longleftrightarrow> a \<notin> A \<longrightarrow> task_step\<^sup>*\<^sup>* h h'"

interpretation footprint: handle_relation "only_tasks A" A for A
  by unfold_locales (auto simp: only_tasks_def)

section \<open>All handles of a world\<close>

definition procs_ok :: "world \<Rightarrow> bool" where
  "procs_ok w \<longleftrightarrow> (\<forall>a < proc_next w. handle_ok (proc_heap w a))"

definition caps_ok :: "world \<Rightarrow> bool" where
  "caps_ok w \<longleftrightarrow> (\<forall>a < proc_next w. sb_invar (h_stdout (proc_heap w a)) \<and> sb_invar (h_stderr (proc_heap w a)))"

lemma evolves_world:
  "handles_rel (\<lambda>_. evolves) w w' \<Longrightarrow> a < proc_next w \<Longrightarrow> handle_ok (proc_heap w a) \<Longrightarrow>
     handle_ok (proc_heap w' a) \<and> pid (proc_heap w' a) = pid (proc_heap w a)
     \<and> (h_state (proc_heap w a) \<noteq> Running \<longrightarrow> h_state (proc_heap w' a) = h_state (proc_heap w a))"
  by (simp add: handles_rel_def evolves_def)

lemma handles_rel_next: "handles_rel R w w' \<Longrightarrow> proc_next w \<le> proc_next w'"
  by (simp add: handles_rel_def)

text \<open>The handles a request creates: none, or one by \<open>start\<close>.\<close>

lemma start_new:
  "proc_next (snd (action_start os uuid sid s req w)) = proc_next w \<or>
   (\<exists>p cmd. proc_next (snd (action_start os uuid sid s req w)) = Suc (proc_next w)
      \<and> proc_heap (snd (action_start os uuid sid s req w)) (proc_next w)
          = new_handle uuid p cmd (now w) (buffer_bytes (process_cfg (app w))))"
  by (auto simp: action_start_def Let_def cgroup_attach_pid_def split: sum.splits option.splits)


section \<open>What the actions report\<close>

text \<open>A response describes a state: running, the exit code, the signal, exactly one of them.\<close>

definition reports :: "process_state \<Rightarrow> process_result \<Rightarrow> bool" where
  "reports st r \<longleftrightarrow>
     rs_running r = Some (st = Running)
     \<and> rs_exit_code r = (case st of Exited c \<Rightarrow> Some c | _ \<Rightarrow> None)
     \<and> rs_signal r = (case st of Terminated s \<Rightarrow> Some s | _ \<Rightarrow> None)"

lemma evolves_await:
  assumes "legal il" "a < proc_next w" "handle_ok (proc_heap w a)"
  shows "handle_ok (proc_heap (await il w) a)"
    "h_state (proc_heap w a) \<noteq> Running \<Longrightarrow> h_state (proc_heap (await il w) a) = h_state (proc_heap w a)"
    "pid (proc_heap (await il w) a) = pid (proc_heap w a)"
  using evolves_world [OF lifecycle.rel_await [OF assms(1)] assms(2,3)] by auto

lemma evolves_timed:
  assumes "legal il" "a < proc_next w" "handle_ok (proc_heap w a)"
  shows "handle_ok (proc_heap (timed_await il ms w) a)"
    "h_state (proc_heap w a) \<noteq> Running \<Longrightarrow> h_state (proc_heap (timed_await il ms w) a) = h_state (proc_heap w a)"
    "pid (proc_heap (timed_await il ms w) a) = pid (proc_heap w a)"
  using evolves_world [OF lifecycle.rel_timed [OF assms(1)] assms(2,3)] by auto

lemma describe_state_reports:
  assumes "legal il" "a < proc_next w" "handle_ok (proc_heap w a)"
    and "describe_state il pr a w = (Inr r, w')"
  shows "reports (h_state (proc_heap w' a)) r"
proof -
  let ?w = "await il w"
  have ok: "handle_ok (proc_heap ?w a)" "a < proc_next ?w"
    using evolves_await [OF assms(1-3)] assms(2) by (auto simp: await_frame [OF assms(1)])
  show ?thesis
    using assms(4) evolves_await(2) [OF assms(1) ok(2,1)]
    by (cases "h_state (proc_heap ?w a)")
      (auto simp: describe_state_def signal_num_def process_running_and_code_def reports_def
        process_result_default_def Let_def)
qed

lemma describe_state_ok: "\<exists>r. fst (describe_state il pr a w) = Inr r"
  by (auto simp: describe_state_def Let_def split: prod.splits)

lemma describe_state_trace:
  assumes "legal il"
  shows "trace (snd (describe_state il pr a w)) = trace w" "waits (snd (describe_state il pr a w)) = waits w"
  by (auto simp: describe_state_def signal_num_def await_frame [OF assms] Let_def
      split: prod.splits process_state.splits)

text \<open>The handles of a session exist.\<close>

definition session_ok :: "world \<Rightarrow> nat \<Rightarrow> bool" where
  "session_ok w s \<longleftrightarrow> (\<forall>a \<in> session_procs w s. a < proc_next w)"

lemma find_process_lt: "session_ok w s \<Longrightarrow> find_process verb s req w = Inr (pr, a) \<Longrightarrow> a < proc_next w"
  using find_process_owned by (auto simp: session_ok_def)

lemma find_process_pr: "find_process verb s req w = Inr (pr, a) \<Longrightarrow>
    rq_process_id req = Some pr \<and> map_of (processes (sess_heap w s)) pr = Some a"
  by (auto simp: find_process_def result_simps)

section \<open>Termination\<close>

lemma terminate_proc_next: "legal il \<Longrightarrow> proc_next (terminate_handle os il a g kg w) = proc_next w"
  using tables_same_terminate by (auto simp: tables_same_def)

text \<open>
  The signals a termination sends and the time it takes: nothing for a process seen as
  ended, SIGTERM otherwise, then SIGKILL exactly if it is seen running after the grace time.
\<close>

lemma terminate_trace:
  fixes os il a g kg w
  assumes "legal il" "a < proc_next w" "handle_ok (proc_heap w a)"
  defines "t \<equiv> signal_target (pid (proc_heap w a)) kg"
  defines "w' \<equiv> terminate_handle os il a g kg w"
  shows "(\<not> snapshot_running (proc_heap w a) \<and> trace w' = trace w \<and> waits w' = waits w)
    \<or> (snapshot_running (proc_heap w a) \<and> trace w' = trace w @ [Kill t SIGTERM]
        \<and> h_state (proc_heap w' a) \<noteq> Running \<and> (\<exists>ws. waits w' = waits w @ ws \<and> sum_list ws \<le> millis g))
    \<or> (snapshot_running (proc_heap w a) \<and> trace w' = trace w @ [Kill t SIGTERM, Kill t SIGKILL]
        \<and> (\<exists>ws. waits w' = waits w @ ws \<and> sum_list ws \<le> millis g + 2000))"
proof (cases "snapshot_running (proc_heap w a)")
  case True
  let ?w1 = "sys (Kill t SIGTERM) w"
  define w2 where "w2 = (if g > 0 then timed_await il (millis g) ?w1 else ?w1)"
  have pid2: "pid (proc_heap w2 a) = pid (proc_heap w a)"
    using evolves_timed(3) [OF assms(1), of a ?w1] assms(2,3) by (simp add: w2_def)
  have w2: "trace w2 = trace w @ [Kill t SIGTERM]" "\<exists>ws. waits w2 = waits w @ ws \<and> sum_list ws \<le> millis g"
    by (simp_all add: w2_def timed_await_frame [OF assms(1)])
  have "w' = (if snapshot_running (proc_heap w2 a)
      then timed_await il 2000 (sys (Kill (signal_target (pid (proc_heap w2 a)) kg) SIGKILL) w2) else w2)"
    using True by (simp add: w'_def terminate_handle_def send_signal_world Let_def t_def w2_def)
  then have w': "w' = (if snapshot_running (proc_heap w2 a)
      then timed_await il 2000 (sys (Kill t SIGKILL) w2) else w2)"
    by (simp add: pid2 t_def)
  show ?thesis
  proof (cases "snapshot_running (proc_heap w2 a)")
    case True
    with \<open>snapshot_running (proc_heap w a)\<close> w' w2 show ?thesis
      by (fastforce simp: timed_await_frame [OF assms(1)])
  next
    case False
    then have "h_state (proc_heap w2 a) \<noteq> Running"
      by (auto simp: snapshot_running_def split: if_splits)
    with False \<open>snapshot_running (proc_heap w a)\<close> w' w2 show ?thesis by simp
  qed
qed (simp add: w'_def terminate_handle_def)


section \<open>Properties of the actions\<close>

text \<open>\<open>wait\<close>, \<open>signal\<close> and \<open>stop\<close> end by describing the handle of the process they name.\<close>

lemma wait_describes:
  assumes "legal il" "action_wait il s req w = (Inr r, w')"
  shows "\<exists>pr a w1. find_process ''wait'' s req w = Inr (pr, a) \<and> handles_rel (\<lambda>_. evolves) w w1
    \<and> describe_state il pr a w1 = (Inr r, w')"
proof (cases "find_process ''wait'' s req w")
  case (Inr q)
  then show ?thesis
    using assms(2) lifecycle.rel_timed [OF assms(1)] lifecycle.rel_refl
    by (cases q) (auto simp: action_wait_def Let_def split: if_splits)
qed (use assms(2) in \<open>simp add: action_wait_def\<close>)

lemma stop_describes:
  assumes "legal il" "action_stop os il s req w = (Inr r, w')"
  shows "\<exists>pr a w1. find_process ''stop'' s req w = Inr (pr, a)
    \<and> w1 = terminate_handle os il a (clamp_rat 0 60 (case rq_timeout_sec req of Some t \<Rightarrow> t | None \<Rightarrow> 5))
        (kill_group (process_cfg (app w))) w
    \<and> describe_state il pr a w1 = (Inr r, w')"
proof (cases "find_process ''stop'' s req w")
  case (Inr q)
  then show ?thesis
    using assms(2) by (cases q) (auto simp: action_stop_def Let_def)
qed (use assms(2) in \<open>simp add: action_stop_def\<close>)

lemma signal_describes:
  assumes "action_signal os il s req w = (Inr r, w')"
  shows "\<exists>pr a w1. rq_process_id req = Some pr \<and> map_of (processes (sess_heap w s)) pr = Some a
    \<and> handles_rel (\<lambda>_. evolves) w w1 \<and> describe_state il pr a w1 = (Inr r, w')"
  using assms lifecycle.rel_sys
  by (fastforce simp: action_signal_def result_simps send_signal_to_def Let_def
      split: sum.splits option.splits if_splits prod.splits)

lemma action_describes:
  assumes "legal il" "rq_action req \<in> {Wait, Signal, Stop}"
    and "process_action_of os il uuid sid s req w = (Inr r, w')"
  shows "\<exists>pr a w1. rq_process_id req = Some pr \<and> map_of (processes (sess_heap w s)) pr = Some a
    \<and> handles_rel (\<lambda>_. evolves) w w1 \<and> describe_state il pr a w1 = (Inr r, w')"
proof -
  from assms(2) consider "rq_action req = Wait" | "rq_action req = Signal" | "rq_action req = Stop" by auto
  then show ?thesis
  proof cases
    case 1
    with assms(3) show ?thesis
      using wait_describes [OF assms(1), of s req w r w'] find_process_pr
      by (fastforce simp: process_action_of_def)
  next
    case 2
    with assms(3) show ?thesis
      using signal_describes [of os il s req w r w'] by (simp add: process_action_of_def)
  next
    case 3
    with assms(3) show ?thesis
      using stop_describes [OF assms(1), of os s req w r w'] find_process_pr lifecycle.rel_terminate [OF assms(1)]
      by (fastforce simp: process_action_of_def)
  qed
qed

text \<open>State reports. For every interleaving with the background tasks, a successful
  \<open>wait\<close>, \<open>signal\<close> or \<open>stop\<close> answers with the state the process has when the answer is made:
  either running, or ended with exactly its exit code or exactly its signal.\<close>

theorem actions_report_state:
  assumes "legal il" "procs_ok w" "session_ok w s"
    and "rq_action req \<in> {Wait, Signal, Stop}"
    and "process_action_of os il uuid sid s req w = (Inr r, w')"
  shows "\<exists>pr a. rq_process_id req = Some pr \<and> map_of (processes (sess_heap w s)) pr = Some a
    \<and> reports (h_state (proc_heap w' a)) r"
proof -
  obtain pr a w1 where k: "rq_process_id req = Some pr" "map_of (processes (sess_heap w s)) pr = Some a"
    "handles_rel (\<lambda>_. evolves) w w1" "describe_state il pr a w1 = (Inr r, w')"
    using action_describes [OF assms(1,4,5)] by blast
  then have lt: "a < proc_next w"
    using assms(3) by (force simp: session_ok_def session_procs_def dest: map_of_SomeD)
  then have "handle_ok (proc_heap w1 a)"
    using evolves_world [OF k(3)] assms(2) by (simp add: procs_ok_def)
  then show ?thesis
    using describe_state_reports [OF assms(1) _ _ k(4)] handles_rel_next [OF k(3)] lt k(1,2) by auto
qed

text \<open>A small concrete daemon for the witnesses: one session with one process.\<close>

definition demo_os :: os where
  "demo_os = \<lparr>os_kill = (\<lambda>w t s. None), os_strerror = (\<lambda>n. ''error''),
     os_spawn = (\<lambda>w c. Inr (Some 100)), os_stdin_write = (\<lambda>h b. None),
     os_b64_encode = of_bytes, os_b64_decode = (\<lambda>s. Inr (as_bytes s)),
     os_uppercase = (\<lambda>s. s), os_cg_mkdir = (\<lambda>p. True),
     os_output = (\<lambda>w c t. (Some (Inr ([], [], Some 0)), files w))\<rparr>"

definition demo_req :: "process_action \<Rightarrow> process_req" where
  "demo_req act = \<lparr>rq_action = act, rq_process_id = Some ''p'', rq_command = None, rq_args = None,
     rq_cwd = None, rq_env = None, rq_input = None, rq_encoding = Utf8, rq_eof = False,
     rq_signal = None, rq_timeout_sec = None, rq_max_bytes = None\<rparr>"

definition demo_app :: app_state where
  "demo_app = \<lparr>sandbox_root = [RootDir, Normal ''sandboxes''], session_root = [RootDir, Normal ''sandboxes''],
     chroot_root = None, sessions = [(''s'', 0)],
     isolation = \<lparr>iso_chroot = False, iso_seccomp = False, iso_cgroup = False, cgroup_root = None\<rparr>,
     seccomp_filter = None,
     process_cfg = \<lparr>enabled = True, max_per_session = 32, buffer_bytes = 16, idle_reap_sec = 3600,
       kill_group = True, force_unsupported = False\<rparr>\<rparr>"

definition demo_world :: "handle \<Rightarrow> world" where
  "demo_world h = \<lparr>app = demo_app,
     sess_heap = (\<lambda>_. \<lparr>s_cwd = [RootDir, Normal ''sandboxes'', Normal ''s''], last_touched = 0,
                      processes = [(''p'', 0)]\<rparr>),
     sess_next = 1, proc_heap = (\<lambda>_. h), proc_next = 1, now = 10 ^ 9, files = [], trace = [],
     waits = [], awaits = 0\<rparr>"

definition demo_running :: handle where
  "demo_running = new_handle ''p'' 100 ''cat'' 0 16"

definition demo_exited :: handle where
  "demo_exited = demo_running\<lparr>h_state := Exited 7, h_wait := TaskDone,
     h_stdout := sb_close (sb_push [104, 105] (sb_new 16)), h_stderr := sb_close (sb_new 16)\<rparr>"

lemmas demo_defs = demo_os_def demo_req_def demo_app_def demo_world_def demo_running_def demo_exited_def

lemma demo_handles_ok [simp]: "handle_ok demo_running" "handle_ok demo_exited"
  by (simp_all add: handle_ok_def demo_defs new_handle_def sb_new_def)

lemma demo_world_ok [simp]: "handle_ok h \<Longrightarrow> procs_ok (demo_world h)" "session_ok (demo_world h) 0"
  by (simp_all add: procs_ok_def session_ok_def session_procs_def demo_world_def)

abbreviation idle :: interlude where "idle \<equiv> \<lambda>n w. w"

theorem actions_report_state_witness:
  "\<exists>r w'. process_action_of demo_os idle ''u'' ''s'' 0 (demo_req Wait) (demo_world demo_exited) = (Inr r, w')
     \<and> rs_exit_code r = Some 7 \<and> reports (Exited 7) r"
proof -
  obtain r w' where run: "process_action_of demo_os idle ''u'' ''s'' 0 (demo_req Wait) (demo_world demo_exited) = (Inr r, w')"
    and w': "proc_heap w' 0 = demo_exited" and r: "rs_exit_code r = Some 7"
    by (simp add: process_action_of_def action_wait_def find_process_def describe_state_def signal_num_def
        demo_defs snapshot_running_def await_def process_running_and_code_def
        process_result_default_def new_handle_def Let_def)
  have "reports (h_state (proc_heap w' 0)) r"
    using actions_report_state [OF legal_idle _ _ _ run]
    by (auto simp: demo_req_def demo_world_def procs_ok_def session_ok_def session_procs_def split: if_splits)
  then show ?thesis using run w' r by (auto simp: demo_exited_def)
qed

text \<open>C27: Stop escalates. For every interleaving, \<open>stop\<close> only ever signals the process it
  names: nothing when the process is seen to have ended, else SIGTERM first and SIGKILL at
  most once after it. If the answer still says running, SIGKILL was sent. The timed waits of
  one \<open>stop\<close> add up to at most 62 seconds.\<close>

theorem stop_escalates:
  assumes "legal il" "procs_ok w" "session_ok w s"
    and "action_stop os il s req w = (Inr r, w')"
  shows "\<exists>a ks ws. map_of (processes (sess_heap w s)) (the (rq_process_id req)) = Some a
    \<and> trace w' = trace w @ map (Kill (signal_target (pid (proc_heap w a)) (kill_group (process_cfg (app w))))) ks
    \<and> ks \<in> {[], [SIGTERM], [SIGTERM, SIGKILL]}
    \<and> (h_state (proc_heap w a) \<noteq> Running \<and> \<not> h_locked (proc_heap w a) \<longrightarrow> ks = [])
    \<and> (rs_running r = Some True \<longrightarrow> ks = [SIGTERM, SIGKILL])
    \<and> waits w' = waits w @ ws \<and> sum_list ws \<le> 62000"
proof -
  let ?g = "clamp_rat 0 60 (case rq_timeout_sec req of Some t \<Rightarrow> t | None \<Rightarrow> 5)"
  let ?kg = "kill_group (process_cfg (app w))"
  obtain pr a where fp: "find_process ''stop'' s req w = Inr (pr, a)"
    and d: "describe_state il pr a (terminate_handle os il a ?g ?kg w) = (Inr r, w')"
    using stop_describes [OF assms(1,4)] by blast
  let ?w1 = "terminate_handle os il a ?g ?kg w"
  have a: "a < proc_next w" "handle_ok (proc_heap w a)"
    using find_process_lt [OF assms(3) fp] assms(2) by (auto simp: procs_ok_def)
  have ms: "millis ?g \<le> 60000"
    using millis_le [of ?g 60] clamp_rat_bounds [of 0 60] by simp
  have w': "trace w' = trace ?w1" "waits w' = waits ?w1"
    using describe_state_trace [OF assms(1), of pr a ?w1] d by auto
  have lt1: "a < proc_next ?w1" using a(1) by (simp add: terminate_proc_next [OF assms(1)])
  have ok1: "handle_ok (proc_heap ?w1 a)"
    using evolves_world [OF lifecycle.rel_terminate [OF assms(1)] a] by blast
  have rep: "reports (h_state (proc_heap w' a)) r"
    by (rule describe_state_reports [OF assms(1) lt1 ok1 d])
  have w1': "handles_rel (\<lambda>_. evolves) ?w1 w'"
    using lifecycle.rel_describe [OF assms(1), of ?w1 pr a] d by simp
  have stays: "rs_running r = Some True \<Longrightarrow> h_state (proc_heap ?w1 a) = Running"
    using evolves_world [OF w1' lt1 ok1] rep by (auto simp: reports_def)
  have m: "map_of (processes (sess_heap w s)) (the (rq_process_id req)) = Some a"
    using find_process_pr [OF fp] by simp
  from terminate_trace [OF assms(1) a, of os ?g ?kg]
  consider (none) "\<not> snapshot_running (proc_heap w a)" "trace ?w1 = trace w" "waits ?w1 = waits w"
    | (soft) ws where "snapshot_running (proc_heap w a)" "h_state (proc_heap ?w1 a) \<noteq> Running"
        "trace ?w1 = trace w @ [Kill (signal_target (pid (proc_heap w a)) ?kg) SIGTERM]"
        "waits ?w1 = waits w @ ws" "sum_list ws \<le> millis ?g"
    | (hard) ws where "snapshot_running (proc_heap w a)"
        "trace ?w1 = trace w @ [Kill (signal_target (pid (proc_heap w a)) ?kg) SIGTERM,
           Kill (signal_target (pid (proc_heap w a)) ?kg) SIGKILL]"
        "waits ?w1 = waits w @ ws" "sum_list ws \<le> millis ?g + 2000"
    by blast
  then show ?thesis
  proof cases
    case none
    then have "rs_running r \<noteq> Some True"
      using stays by (auto simp: terminate_handle_def snapshot_running_def split: if_splits)
    with none m w' show ?thesis by (intro exI [of _ a] exI [of _ "[]"]) simp
  next
    case soft
    then have "rs_running r \<noteq> Some True" using stays by auto
    with soft m w' ms show ?thesis
      by (intro exI [of _ a] exI [of _ "[SIGTERM]"] exI [of _ ws]) (auto simp: snapshot_running_def split: if_splits)
  next
    case hard
    with m w' ms show ?thesis
      by (intro exI [of _ a] exI [of _ "[SIGTERM, SIGKILL]"] exI [of _ ws]) (auto simp: snapshot_running_def split: if_splits)
  qed
qed

theorem stop_escalates_witness:
  "\<exists>r w'. action_stop demo_os idle 0 (demo_req Stop) (demo_world demo_running) = (Inr r, w')
     \<and> rs_running r = Some True \<and> trace w' = [Kill (- 100) SIGTERM, Kill (- 100) SIGKILL]
     \<and> sum_list (waits w') \<le> 62000"
proof -
  obtain r w' where run: "action_stop demo_os idle 0 (demo_req Stop) (demo_world demo_running) = (Inr r, w')"
    and r: "rs_running r = Some True"
    by (simp add: action_stop_def find_process_def describe_state_def signal_num_def terminate_handle_def
        demo_defs snapshot_running_def await_def process_running_and_code_def timed_await_def
        process_result_default_def new_handle_def Let_def send_signal_to_def sys_def clamp_rat_def)
  have t: "signal_target (pid demo_running) True = - 100"
    by (simp add: signal_target_def demo_running_def new_handle_def)
  show ?thesis
    using stop_escalates [OF legal_idle _ _ run] run r t
    by (auto simp: demo_world_def demo_app_def demo_req_def procs_ok_def session_ok_def session_procs_def)
qed

section \<open>End of file\<close>

text \<open>A drain reports end of file only when the wait task has closed the stream.\<close>

lemma drain_eof:
  assumes "legal il" "a < proc_next w" "handle_ok (proc_heap w a)"
  shows "drain_stdout il a mx w = ((out, t, True), w') \<Longrightarrow> h_state (proc_heap w' a) \<noteq> Running"
    "drain_stderr il a mx w = ((out, t, True), w') \<Longrightarrow> h_state (proc_heap w' a) \<noteq> Running"
  using evolves_await(1) [OF assms]
  by (auto simp: drain_stdout_def drain_stderr_def sb_drain_def Let_def handle_ok_def split: wait_pc.splits)

text \<open>The drains of one read, first or second round, and the state it reports.\<close>

lemma read_final_drains:
  assumes "legal il" "action_read os il s req w = (Inr r, w')"
  shows "\<exists>pr a w0 o1 t1 e1 w1 o2 t2 e2 w2. find_process ''read'' s req w = Inr (pr, a)
    \<and> handles_rel (\<lambda>_. evolves) w w0
    \<and> drain_stdout il a (rq_max_bytes req) w0 = ((o1, t1, e1), w1)
    \<and> drain_stderr il a (rq_max_bytes req) w1 = ((o2, t2, e2), w2)
    \<and> w' = await il w2 \<and> rs_eof_stdout r = Some e1 \<and> rs_eof_stderr r = Some e2
    \<and> rs_running r = Some (h_state (proc_heap w' a) = Running)"
proof -
  from assms(2) obtain pr a where fp: "find_process ''read'' s req w = Inr (pr, a)"
    by (auto simp: action_read_def split: sum.splits)
  obtain o1 t1 e1 w1 where d1: "drain_stdout il a (rq_max_bytes req) w = ((o1, t1, e1), w1)"
    by (cases "drain_stdout il a (rq_max_bytes req) w") auto
  obtain o2 t2 e2 w2 where d2: "drain_stderr il a (rq_max_bytes req) w1 = ((o2, t2, e2), w2)"
    by (cases "drain_stderr il a (rq_max_bytes req) w1") auto
  have run: "process_running_and_code h = (h_state h = Running, case h_state h of Exited c \<Rightarrow> Some c | _ \<Rightarrow> None)" for h
    by (simp add: process_running_and_code_def split: process_state.splits)
  show ?thesis
  proof (cases "read_wait req (o1, t1, e1) (o2, t2, e2)")
    case None
    then show ?thesis
      using assms(2) fp d1 d2 lifecycle.rel_refl
      by (fastforce simp: action_read_def Let_def run process_result_default_def split: prod.splits)
  next
    case (Some ms)
    let ?w = "timed_await il ms w2"
    obtain o3 t3 e3 w3 where d3: "drain_stdout il a (rq_max_bytes req) ?w = ((o3, t3, e3), w3)"
      by (cases "drain_stdout il a (rq_max_bytes req) ?w") auto
    obtain o4 t4 e4 w4 where d4: "drain_stderr il a (rq_max_bytes req) w3 = ((o4, t4, e4), w4)"
      by (cases "drain_stderr il a (rq_max_bytes req) w3") auto
    have "handles_rel (\<lambda>_. evolves) w ?w"
      using lifecycle.rel_drain(1) [OF assms(1), of a w "rq_max_bytes req"]
        lifecycle.rel_drain(2) [OF assms(1), of a w1 "rq_max_bytes req"]
        lifecycle.rel_timed [OF assms(1), of w2 ms] d1 d2 lifecycle.rel_trans
      by (metis UNIV_I snd_conv)
    with Some show ?thesis
      using assms(2) fp d1 d2 d3 d4
      by (fastforce simp: action_read_def Let_def run process_result_default_def split: prod.splits)
  qed
qed

text \<open>C34: End of file. When a read reports end of file on one of the streams, the process
  has ended and the same answer says so.\<close>

theorem eof_means_ended:
  assumes "legal il" "procs_ok w" "session_ok w s"
    and "action_read os il s req w = (Inr r, w')"
    and "rs_eof_stdout r = Some True \<or> rs_eof_stderr r = Some True"
  shows "rs_running r = Some False"
proof -
  obtain pr a w0 o1 t1 e1 w1 o2 t2 e2 w2 where fp: "find_process ''read'' s req w = Inr (pr, a)"
    and w0: "handles_rel (\<lambda>_. evolves) w w0"
    and d1: "drain_stdout il a (rq_max_bytes req) w0 = ((o1, t1, e1), w1)"
    and d2: "drain_stderr il a (rq_max_bytes req) w1 = ((o2, t2, e2), w2)"
    and w': "w' = await il w2" and eof: "rs_eof_stdout r = Some e1" "rs_eof_stderr r = Some e2"
    and run: "rs_running r = Some (h_state (proc_heap w' a) = Running)"
    using read_final_drains [OF assms(1,4)] by blast
  have a: "a < proc_next w" "handle_ok (proc_heap w a)"
    using find_process_lt [OF assms(3) fp] assms(2) by (auto simp: procs_ok_def)
  have s0: "a < proc_next w0" "handle_ok (proc_heap w0 a)"
    using evolves_world [OF w0 a] handles_rel_next [OF w0] a(1) by auto
  have r1: "handles_rel (\<lambda>_. evolves) w0 w1" and r2: "handles_rel (\<lambda>_. evolves) w1 w2"
    using lifecycle.rel_drain [OF assms(1)] d1 d2 by (metis UNIV_I snd_conv)+
  have s1: "a < proc_next w1" "handle_ok (proc_heap w1 a)"
    using evolves_world [OF r1 s0] handles_rel_next [OF r1] s0(1) by auto
  have s2: "a < proc_next w2" "handle_ok (proc_heap w2 a)"
    using evolves_world [OF r2 s1] handles_rel_next [OF r2] s1(1) by auto
  have "h_state (proc_heap w2 a) \<noteq> Running"
    using assms(5) eof drain_eof(1) [OF assms(1) s0] drain_eof(2) [OF assms(1) s1] d1 d2
      evolves_world [OF r2 s1] by auto
  then show ?thesis using evolves_await(2) [OF assms(1) s2] run w' by simp
qed

theorem eof_means_ended_witness:
  "\<exists>r w'. action_read demo_os idle 0 (demo_req Read) (demo_world demo_exited) = (Inr r, w')
     \<and> rs_eof_stdout r = Some True \<and> rs_running r = Some False"
proof -
  obtain r w' where run: "action_read demo_os idle 0 (demo_req Read) (demo_world demo_exited) = (Inr r, w')"
    and r: "rs_eof_stdout r = Some True"
    by (simp add: action_read_def find_process_def drain_stdout_def drain_stderr_def await_def read_wait_def
        demo_defs sb_drain_def sb_new_def sb_close_def sb_push_def sb_push_byte_def upd_handle_def
        process_running_and_code_def process_result_default_def new_handle_def Let_def
        from_utf8_lossy_def of_bytes_def utf8_seq_def utf8_width_def)
  show ?thesis
    using eof_means_ended [OF legal_idle _ _ run] run r
    by (auto simp: demo_world_def procs_ok_def session_ok_def session_procs_def)
qed

end
