(* ===== verification/Process_Sessions.thy ===== *)
theory Process_Sessions
  imports Process_Props
begin

text \<open>
  The process tool seen from a session: what \<open>start\<close> creates and under which sandbox layers,
  how writes reach the child, that a request touches only the processes of its own session,
  and the signal names. Ends with two behaviours of the wait task that the documentation does
  not promise.
\<close>

section \<open>Quiet operations\<close>

text \<open>Operations that neither change the tables nor call the kernel.\<close>

definition quiet :: "world \<Rightarrow> world \<Rightarrow> bool" where
  "quiet w w' \<longleftrightarrow> tables_same w w' \<and> trace w' = trace w"

lemma quiet_refl [simp]: "quiet w w"
  by (simp add: quiet_def)

lemma quiet_trans: "quiet w1 w2 \<Longrightarrow> quiet w2 w3 \<Longrightarrow> quiet w1 w3"
  by (auto simp: quiet_def intro: tables_same_trans)

lemma quiet_await: "legal il \<Longrightarrow> quiet w (await il w)"
  by (simp add: quiet_def tables_same_await await_frame)

lemma quiet_timed: "legal il \<Longrightarrow> quiet w (timed_await il ms w)"
  by (simp add: quiet_def tables_same_timed timed_await_frame)

lemma quiet_upd: "quiet w (upd_handle a f w)"
  by (simp add: quiet_def tables_same_def)

lemma quiet_describe: "legal il \<Longrightarrow> quiet w (snd (describe_state il pr a w))"
  by (simp add: quiet_def tables_same_describe describe_state_trace)

lemma quiet_drain:
  "legal il \<Longrightarrow> quiet w (snd (drain_stdout il a mx w))"
  "legal il \<Longrightarrow> quiet w (snd (drain_stderr il a mx w))"
  by (auto simp: drain_stdout_def drain_stderr_def Let_def split: prod.splits
      intro!: quiet_trans [OF quiet_await quiet_upd])

lemma quiet_read:
  assumes "legal il"
  shows "quiet w (snd (action_read os il s req w))"
proof (cases "find_process ''read'' s req w")
  case (Inr q)
  then obtain pr a where q: "find_process ''read'' s req w = Inr (pr, a)" by (cases q) auto
  obtain o1 w1 where o1: "drain_stdout il a (rq_max_bytes req) w = (o1, w1)"
    by (cases "drain_stdout il a (rq_max_bytes req) w")
  obtain e1 w2 where e1: "drain_stderr il a (rq_max_bytes req) w1 = (e1, w2)"
    by (cases "drain_stderr il a (rq_max_bytes req) w1")
  have r12: "quiet w w2"
    using quiet_trans [OF quiet_drain(1) [OF assms] quiet_drain(2) [OF assms]] o1 e1 by (metis snd_conv)
  show ?thesis
  proof (cases "read_wait req o1 e1")
    case None
    then show ?thesis
      using q o1 e1 quiet_trans [OF r12 quiet_await [OF assms]]
      by (simp add: action_read_def Let_def split: prod.splits)
  next
    case (Some ms)
    obtain o2 w4 where o2: "drain_stdout il a (rq_max_bytes req) (timed_await il ms w2) = (o2, w4)"
      by (cases "drain_stdout il a (rq_max_bytes req) (timed_await il ms w2)")
    obtain e2 w5 where e2: "drain_stderr il a (rq_max_bytes req) w4 = (e2, w5)"
      by (cases "drain_stderr il a (rq_max_bytes req) w4")
    have "quiet (timed_await il ms w2) w4" "quiet w4 w5"
      using quiet_drain [OF assms] o2 e2 by (metis snd_conv)+
    then have "quiet w w5" using r12 quiet_timed [OF assms] quiet_trans by blast
    then show ?thesis
      using q o1 e1 o2 e2 Some quiet_trans [OF _ quiet_await [OF assms]]
      by (simp add: action_read_def Let_def split: prod.splits)
  qed
qed (simp add: action_read_def)

lemma quiet_write:
  assumes "legal il"
  shows "quiet w (snd (action_write os il s req w))"
proof -
  note aw = quiet_await [OF assms] and aw2 = quiet_trans [OF quiet_await [OF assms] quiet_await [OF assms]]
  note aw3 = quiet_trans [OF aw2 quiet_await [OF assms]]
  show ?thesis
    using quiet_trans [OF aw2 quiet_upd] quiet_trans [OF aw3 quiet_upd]
    by (auto simp: action_write_def Let_def aw aw2 aw3 split: sum.splits prod.splits option.splits)
qed

lemma quiet_wait: "legal il \<Longrightarrow> quiet w (snd (action_wait il s req w))"
  by (auto simp: action_wait_def Let_def intro: quiet_describe quiet_trans [OF quiet_timed quiet_describe]
      split: sum.splits)

section \<open>Writes\<close>

text \<open>Background tasks never touch the child's input.\<close>

definition same_input :: "handle \<Rightarrow> handle \<Rightarrow> bool" where
  "same_input h h' \<longleftrightarrow> h_input h' = h_input h \<and> h_stdin h' = h_stdin h"

interpretation input: handle_relation "\<lambda>_. same_input" "{}"
proof
  show "task_step h h' \<Longrightarrow> same_input h h'" for h h'
    by (erule task_stepE) (auto simp: same_input_def)
qed (auto simp: same_input_def)

lemma await_input:
  assumes "legal il" "a < proc_next w"
  shows "h_input (proc_heap (await il w) a) = h_input (proc_heap w a)"
    "h_stdin (proc_heap (await il w) a) = h_stdin (proc_heap w a)" "a < proc_next (await il w)"
  using input.rel_await [OF assms(1), of w] assms
  by (auto simp: handles_rel_def same_input_def await_frame)

text \<open>A write is accepted when it answers that the process runs.\<close>

definition accepted :: "process_result result \<Rightarrow> bool" where
  "accepted res \<longleftrightarrow> (case res of Inr r \<Rightarrow> rs_running r = Some True | Inl _ \<Rightarrow> False)"

definition write_bytes :: "os \<Rightarrow> process_req \<Rightarrow> bytes" where
  "write_bytes os req = (case decode_input os req of Inr bs \<Rightarrow> bs | Inl _ \<Rightarrow> [])"

lemma write_step:
  assumes "legal il" "session_ok w s" "rq_process_id req = Some pr"
    and "map_of (processes (sess_heap w s)) pr = Some a"
    and "action_write os il s req w = (res, w')"
  shows "h_input (proc_heap w' a) = h_input (proc_heap w a) @ (if accepted res then write_bytes os req else [])
    \<and> h_stdin (proc_heap w' a) = (if accepted res then \<not> rq_eof req else h_stdin (proc_heap w a))
    \<and> (accepted res \<longrightarrow> h_stdin (proc_heap w a))"
proof -
  have fp: "find_process ''write'' s req w = Inr (pr, a)"
    using assms(3,4) by (simp add: find_process_def)
  have a: "a < proc_next w" using find_process_lt [OF assms(2) fp] .
  note i1 = await_input [OF assms(1) a]
  note i2 = await_input [OF assms(1) i1(3)]
  note i3 = await_input [OF assms(1) i2(3)]
  show ?thesis
    using assms(5) i1 i2 i3
    by (auto simp: action_write_def fp accepted_def write_bytes_def process_result_default_def Let_def
        process_running_and_code_def
        split: sum.splits option.splits if_splits process_state.splits)
qed

text \<open>A sequence of write requests to one session, with their answers.\<close>

fun run_writes :: "os \<Rightarrow> interlude \<Rightarrow> nat \<Rightarrow> process_req list \<Rightarrow> world \<Rightarrow> process_result result list \<times> world" where
  "run_writes os il s [] w = ([], w)"
| "run_writes os il s (q # qs) w =
     (let (res, w1) = action_write os il s q w; (rest, w2) = run_writes os il s qs w1
      in (res # rest, w2))"

definition accepted_writes :: "process_req list \<Rightarrow> process_result result list \<Rightarrow> process_req list" where
  "accepted_writes qs res = map fst (filter (\<lambda>(q, r). accepted r) (zip qs res))"



section \<open>What start creates\<close>

text \<open>The sandbox layers of a command of session \<open>sid\<close> whose directory is \<open>cwd\<close>.\<close>

definition sandboxed :: "app_state \<Rightarrow> string \<Rightarrow> path \<Rightarrow> command \<Rightarrow> bool" where
  "sandboxed st sid cwd c \<longleftrightarrow>
     c_kill_on_drop c
     \<and> (case chroot_root st of
          Some r \<Rightarrow> c_current_dir c = None
        | None \<Rightarrow> (\<exists>ns. c_current_dir c = Some (cwd @ map Normal ns)))
     \<and> (\<exists>ops. set ops \<subseteq> {Setsid} \<and> c_pre_exec c =
          (case chroot_root st of Some r \<Rightarrow> [Chroot (path_str r), Chdir (''/sessions/'' @ sid)] | None \<Rightarrow> [])
          @ (case seccomp_filter st of Some f \<Rightarrow> [NoNewPrivs, ApplyFilter f] | None \<Rightarrow> []) @ ops)"

lemma cstring_Inr: "cstring x = Inr y \<longleftrightarrow> y = x \<and> char_of (0 :: nat) \<notin> set x"
  by (auto simp: cstring_def)

lemma build_sandboxed:
  assumes "build_sandboxed_command st sid (cwd @ map Normal ns) prog args = Inr c"
  shows "sandboxed st sid cwd c \<and> c_program c = prog \<and> c_args c = args \<and> c_env c = []"
  using assms
  by (cases "chroot_root st"; cases "seccomp_filter st")
    (auto simp: build_sandboxed_command_def Let_def result_simps cstring_Inr command_new_def
      sandboxed_def apply_chroot_def apply_bash_isolation_def)

lemma start_command_sandboxed:
  assumes "start_command st sid (cwd @ map Normal ns) cmd req = Inr c"
  shows "sandboxed st sid cwd c \<and> c_program c = cmd \<and> c_stdin c = Piped \<and> c_stdout c = Piped \<and> c_stderr c = Piped
    \<and> (kill_group (process_cfg st) \<longrightarrow> Setsid \<in> set (c_pre_exec c))"
proof -
  obtain c0 where c0: "build_sandboxed_command st sid (cwd @ map Normal ns) cmd
      (case rq_args req of Some xs \<Rightarrow> xs | None \<Rightarrow> []) = Inr c0"
    using assms unfolding start_command_def rtry_Inr_iff by blast
  have c: "c_kill_on_drop c = c_kill_on_drop c0 \<and> c_current_dir c = c_current_dir c0 \<and> c_program c = c_program c0
      \<and> c_pre_exec c = c_pre_exec c0 @ (if kill_group (process_cfg st) then [Setsid] else [])
      \<and> c_stdin c = Piped \<and> c_stdout c = Piped \<and> c_stderr c = Piped"
    using assms c0 by (cases "rq_env req"; cases "kill_group (process_cfg st)")
      (auto simp: start_command_def Let_def)
  from build_sandboxed [OF c0] obtain ops where ops: "set ops \<subseteq> {Setsid}" "c_pre_exec c0 =
      (case chroot_root st of Some r \<Rightarrow> [Chroot (path_str r), Chdir (''/sessions/'' @ sid)] | None \<Rightarrow> [])
      @ (case seccomp_filter st of Some f \<Rightarrow> [NoNewPrivs, ApplyFilter f] | None \<Rightarrow> []) @ ops"
    by (auto simp: sandboxed_def)
  then have "sandboxed st sid cwd c"
    using build_sandboxed [OF c0] c unfolding sandboxed_def
    by (intro conjI exI [of _ "ops @ (if kill_group (process_cfg st) then [Setsid] else [])"]) (auto split: option.splits)
  then show ?thesis using build_sandboxed [OF c0] c by auto
qed

lemma start_refused:
  assumes "action_start os uuid sid s req w = (Inl e, w')"
  shows "app w' = app w \<and> sess_heap w' = sess_heap w \<and> sess_next w' = sess_next w
    \<and> proc_heap w' = proc_heap w \<and> proc_next w' = proc_next w"
  using assms
  by (auto simp: action_start_def Let_def split: if_splits option.splits sum.splits)

lemma start_success:
  assumes "action_start os uuid sid s req w = (Inr r, w')"
  shows "\<exists>cmd q c p line w2. rq_command req = Some cmd
    \<and> length (processes (sess_heap w s)) < max_per_session (process_cfg (app w))
    \<and> (case rq_cwd req of Some rel \<Rightarrow> resolve_in (s_cwd (sess_heap w s)) rel | None \<Rightarrow> Inr (s_cwd (sess_heap w s))) = Inr q
    \<and> start_command (app w) sid q cmd req = Inr c \<and> os_spawn os w c = Inr (Some p)
    \<and> r = process_result_default\<lparr>rs_process_id := Some uuid, rs_running := Some True\<rparr>
    \<and> app w2 = app w \<and> sess_heap w2 = sess_heap w \<and> sess_next w2 = sess_next w \<and> Spawn c \<in> set (trace w2)
    \<and> w' = upd_session s (\<lambda>ss. ss\<lparr>processes := AList.update uuid (proc_next w) (processes ss)\<rparr>)
        (w2\<lparr>proc_heap := (proc_heap w)(proc_next w :=
               new_handle uuid p line (now w) (buffer_bytes (process_cfg (app w)))),
             proc_next := Suc (proc_next w)\<rparr>)"
proof -
  let ?cwd = "s_cwd (sess_heap w s)"
  let ?dir = "case rq_cwd req of Some rel \<Rightarrow> resolve_in ?cwd rel | None \<Rightarrow> Inr ?cwd"
  let ?args = "case rq_args req of Some xs \<Rightarrow> xs | None \<Rightarrow> []"
  from assms have none: "rq_process_id req = None" by (auto simp: action_start_def split: if_splits)
  with assms obtain cmd where cmd: "rq_command req = Some cmd"
    by (cases "rq_command req") (auto simp: action_start_def)
  with none assms have room: "length (processes (sess_heap w s)) < max_per_session (process_cfg (app w))"
    by (auto simp: action_start_def split: if_splits)
  from none cmd room assms obtain q where q: "?dir = Inr q"
    by (cases ?dir) (auto simp: action_start_def)
  from assms none cmd q room obtain c where c: "start_command (app w) sid q cmd req = Inr c"
    by (cases "start_command (app w) sid q cmd req") (auto simp: action_start_def)
  with assms none cmd q room obtain po where "os_spawn os w c = Inr po"
    by (cases "os_spawn os w c") (auto simp: action_start_def Let_def)
  with assms none cmd q room c obtain p where p: "os_spawn os w c = Inr (Some p)"
    by (cases po) (auto simp: action_start_def Let_def)
  let ?line = "if ?args = [] then cmd else cmd @ '' '' @ join '' '' ?args"
  define w2 where "w2 = (case cgroup_root (isolation (app w)) of
              Some cg \<Rightarrow> cgroup_attach_pid (session_cgroup cg sid) p (sys (Spawn c) w) | None \<Rightarrow> sys (Spawn c) w)"
  have w2: "app w2 = app w" "sess_heap w2 = sess_heap w" "sess_next w2 = sess_next w" "Spawn c \<in> set (trace w2)"
    "proc_heap w2 = proc_heap w" "proc_next w2 = proc_next w"
    by (auto simp: w2_def cgroup_attach_pid_def split: option.splits)
  have r: "r = process_result_default\<lparr>rs_process_id := Some uuid, rs_running := Some True\<rparr>"
    and w': "w' = upd_session s (\<lambda>ss. ss\<lparr>processes := AList.update uuid (proc_next w2) (processes ss)\<rparr>)
        (w2\<lparr>proc_heap := (proc_heap w2)(proc_next w2 :=
               new_handle uuid p ?line (now w) (buffer_bytes (process_cfg (app w)))),
             proc_next := Suc (proc_next w2)\<rparr>)"
    using assms none cmd q room c p by (auto simp: action_start_def Let_def w2_def)
  show ?thesis
    by (intro exI conjI, rule cmd, rule room, rule q, rule c, rule p, rule r, rule w2(1), rule w2(2),
        rule w2(3), rule w2(4)) (use w' w2 in simp)
qed

text \<open>C33: Start. A start request fails without touching a table or a handle, or it creates
  exactly one running process: the child was spawned under the sandbox layers of the session
  with its directory inside the session's, its handle sits under the new id in the table of
  this session only, and the table stays within the cap.\<close>

theorem start_creates_one:
  assumes "clean_abs (s_cwd (sess_heap w s))"
    and "action_start os uuid sid s req w = (res, w')"
  shows "(\<forall>e. res = Inl e \<longrightarrow> sess_heap w' = sess_heap w \<and> proc_heap w' = proc_heap w \<and> proc_next w' = proc_next w)
    \<and> (\<forall>r. res = Inr r \<longrightarrow>
        rs_process_id r = Some uuid \<and> rs_running r = Some True
        \<and> (\<exists>c p cmdline. sandboxed (app w) sid (s_cwd (sess_heap w s)) c \<and> Some (c_program c) = rq_command req
            \<and> os_spawn os w c = Inr (Some p) \<and> Spawn c \<in> set (trace w')
            \<and> proc_heap w' = (proc_heap w)(proc_next w :=
                 new_handle uuid p cmdline (now w) (buffer_bytes (process_cfg (app w)))))
        \<and> proc_next w' = Suc (proc_next w)
        \<and> processes (sess_heap w' s) = AList.update uuid (proc_next w) (processes (sess_heap w s))
        \<and> (\<forall>s'. s' \<noteq> s \<longrightarrow> sess_heap w' s' = sess_heap w s')
        \<and> length (processes (sess_heap w' s)) \<le> max_per_session (process_cfg (app w)))"
proof (cases res)
  case (Inl e)
  then show ?thesis using start_refused [of os uuid sid s req w e w'] assms(2) by simp
next
  case (Inr r)
  let ?cwd = "s_cwd (sess_heap w s)"
  obtain cmd q c p line w2 where cmd: "rq_command req = Some cmd"
    and room: "length (processes (sess_heap w s)) < max_per_session (process_cfg (app w))"
    and q: "(case rq_cwd req of Some rel \<Rightarrow> resolve_in ?cwd rel | None \<Rightarrow> Inr ?cwd) = Inr q"
    and c: "start_command (app w) sid q cmd req = Inr c" and p: "os_spawn os w c = Inr (Some p)"
    and r: "r = process_result_default\<lparr>rs_process_id := Some uuid, rs_running := Some True\<rparr>"
    and w2: "app w2 = app w" "sess_heap w2 = sess_heap w" "sess_next w2 = sess_next w" "Spawn c \<in> set (trace w2)"
    and w': "w' = upd_session s (\<lambda>ss. ss\<lparr>processes := AList.update uuid (proc_next w) (processes ss)\<rparr>)
        (w2\<lparr>proc_heap := (proc_heap w)(proc_next w :=
               new_handle uuid p line (now w) (buffer_bytes (process_cfg (app w)))),
             proc_next := Suc (proc_next w)\<rparr>)"
    using start_success [of os uuid sid s req w r w'] assms(2) Inr by blast
  have "\<exists>ns. q = ?cwd @ map Normal ns"
    using q resolver.below [OF assms(1)] by (cases "rq_cwd req") (auto intro: exI [of _ "[]"])
  then obtain ns where ns: "q = ?cwd @ map Normal ns" by blast
  have sb: "sandboxed (app w) sid ?cwd c" "c_program c = cmd"
    using start_command_sandboxed [of "app w" sid ?cwd ns cmd req c] c ns by auto
  have len: "length (AList.update uuid (proc_next w) (processes (sess_heap w s))) \<le> max_per_session (process_cfg (app w))"
    using length_update_le [of uuid "proc_next w" "processes (sess_heap w s)"] room by simp
  have "Spawn c \<in> set (trace w')" "proc_next w' = Suc (proc_next w)"
    "proc_heap w' = (proc_heap w)(proc_next w :=
         new_handle uuid p line (now w) (buffer_bytes (process_cfg (app w))))"
    "processes (sess_heap w' s) = AList.update uuid (proc_next w) (processes (sess_heap w s))"
    "\<forall>s'. s' \<noteq> s \<longrightarrow> sess_heap w' s' = sess_heap w s'"
    by (simp_all add: w' w2)
  then show ?thesis
    using Inr r sb p cmd len by (auto simp: process_result_default_def)
qed

theorem start_creates_one_witness:
  "\<exists>r w'. action_start demo_os ''q'' ''s'' 0 (demo_req Start\<lparr>rq_process_id := None, rq_command := Some ''sh''\<rparr>)
       (demo_world demo_running) = (Inr r, w')
     \<and> rs_process_id r = Some ''q'' \<and> proc_next w' = 2 \<and> length (processes (sess_heap w' 0)) \<le> 32"
proof -
  let ?req = "demo_req Start\<lparr>rq_process_id := None, rq_command := Some ''sh''\<rparr>"
  obtain r w' where run: "action_start demo_os ''q'' ''s'' 0 ?req (demo_world demo_running) = (Inr r, w')"
    by (simp add: action_start_def demo_defs start_command_def build_sandboxed_command_def Let_def)
  have clean: "clean_abs (s_cwd (sess_heap (demo_world demo_running) 0))"
    unfolding clean_abs_def by (rule exI [of _ "[''sandboxes'', ''s'']"]) (simp add: demo_world_def)
  show ?thesis
    using start_creates_one [OF clean run] run by (auto simp: demo_world_def demo_app_def)
qed

section \<open>Sessions do not touch each other\<close>

text \<open>What one request may do: signal processes of its session, spawn, write cgroup files.\<close>

definition own_kills :: "world \<Rightarrow> nat \<Rightarrow> sys_op list \<Rightarrow> bool" where
  "own_kills w s ks \<longleftrightarrow> (\<forall>t sig. Kill t sig \<in> set ks \<longrightarrow>
     (\<exists>a \<in> session_procs w s. t = signal_target (pid (proc_heap w a)) (kill_group (process_cfg (app w)))))"

lemma stop_frame:
  assumes "legal il" "procs_ok w" "session_ok w s" "action_stop os il s req w = (res, w')"
  shows "tables_same w w' \<and> (\<exists>ks. trace w' = trace w @ ks \<and> own_kills w s ks)"
proof (cases "find_process ''stop'' s req w")
  case (Inr q)
  then obtain pr a where fp: "find_process ''stop'' s req w = Inr (pr, a)" by (cases q) auto
  let ?g = "clamp_rat 0 60 (case rq_timeout_sec req of Some t \<Rightarrow> t | None \<Rightarrow> 5)"
  let ?kg = "kill_group (process_cfg (app w))"
  let ?w1 = "terminate_handle os il a ?g ?kg w"
  have w': "w' = snd (describe_state il pr a ?w1)"
    using assms(4) fp by (simp add: action_stop_def)
  have a: "a < proc_next w" "handle_ok (proc_heap w a)" "a \<in> session_procs w s"
    using find_process_lt [OF assms(3) fp] assms(2) find_process_owned [OF fp] by (auto simp: procs_ok_def)
  from terminate_trace [OF assms(1) a(1,2), of os ?g ?kg]
  have "\<exists>ks. trace ?w1 = trace w @ ks \<and> own_kills w s ks"
    using a(3) by (elim disjE) (auto simp: own_kills_def)
  then show ?thesis
    using w' tables_same_trans [OF tables_same_terminate tables_same_describe] describe_state_trace
      assms(1) by auto
qed (use assms(4) in \<open>auto simp: action_stop_def own_kills_def\<close>)

lemma signal_frame:
  assumes "legal il" "action_signal os il s req w = (res, w')"
  shows "tables_same w w' \<and> (\<exists>ks. trace w' = trace w @ ks \<and> own_kills w s ks)"
proof -
  have one: "tables_same w w2 \<and> (\<exists>ks. trace w2 = trace w @ ks \<and> own_kills w s ks)"
    if "map_of (processes (sess_heap w s)) pr = Some a"
      and "w2 = sys (Kill (signal_target (pid (proc_heap w a)) (kill_group (process_cfg (app w)))) sig) w
        \<or> w2 = snd (describe_state il pr a (sys (Kill (signal_target (pid (proc_heap w a)) (kill_group (process_cfg (app w)))) sig) w))"
    for pr a sig w2
  proof -
    let ?w1 = "sys (Kill (signal_target (pid (proc_heap w a)) (kill_group (process_cfg (app w)))) sig) w"
    have "a \<in> session_procs w s" using that(1) by (force simp: session_procs_def dest: map_of_SomeD)
    moreover have "tables_same w ?w1" by (simp add: tables_same_def)
    ultimately show ?thesis
      using that(2) tables_same_describe [OF assms(1), of ?w1 pr a] describe_state_trace [OF assms(1), of pr a ?w1]
      by (elim disjE) (auto simp: own_kills_def intro: tables_same_trans)
  qed
  show ?thesis
  proof (cases "rq_process_id req")
    case (Some pr)
    show ?thesis
    proof (cases "rq_signal req")
      case (Some name)
      show ?thesis
      proof (cases "parse_signal (os_uppercase os) name")
        case (Some sig)
        show ?thesis
        proof (cases "map_of (processes (sess_heap w s)) pr")
          case (Some a)
          let ?w1 = "sys (Kill (signal_target (pid (proc_heap w a)) (kill_group (process_cfg (app w)))) sig) w"
          have "w' = ?w1 \<or> w' = snd (describe_state il pr a ?w1)"
            using assms(2) Some \<open>rq_process_id req = Some pr\<close> \<open>rq_signal req = Some name\<close>
              \<open>parse_signal (os_uppercase os) name = Some sig\<close>
            by (auto simp: action_signal_def send_signal_to_def Let_def split: option.splits if_splits)
          then show ?thesis by (rule one [OF Some])
        qed (use assms(2) Some \<open>rq_process_id req = Some pr\<close> \<open>rq_signal req = Some name\<close> in
            \<open>auto simp: action_signal_def own_kills_def\<close>)
      qed (use assms(2) Some \<open>rq_process_id req = Some pr\<close> in \<open>auto simp: action_signal_def own_kills_def\<close>)
    qed (use assms(2) Some in \<open>auto simp: action_signal_def own_kills_def\<close>)
  qed (use assms(2) in \<open>auto simp: action_signal_def own_kills_def\<close>)
qed

lemma start_frame:
  assumes "action_start os uuid sid s req w = (res, w')"
  shows "(\<forall>s'. s' \<noteq> s \<longrightarrow> sess_heap w' s' = sess_heap w s') \<and> app w' = app w
    \<and> (\<exists>ks. trace w' = trace w @ ks \<and> own_kills w s ks)"
  using assms
  by (auto simp: action_start_def Let_def cgroup_attach_pid_def own_kills_def
      split: if_splits option.splits sum.splits)

lemma action_frame:
  assumes "legal il" "procs_ok w" "session_ok w s"
    and "process_action_of os il uuid sid s req w = (res, w')"
  shows "(\<forall>s'. s' \<noteq> s \<longrightarrow> sess_heap w' s' = sess_heap w s') \<and> app w' = app w
    \<and> (\<exists>ks. trace w' = trace w @ ks \<and> own_kills w s ks)"
proof -
  have q: "?thesis" if "quiet w w'"
    using that by (auto simp: quiet_def tables_same_def own_kills_def)
  have t: "?thesis" if "tables_same w w' \<and> (\<exists>ks. trace w' = trace w @ ks \<and> own_kills w s ks)"
    using that by (auto simp: tables_same_def)
  show ?thesis
  proof (cases "rq_action req")
    case Start
    then show ?thesis using assms(4) start_frame [of os uuid sid s req w res w'] by (simp add: process_action_of_def)
  next
    case Write
    then have "quiet w w'"
      using assms(4) quiet_write [OF assms(1), of w os s req] by (auto simp: process_action_of_def)
    then show ?thesis by (rule q)
  next
    case Read
    then have "quiet w w'"
      using assms(4) quiet_read [OF assms(1), of w os s req] by (auto simp: process_action_of_def)
    then show ?thesis by (rule q)
  next
    case Signal
    then show ?thesis
      using assms(4) signal_frame [OF assms(1), of os s req w res w'] by (intro t) (simp add: process_action_of_def)
  next
    case Wait
    then have "quiet w w'"
      using assms(4) quiet_wait [OF assms(1), of w s req] by (auto simp: process_action_of_def)
    then show ?thesis by (rule q)
  next
    case Stop
    then show ?thesis
      using assms(4) stop_frame [OF assms(1-3), of os req res w'] by (intro t) (simp add: process_action_of_def)
  next
    case List
    then have "w' = w" using assms(4) by (simp add: process_action_of_def)
    then show ?thesis by (intro q) simp
  qed
qed

text \<open>C13: Session isolation. A process request of one session leaves every other session as
  it is; processes the session does not hold change only by their own background tasks; every
  signal it sends goes to a process the session holds; and a process id the session does not
  hold is answered with 404 or refused as a bad request, never served.\<close>

theorem sessions_isolated:
  assumes "legal il" "procs_ok w" "resolve_session w sid = Inr s" "session_ok w s"
    and "tool_process os il uuid sid req w = (res, w')"
  shows "(\<forall>s'. s' \<noteq> s \<longrightarrow> sess_heap w' s' = sess_heap w s')
    \<and> (\<forall>a < proc_next w. a \<notin> session_procs w s \<longrightarrow> task_step\<^sup>*\<^sup>* (proc_heap w a) (proc_heap w' a))
    \<and> (\<exists>ks. trace w' = trace w @ ks \<and> own_kills w s ks)
    \<and> (\<forall>pr. rq_process_id req = Some pr \<and> map_of (processes (sess_heap w s)) pr = None \<and> rq_action req \<noteq> List \<longrightarrow>
         (\<exists>e. res = Inl e \<and> fst e \<in> {NOT_FOUND, BAD_REQUEST, NOT_IMPLEMENTED}))"
proof -
  have rel: "handles_rel (only_tasks (session_procs w s)) w w'"
    using footprint.rel_process [OF assms(1), of w sid "session_procs w s" os uuid req] assms(3,5) by simp
  let ?w0 = "touch s w"
  have w0: "procs_ok ?w0" "session_ok ?w0 s" "processes (sess_heap ?w0 s) = processes (sess_heap w s)"
    "session_procs ?w0 s = session_procs w s" "own_kills ?w0 s = own_kills w s" "trace ?w0 = trace w"
    using assms(2,4) by (simp_all add: touch_def procs_ok_def session_ok_def session_procs_def own_kills_def fun_eq_iff)
  have run: "(res, w') = process_action_of os il uuid sid s req ?w0" if "w' \<noteq> w"
    using assms(3,5) that by (auto simp: tool_process_def Let_def split: if_splits)
  have frame: "(\<forall>s'. s' \<noteq> s \<longrightarrow> sess_heap w' s' = sess_heap w s')
    \<and> (\<exists>ks. trace w' = trace w @ ks \<and> own_kills w s ks)"
  proof (cases "w' = w")
    case False
    then show ?thesis
      using action_frame [OF assms(1) w0(1,2), of os uuid sid req res w'] run w0
      by (auto simp: touch_def)
  qed (auto simp: own_kills_def)
  have missing: "\<exists>e. res = Inl e \<and> fst e \<in> {NOT_FOUND, BAD_REQUEST, NOT_IMPLEMENTED}"
    if "rq_process_id req = Some pr" "map_of (processes (sess_heap w s)) pr = None" "rq_action req \<noteq> List" for pr
  proof -
    have nf: "find_process verb s req ?w0 = Inl (NOT_FOUND, ''process not found'')" for verb
      using that w0(3) by (simp add: find_process_def)
    have "\<exists>e. fst (process_action_of os il uuid sid s req ?w0) = Inl e \<and> fst e \<in> {NOT_FOUND, BAD_REQUEST}"
      using that w0(3)
      by (cases "rq_action req"; cases "rq_signal req"; cases "parse_signal (os_uppercase os) (the (rq_signal req))")
        (auto simp: process_action_of_def action_start_def action_read_def action_wait_def action_write_def
          action_signal_def action_stop_def nf)
    then show ?thesis
      using assms(3,5) by (auto simp: tool_process_def Let_def split: if_splits)
  qed
  from rel have "\<forall>a < proc_next w. a \<notin> session_procs w s \<longrightarrow> task_step\<^sup>*\<^sup>* (proc_heap w a) (proc_heap w' a)"
    by (simp add: handles_rel_def only_tasks_def)
  with frame missing show ?thesis by blast
qed

theorem sessions_isolated_witness:
  "\<exists>e w'. tool_process demo_os idle ''u'' ''s'' (demo_req Wait\<lparr>rq_process_id := Some ''other''\<rparr>) (demo_world demo_running)
       = (Inl e, w') \<and> fst e = NOT_FOUND \<and> (\<forall>a < 1. a \<notin> {0} \<longrightarrow> task_step\<^sup>*\<^sup>* demo_running (proc_heap w' a))"
proof -
  let ?req = "demo_req Wait\<lparr>rq_process_id := Some ''other''\<rparr>"
  obtain w' where run: "tool_process demo_os idle ''u'' ''s'' ?req (demo_world demo_running)
      = (Inl (NOT_FOUND, ''process not found''), w')"
    by (simp add: tool_process_def resolve_session_def process_action_of_def action_wait_def find_process_def
        touch_def upd_session_def demo_defs)
  have r: "resolve_session (demo_world demo_running) ''s'' = Inr 0"
    by (simp add: resolve_session_def demo_world_def demo_app_def)
  have "\<forall>a < proc_next (demo_world demo_running). a \<notin> session_procs (demo_world demo_running) 0 \<longrightarrow>
      task_step\<^sup>*\<^sup>* (proc_heap (demo_world demo_running) a) (proc_heap w' a)"
    using sessions_isolated [OF legal_idle demo_world_ok(1) r demo_world_ok(2) run] by simp
  then have "\<forall>a < 1. a \<notin> {0} \<longrightarrow> task_step\<^sup>*\<^sup>* demo_running (proc_heap w' a)"
    by (simp add: demo_world_def session_procs_def)
  with run show ?thesis by auto
qed

section \<open>Signal names\<close>

lemma digits_no_name:
  assumes "list_all is_digit s" "s \<noteq> []"
  shows "to_uppercase uni s = s" "strip_prefix s ''SIG'' = None" "map_of signal_table s = None"
proof -
  from assms obtain c r where s: "s = c # r" "is_digit c" by (cases s) auto
  have "ascii_upper d = d" if "is_digit d" for d using that by (simp add: ascii_upper_def is_digit_def)
  moreover have "is_ascii s" using assms(1) by (auto simp: is_ascii_def is_digit_def list_all_iff)
  ultimately show "to_uppercase uni s = s"
    using assms(1) by (simp add: to_uppercase_def list_all_iff map_idI)
  show "strip_prefix s ''SIG'' = None"
    using s by (auto simp: strip_prefix_def starts_with_def is_digit_def)
  have "list_all (\<lambda>n. n \<noteq> [] \<and> \<not> is_digit (hd n)) (keys signal_table)" by code_simp
  then have "\<not> (\<exists>n \<in> set (keys signal_table). is_digit (hd n))" by (auto simp: list_all_iff)
  then have "s \<notin> set (keys signal_table)" using s by (metis list.sel(1))
  then show "map_of signal_table s = None" by (simp add: map_of_eq_None_iff)
qed

definition signal_name_value :: "string \<Rightarrow> int option" where
  "signal_name_value u = map_of signal_table (case strip_prefix u ''SIG'' of Some r \<Rightarrow> r | None \<Rightarrow> u)"

lemma parse_signal_plain:
  "plain s \<Longrightarrow> parse_i32 s = None \<Longrightarrow> parse_signal uni s = signal_name_value (map ascii_upper s)"
  by (auto simp: parse_signal_def trim_plain to_uppercase_def plain_def is_ascii_def signal_name_value_def Let_def)

definition spellings :: "string \<Rightarrow> string list" where
  "spellings n = [n, ''SIG'' @ n, map ascii_lower (''SIG'' @ n)]"

lemma plain_Cons [simp]: "plain (c # s) \<longleftrightarrow> 32 < (of_char c :: nat) \<and> (of_char c :: nat) < 128 \<and> plain s"
  by (auto simp: plain_def)

lemma plain_Nil [simp]: "plain []"
  by (simp add: plain_def)

lemma signal_names_shape:
  "list_all (\<lambda>(n, v). plain n \<and> n \<noteq> [] \<and> 64 < (of_char (hd n) :: nat) \<and> map ascii_upper n = n
      \<and> strip_prefix n ''SIG'' = None \<and> map_of signal_table n = Some v) signal_table"
  by (simp add: signal_table_def ascii_upper_def strip_prefix_def starts_with_def)

lemma signal_spelling_value:
  assumes "(n, v) \<in> set signal_table" "s \<in> set (spellings n)"
  shows "parse_signal uni s = Some v"
proof -
  have n: "plain n" "n \<noteq> []" "64 < (of_char (hd n) :: nat)" "map ascii_upper n = n"
    "strip_prefix n ''SIG'' = None" "map_of signal_table n = Some v"
    using signal_names_shape assms(1) by (auto simp: list_all_iff)
  then obtain c r where cr: "n = c # r" by (cases n) auto
  have sig: "plain (''SIG'' @ n)" using n(1) by simp
  have up: "map ascii_upper (''SIG'' @ n) = ''SIG'' @ n" using n(4) by (simp add: ascii_upper_def)
  have val: "signal_name_value n = Some v" "signal_name_value (''SIG'' @ n) = Some v"
    using n(5,6) by (simp_all add: signal_name_value_def strip_prefix_def starts_with_def)
  have low: "plain (map ascii_lower (''SIG'' @ n))" using sig by (rule plain_lower)
  have none: "parse_i32 n = None" "parse_i32 (''SIG'' @ n) = None" "parse_i32 (map ascii_lower (''SIG'' @ n)) = None"
    using n(3) by (simp_all add: cr parse_i32_def parse_signed_letter ascii_lower_range)
  from assms(2) consider "s = n" | "s = ''SIG'' @ n" | "s = map ascii_lower (''SIG'' @ n)"
    by (auto simp: spellings_def)
  then show ?thesis
  proof cases
    case 1
    then show ?thesis using n none val by (simp add: parse_signal_plain)
  next
    case 2
    then show ?thesis using parse_signal_plain [OF sig none(2)] up val(2) by simp
  next
    case 3
    then show ?thesis
      using parse_signal_plain [OF low none(3)] up val(2) by (simp add: ascii_upper_lower comp_def)
  qed
qed

lemma parse_signal_number:
  "parse_signal uni (show_nat k) = (if k < 2 ^ 31 then Some (int k) else None)"
proof (cases "k < 2 ^ 31")
  case True
  then show ?thesis
    by (simp add: parse_signal_def parse_i32_def trim_plain digits_plain show_nat_digits parse_signed_show Let_def)
next
  case False
  then show ?thesis
    using digits_no_name [OF show_nat_digits(1) show_nat_digits(2)]
    by (simp add: parse_signal_def parse_i32_def trim_plain digits_plain show_nat_digits parse_signed_show Let_def)
qed

text \<open>Signal names. Each of the eighteen supported signals is understood by its plain
  name, with the \<open>SIG\<close> prefix, and in lower case, and means its Linux number; a decimal
  number is taken as it is when it is an \<open>i32\<close> and refused otherwise; so is the empty name.\<close>

theorem parse_signal_names:
  "list_all (\<lambda>(n, v). list_all (\<lambda>s. parse_signal uni s = Some v) (spellings n)) signal_table
   \<and> (\<forall>k. parse_signal uni (show_nat k) = (if k < 2 ^ 31 then Some (int k) else None))
   \<and> parse_signal uni [] = None"
proof (intro conjI allI)
  show "list_all (\<lambda>(n, v). list_all (\<lambda>s. parse_signal uni s = Some v) (spellings n)) signal_table"
    using signal_spelling_value by (auto simp: list_all_iff)
  show "parse_signal uni [] = None" by code_simp
qed (rule parse_signal_number)

section \<open>Output after the end of file\<close>

text \<open>The wait task closes both buffers as soon as the child has ended, while a drain
  task may still be reading the pipe. So there is a legal run in which a read answers
  \<open>eof_stdout\<close> with all it had and a later read still returns output of the same process.\<close>

theorem output_after_eof:
  "\<exists>h1 h2. task_step\<^sup>*\<^sup>* demo_running h1
     \<and> fst (sb_drain None (h_stdout h1)) = ([], False, True)
     \<and> task_step\<^sup>*\<^sup>* (h1\<lparr>h_stdout := snd (sb_drain None (h_stdout h1))\<rparr>) h2
     \<and> fst (sb_drain None (h_stdout h2)) = (as_bytes ''late'', False, True)"
proof -
  let ?s1 = "demo_running\<lparr>h_wait := StoreState (Exited 0)\<rparr>"
  let ?s2 = "?s1\<lparr>h_state := Exited 0, h_wait := CloseStdout\<rparr>"
  let ?s3 = "?s2\<lparr>h_stdout := sb_close (h_stdout ?s2), h_wait := CloseStderr\<rparr>"
  let ?h1 = "?s3\<lparr>h_stdout := snd (sb_drain None (h_stdout ?s3))\<rparr>"
  let ?h2 = "?h1\<lparr>h_stdout := sb_push (as_bytes ''late'') (h_stdout ?h1)\<rparr>"
  have d: "h_wait demo_running = WaitChild" "\<not> h_locked demo_running" "h_stdout_open demo_running"
    "h_stdout demo_running = sb_new 16"
    by (simp_all add: demo_running_def new_handle_def)
  have "task_step demo_running ?s1"
    using child_ends [OF d(1), of "WaitStatus (Some 0) None"] by simp
  moreover have "task_step ?s1 ?s2" by (rule store) (use d in auto)
  moreover have "task_step ?s2 ?s3" by (rule close_out) simp
  ultimately have run1: "task_step\<^sup>*\<^sup>* demo_running ?s3"
    by (meson converse_rtranclp_into_rtranclp r_into_rtranclp)
  have run2: "task_step ?h1 ?h2" by (rule drain_out) (use d in \<open>simp_all add: as_bytes_def\<close>)
  have e1: "fst (sb_drain None (h_stdout ?s3)) = ([], False, True)"
    by (simp add: d sb_drain_def sb_new_def sb_close_def Let_def)
  have e2: "fst (sb_drain None (h_stdout ?h2)) = (as_bytes ''late'', False, True)"
    by (simp add: d sb_drain_def sb_new_def sb_close_def sb_push_def sb_push_byte_def as_bytes_def Let_def)
  show ?thesis
    by (intro exI conjI, rule run1, rule e1, rule r_into_rtranclp, rule run2, rule e2)
qed

end
