(* ===== verification/Daemon_Props.thy ===== *)
theory Daemon_Props
  imports Tools_Daemon Process_Sessions
begin

text \<open>
  Properties of the daemon as a whole: what is written is read back, writes stay inside the
  session's directory (and the one way out), the invariant of every reachable state of the
  daemon, what the deletion of a session guarantees, and two behaviours the documentation
  does not promise: a start racing a deletion, and the idle reaper's notion of activity.
\<close>

section \<open>Reading and writing\<close>

lemma written_is_read:
  assumes "tool_write sid rel content w = (Inr n, w')" "valid_utf8 (as_bytes content)"
  shows "n = length content \<and> tool_read sid rel None None w' = Inr (content, length content)
    \<and> (\<forall>off lm. off \<noteq> None \<or> lm \<noteq> None \<longrightarrow>
         tool_read sid rel off lm w' = rtry (slice_lines content off lm) (\<lambda>c. Inr (c, length c)))"
proof -
  from assms(1) obtain cwd target where cwd: "session_cwd w sid = Inr cwd" and t: "resolve_in cwd rel = Inr target"
    by (auto simp: tool_write_def result_simps split: sum.splits)
  with assms(1) obtain fs fs' where "fs_write fs target (as_bytes content) = Inr fs'"
    and w': "w' = w\<lparr>files := fs'\<rparr>" "n = length content"
    by (auto simp: tool_write_def Let_def split: prod.splits sum.splits)
  then have rd: "fs_read (files w') target = Inr (as_bytes content)"
    using host_fs.read_written by simp
  have cwd': "session_cwd w' sid = Inr cwd"
    using cwd w' by (simp add: session_cwd_def resolve_session_def)
  show ?thesis
    using rd cwd' t w' assms(2) by (auto simp: tool_read_def from_utf8_lossy_string Let_def)
qed

text \<open>C35: Round trip. After a successful write, reading the same path answers exactly the
  written text and its length, and reading it page by page answers the slices of the text.\<close>

theorem write_then_read:
  assumes "tool_write sid rel content w = (Inr n, w')" "valid_utf8 (as_bytes content)"
  shows "n = length content \<and> tool_read sid rel None None w' = Inr (content, length content)
    \<and> (\<forall>off lm. off \<noteq> None \<or> lm \<noteq> None \<longrightarrow>
         tool_read sid rel off lm w' = rtry (slice_lines content off lm) (\<lambda>c. Inr (c, length c)))"
  using assms by (rule written_is_read)

definition demo_fs_world :: world where
  "demo_fs_world = (demo_world demo_running)\<lparr>files := [([''sandboxes''], Dir), ([''sandboxes'', ''s''], Dir)]\<rparr>"

lemma demo_write:
  "\<exists>w'. tool_write ''s'' ''a/b.txt'' ''hi'' demo_fs_world = (Inr 2, w')"
  by (simp add: tool_write_def session_cwd_def resolve_session_def demo_fs_world_def demo_defs resolve_in_def
      starts_with_def path_join_def is_absolute_def inner_components_def inner_component_def normalize_step_def
      path_pop_def path_starts_with_def path_parent_def create_dir_all.simps fs_mkdir_def entry_pos_def
      canon_def max_links_def node_at_def fs_write_def Let_def)

theorem write_then_read_witness:
  "\<exists>w'. tool_write ''s'' ''a/b.txt'' ''hi'' demo_fs_world = (Inr 2, w')
     \<and> tool_read ''s'' ''a/b.txt'' None None w' = Inr (''hi'', 2)"
proof -
  obtain w' where w': "tool_write ''s'' ''a/b.txt'' ''hi'' demo_fs_world = (Inr 2, w')" using demo_write by blast
  have "valid_utf8 (as_bytes ''hi'')" by (simp add: as_bytes_def utf8_seq_def utf8_width_def)
  from write_then_read [OF w' this] w' show ?thesis by auto
qed

text \<open>C21: Write confinement. When the session directory is a real directory without
  symbolic links below it, a write request, successful or not, changes no file and no
  directory outside the session directory, whatever path it names.\<close>

theorem write_confined:
  assumes "session_cwd w sid = Inr cwd" "clean_abs cwd" "real_dir (files w) cwd k"
    and "tool_write sid rel content w = (r, w')"
  shows "only_below k (files w) (files w') \<and> real_dir (files w') cwd k"
proof (cases "resolve_in cwd rel")
  case (Inl e)
  then show ?thesis using assms by (auto simp: tool_write_def only_below_def)
next
  case (Inr target)
  then obtain ns where target: "target = cwd @ map Normal ns"
    using resolver.below [OF assms(2)] by blast
  have made: "only_below k (files w) (snd (create_dir_all (files w) par)) \<and> real_dir (snd (create_dir_all (files w) par)) cwd k"
    if par: "path_parent target = Some par" for par
  proof (cases ns rule: rev_cases)
    case (snoc ms m)
    then have "par = cwd @ map Normal ms"
      using par target by (auto simp: path_parent_def butlast_append split: if_splits)
    then show ?thesis using create_dir_all_below [OF assms(3,2)] by simp
  next
    case Nil
    from assms(2) obtain cs where cs: "cwd = RootDir # map Normal cs" by (auto simp: clean_abs_def)
    with par target Nil obtain ms m where ms: "cs = ms @ [m]" "par = RootDir # map Normal ms"
      by (cases cs rule: rev_cases) (auto simp: path_parent_def butlast_append)
    have "walk (files w) max_links [] ((RootDir # map Normal ms) @ [Normal m]) = Inr k"
      using assms(3) cs ms by (simp add: real_dir_def canon_def)
    from walk_split [OF this] obtain pk where "canon (files w) par = Inr pk" "dirs_upto (files w) pk"
      using ms by (auto simp: canon_def)
    then have "create_dir_all (files w) par = (Inr (), files w)"
      using create_dir_all_exists ms(2) dirs_upto_node by blast
    then show ?thesis using assms(3) by (simp add: only_below_def)
  qed
  define mk where "mk = (case path_parent target of Some par \<Rightarrow> create_dir_all (files w) par | None \<Rightarrow> (Inr (), files w))"
  have mk: "only_below k (files w) (snd mk)" "real_dir (snd mk) cwd k"
    using made assms(3) by (auto simp: mk_def only_below_def split: option.splits)
  have w': "w' = w\<lparr>files := snd mk\<rparr> \<or> (\<exists>fs'. fs_write (snd mk) target (as_bytes content) = Inr fs' \<and> w' = w\<lparr>files := fs'\<rparr>)"
    using assms(1,4) Inr by (auto simp: tool_write_def mk_def [symmetric] Let_def split: prod.splits sum.splits)
  then show ?thesis
  proof
    assume "\<exists>fs'. fs_write (snd mk) target (as_bytes content) = Inr fs' \<and> w' = w\<lparr>files := fs'\<rparr>"
    then obtain fs' where f: "fs_write (snd mk) target (as_bytes content) = Inr fs'" "w' = w\<lparr>files := fs'\<rparr>" by blast
    show ?thesis
      using fs_write_below [OF mk(2) f(1) [unfolded target]] f(2) mk(1) by (auto simp: only_below_def)
  qed (use mk in simp)
qed

theorem write_confined_witness:
  "\<exists>w'. tool_write ''s'' ''a/b.txt'' ''hi'' demo_fs_world = (Inr 2, w')
     \<and> node_at (files w') [''sandboxes'', ''t''] = None"
proof -
  obtain w' where w': "tool_write ''s'' ''a/b.txt'' ''hi'' demo_fs_world = (Inr 2, w')" using demo_write by blast
  let ?cwd = "[RootDir, Normal ''sandboxes'', Normal ''s'']" and ?k = "[''sandboxes'', ''s'']"
  have cwd: "session_cwd demo_fs_world ''s'' = Inr ?cwd"
    by (simp add: session_cwd_def resolve_session_def demo_fs_world_def demo_world_def demo_app_def)
  have clean: "clean_abs ?cwd" unfolding clean_abs_def by (rule exI [of _ "?k"]) simp
  have real: "real_dir (files demo_fs_world) ?cwd ?k"
    by (auto simp: real_dir_def demo_fs_world_def canon_def max_links_def node_at_def no_links_below_def split: if_splits)
  have "node_at (files w') [''sandboxes'', ''t''] = node_at (files demo_fs_world) [''sandboxes'', ''t'']"
    using write_confined [OF cwd clean real w'] by (simp add: only_below_def)
  then show ?thesis using w' by (auto simp: demo_fs_world_def node_at_def)
qed

text \<open>The confinement is lexical only. A symbolic link inside the session directory (which
  \<open>bash\<close> can create) leads a later write request out of it: here a write of \<open>link/x\<close> in the
  session creates \<open>/etc/x\<close>.\<close>

theorem symlink_escapes:
  "\<exists>w'. tool_write ''s'' ''link/x'' ''hi''
       (demo_fs_world\<lparr>files := files demo_fs_world @ [([''sandboxes'', ''s'', ''link''], Symlink ''/etc''), ([''etc''], Dir)]\<rparr>)
       = (Inr 2, w') \<and> node_at (files w') [''etc'', ''x''] = Some (File (as_bytes ''hi''))"
  by (simp add: tool_write_def session_cwd_def resolve_session_def demo_fs_world_def demo_defs resolve_in_def
      starts_with_def path_join_def is_absolute_def inner_components_def inner_component_def normalize_step_def
      path_pop_def path_starts_with_def path_parent_def create_dir_all.simps fs_mkdir_def entry_pos_def
      components_def canon_def max_links_def node_at_def fs_write_def fs_is_dir_def as_bytes_def Let_def)

section \<open>The daemon's steps\<close>

text \<open>
  One step of the daemon: a background step, or one request handled, or one round of the
  reaper; the interludes of a request are themselves background steps.
\<close>

inductive daemon_step :: "os \<Rightarrow> world \<Rightarrow> world \<Rightarrow> bool" for os where
  background: "bg_step w w' \<Longrightarrow> daemon_step os w w'"
| process: "legal il \<Longrightarrow> daemon_step os w (snd (tool_process os il uuid sid req w))"
| create: "daemon_step os w (snd (create_session os uuid w))"
| delete: "legal il \<Longrightarrow> daemon_step os w (snd (delete_session os il sid w))"
| reaper: "legal il \<Longrightarrow> daemon_step os w (reaper_round os il w)"
| file_write: "daemon_step os w (snd (tool_write sid rel content w))"
| file_edit: "daemon_step os w (snd (tool_edit sid ereq w))"
| bash: "legal il \<Longrightarrow> daemon_step os w (snd (tool_bash os il sid cmd t w))"

inductive_cases daemon_stepE: "daemon_step os w w'"

section \<open>The invariant\<close>

definition daemon_ok :: "world \<Rightarrow> bool" where
  "daemon_ok w \<longleftrightarrow> procs_ok w
     \<and> distinct (keys (sessions (app w)))
     \<and> (\<forall>(sid, s) \<in> set (sessions (app w)). s < sess_next w)
     \<and> (\<forall>s < sess_next w. session_ok w s
          \<and> length (processes (sess_heap w s)) \<le> max_per_session (process_cfg (app w)))
     \<and> (\<forall>s < sess_next w. \<forall>s' < sess_next w. s \<noteq> s' \<longrightarrow> session_procs w s \<inter> session_procs w s' = {})"

text \<open>Steps that create neither a session nor a process.\<close>

definition shrinks :: "world \<Rightarrow> world \<Rightarrow> bool" where
  "shrinks w w' \<longleftrightarrow> proc_next w' = proc_next w \<and> sess_next w' = sess_next w
     \<and> process_cfg (app w') = process_cfg (app w)
     \<and> (\<exists>P. sessions (app w') = filter P (sessions (app w)))
     \<and> (\<forall>s. processes (sess_heap w' s) = processes (sess_heap w s) \<or> processes (sess_heap w' s) = [])"

lemma shrinks_same:
  "proc_next w' = proc_next w \<Longrightarrow> sess_next w' = sess_next w \<Longrightarrow> app w' = app w \<Longrightarrow> sess_heap w' = sess_heap w
     \<Longrightarrow> shrinks w w'"
  by (auto simp: shrinks_def intro: exI [of _ "\<lambda>_. True"])

lemma shrinks_refl: "shrinks w w"
  by (rule shrinks_same) auto

lemma shrinks_trans:
  assumes "shrinks w1 w2" "shrinks w2 w3"
  shows "shrinks w1 w3"
proof -
  from assms obtain P Q where "sessions (app w2) = filter P (sessions (app w1))"
    "sessions (app w3) = filter Q (sessions (app w2))" by (auto simp: shrinks_def)
  then have "sessions (app w3) = filter (\<lambda>x. Q x \<and> P x) (sessions (app w1))" by (simp add: conj_commute)
  moreover have "processes (sess_heap w3 s) = processes (sess_heap w1 s) \<or> processes (sess_heap w3 s) = []" for s
    using assms unfolding shrinks_def by metis
  ultimately show ?thesis using assms unfolding shrinks_def by auto
qed

lemma shrinks_tables: "tables_same w w' \<Longrightarrow> shrinks w w'"
  by (rule shrinks_same) (auto simp: tables_same_def)

lemma shrinks_reap:
  assumes "legal il"
  shows "shrinks w (reap_session_processes os il s kg w)"
proof -
  let ?w1 = "foldl (\<lambda>w a. terminate_handle os il a 5 kg w) w (map snd (processes (sess_heap w s)))"
  have "tables_same w ?w1" by (rule tables_same_terminate_all [OF assms])
  moreover have "shrinks ?w1 (upd_session s (\<lambda>ss. ss\<lparr>processes := []\<rparr>) ?w1)"
    by (auto simp: shrinks_def intro: exI [of _ "\<lambda>_. True"])
  ultimately show ?thesis
    using shrinks_trans [OF shrinks_tables] by (simp add: reap_session_processes_def Let_def)
qed

lemma drop_cgroup_frame [simp]:
  "app (drop_cgroup sid w) = app w" "sess_heap (drop_cgroup sid w) = sess_heap w"
  "proc_heap (drop_cgroup sid w) = proc_heap w" "sess_next (drop_cgroup sid w) = sess_next w"
  "proc_next (drop_cgroup sid w) = proc_next w" "files (drop_cgroup sid w) = files w"
  "waits (drop_cgroup sid w) = waits w"
  by (simp_all add: drop_cgroup_def cleanup_session_cgroup_def split: option.splits)

lemma remove_cwd_frame [simp]:
  "app (remove_cwd s w) = app w" "sess_heap (remove_cwd s w) = sess_heap w"
  "proc_heap (remove_cwd s w) = proc_heap w" "sess_next (remove_cwd s w) = sess_next w"
  "proc_next (remove_cwd s w) = proc_next w" "trace (remove_cwd s w) = trace w" "waits (remove_cwd s w) = waits w"
  by (simp_all add: remove_cwd_def split: sum.splits)

lemma shrinks_evict:
  assumes "legal il"
  shows "shrinks w (evict os il sid s w)"
  unfolding evict_def
  by (rule shrinks_trans [OF shrinks_reap [OF assms] shrinks_trans [OF shrinks_tables [OF tables_same_await [OF assms]]]])
    (rule shrinks_same, auto)

lemma rel_evict:
  assumes "legal il"
  shows "handles_rel (\<lambda>_. evolves) w (evict os il sid s w)"
  unfolding evict_def
  by (rule lifecycle.rel_trans [OF lifecycle.rel_reap [OF assms]
        lifecycle.rel_trans [OF lifecycle.rel_await [OF assms] lifecycle.rel_same]]) auto

lemma delete_filter: "AList.delete k t = filter (\<lambda>(k', _). k' \<noteq> k) t"
  by (induction t) auto

lemma set_sessions_frame [simp]:
  "sessions (app (set_sessions t w)) = t" "process_cfg (app (set_sessions t w)) = process_cfg (app w)"
  "isolation (app (set_sessions t w)) = isolation (app w)" "session_root (app (set_sessions t w)) = session_root (app w)"
  "sess_heap (set_sessions t w) = sess_heap w" "proc_heap (set_sessions t w) = proc_heap w"
  "sess_next (set_sessions t w) = sess_next w" "proc_next (set_sessions t w) = proc_next w"
  "files (set_sessions t w) = files w" "trace (set_sessions t w) = trace w" "waits (set_sessions t w) = waits w"
  by (simp_all add: set_sessions_def)

lemma shrinks_unlist: "shrinks w (set_sessions (AList.delete sid (sessions (app w))) w)"
  by (auto simp: shrinks_def delete_filter)

lemma reap_one_facts:
  assumes "legal il"
  shows "shrinks w (reap_one os il sid w) \<and> handles_rel (\<lambda>_. evolves) w (reap_one os il sid w)"
proof (cases "map_of (sessions (app w)) sid")
  case (Some s)
  let ?w = "set_sessions (AList.delete sid (sessions (app w))) w"
  have "handles_rel (\<lambda>_. evolves) w ?w" by (rule lifecycle.rel_same) auto
  then show ?thesis
    using Some shrinks_trans [OF shrinks_unlist shrinks_evict [OF assms]]
      lifecycle.rel_trans [OF _ rel_evict [OF assms]] by (simp add: reap_one_def)
qed (simp add: reap_one_def shrinks_refl lifecycle.rel_refl)

lemma delete_session_reap_one: "snd (delete_session os il sid w) = reap_one os il sid w"
  by (simp add: delete_session_def reap_one_def split: option.splits)

lemma reaper_facts:
  assumes "legal il"
  shows "shrinks w (foldl (\<lambda>w sid. reap_one os il sid w) w sids)
    \<and> handles_rel (\<lambda>_. evolves) w (foldl (\<lambda>w sid. reap_one os il sid w) w sids)"
proof (induction sids arbitrary: w)
  case (Cons sid sids)
  then show ?case
    using reap_one_facts [OF assms, of w os sid] shrinks_trans lifecycle.rel_trans by (simp, blast)
qed (simp add: shrinks_refl lifecycle.rel_refl)

lemma procs_ok_rel:
  assumes "procs_ok w" "handles_rel (\<lambda>_. evolves) w w'" "proc_next w' = proc_next w"
  shows "procs_ok w'"
  using evolves_world [OF assms(2)] assms(1,3) by (simp add: procs_ok_def)

lemma daemon_ok_shrinks:
  assumes "daemon_ok w" "shrinks w w'" "handles_rel (\<lambda>_. evolves) w w'"
  shows "daemon_ok w'"
proof -
  have procs: "procs_ok w'"
    using procs_ok_rel [OF _ assms(3)] assms(1,2) by (simp add: daemon_ok_def shrinks_def)
  have sub: "session_procs w' s \<subseteq> session_procs w s" for s
    using assms(2) unfolding shrinks_def session_procs_def by (metis empty_subsetI image_empty list.set(1) order_refl)
  have len: "length (processes (sess_heap w' s)) \<le> length (processes (sess_heap w s))" for s
    using assms(2) unfolding shrinks_def by (metis le0 list.size(3) order_refl)
  obtain P where P: "sessions (app w') = filter P (sessions (app w))" using assms(2) by (auto simp: shrinks_def)
  have dist: "distinct (keys (sessions (app w')))"
    using assms(1) unfolding P daemon_ok_def by (auto intro: distinct_map_filter)
  have other: "\<forall>s < sess_next w'. session_ok w' s \<and> length (processes (sess_heap w' s)) \<le> max_per_session (process_cfg (app w'))"
  proof (intro allI impI)
    fix s
    assume "s < sess_next w'"
    then have "session_ok w s \<and> length (processes (sess_heap w s)) \<le> max_per_session (process_cfg (app w))"
      using assms(1,2) by (simp add: daemon_ok_def shrinks_def)
    then show "session_ok w' s \<and> length (processes (sess_heap w' s)) \<le> max_per_session (process_cfg (app w'))"
      using sub [of s] len [of s] assms(2) by (auto simp: session_ok_def shrinks_def)
  qed
  have disj: "\<forall>s < sess_next w'. \<forall>s' < sess_next w'. s \<noteq> s' \<longrightarrow> session_procs w' s \<inter> session_procs w' s' = {}"
  proof (intro allI impI)
    fix s s'
    assume "s < sess_next w'" "s' < sess_next w'" "s \<noteq> s'"
    then have "session_procs w s \<inter> session_procs w s' = {}"
      using assms(1,2) by (simp add: daemon_ok_def shrinks_def)
    then show "session_procs w' s \<inter> session_procs w' s' = {}" using sub [of s] sub [of s'] by blast
  qed
  have "\<forall>(sid, s) \<in> set (sessions (app w')). s < sess_next w'"
    using assms(1,2) P by (auto simp: daemon_ok_def shrinks_def)
  with procs dist other disj show ?thesis unfolding daemon_ok_def by blast
qed

text \<open>Every request but \<open>start\<close> and \<open>create_session\<close> shrinks.\<close>

lemma shrinks_action:
  assumes "legal il" "rq_action req \<noteq> Start"
  shows "shrinks w (snd (process_action_of os il uuid sid s req w))"
proof (cases "rq_action req")
  case Signal
  have "tables_same w (snd (action_signal os il s req w))"
    using signal_frame [OF assms(1), of os s req w] by (metis prod.collapse)
  then show ?thesis using Signal by (simp add: process_action_of_def shrinks_tables)
next
  case Stop
  then show ?thesis
    using tables_same_trans [OF tables_same_terminate tables_same_describe] assms(1)
    by (auto simp: process_action_of_def action_stop_def Let_def shrinks_refl intro!: shrinks_tables split: sum.splits)
qed (use assms quiet_read quiet_write quiet_wait in
      \<open>auto simp: process_action_of_def quiet_def shrinks_refl intro!: shrinks_tables\<close>)

lemma daemon_ok_same:
  assumes "daemon_ok w" "app w1 = app w" "sess_heap w1 = sess_heap w" "proc_heap w1 = proc_heap w"
    "proc_next w1 = proc_next w" "sess_next w1 = sess_next w"
  shows "daemon_ok w1"
  using assms by (simp add: daemon_ok_def procs_ok_def session_ok_def session_procs_def)

lemma registered_procs:
  assumes "\<And>s'. s' \<noteq> s \<Longrightarrow> sess_heap w1 s' = sess_heap w s'"
    and "processes (sess_heap w1 s) = AList.update uuid a (processes (sess_heap w s))"
  shows "s' \<noteq> s \<Longrightarrow> session_procs w1 s' = session_procs w s'"
    "session_procs w1 s' \<subseteq> insert a (session_procs w s')"
proof -
  show other: "session_procs w1 s' = session_procs w s'" if "s' \<noteq> s" for s'
    using assms(1) that by (simp add: session_procs_def)
  have "set (AList.update uuid a t) \<subseteq> insert (uuid, a) (set t)" for t by (induction t) auto
  then have "session_procs w1 s \<subseteq> insert a (session_procs w s)"
    unfolding session_procs_def assms(2) by force
  then show "session_procs w1 s' \<subseteq> insert a (session_procs w s')" for s'
    using other by (cases "s' = s") auto
qed

text \<open>A new handle under a new address, registered in one session that has room for it.\<close>

lemma daemon_ok_registered:
  assumes ok: "daemon_ok w" and s: "s < sess_next w"
    and w1: "app w1 = app w" "sess_next w1 = sess_next w" "proc_next w1 = Suc (proc_next w)"
      "\<And>a. a < proc_next w \<Longrightarrow> proc_heap w1 a = proc_heap w a" "handle_ok (proc_heap w1 (proc_next w))"
      "\<And>s'. s' \<noteq> s \<Longrightarrow> sess_heap w1 s' = sess_heap w s'"
      "processes (sess_heap w1 s) = AList.update uuid (proc_next w) (processes (sess_heap w s))"
      "length (processes (sess_heap w s)) < max_per_session (process_cfg (app w))"
  shows "daemon_ok w1"
proof -
  note sub = registered_procs(2) [OF w1(6,7)] and same = registered_procs(1) [OF w1(6,7)]
  have old: "session_ok w s'" if "s' < sess_next w" for s' using ok that by (simp add: daemon_ok_def)
  have procs: "procs_ok w1" using ok w1(3-5) by (auto simp: daemon_ok_def procs_ok_def less_Suc_eq)
  have sess: "session_ok w1 s'" if "s' < sess_next w" for s'
    using old [OF that] sub [of s'] w1(3) by (fastforce simp: session_ok_def)
  have bound: "length (processes (sess_heap w1 s')) \<le> max_per_session (process_cfg (app w1))" if "s' < sess_next w" for s'
    using ok that w1(1,6,7,8) length_update_le [of uuid "proc_next w" "processes (sess_heap w s)"]
    by (cases "s' = s") (auto simp: daemon_ok_def)
  have fresh: "proc_next w \<notin> session_procs w s'" if "s' < sess_next w" for s'
    using old [OF that] by (auto simp: session_ok_def)
  have disj: "session_procs w1 p \<inter> session_procs w1 q = {}" if "p < sess_next w" "q < sess_next w" "p \<noteq> q" for p q
  proof -
    have "session_procs w p \<inter> session_procs w q = {}" using ok that by (simp add: daemon_ok_def)
    then show ?thesis
      using sub [of p] sub [of q] same [of p] same [of q] fresh [of p] fresh [of q] that by (cases "p = s") auto
  qed
  show ?thesis using procs sess bound disj ok w1(1,2) by (simp add: daemon_ok_def)
qed

lemma start_ok:
  assumes "daemon_ok w" "s < sess_next w"
  shows "daemon_ok (snd (action_start os uuid sid s req w))"
proof (cases "action_start os uuid sid s req w")
  case (Pair res w')
  show ?thesis
  proof (cases res)
    case (Inl e)
    then show ?thesis
      using Pair start_refused [of os uuid sid s req w e w'] by (intro daemon_ok_same [OF assms(1)]) auto
  next
    case (Inr r)
    then obtain p line w2 where "length (processes (sess_heap w s)) < max_per_session (process_cfg (app w))"
      and "app w2 = app w" "sess_heap w2 = sess_heap w" "sess_next w2 = sess_next w"
      and "w' = upd_session s (\<lambda>ss. ss\<lparr>processes := AList.update uuid (proc_next w) (processes ss)\<rparr>)
      (w2\<lparr>proc_heap := (proc_heap w)(proc_next w :=
             new_handle uuid p line (now w) (buffer_bytes (process_cfg (app w)))),
           proc_next := Suc (proc_next w)\<rparr>)"
      using start_success [of os uuid sid s req w r w'] Pair by blast
    then show ?thesis
      using Pair by (intro daemon_ok_registered [OF assms, where uuid = uuid]) (auto simp: new_handle_ok)
  qed
qed

lemma process_ok:
  assumes "legal il" "daemon_ok w"
  shows "daemon_ok (snd (tool_process os il uuid sid req w))"
proof (cases "enabled (process_cfg (app w)) \<and> \<not> force_unsupported (process_cfg (app w))")
  case True
  show ?thesis
  proof (cases "resolve_session w sid")
    case (Inr s)
    then have "map_of (sessions (app w)) sid = Some s" by (simp add: resolve_session_def result_simps)
    then have s: "s < sess_next w" using assms(2) by (auto simp: daemon_ok_def dest!: map_of_SomeD)
    let ?w = "touch s w"
    have ok: "daemon_ok ?w"
      by (rule daemon_ok_shrinks [OF assms(2)]) (auto simp: shrinks_def touch_def intro: exI [of _ "\<lambda>_. True"] lifecycle.rel_same)
    have run: "snd (tool_process os il uuid sid req w) = snd (process_action_of os il uuid sid s req ?w)"
      using True Inr by (simp add: tool_process_def Let_def)
    show ?thesis
    proof (cases "rq_action req = Start")
      case True
      then show ?thesis using start_ok [OF ok] s run by (simp add: process_action_of_def touch_def)
    next
      case False
      then show ?thesis
        using daemon_ok_shrinks [OF ok shrinks_action [OF assms(1) False] lifecycle.rel_action [OF assms(1)]] run
        by simp
    qed
  qed (use assms(2) in \<open>simp add: tool_process_def Let_def\<close>)
qed (use assms(2) in \<open>auto simp: tool_process_def Let_def\<close>)

lemma create_ok:
  assumes "daemon_ok w"
  shows "daemon_ok (snd (create_session os uuid w)) \<and> handles_rel (\<lambda>_. evolves) w (snd (create_session os uuid w))"
proof -
  obtain made fs where mk: "create_dir_all (files w) (path_join (session_root (app w)) uuid) = (made, fs)"
    by (cases "create_dir_all (files w) (path_join (session_root (app w)) uuid)")
  show ?thesis
  proof (cases made)
    case (Inl e)
    then have "snd (create_session os uuid w) = w\<lparr>files := fs\<rparr>" using mk by (simp add: create_session_def Let_def)
    then show ?thesis
      using assms by (auto simp: daemon_ok_def procs_ok_def session_ok_def session_procs_def intro: lifecycle.rel_same)
  next
    case (Inr u)
    let ?w1 = "snd (create_session_cgroup os (isolation (app w)) uuid (w\<lparr>files := fs\<rparr>))"
    have w1: "app ?w1 = app w" "sess_heap ?w1 = sess_heap w" "proc_heap ?w1 = proc_heap w"
      "sess_next ?w1 = sess_next w" "proc_next ?w1 = proc_next w"
      by (simp_all add: create_session_cgroup_def Let_def split: option.splits)
    let ?w' = "snd (create_session os uuid w)"
    have w': "proc_heap ?w' = proc_heap w" "proc_next ?w' = proc_next w" "sess_next ?w' = Suc (sess_next w)"
      "sessions (app ?w') = AList.update uuid (sess_next w) (sessions (app w))"
      "process_cfg (app ?w') = process_cfg (app w)"
      "\<And>s. s < sess_next w \<Longrightarrow> sess_heap ?w' s = sess_heap w s" "processes (sess_heap ?w' (sess_next w)) = []"
      using mk Inr w1 by (simp_all add: create_session_def Let_def)
    have old: "session_procs ?w' s = session_procs w s" if "s < sess_next w" for s
      using w'(6) that by (simp add: session_procs_def)
    have new: "session_procs ?w' (sess_next w) = {}" using w'(7) by (simp add: session_procs_def)
    have one: "session_ok ?w' s \<and> length (processes (sess_heap ?w' s)) \<le> max_per_session (process_cfg (app ?w'))"
      if "s < Suc (sess_next w)" for s
    proof (cases "s = sess_next w")
      case False
      then have "s < sess_next w" using that by simp
      then show ?thesis using assms w' old [of s] by (auto simp: daemon_ok_def session_ok_def)
    qed (use w' new in \<open>simp add: session_ok_def\<close>)
    have upd: "set (AList.update uuid n t) \<subseteq> insert (uuid, n) (set t)" for n :: nat and t
      by (induction t) auto
    have tab: "\<forall>(sid, s) \<in> set (sessions (app ?w')). s < sess_next ?w'"
      using upd [of "sess_next w" "sessions (app w)"] assms w'(3,4) by (fastforce simp: daemon_ok_def)
    have "daemon_ok ?w'"
      using assms w' one tab old new
      by (auto simp: daemon_ok_def procs_ok_def distinct_update less_Suc_eq)
    moreover have "handles_rel (\<lambda>_. evolves) w ?w'" by (rule lifecycle.rel_same) (use w' in auto)
    ultimately show ?thesis by blast
  qed
qed

lemma file_tool_same:
  assumes "app w' = app w" "sess_heap w' = sess_heap w" "proc_heap w' = proc_heap w"
    "proc_next w' = proc_next w" "sess_next w' = sess_next w"
  shows "shrinks w w' \<and> handles_rel (\<lambda>_. evolves) w w'"
  using assms by (auto intro: shrinks_same lifecycle.rel_same)

text \<open>What a command leaves of the world: the tables after the spawn, a wait, and other files.\<close>

lemma await_files_facts:
  assumes "legal il" "tables_same w w2" "proc_heap w2 = proc_heap w"
  shows "shrinks w ((timed_await il ms w2)\<lparr>files := fs\<rparr>)"
    "handles_rel (\<lambda>_. evolves) w ((timed_await il ms w2)\<lparr>files := fs\<rparr>)"
proof -
  show "shrinks w ((timed_await il ms w2)\<lparr>files := fs\<rparr>)"
    by (rule shrinks_trans [OF shrinks_tables [OF assms(2)] shrinks_same])
      (simp_all add: timed_await_frame [OF assms(1)])
  show "handles_rel (\<lambda>_. evolves) w ((timed_await il ms w2)\<lparr>files := fs\<rparr>)"
    using lifecycle.rel_trans [OF lifecycle.rel_same lifecycle.rel_trans [OF lifecycle.rel_timed [OF assms(1), of w2 ms] lifecycle.rel_same]]
      assms(2,3) by (simp add: tables_same_def)
qed

lemma bash_facts:
  assumes "legal il"
  shows "shrinks w (snd (tool_bash os il sid cmd t w)) \<and> handles_rel (\<lambda>_. evolves) w (snd (tool_bash os il sid cmd t w))"
proof -
  let ?b = "rtry (session_cwd w sid) (\<lambda>cwd. build_sandboxed_command (app w) sid cwd ''/bin/bash'' [''-c'', cmd])"
  show ?thesis
  proof (cases ?b)
    case (Inl e)
    then show ?thesis by (simp add: tool_bash_def shrinks_refl lifecycle.rel_refl)
  next
    case (Inr c0)
    let ?c = "c0\<lparr>c_stdout := Piped, c_stderr := Piped, c_stdin := Null\<rparr>"
    show ?thesis
    proof (cases "os_spawn os w ?c")
      case (Inl e)
      have "snd (tool_bash os il sid cmd t w) = sys (Spawn ?c) w"
        using Inl \<open>?b = Inr c0\<close> by (simp add: tool_bash_def Let_def)
      then show ?thesis by (simp add: file_tool_same)
    next
      case (Inr po)
      define w2 where "w2 = (case (cgroup_root (isolation (app w)), po) of
          (Some cg, Some p) \<Rightarrow> cgroup_attach_pid (session_cgroup cg sid) p (sys (Spawn ?c) w) | _ \<Rightarrow> sys (Spawn ?c) w)"
      have w2: "tables_same w w2" "proc_heap w2 = proc_heap w"
        by (auto simp: w2_def tables_same_def cgroup_attach_pid_def split: option.splits)
      obtain out fs where "os_output os (timed_await il (clamp_nat 1 300 t * 1000) w2) ?c (clamp_nat 1 300 t) = (out, fs)"
        by (cases "os_output os (timed_await il (clamp_nat 1 300 t * 1000) w2) ?c (clamp_nat 1 300 t)")
      moreover have "tool_bash os il sid cmd t w =
          (let secs = clamp_nat 1 300 t; w3 = timed_await il (secs * 1000) w2;
               (out, fs) = os_output os w3 ?c secs; w4 = w3\<lparr>files := fs\<rparr>
           in case out of
                Some (Inr (so, se, code)) \<Rightarrow>
                  (Inr \<lparr>br_stdout = from_utf8_lossy so, br_stderr = from_utf8_lossy se,
                       br_exit_code = (case code of Some x \<Rightarrow> x | None \<Rightarrow> - 1), br_timed_out = False\<rparr>, w4)
              | Some (Inl e) \<Rightarrow> (Inl (INTERNAL_SERVER_ERROR, ''wait: '' @ e), w4)
              | None \<Rightarrow>
                  (Inr \<lparr>br_stdout = [], br_stderr = ''timeout after '' @ show_nat secs @ ''s'',
                       br_exit_code = 124, br_timed_out = True\<rparr>, w4))"
        using Inr \<open>?b = Inr c0\<close> by (simp add: tool_bash_def Let_def w2_def)
      ultimately have "snd (tool_bash os il sid cmd t w) = (timed_await il (clamp_nat 1 300 t * 1000) w2)\<lparr>files := fs\<rparr>"
        by (auto simp: Let_def split: option.split sum.split)
      then show ?thesis using await_files_facts [OF assms w2] by simp
    qed
  qed
qed

lemma daemon_step_ok:
  assumes "daemon_step os w w'" "daemon_ok w"
  shows "daemon_ok w' \<and> handles_rel (\<lambda>_. evolves) w w'"
  using assms(1)
proof (cases rule: daemon_step.cases)
  case background
  then have "shrinks w w'" using bg_step_frame [of w w'] by (intro shrinks_same) (auto simp: bg_frame_def)
  then show ?thesis using background daemon_ok_shrinks [OF assms(2)] lifecycle.rel_bg by blast
next
  case (process il uuid sid req)
  then show ?thesis using process_ok [OF process(2) assms(2)] lifecycle.rel_process by simp
next
  case (create uuid)
  then show ?thesis using create_ok [OF assms(2)] by simp
next
  case (delete il sid)
  then show ?thesis
    using reap_one_facts [of il w os sid] daemon_ok_shrinks [OF assms(2)] by (simp add: delete_session_reap_one)
next
  case (reaper il)
  then show ?thesis
    using reaper_facts [of il w os "reaper_victims w"] daemon_ok_shrinks [OF assms(2)] by (simp add: reaper_round_def)
next
  case (file_write sid rel content)
  have "shrinks w w' \<and> handles_rel (\<lambda>_. evolves) w w'"
    unfolding file_write
    by (rule file_tool_same) (auto simp: tool_write_def Let_def split: sum.splits prod.splits)
  then show ?thesis using daemon_ok_shrinks [OF assms(2)] by blast
next
  case (file_edit sid ereq)
  have "shrinks w w' \<and> handles_rel (\<lambda>_. evolves) w w'"
    unfolding file_edit
    by (rule file_tool_same) (auto simp: tool_edit_def split: sum.splits prod.splits)
  then show ?thesis using daemon_ok_shrinks [OF assms(2)] by blast
next
  case (bash il sid cmd t)
  then show ?thesis using bash_facts [of il w os sid cmd t] daemon_ok_shrinks [OF assms(2)] by simp
qed

lemma daemon_steps_ok:
  assumes "(daemon_step os)\<^sup>*\<^sup>* w w'" "daemon_ok w"
  shows "daemon_ok w' \<and> handles_rel (\<lambda>_. evolves) w w'"
  using assms
proof (induction rule: rtranclp_induct)
  case (step y z)
  then show ?case using daemon_step_ok [of os y z] lifecycle.rel_trans by blast
qed (simp add: lifecycle.rel_refl)

text \<open>The world after start-up.\<close>

definition boot :: "app_state \<Rightarrow> fs \<Rightarrow> world" where
  "boot st fs = \<lparr>app = st, sess_heap = (\<lambda>_. \<lparr>s_cwd = [], last_touched = 0, processes = []\<rparr>), sess_next = 0,
     proc_heap = (\<lambda>_. new_handle [] 0 [] 0 0), proc_next = 0, now = 0, files = fs, trace = [], waits = [], awaits = 0\<rparr>"

lemma boot_ok: "sessions st = [] \<Longrightarrow> daemon_ok (boot st fs)"
  by (simp add: daemon_ok_def boot_def procs_ok_def)

lemma make_state_empty: "make_state env p compile prep fs = (Inr st, fs1) \<Longrightarrow> sessions st = []"
  by (auto simp: make_state_def Let_def split: prod.splits sum.splits if_splits)



section \<open>Deleting a session\<close>

lemma millis_5: "millis 5 = 5000"
  by (simp add: millis_def u64_max_def)

lemma terminate_step:
  assumes "legal il" "a < proc_next w" "handle_ok (proc_heap w a)"
  shows "(h_state (proc_heap (terminate_handle os il a 5 kg w) a) \<noteq> Running
       \<or> Kill (signal_target (pid (proc_heap w a)) kg) SIGKILL \<in> set (trace (terminate_handle os il a 5 kg w)))
    \<and> (\<exists>ks. trace (terminate_handle os il a 5 kg w) = trace w @ ks)
    \<and> (\<exists>ws. waits (terminate_handle os il a 5 kg w) = waits w @ ws \<and> sum_list ws \<le> 7000)"
  using terminate_trace [OF assms, of os 5 kg]
proof (elim disjE)
  assume n: "\<not> snapshot_running (proc_heap w a) \<and> trace (terminate_handle os il a 5 kg w) = trace w
    \<and> waits (terminate_handle os il a 5 kg w) = waits w"
  then have "terminate_handle os il a 5 kg w = w" "h_state (proc_heap w a) \<noteq> Running"
    by (auto simp: terminate_handle_def snapshot_running_def split: if_splits)
  then show ?thesis using n by simp
qed (fastforce simp: millis_5)+

lemma terminate_all:
  assumes "legal il" "procs_ok w" "\<forall>a \<in> set as. a < proc_next w"
  shows "(\<forall>a \<in> set as. h_state (proc_heap (foldl (\<lambda>w a. terminate_handle os il a 5 kg w) w as) a) \<noteq> Running
       \<or> Kill (signal_target (pid (proc_heap w a)) kg) SIGKILL
           \<in> set (trace (foldl (\<lambda>w a. terminate_handle os il a 5 kg w) w as)))
    \<and> (\<exists>ks. trace (foldl (\<lambda>w a. terminate_handle os il a 5 kg w) w as) = trace w @ ks)
    \<and> (\<exists>ws. waits (foldl (\<lambda>w a. terminate_handle os il a 5 kg w) w as) = waits w @ ws
          \<and> sum_list ws \<le> 7000 * length as)"
  using assms(2,3)
proof (induction "as" arbitrary: w)
  case (Cons a "as")
  let ?w1 = "terminate_handle os il a 5 kg w"
  let ?w2 = "foldl (\<lambda>w a. terminate_handle os il a 5 kg w) ?w1 as"
  have rel1: "handles_rel (\<lambda>_. evolves) w ?w1" by (rule lifecycle.rel_terminate [OF assms(1)])
  have rel2: "handles_rel (\<lambda>_. evolves) ?w1 ?w2" by (rule lifecycle.rel_terminate_all [OF assms(1)])
  have n1: "proc_next ?w1 = proc_next w" by (rule terminate_proc_next [OF assms(1)])
  have ok1: "procs_ok ?w1" by (rule procs_ok_rel [OF Cons.prems(1) rel1 n1])
  have lt: "\<forall>b \<in> set as. b < proc_next ?w1" using Cons.prems(2) n1 by simp
  have a: "a < proc_next w" "handle_ok (proc_heap w a)" using Cons.prems by (auto simp: procs_ok_def)
  have a1: "a < proc_next ?w1" "handle_ok (proc_heap ?w1 a)" using ok1 a(1) n1 by (auto simp: procs_ok_def)
  note step = terminate_step [OF assms(1) a, of os kg]
  note rest = Cons.IH [OF ok1 lt]
  obtain ks where ks: "trace ?w2 = trace ?w1 @ ks" using rest by blast
  have "h_state (proc_heap ?w2 a) \<noteq> Running \<or> Kill (signal_target (pid (proc_heap w a)) kg) SIGKILL \<in> set (trace ?w2)"
    using step evolves_world [OF rel2 a1] ks by auto
  moreover have "pid (proc_heap ?w1 b) = pid (proc_heap w b)" if "b \<in> set as" for b
    using evolves_world [OF rel1] Cons.prems that by (auto simp: procs_ok_def)
  ultimately have "\<forall>b \<in> set (a # as). h_state (proc_heap ?w2 b) \<noteq> Running
      \<or> Kill (signal_target (pid (proc_heap w b)) kg) SIGKILL \<in> set (trace ?w2)"
    using rest by auto
  moreover have "\<exists>ks. trace ?w2 = trace w @ ks" using step ks by auto
  moreover have "\<exists>ws. waits ?w2 = waits w @ ws \<and> sum_list ws \<le> 7000 * length (a # as)"
  proof -
    obtain w1 where "waits ?w1 = waits w @ w1" "sum_list w1 \<le> 7000" using step by blast
    moreover obtain w2 where "waits ?w2 = waits ?w1 @ w2" "sum_list w2 \<le> 7000 * length as" using rest by blast
    ultimately show ?thesis by (intro exI [of _ "w1 @ w2"]) simp
  qed
  ultimately show ?case by simp
qed simp

lemma reap_effect:
  fixes os il s kg w
  defines "w' \<equiv> await il (reap_session_processes os il s kg w)"
  assumes l: "legal il" and ok: "procs_ok w" and fresh: "\<forall>a \<in> session_procs w s. a < proc_next w"
  shows "app w' = app w" "files w' = files w" "processes (sess_heap w' s) = []"
    "s_cwd (sess_heap w' s) = s_cwd (sess_heap w s)"
    "\<forall>a \<in> session_procs w s. h_state (proc_heap w' a) \<noteq> Running
       \<or> Kill (signal_target (pid (proc_heap w a)) kg) SIGKILL \<in> set (trace w')"
    "\<exists>ws. waits w' = waits w @ ws \<and> sum_list ws \<le> 7000 * length (processes (sess_heap w s))"
proof -
  let ?as = "map snd (processes (sess_heap w s))"
  define w1 where "w1 = foldl (\<lambda>w a. terminate_handle os il a 5 kg w) w ?as"
  define w2 where "w2 = upd_session s (\<lambda>ss. ss\<lparr>processes := []\<rparr>) w1"
  have w': "w' = await il w2" by (simp add: w'_def reap_session_processes_def w1_def w2_def Let_def)
  have as: "set ?as = session_procs w s" by (simp add: session_procs_def)
  have same: "tables_same w w1" unfolding w1_def by (rule tables_same_terminate_all [OF l])
  note all = terminate_all [OF l ok, of ?as os kg, folded w1_def, unfolded as, OF fresh]
  note frame = await_frame [OF l, of w2, folded w']
  show "app w' = app w" "files w' = files w" "processes (sess_heap w' s) = []"
    "s_cwd (sess_heap w' s) = s_cwd (sess_heap w s)"
    using frame same by (simp_all add: w2_def tables_same_def)
  show "\<exists>ws. waits w' = waits w @ ws \<and> sum_list ws \<le> 7000 * length (processes (sess_heap w s))"
    using all frame by (simp add: w2_def)
  have ok1: "procs_ok w1"
    using procs_ok_rel [OF ok lifecycle.rel_terminate_all [OF l]] same by (simp add: w1_def tables_same_def)
  have rel: "handles_rel (\<lambda>_. evolves) w1 w'"
    unfolding w' w2_def by (rule lifecycle.rel_trans [OF lifecycle.rel_same lifecycle.rel_await [OF l]]) auto
  show "\<forall>a \<in> session_procs w s. h_state (proc_heap w' a) \<noteq> Running
      \<or> Kill (signal_target (pid (proc_heap w a)) kg) SIGKILL \<in> set (trace w')"
  proof
    fix a assume a: "a \<in> session_procs w s"
    then have "a < proc_next w1" using fresh same by (simp add: tables_same_def)
    moreover from this have "handle_ok (proc_heap w1 a)" using ok1 by (simp add: procs_ok_def)
    ultimately show "h_state (proc_heap w' a) \<noteq> Running
        \<or> Kill (signal_target (pid (proc_heap w a)) kg) SIGKILL \<in> set (trace w')"
      using all a evolves_world [OF rel, of a] frame(6) by (auto simp: w2_def)
  qed
qed

text \<open>Removing the directory and the cgroup of the session.\<close>

lemma cleanup_effect:
  fixes sid s w
  defines "w' \<equiv> drop_cgroup sid (remove_cwd s w)"
  shows "app w' = app w" "sess_heap w' = sess_heap w" "proc_heap w' = proc_heap w" "waits w' = waits w"
    "set (trace w) \<subseteq> set (trace w')"
  by (auto simp: w'_def drop_cgroup_def cleanup_session_cgroup_def remove_cwd_def split: option.splits sum.splits)

lemma cleanup_removes_tree:
  assumes "entry_pos (files w) (s_cwd (sess_heap w s)) = Inr k" "k \<noteq> []" "node_at (files w) k = Some Dir"
  shows "node_at (files (drop_cgroup sid (remove_cwd s w))) (k @ ns) = None"
proof -
  have "files (drop_cgroup sid (remove_cwd s w)) = filter (\<lambda>(k', _). \<not> prefix k k') (files w)"
    using assms by (simp add: remove_cwd_def fs_remove_dir_all_def)
  moreover have "map_of (filter (\<lambda>(k', _). \<not> prefix k k') t) (k @ ns) = None" for t :: fs
    by (induction t) auto
  ultimately show ?thesis using assms(2) by (simp add: node_at_def)
qed

lemma delete_session_effect:
  assumes "legal il" "daemon_ok w" "map_of (sessions (app w)) sid = Some s"
    and "delete_session os il sid w = (r, w')"
  shows "r = Inr NO_CONTENT" "map_of (sessions (app w')) = (map_of (sessions (app w)))(sid := None)"
    "processes (sess_heap w' s) = []"
    "\<forall>a \<in> session_procs w s. h_state (proc_heap w' a) \<noteq> Running
         \<or> Kill (signal_target (pid (proc_heap w a)) (kill_group (process_cfg (app w)))) SIGKILL \<in> set (trace w')"
    "\<forall>k ns. entry_pos (files w) (s_cwd (sess_heap w s)) = Inr k \<and> k \<noteq> [] \<and> node_at (files w) k = Some Dir \<longrightarrow>
         node_at (files w') (k @ ns) = None"
    "\<exists>ws. waits w' = waits w @ ws \<and> sum_list ws \<le> 7000 * length (processes (sess_heap w s))"
proof -
  let ?kg = "kill_group (process_cfg (app w))"
  define w0 where "w0 = set_sessions (AList.delete sid (sessions (app w))) w"
  define w3 where "w3 = await il (reap_session_processes os il s ?kg w0)"
  have w': "w' = drop_cgroup sid (remove_cwd s w3)" and r: "r = Inr NO_CONTENT"
    using assms(3,4) by (simp_all add: delete_session_def evict_def w0_def w3_def)
  have w0: "proc_heap w0 = proc_heap w" "waits w0 = waits w" "sess_heap w0 = sess_heap w" "files w0 = files w"
    "session_procs w0 s = session_procs w s" "procs_ok w0"
    "map_of (sessions (app w0)) = (map_of (sessions (app w)))(sid := None)"
    using assms(2) by (simp_all add: w0_def session_procs_def daemon_ok_def procs_ok_def fun_eq_iff table_simps)
  have "s < sess_next w" using assms(2,3) by (auto simp: daemon_ok_def dest!: map_of_SomeD)
  then have "\<forall>a \<in> session_procs w0 s. a < proc_next w0"
    unfolding w0(5) using assms(2) by (auto simp: daemon_ok_def session_ok_def w0_def)
  note reap = reap_effect [OF assms(1) w0(6) this, of os ?kg, folded w3_def]
  note clean = cleanup_effect [where sid = sid and s = s and w = w3, folded w']
  show "r = Inr NO_CONTENT" by (rule r)
  show "map_of (sessions (app w')) = (map_of (sessions (app w)))(sid := None)" using clean(1) reap(1) w0(7) by simp
  show "processes (sess_heap w' s) = []" using clean(2) reap(3) by simp
  show "\<forall>a \<in> session_procs w s. h_state (proc_heap w' a) \<noteq> Running
      \<or> Kill (signal_target (pid (proc_heap w a)) ?kg) SIGKILL \<in> set (trace w')"
    using clean(3,5) reap(5) w0(1,5) by auto
  show "\<forall>k ns. entry_pos (files w) (s_cwd (sess_heap w s)) = Inr k \<and> k \<noteq> [] \<and> node_at (files w) k = Some Dir \<longrightarrow>
      node_at (files w') (k @ ns) = None"
    using cleanup_removes_tree [of w3 s _ sid] reap(2,4) w0(3,4) by (simp add: w')
  show "\<exists>ws. waits w' = waits w @ ws \<and> sum_list ws \<le> 7000 * length (processes (sess_heap w s))"
    using clean(4) reap(6) w0(2,3) by simp
qed

text \<open>C25: Session deletion. Deleting a live session answers 204 and forgets exactly this
  session; its table is emptied; every process it held has ended or has been sent SIGKILL;
  its directory, where it is a directory, is gone with everything below it; and the whole
  takes at most seven seconds of timed waits per process.\<close>

theorem delete_session_reaps:
  assumes "legal il" "daemon_ok w" "map_of (sessions (app w)) sid = Some s"
    and "delete_session os il sid w = (r, w')"
  shows "r = Inr NO_CONTENT
    \<and> map_of (sessions (app w')) = (map_of (sessions (app w)))(sid := None)
    \<and> processes (sess_heap w' s) = []
    \<and> (\<forall>a \<in> session_procs w s. h_state (proc_heap w' a) \<noteq> Running
         \<or> Kill (signal_target (pid (proc_heap w a)) (kill_group (process_cfg (app w)))) SIGKILL \<in> set (trace w'))
    \<and> (\<forall>k ns. entry_pos (files w) (s_cwd (sess_heap w s)) = Inr k \<and> k \<noteq> [] \<and> node_at (files w) k = Some Dir \<longrightarrow>
         node_at (files w') (k @ ns) = None)
    \<and> (\<exists>ws. waits w' = waits w @ ws \<and> sum_list ws \<le> 7000 * length (processes (sess_heap w s)))"
  using delete_session_effect [OF assms] by blast

theorem delete_session_reaps_witness:
  "\<exists>w'. delete_session demo_os idle ''s'' (demo_fs_world\<lparr>waits := []\<rparr>) = (Inr NO_CONTENT, w')
     \<and> processes (sess_heap w' 0) = [] \<and> node_at (files w') [''sandboxes'', ''s''] = None
     \<and> Kill (- 100) SIGKILL \<in> set (trace w')"
proof -
  let ?w = "demo_fs_world\<lparr>waits := []\<rparr>"
  obtain r w' where run: "delete_session demo_os idle ''s'' ?w = (r, w')"
    by (cases "delete_session demo_os idle ''s'' ?w")
  have ok: "daemon_ok ?w"
    by (auto simp: daemon_ok_def demo_fs_world_def demo_world_def demo_app_def procs_ok_def session_ok_def session_procs_def)
  have m: "map_of (sessions (app ?w)) ''s'' = Some 0" by (simp add: demo_fs_world_def demo_world_def demo_app_def)
  note d = delete_session_reaps [OF legal_idle ok m run]
  have e: "entry_pos (files ?w) (s_cwd (sess_heap ?w 0)) = Inr [''sandboxes'', ''s'']"
    "node_at (files ?w) [''sandboxes'', ''s''] = Some Dir"
    by (simp_all add: demo_fs_world_def demo_world_def entry_pos_def path_parent_def canon_def node_at_def)
  have "\<forall>ns. node_at (files w') ([''sandboxes'', ''s''] @ ns) = None" using d e by blast
  then have gone: "node_at (files w') [''sandboxes'', ''s''] = None" by (metis append.right_neutral)
  have "Kill (- 100) SIGKILL \<in> set (trace w') \<or> h_state (proc_heap w' 0) \<noteq> Running"
    using d by (auto simp: demo_fs_world_def demo_world_def demo_app_def session_procs_def demo_running_def
        new_handle_def signal_target_def)
  moreover have "h_state (proc_heap w' 0) = Running"
    using run by (auto simp: delete_session_def evict_def reap_session_processes_def terminate_handle_def
        demo_fs_world_def demo_defs new_handle_def snapshot_running_def send_signal_world timed_await_def await_def
        set_sessions_def sys_def Let_def)
  ultimately show ?thesis using run d gone by blast
qed

section \<open>Two surprises\<close>

text \<open>A start request looks its session up before a concurrent delete request and inserts
  the new process after it. The daemon then runs a process that no session holds: the delete
  has emptied the table before, and the session is no longer in the daemon's table.\<close>

theorem start_races_delete:
  "\<exists>r w1 w2. resolve_session demo_fs_world ''s'' = Inr 0
     \<and> delete_session demo_os idle ''s'' demo_fs_world = (Inr NO_CONTENT, w1)
     \<and> action_start demo_os ''q'' ''s'' 0 (demo_req Start\<lparr>rq_process_id := None, rq_command := Some ''sh''\<rparr>) w1 = (Inr r, w2)
     \<and> sessions (app w2) = [] \<and> h_state (proc_heap w2 1) = Running
     \<and> resolve_session w2 ''s'' = Inl (NOT_FOUND, ''session s not found'')"
proof -
  let ?req = "demo_req Start\<lparr>rq_process_id := None, rq_command := Some ''sh''\<rparr>"
  obtain w1 where del: "delete_session demo_os idle ''s'' demo_fs_world = (Inr NO_CONTENT, w1)"
    by (simp add: delete_session_def demo_fs_world_def demo_world_def demo_app_def)
  then have w1: "sessions (app w1) = []" "proc_next w1 = 1" "process_cfg (app w1) = process_cfg demo_app"
    "chroot_root (app w1) = None" "seccomp_filter (app w1) = None" "cgroup_root (isolation (app w1)) = None"
    "processes (sess_heap w1 0) = []"
    by (auto simp: delete_session_def evict_def reap_session_processes_def terminate_handle_def
        demo_fs_world_def demo_defs new_handle_def snapshot_running_def send_signal_world timed_await_def await_def
        set_sessions_def sys_def Let_def)
  obtain r w2 where st: "action_start demo_os ''q'' ''s'' 0 ?req w1 = (Inr r, w2)"
    and w2: "sessions (app w2) = []" "h_state (proc_heap w2 1) = Running"
    using w1 by (simp add: action_start_def demo_req_def demo_os_def start_command_def build_sandboxed_command_def
        demo_app_def new_handle_def Let_def)
  have "resolve_session demo_fs_world ''s'' = Inr 0"
    by (simp add: resolve_session_def demo_fs_world_def demo_world_def demo_app_def)
  moreover have "resolve_session w2 ''s'' = Inl (NOT_FOUND, ''session s not found'')"
    using w2 by (simp add: resolve_session_def)
  ultimately show ?thesis using del st w2 by blast
qed

text \<open>Only the process tool counts as activity. The file tools leave the time of the
  last touch as it is, so a session used only through them is among the reaper's victims as
  soon as its age reaches the idle limit, however recent its last request.\<close>

theorem file_tools_do_not_touch:
  assumes "map_of (sessions (app w)) sid = Some s"
    and "idle_reap_sec (process_cfg (app w)) \<le> idle_secs w s"
    and "w' \<in> {snd (tool_write sid rel content w), snd (tool_edit sid ereq w)}"
  shows "sid \<in> set (reaper_victims w')"
proof -
  have same: "app w' = app w" "sess_heap w' = sess_heap w" "now w' = now w"
    using assms(3) by (auto simp: tool_write_def tool_edit_def Let_def split: sum.splits prod.splits)
  have "(sid, s) \<in> set (sessions (app w))" using assms(1) by (rule map_of_SomeD)
  then show ?thesis
    using assms(2) same by (force simp: reaper_victims_def idle_secs_def)
qed

theorem file_tools_do_not_touch_witness:
  "\<exists>w'. tool_write ''s'' ''a/b.txt'' ''hi'' (demo_fs_world\<lparr>now := 3600 * 10 ^ 9\<rparr>) = (Inr 2, w')
     \<and> ''s'' \<in> set (reaper_victims w')"
proof -
  let ?w = "demo_fs_world\<lparr>now := 3600 * 10 ^ 9\<rparr>"
  obtain w' where w': "tool_write ''s'' ''a/b.txt'' ''hi'' ?w = (Inr 2, w')"
    by (simp add: tool_write_def session_cwd_def resolve_session_def demo_fs_world_def demo_defs resolve_in_def
      starts_with_def path_join_def is_absolute_def inner_components_def inner_component_def normalize_step_def
      path_pop_def path_starts_with_def path_parent_def create_dir_all.simps fs_mkdir_def entry_pos_def
      canon_def max_links_def node_at_def fs_write_def Let_def)
  have "w' = snd (tool_write ''s'' ''a/b.txt'' ''hi'' ?w)" using w' by simp
  then have "''s'' \<in> set (reaper_victims w')"
    using file_tools_do_not_touch [of ?w "''s''" 0 w' "''a/b.txt''" "''hi''"]
    by (simp add: demo_fs_world_def demo_world_def demo_app_def idle_secs_def)
  then show ?thesis using w' by blast
qed

end
