(* ===== verification/Tools_Search.thy ===== *)
theory Tools_Search
  imports Tools_Daemon Process_Props
begin

text \<open>
  \<open>grep\<close> and \<open>find\<close> of the tools daemon (\<open>tools-rust/src/main.rs\<close>): the walk over the files,
  the limits and the flag \<open>truncated\<close>. The regex, glob and directory-walk crates are
  parameters: \<open>rx\<close> compiles a pattern (with its two switches) to a predicate on lines whose
  errors count as no match, \<open>gl\<close> a glob to a predicate on relative paths, \<open>ents\<close> is the
  sequence of entries the walker yields, with the bit whether an entry is a regular file.
\<close>

section \<open>grep\<close>

record grep_search_req =
  gs_pattern :: string
  gs_glob :: "string option"
  gs_ignore_case :: bool
  gs_literal :: bool
  gs_context :: nat
  gs_limit :: nat
  gs_max_files :: nat
  gs_want_content :: bool
  gs_want_files :: bool
  gs_want_count :: bool

record grep_match =
  gm_path :: string
  gm_line :: nat
  gm_text :: string

record ripgrep_result =
  rr_matches :: "grep_match list"
  rr_files :: "string list"
  rr_counts :: "(string \<times> nat) list"
  rr_walked :: nat
  rr_truncated :: bool

type_synonym regex_crate = "bool \<Rightarrow> bool \<Rightarrow> string \<Rightarrow> string + (bytes \<Rightarrow> bool option)"
type_synonym glob_crate = "string \<Rightarrow> string + (string \<Rightarrow> bool)"

text \<open>
  The loop over the lines of one file: the indices to emit, the number of matches seen, the
  number emitted so far and whether the limit was hit.
\<close>

fun scan_lines :: "(string \<Rightarrow> bool) \<Rightarrow> bool \<Rightarrow> nat \<Rightarrow> nat \<Rightarrow> string list \<Rightarrow> nat \<Rightarrow> nat list \<times> nat \<times> nat \<times> bool" where
  "scan_lines m want limit idx [] em = ([], 0, em, False)"
| "scan_lines m want limit idx (l # ls) em =
     (if \<not> m l then scan_lines m want limit (Suc idx) ls em
      else if want then
        (if em \<ge> limit then ([], 1, em, True)
         else (case scan_lines m want limit (Suc idx) ls (Suc em) of
                 (ix, n, em', tr) \<Rightarrow> (idx # ix, Suc n, em', tr)))
      else (case scan_lines m want limit (Suc idx) ls em of
              (ix, n, em', tr) \<Rightarrow> (ix, Suc n, em', tr)))"

text \<open>The lines within \<open>context\<close> of a matched line, as the ordered set \<open>selected\<close>.\<close>

definition selected_lines :: "nat \<Rightarrow> nat \<Rightarrow> nat list \<Rightarrow> nat list" where
  "selected_lines ctx n ix = filter (\<lambda>j. \<exists>i \<in> set ix. i - ctx \<le> j \<and> j \<le> min (sat_add i ctx) (n - 1)) [0..<n]"

definition match_text :: "string \<Rightarrow> string" where
  "match_text l = trim_end_matches (char_of (13 :: nat)) (trim_end_matches (char_of (10 :: nat)) l)"

definition rel_path :: "path \<Rightarrow> path \<Rightarrow> string" where
  "rel_path cwd p = (case path_strip_prefix p cwd of Some q \<Rightarrow> path_str q | None \<Rightarrow> path_str p)"

text \<open>The lines of a file the search looks at, or none when it is skipped.\<close>

definition file_lines :: "fs \<Rightarrow> (string \<Rightarrow> bool) option \<Rightarrow> path \<Rightarrow> path \<Rightarrow> string list option" where
  "file_lines fs glob cwd p =
     (if (case glob of Some g \<Rightarrow> \<not> g (rel_path cwd p) | None \<Rightarrow> False) then None
      else (case fs_read fs p of
              Inl _ \<Rightarrow> None
            | Inr bs \<Rightarrow> if 0 \<in> set bs then None
                        else Some (split_inclusive (char_of (10 :: nat)) (from_utf8_lossy bs))))"

definition emit :: "grep_search_req \<Rightarrow> string \<Rightarrow> string list \<Rightarrow> nat list \<Rightarrow> grep_match list" where
  "emit req rel ls ix =
     map (\<lambda>j. \<lparr>gm_path = rel, gm_line = j + 1, gm_text = match_text (ls ! j)\<rparr>)
       (selected_lines (gs_context req) (length ls) ix)"

text \<open>The loop over the walker's entries. \<open>em\<close> counts the matches emitted so far.\<close>

fun grep_loop ::
  "fs \<Rightarrow> path \<Rightarrow> grep_search_req \<Rightarrow> (string \<Rightarrow> bool) \<Rightarrow> (string \<Rightarrow> bool) option \<Rightarrow> (path \<times> bool) list \<Rightarrow>
     ripgrep_result \<Rightarrow> nat \<Rightarrow> ripgrep_result" where
  "grep_loop fs cwd req m glob [] r em = r"
| "grep_loop fs cwd req m glob ((p, is_file) # es) r em =
     (if \<not> is_file then grep_loop fs cwd req m glob es r em
      else
        let r1 = r\<lparr>rr_walked := rr_walked r + 1\<rparr>
        in if rr_walked r1 > gs_max_files req then r1\<lparr>rr_truncated := True\<rparr>
           else case file_lines fs glob cwd p of
             None \<Rightarrow> grep_loop fs cwd req m glob es r1 em
           | Some ls \<Rightarrow>
             (case scan_lines m (gs_want_content req) (gs_limit req) 0 ls em of
                (ix, n, em', tr) \<Rightarrow>
                  let r2 = r1\<lparr>rr_truncated := rr_truncated r1 \<or> tr\<rparr>; rel = rel_path cwd p
                  in if n > 0 \<and> gs_want_content req then
                       (let r3 = r2\<lparr>rr_matches := rr_matches r2 @ emit req rel ls ix\<rparr>
                        in if rr_truncated r3 then r3 else grep_loop fs cwd req m glob es r3 em')
                     else if n > 0 \<and> gs_want_files req then
                       (if length (rr_files r2) \<ge> gs_limit req then r2\<lparr>rr_truncated := True\<rparr>
                        else grep_loop fs cwd req m glob es (r2\<lparr>rr_files := rr_files r2 @ [rel]\<rparr>) em')
                     else if n > 0 \<and> gs_want_count req then
                       (if length (rr_counts r2) \<ge> gs_limit req then r2\<lparr>rr_truncated := True\<rparr>
                        else grep_loop fs cwd req m glob es (r2\<lparr>rr_counts := rr_counts r2 @ [(rel, n)]\<rparr>) em')
                     else if rr_truncated r2 \<and> gs_want_content req then r2
                     else grep_loop fs cwd req m glob es r2 em'))"

definition empty_result :: ripgrep_result where
  "empty_result = \<lparr>rr_matches = [], rr_files = [], rr_counts = [], rr_walked = 0, rr_truncated = False\<rparr>"

definition run_ripgrep_search ::
  "regex_crate \<Rightarrow> glob_crate \<Rightarrow> fs \<Rightarrow> path \<Rightarrow> (path \<times> bool) list \<Rightarrow> grep_search_req \<Rightarrow> ripgrep_result result" where
  "run_ripgrep_search rx gl fs cwd ents req =
     rtry (map_err (\<lambda>e. (BAD_REQUEST, ''bad regex: '' @ e)) (rx (gs_ignore_case req) (gs_literal req) (gs_pattern req))) (\<lambda>mt.
     rtry (case gs_glob req of
             Some g \<Rightarrow> map_err (\<lambda>e. (BAD_REQUEST, ''bad glob: '' @ e)) (rtry (gl g) (\<lambda>f. Inr (Some f)))
           | None \<Rightarrow> Inr None) (\<lambda>glob.
     Inr (grep_loop fs cwd req (\<lambda>l. mt (as_bytes l) = Some True) glob ents empty_result 0)))"

record grep_req =
  gr_pattern :: string
  gr_path :: string
  gr_glob :: "string option"
  gr_ignore_case :: bool
  gr_literal :: bool
  gr_context :: nat
  gr_limit :: nat
  gr_output_mode :: string
  gr_max_files :: nat

definition tool_grep ::
  "regex_crate \<Rightarrow> glob_crate \<Rightarrow> (fs \<Rightarrow> path \<Rightarrow> (path \<times> bool) list) \<Rightarrow> string \<Rightarrow> grep_req \<Rightarrow> world
     \<Rightarrow> ripgrep_result result" where
  "tool_grep rx gl walker sid req w =
     rtry (session_cwd w sid) (\<lambda>cwd.
     rtry (resolve_in cwd (gr_path req)) (\<lambda>target.
     let content = (gr_output_mode req = ''content'');
         want_files = (gr_output_mode req = ''files_with_matches'');
         count = (gr_output_mode req = ''count'')
     in if \<not> (content \<or> want_files \<or> count) then
          Inl (BAD_REQUEST, ''unknown output_mode '' @ [char_of (39 :: nat)] @ gr_output_mode req @ [char_of (39 :: nat)]
            @ '': use content|files_with_matches|count'')
        else run_ripgrep_search rx gl (files w) cwd (walker (files w) target)
          \<lparr>gs_pattern = gr_pattern req, gs_glob = gr_glob req, gs_ignore_case = gr_ignore_case req,
           gs_literal = gr_literal req, gs_context = gr_context req, gs_limit = gr_limit req,
           gs_max_files = gr_max_files req, gs_want_content = content, gs_want_files = want_files,
           gs_want_count = count\<rparr>))"

section \<open>find\<close>

record find_resp =
  fd_paths :: "string list"
  fd_walked :: nat
  fd_truncated :: bool

fun find_loop :: "path \<Rightarrow> (string \<Rightarrow> bool) \<Rightarrow> nat \<Rightarrow> path list \<Rightarrow> string list \<Rightarrow> nat \<Rightarrow> find_resp" where
  "find_loop cwd g limit [] ps n = \<lparr>fd_paths = ps, fd_walked = n, fd_truncated = False\<rparr>"
| "find_loop cwd g limit (p # es) ps n =
     (let n1 = Suc n in
      if n1 > max (sat_mul limit 4) 20000 then \<lparr>fd_paths = ps, fd_walked = n1, fd_truncated = True\<rparr>
      else case path_strip_prefix p cwd of
        None \<Rightarrow> find_loop cwd g limit es ps n1
      | Some q \<Rightarrow>
        if g (path_str q) then
          (let ps1 = ps @ [path_str q] in
           if length ps1 \<ge> limit then \<lparr>fd_paths = ps1, fd_walked = n1, fd_truncated = True\<rparr>
           else find_loop cwd g limit es ps1 n1)
        else find_loop cwd g limit es ps n1)"

definition tool_find ::
  "glob_crate \<Rightarrow> (fs \<Rightarrow> path \<Rightarrow> (path \<times> bool) list) \<Rightarrow> string \<Rightarrow> string \<Rightarrow> string \<Rightarrow> nat \<Rightarrow> world \<Rightarrow> find_resp result" where
  "tool_find gl walker sid pat rel limit w =
     rtry (session_cwd w sid) (\<lambda>cwd.
     rtry (resolve_in cwd rel) (\<lambda>target.
     rtry (map_err (\<lambda>e. (BAD_REQUEST, ''bad glob: '' @ e)) (gl pat)) (\<lambda>g.
     Inr (find_loop cwd g limit (map fst (walker (files w) target)) [] 0))))"

section \<open>Reference definitions\<close>

text \<open>What a content search is to return when nothing cuts it short, and what a find is.\<close>

definition match_ix :: "(string \<Rightarrow> bool) \<Rightarrow> nat \<Rightarrow> string list \<Rightarrow> nat list" where
  "match_ix m idx ls = map fst (filter (\<lambda>(i, l). m l) (zip [idx..<idx + length ls] ls))"

definition grep_entry :: "fs \<Rightarrow> path \<Rightarrow> grep_search_req \<Rightarrow> (string \<Rightarrow> bool) \<Rightarrow> (string \<Rightarrow> bool) option \<Rightarrow> path \<times> bool \<Rightarrow> grep_match list" where
  "grep_entry fs cwd req m glob = (\<lambda>(p, is_file).
     if is_file then
       (case file_lines fs glob cwd p of
          None \<Rightarrow> []
        | Some ls \<Rightarrow> emit req (rel_path cwd p) ls (match_ix m 0 ls))
     else [])"

definition find_ref :: "path \<Rightarrow> (string \<Rightarrow> bool) \<Rightarrow> path list \<Rightarrow> string list" where
  "find_ref cwd g es = filter g (map path_str (List.map_filter (\<lambda>p. path_strip_prefix p cwd) es))"

lemma match_ix_Nil [simp]: "match_ix m idx [] = []"
  by (simp add: match_ix_def)

lemma match_ix_Cons: "match_ix m idx (l # ls) = (if m l then [idx] else []) @ match_ix m (Suc idx) ls"
  by (simp add: match_ix_def upt_conv_Cons del: upt_Suc)

lemma scan_lines_prefix:
  "scan_lines m True limit idx ls em = (ix, n, em', tr) \<Longrightarrow>
     prefix ix (match_ix m idx ls) \<and> em' = em + length ix \<and> (em \<le> limit \<longrightarrow> em' \<le> limit)
     \<and> (tr \<longrightarrow> 0 < n) \<and> (\<not> tr \<longrightarrow> ix = match_ix m idx ls \<and> n = length ix)"
proof (induction m "True" limit idx ls em arbitrary: ix n em' tr rule: scan_lines.induct)
  case (2 m limit idx l ls em)
  show ?case
  proof (cases "m l \<and> em < limit")
    case True
    obtain ix1 n1 e1 t1 where r: "scan_lines m True limit (Suc idx) ls (Suc em) = (ix1, n1, e1, t1)"
      by (cases "scan_lines m True limit (Suc idx) ls (Suc em)")
    with True "2.prems" have res: "ix = idx # ix1" "n = Suc n1" "em' = e1" "tr = t1" by auto
    have "\<not> \<not> m l" "\<not> limit \<le> em" using True by auto
    from "2.hyps"(2) [OF this(1) TrueI this(2) r] res True show ?thesis
      by (auto simp: match_ix_Cons)
  next
    case False
    then show ?thesis
      using "2.prems" "2.hyps"(1) by (auto simp: match_ix_Cons split: if_splits)
  qed
qed simp

lemma emit_none [simp]: "emit req rel ls [] = []"
  by (simp add: emit_def selected_lines_def)

text \<open>A match is genuine when it shows a line of a searched file near a matching line.\<close>

definition genuine :: "fs \<Rightarrow> path \<Rightarrow> grep_search_req \<Rightarrow> (string \<Rightarrow> bool) \<Rightarrow> (string \<Rightarrow> bool) option \<Rightarrow> (path \<times> bool) list \<Rightarrow> grep_match \<Rightarrow> bool" where
  "genuine fs cwd req m glob ents x \<longleftrightarrow>
     (\<exists>p ls i j. (p, True) \<in> set ents \<and> file_lines fs glob cwd p = Some ls \<and> i < length ls \<and> m (ls ! i)
        \<and> j < length ls \<and> i \<le> j + gs_context req \<and> j \<le> i + gs_context req
        \<and> x = \<lparr>gm_path = rel_path cwd p, gm_line = j + 1, gm_text = match_text (ls ! j)\<rparr>)"

lemma match_ix_nth: "i \<in> set (match_ix m k ls) \<Longrightarrow> k \<le> i \<and> i - k < length ls \<and> m (ls ! (i - k))"
proof (induction ls arbitrary: k)
  case (Cons l ls)
  from Cons.prems consider "i = k" "m l" | "i \<in> set (match_ix m (Suc k) ls)"
    by (auto simp: match_ix_Cons split: if_splits)
  then show ?case
  proof cases
    case 2
    from Cons.IH [OF this] have "Suc k \<le> i" "i - Suc k < length ls" "m (ls ! (i - Suc k))" by auto
    then show ?thesis by (auto simp: nth_Cons split: nat.split) (metis Suc_diff_Suc Suc_inject Suc_le_lessD)
  qed simp
qed simp

lemma emit_genuine:
  assumes "x \<in> set (emit req (rel_path cwd p) ls ix)" "set ix \<subseteq> set (match_ix m 0 ls)"
    and "file_lines fs glob cwd p = Some ls" "(p, True) \<in> set ents"
  shows "genuine fs cwd req m glob ents x"
proof -
  from assms(1) obtain i j where ij: "i \<in> set ix" "j < length ls" "i - gs_context req \<le> j"
    "j \<le> min (sat_add i (gs_context req)) (length ls - 1)"
    and x: "x = \<lparr>gm_path = rel_path cwd p, gm_line = j + 1, gm_text = match_text (ls ! j)\<rparr>"
    by (auto simp: emit_def selected_lines_def)
  have "i < length ls" "m (ls ! i)" using match_ix_nth [of i m 0 ls] ij(1) assms(2) by auto
  moreover have "j \<le> i + gs_context req" using ij(4) by (simp add: sat_add_def)
  ultimately show ?thesis using assms(3,4) ij(2,3) x unfolding genuine_def by fastforce
qed

lemma selected_single: "gs_context req = 0 \<Longrightarrow> length (emit req rel ls ix) \<le> length ix"
proof -
  assume c: "gs_context req = 0"
  have "distinct (selected_lines 0 (length ls) ix)" by (simp add: selected_lines_def)
  moreover have "set (selected_lines 0 (length ls) ix) \<subseteq> set ix"
    by (auto simp: selected_lines_def sat_add_def)
  ultimately have "length (selected_lines 0 (length ls) ix) \<le> length ix"
    by (metis List.finite_set card_length card_mono distinct_card le_trans)
  with c show ?thesis by (simp add: emit_def)
qed

text \<open>What a run of the loop promises of its result, from the entries and the state it started with.\<close>

definition content_post where
  "content_post fs cwd req m glob es r em r' \<longleftrightarrow> (\<exists>ms. rr_matches r' = rr_matches r @ ms
    \<and> (\<forall>x \<in> set ms. genuine fs cwd req m glob es x)
    \<and> (\<not> rr_truncated r' \<longrightarrow> ms = concat (map (grep_entry fs cwd req m glob) es))
    \<and> (gs_context req = 0 \<longrightarrow> em + length ms \<le> gs_limit req)
    \<and> (rr_walked r \<le> gs_max_files req \<longrightarrow> rr_walked r' \<le> Suc (gs_max_files req)))"

lemma content_postI:
  assumes "rr_matches r' = rr_matches r @ ms" "\<And>x. x \<in> set ms \<Longrightarrow> genuine fs cwd req m glob es x"
    "\<not> rr_truncated r' \<Longrightarrow> ms = concat (map (grep_entry fs cwd req m glob) es)"
    "gs_context req = 0 \<Longrightarrow> em + length ms \<le> gs_limit req"
    "rr_walked r \<le> gs_max_files req \<Longrightarrow> rr_walked r' \<le> Suc (gs_max_files req)"
  shows "content_post fs cwd req m glob es r em r'"
  unfolding content_post_def by (intro exI [of _ ms] conjI ballI impI) (use assms in auto)

lemma genuine_Cons: "genuine fs cwd req m glob es x \<Longrightarrow> genuine fs cwd req m glob (e # es) x"
  by (fastforce simp: genuine_def)

text \<open>One entry that adds the matches \<open>grep_entry\<close> names, then the rest of the list.\<close>

lemma content_post_Cons:
  assumes "content_post fs cwd req m glob es r1 em1 r'"
    and "rr_matches r1 = rr_matches r @ grep_entry fs cwd req m glob e"
    and "\<forall>x \<in> set (grep_entry fs cwd req m glob e). genuine fs cwd req m glob (e # es) x"
    and "gs_context req = 0 \<Longrightarrow> em + length (grep_entry fs cwd req m glob e) \<le> em1"
    and "rr_walked r \<le> gs_max_files req \<Longrightarrow> rr_walked r1 \<le> gs_max_files req"
  shows "content_post fs cwd req m glob (e # es) r em r'"
proof -
  from assms(1) obtain ms where ms: "rr_matches r' = rr_matches r1 @ ms"
      "\<forall>x \<in> set ms. genuine fs cwd req m glob es x"
      "\<not> rr_truncated r' \<longrightarrow> ms = concat (map (grep_entry fs cwd req m glob) es)"
      "gs_context req = 0 \<longrightarrow> em1 + length ms \<le> gs_limit req"
      "rr_walked r1 \<le> gs_max_files req \<longrightarrow> rr_walked r' \<le> Suc (gs_max_files req)"
    unfolding content_post_def by (elim exE conjE)
  show ?thesis
    by (rule content_postI [where ms = "grep_entry fs cwd req m glob e @ ms"])
      (use ms assms(2-5) genuine_Cons [of fs cwd req m glob es _ e] in auto)
qed

text \<open>An entry whose lines are searched: the loop stops in it, or goes on with what it added.\<close>

lemma grep_loop_file:
  assumes want: "gs_want_content req" "\<not> rr_truncated r" "em \<le> gs_limit req"
    and walk: "Suc (rr_walked r) \<le> gs_max_files req" and ls: "file_lines fs glob cwd p = Some ls"
    and IH: "\<And>r em. \<not> rr_truncated r \<Longrightarrow> em \<le> gs_limit req \<Longrightarrow>
      content_post fs cwd req m glob es r em (grep_loop fs cwd req m glob es r em)"
  shows "content_post fs cwd req m glob ((p, True) # es) r em (grep_loop fs cwd req m glob ((p, True) # es) r em)"
proof -
  obtain ix n em' tr where sc: "scan_lines m True (gs_limit req) 0 ls em = (ix, n, em', tr)"
    by (cases "scan_lines m True (gs_limit req) 0 ls em")
  note s = scan_lines_prefix [OF sc]
  have sub: "set ix \<subseteq> set (match_ix m 0 ls)" using s by (auto dest: set_mono_prefix)
  have here: "\<forall>x \<in> set (emit req (rel_path cwd p) ls ix). genuine fs cwd req m glob ((p, True) # es) x"
    using emit_genuine [OF _ sub ls] by auto
  let ?r3 = "r\<lparr>rr_walked := rr_walked r + 1, rr_truncated := tr,
    rr_matches := rr_matches r @ emit req (rel_path cwd p) ls ix\<rparr>"
  show ?thesis
  proof (cases tr)
    case True
    then have run: "grep_loop fs cwd req m glob ((p, True) # es) r em = ?r3"
      using walk ls sc s want by (simp add: Let_def)
    show ?thesis
      unfolding run by (rule content_postI [where ms = "emit req (rel_path cwd p) ls ix"])
        (use here True walk s want(3) selected_single [of req "rel_path cwd p" ls ix] in auto)
  next
    case False
    then have ix: "ix = match_ix m 0 ls" "n = length ix" "em' \<le> gs_limit req" "em' = em + length ix"
      using s want(3) by auto
    have run: "grep_loop fs cwd req m glob ((p, True) # es) r em = grep_loop fs cwd req m glob es ?r3 em'"
      using walk ls sc False want ix(2) by (cases "ix = []") (auto simp: Let_def)
    have ent: "grep_entry fs cwd req m glob (p, True) = emit req (rel_path cwd p) ls ix"
      using ls ix(1) by (simp add: grep_entry_def)
    have go: "content_post fs cwd req m glob es ?r3 em' (grep_loop fs cwd req m glob es ?r3 em')"
      using IH ix(3) False by simp
    show ?thesis
      unfolding run by (rule content_post_Cons [OF go])
        (use here ent ix(4) walk selected_single [of req "rel_path cwd p" ls ix] in auto)
  qed
qed

lemma grep_loop_content:
  assumes "gs_want_content req" "\<not> rr_truncated r" "em \<le> gs_limit req"
  shows "content_post fs cwd req m glob es r em (grep_loop fs cwd req m glob es r em)"
  using assms(2,3)
proof (induction es arbitrary: r em)
  case Nil
  then show ?case by (intro content_postI [where ms = "[]"]) auto
next
  case (Cons e es)
  obtain p f where e: "e = (p, f)" by (cases e)
  consider "\<not> f" | "f" "gs_max_files req < Suc (rr_walked r)"
    | "f" "Suc (rr_walked r) \<le> gs_max_files req" "file_lines fs glob cwd p = None"
    | ls where "f" "Suc (rr_walked r) \<le> gs_max_files req" "file_lines fs glob cwd p = Some ls"
    by (meson not_less_eq_eq not_less option.exhaust)
  then show ?case
  proof cases
    case 1
    then show ?thesis using Cons.prems
      by (auto intro!: content_post_Cons [OF Cons.IH [of r em]] simp: e grep_entry_def)
  next
    case 2
    then show ?thesis using Cons.prems
      by (intro content_postI [where ms = "[]"]) (auto simp: e Let_def)
  next
    case 3
    then show ?thesis using Cons.prems
      by (auto intro!: content_post_Cons [OF Cons.IH [of "r\<lparr>rr_walked := Suc (rr_walked r)\<rparr>" em]]
          simp: e grep_entry_def Let_def)
  next
    case 4
    then show ?thesis using grep_loop_file [OF assms(1) Cons.prems 4(2,3) Cons.IH] by (simp add: e)
  qed
qed


section \<open>find\<close>

lemma find_loop_prefix:
  "\<exists>qs. fd_paths (find_loop cwd g limit es ps n) = ps @ qs \<and> prefix qs (find_ref cwd g es)
    \<and> (\<not> fd_truncated (find_loop cwd g limit es ps n) \<longrightarrow> qs = find_ref cwd g es)
    \<and> (length ps < max 1 limit \<longrightarrow> length (ps @ qs) \<le> max 1 limit)
    \<and> (n \<le> max (sat_mul limit 4) 20000 \<longrightarrow> fd_walked (find_loop cwd g limit es ps n) \<le> Suc (max (sat_mul limit 4) 20000))"
proof (induction es arbitrary: ps n)
  case (Cons p es)
  show ?case
  proof (cases "Suc n > max (sat_mul limit 4) 20000")
    case True
    then show ?thesis by (auto intro!: exI [of _ "[]"])
  next
    case False
    show ?thesis
    proof (cases "path_strip_prefix p cwd")
      case None
      then show ?thesis using False Cons.IH [of ps "Suc n"] by (auto simp: find_ref_def map_filter_simps)
    next
      case (Some q)
      show ?thesis
      proof (cases "g (path_str q)")
        case g: True
        show ?thesis
        proof (cases "length (ps @ [path_str q]) \<ge> limit")
          case True
          then show ?thesis
            using False Some g by (auto simp: find_ref_def map_filter_simps intro!: exI [of _ "[path_str q]"])
        next
          case more: False
          from Cons.IH [of "ps @ [path_str q]" "Suc n"] obtain qs where
            qs: "fd_paths (find_loop cwd g limit es (ps @ [path_str q]) (Suc n)) = (ps @ [path_str q]) @ qs"
              "prefix qs (find_ref cwd g es)"
              "\<not> fd_truncated (find_loop cwd g limit es (ps @ [path_str q]) (Suc n)) \<longrightarrow> qs = find_ref cwd g es"
              "length (ps @ [path_str q]) < max 1 limit \<longrightarrow> length ((ps @ [path_str q]) @ qs) \<le> max 1 limit"
              "Suc n \<le> max (sat_mul limit 4) 20000 \<longrightarrow>
                 fd_walked (find_loop cwd g limit es (ps @ [path_str q]) (Suc n)) \<le> Suc (max (sat_mul limit 4) 20000)"
            by blast
          show ?thesis
            using False Some g more qs
            by (intro exI [of _ "path_str q # qs"]) (auto simp: find_ref_def map_filter_simps)
        qed
      next
        case g: False
        then show ?thesis using False Some Cons.IH [of ps "Suc n"] by (auto simp: find_ref_def map_filter_simps)
      qed
    qed
  qed
qed (auto simp: find_ref_def map_filter_simps)

text \<open>Find. The paths of an answer are the first ones, in walking order, of the entries
  under the session directory whose relative path matches the glob; all of them unless the
  answer says truncated; at most \<open>limit\<close> of them (one, for limit 0).\<close>

theorem find_returns_first_matches:
  assumes "tool_find gl walker sid pat rel limit w = Inr r"
  shows "\<exists>cwd target g. session_cwd w sid = Inr cwd \<and> resolve_in cwd rel = Inr target \<and> gl pat = Inr g
    \<and> prefix (fd_paths r) (find_ref cwd g (map fst (walker (files w) target)))
    \<and> (\<not> fd_truncated r \<longrightarrow> fd_paths r = find_ref cwd g (map fst (walker (files w) target)))
    \<and> length (fd_paths r) \<le> max 1 limit"
proof -
  from assms obtain cwd target g where c: "session_cwd w sid = Inr cwd" "resolve_in cwd rel = Inr target" "gl pat = Inr g"
    and r: "r = find_loop cwd g limit (map fst (walker (files w) target)) [] 0"
    by (auto simp: tool_find_def result_simps)
  then show ?thesis
    using find_loop_prefix [of cwd g limit "map fst (walker (files w) target)" "[]" 0] by fastforce
qed

definition demo_search :: grep_search_req where
  "demo_search = \<lparr>gs_pattern = ''h'', gs_glob = None, gs_ignore_case = False, gs_literal = True, gs_context = 0,
     gs_limit = 5, gs_max_files = 10, gs_want_content = True, gs_want_files = False, gs_want_count = False\<rparr>"



theorem find_returns_first_matches_witness:
  "\<exists>r. tool_find (\<lambda>pat. Inr (\<lambda>p. p \<noteq> [])) (\<lambda>fs p. [(p, False), (p @ [Normal ''a''], True), (p @ [Normal ''b''], True)])
       ''s'' ''*'' ''.'' 1 (demo_world demo_running) = Inr r \<and> fd_paths r = [''a''] \<and> length (fd_paths r) \<le> max 1 1"
proof -
  let ?run = "tool_find (\<lambda>pat. Inr (\<lambda>p. p \<noteq> [])) (\<lambda>fs p. [(p, False), (p @ [Normal ''a''], True), (p @ [Normal ''b''], True)])
       ''s'' ''*'' ''.'' 1 (demo_world demo_running)"
  obtain r where r: "?run = Inr r" and p: "fd_paths r = [''a'']"
    by (simp add: tool_find_def session_cwd_def resolve_session_def demo_defs resolve_in_def starts_with_def
        path_join_def is_absolute_def inner_components_def inner_component_def normalize_step_def path_starts_with_def
        path_strip_prefix_def path_str_def Let_def)
  then show ?thesis using find_returns_first_matches [OF r] by auto
qed

end
