(* ===== verification/Tools_Rootfs.thy ===== *)
theory Tools_Rootfs
  imports Tools_Daemon
begin

text \<open>
  The shared root file system of the chroot layer: \<open>prepare_shared_rootfs\<close> of
  \<open>tools-rust/src/main.rs\<close>, which copies the shell, the tools and the libraries \<open>ldd\<close> names
  below the sandbox root when the daemon starts. The mode bits it sets on \<open>tmp\<close> are not part of
  the file model. \<open>start_confined\<close>: starting the daemon changes nothing outside its sandbox root.
\<close>

section \<open>Words\<close>

text \<open>
  \<open>split_whitespace\<close>. Line breaks are white space, so the words of the lines of a text are the
  words of the text.
\<close>

function words_from :: "string \<Rightarrow> string \<Rightarrow> string list" where
  "words_from acc [] = (if acc = [] then [] else [rev acc])"
| "words_from acc (c # s) =
     (case ws_head (c # s) of
        Some n \<Rightarrow> (if acc = [] then [] else [rev acc]) @ words_from [] (drop n (c # s))
      | None \<Rightarrow> words_from (c # acc) s)"
  by pat_completeness auto
termination
  by (relation "measure (length \<circ> snd)") (auto dest: ws_head_bounds)

definition split_whitespace :: "string \<Rightarrow> string list" where
  "split_whitespace s = words_from [] s"

lemma ws_head_plain: "plain s \<Longrightarrow> ws_head s = None"
  using ws_seqs_not_plain set_mono_prefix by (fastforce simp: ws_head_def find_None_iff starts_with_prefix plain_def)

text \<open>Text without white space is one word.\<close>

lemma words_from_plain: "plain s \<Longrightarrow> words_from acc s = (if acc = [] \<and> s = [] then [] else [rev acc @ s])"
proof (induction s arbitrary: acc)
  case (Cons c s)
  then have "plain s" by (simp add: plain_def)
  then show ?case using Cons ws_head_plain by simp
qed simp

section \<open>The copy\<close>

definition ROOTFS_BINARIES :: "string list" where
  "ROOTFS_BINARIES =
     [''/bin/bash'', ''/bin/sh'', ''/bin/ls'', ''/bin/cat'', ''/bin/cp'', ''/bin/mv'', ''/bin/rm'', ''/bin/mkdir'',
      ''/bin/echo'', ''/bin/grep'', ''/bin/sed'', ''/bin/awk'', ''/bin/sort'', ''/bin/head'', ''/bin/tail'', ''/bin/wc'',
      ''/usr/bin/python3'', ''/usr/bin/node'', ''/usr/bin/git'', ''/usr/bin/rg'', ''/usr/bin/fd'', ''/usr/bin/fdfind'',
      ''/usr/bin/uname'', ''/usr/bin/which'', ''/usr/bin/env'', ''/usr/bin/find'', ''/usr/bin/diff'']"

definition rootfs_dirs :: "string list" where
  "rootfs_dirs = [''bin'', ''usr/bin'', ''lib'', ''lib/x86_64-linux-gnu'', ''lib64'', ''etc'', ''sessions'', ''tmp'']"

definition rootfs_etc :: "string list" where
  "rootfs_etc = [''/etc/passwd'', ''/etc/group'', ''/etc/nsswitch.conf'', ''/etc/resolv.conf'', ''/etc/hosts'',
     ''/etc/ld.so.cache'']"

definition fs_is_file :: "fs \<Rightarrow> path \<Rightarrow> bool" where
  "fs_is_file fs p \<longleftrightarrow> (case canon fs p of Inr k \<Rightarrow> (\<exists>b. node_at fs k = Some (File b)) | Inl _ \<Rightarrow> False)"

definition copy_one :: "path \<Rightarrow> path \<Rightarrow> fs \<Rightarrow> (io_error + unit) \<times> fs" where
  "copy_one src dst fs =
     (case (case path_parent dst of None \<Rightarrow> (Inr (), fs) | Some par \<Rightarrow> create_dir_all fs par) of
        (Inl e, fs1) \<Rightarrow> (Inl e, fs1)
      | (Inr _, fs1) \<Rightarrow>
          (case rtry (fs_read fs1 src) (fs_write fs1 dst) of Inl e \<Rightarrow> (Inl e, fs1) | Inr fs2 \<Rightarrow> (Inr (), fs2)))"

text \<open>Where a file of the host goes.\<close>

definition in_rootfs :: "path \<Rightarrow> string \<Rightarrow> path" where
  "in_rootfs rootfs f = path_join rootfs (trim_start_matches CHR ''/'' f)"

text \<open>The libraries in the output of \<open>ldd\<close>; \<open>seen\<close> is \<open>copied_libs\<close>.\<close>

fun copy_libs :: "path \<Rightarrow> string list \<Rightarrow> string list \<times> fs \<Rightarrow> string list \<times> fs" where
  "copy_libs rootfs [] (seen, fs) = (seen, fs)"
| "copy_libs rootfs (tok # toks) (seen, fs) =
     (if \<not> starts_with tok ''/'' \<or> tok \<in> set seen then copy_libs rootfs toks (seen, fs)
      else if \<not> fs_is_file fs (components tok) then copy_libs rootfs toks (tok # seen, fs)
      else copy_libs rootfs toks (tok # seen, snd (copy_one (components tok) (in_rootfs rootfs tok) fs)))"

text \<open>One binary. \<open>ldd\<close> gives the standard output of the program, or nothing when it cannot be run.\<close>

definition copy_binary :: "(fs \<Rightarrow> string \<Rightarrow> bytes option) \<Rightarrow> path \<Rightarrow> string \<Rightarrow> string list \<times> fs \<Rightarrow> string list \<times> fs" where
  "copy_binary ldd rootfs bin st =
     (if \<not> fs_exists (snd st) (components bin) then st
      else
        (case copy_one (components bin) (in_rootfs rootfs bin) (snd st) of
           (Inl _, fs1) \<Rightarrow> (fst st, fs1)
         | (Inr _, fs1) \<Rightarrow>
             (case ldd fs1 bin of
                None \<Rightarrow> (fst st, fs1)
              | Some out \<Rightarrow> copy_libs rootfs (split_whitespace (from_utf8_lossy out)) (fst st, fs1))))"

definition copy_etc :: "path \<Rightarrow> string \<Rightarrow> fs \<Rightarrow> fs" where
  "copy_etc rootfs f fs =
     (if fs_exists fs (components f) then snd (copy_one (components f) (in_rootfs rootfs f) fs) else fs)"

fun make_dirs :: "path list \<Rightarrow> fs \<Rightarrow> (io_error + unit) \<times> fs" where
  "make_dirs [] fs = (Inr (), fs)"
| "make_dirs (p # ps) fs =
     (case create_dir_all fs p of (Inl e, fs1) \<Rightarrow> (Inl e, fs1) | (Inr _, fs1) \<Rightarrow> make_dirs ps fs1)"

definition prepare_shared_rootfs :: "(fs \<Rightarrow> string \<Rightarrow> bytes option) \<Rightarrow> fs \<Rightarrow> path \<Rightarrow> (io_error + unit) \<times> fs" where
  "prepare_shared_rootfs ldd fs rootfs =
     (if fs_exists fs (path_join rootfs ''bin/bash'') then (Inr (), fs)
      else
        (case make_dirs (rootfs # map (path_join rootfs) rootfs_dirs) fs of
           (Inl e, fs1) \<Rightarrow> (Inl e, fs1)
         | (Inr _, fs1) \<Rightarrow>
             if \<not> fs_exists fs1 (path_join rootfs ''tmp'') then (Inl ENOENT, fs1)
             else
               (Inr (), fold (copy_etc rootfs) rootfs_etc
                  (snd (fold (copy_binary ldd rootfs) ROOTFS_BINARIES ([], fs1))))))"

text \<open>Only the shell decides whether there is anything to do.\<close>

lemma prepared_once: "fs_exists fs (path_join rootfs ''bin/bash'') \<Longrightarrow> prepare_shared_rootfs ldd fs rootfs = (Inr (), fs)"
  by (simp add: prepare_shared_rootfs_def)

section \<open>Confinement\<close>

text \<open>What is left at any point of the start: only the sandbox root has changed, and it is still a directory.\<close>

definition kept :: "path \<Rightarrow> string list \<Rightarrow> fs \<Rightarrow> fs \<Rightarrow> bool" where
  "kept sb k fs fs' \<longleftrightarrow> (only_below k fs fs' \<and> real_dir fs' sb k)"

lemma kept_refl: "real_dir fs sb k \<Longrightarrow> kept sb k fs fs"
  by (simp add: kept_def only_below_def)

lemma kept_trans: "kept sb k fs fs1 \<Longrightarrow> only_below k fs1 fs2 \<and> real_dir fs2 sb k \<Longrightarrow> kept sb k fs fs2"
  by (simp add: kept_def only_below_def)

lemma create_kept:
  assumes "kept sb k fs fs1" "clean_abs sb"
  shows "kept sb k fs (snd (create_dir_all fs1 (sb @ map Normal ns)))"
  using kept_trans [OF assms(1) create_dir_all_below] assms by (simp add: kept_def)

lemma copy_one_kept:
  assumes "kept sb k fs fs1" "clean_abs sb" "ns \<noteq> []"
  shows "kept sb k fs (snd (copy_one src (sb @ map Normal ns) fs1))"
proof -
  from assms(3) obtain ms m where ns: "ns = ms @ [m]" by (cases ns rule: rev_cases) auto
  have par: "path_parent (sb @ map Normal ns) = Some (sb @ map Normal ms)"
    by (simp add: ns path_parent_def butlast_append)
  obtain made fs2 where mk: "create_dir_all fs1 (sb @ map Normal ms) = (made, fs2)" by fastforce
  then have fs2: "kept sb k fs fs2" using create_kept [OF assms(1,2), of ms] by simp
  have "kept sb k fs fs3" if "fs_write fs2 (sb @ map Normal ns) b = Inr fs3" for b fs3
    using kept_trans [OF fs2 fs_write_below [OF _ that]] fs2 by (simp add: kept_def)
  then show ?thesis
    using fs2 by (auto simp: copy_one_def par mk rtry_Inr_iff split: sum.split)
qed

lemma inner_components_slashes: "inner_components (trim_start_matches CHR ''/'' s) = inner_components s"
  by (induction s) (auto simp: trim_start_matches_def inner_components_def inner_component_def)

lemma inner_components_normals:
  "ParentDir \<notin> set (inner_components s) \<Longrightarrow> \<exists>ns. inner_components s = map Normal ns"
  by (intro ex_map_conv [THEN iffD2] ballI) (metis inner_components_cases)

text \<open>A path without \<open>..\<close> lands below the root file system, wherever it starts.\<close>

lemma in_rootfs_below:
  assumes "ParentDir \<notin> set (inner_components f)"
  shows "\<exists>ns. in_rootfs (sb @ [Normal r]) f = sb @ map Normal (r # ns)"
proof -
  obtain ns where "inner_components f = map Normal ns" using inner_components_normals [OF assms] by blast
  moreover have "\<not> is_absolute (trim_start_matches CHR ''/'' f)"
    by (induction f) (auto simp: trim_start_matches_def is_absolute_def starts_with_def)
  ultimately show ?thesis
    by (intro exI [of _ ns]) (simp add: in_rootfs_def path_join_def inner_components_slashes)
qed

lemma copy_in_kept:
  assumes "kept sb k fs fs1" "clean_abs sb" "ParentDir \<notin> set (inner_components f)"
  shows "kept sb k fs (snd (copy_one src (in_rootfs (sb @ [Normal r]) f) fs1))"
  using in_rootfs_below [OF assms(3), of sb r] copy_one_kept [OF assms(1,2)] by fastforce

lemma copy_libs_kept:
  assumes "kept sb k fs (snd st)" "clean_abs sb"
    and "\<forall>t \<in> set toks. starts_with t ''/'' \<longrightarrow> ParentDir \<notin> set (inner_components t)"
  shows "kept sb k fs (snd (copy_libs (sb @ [Normal r]) toks st))"
  using assms
proof (induction "sb @ [Normal r]" toks st rule: copy_libs.induct)
  case (2 tok toks seen fs1)
  have "kept sb k fs (snd (copy_one (components tok) (in_rootfs (sb @ [Normal r]) tok) fs1))" if "starts_with tok ''/''"
    using copy_in_kept [of sb k fs fs1 tok] 2 that by simp
  then show ?case using 2 by simp
qed simp

text \<open>\<open>ldd\<close> prints absolute paths without \<open>..\<close>.\<close>

definition plain_libs :: "(fs \<Rightarrow> string \<Rightarrow> bytes option) \<Rightarrow> bool" where
  "plain_libs ldd \<longleftrightarrow> (\<forall>fs b out. ldd fs b = Some out \<longrightarrow>
     (\<forall>t \<in> set (split_whitespace (from_utf8_lossy out)). starts_with t ''/'' \<longrightarrow> ParentDir \<notin> set (inner_components t)))"

lemma copy_binary_kept:
  assumes "kept sb k fs (snd st)" "clean_abs sb" "plain_libs ldd" "ParentDir \<notin> set (inner_components bin)"
  shows "kept sb k fs (snd (copy_binary ldd (sb @ [Normal r]) bin st))"
proof -
  obtain res fs1 where c: "copy_one (components bin) (in_rootfs (sb @ [Normal r]) bin) (snd st) = (res, fs1)" by fastforce
  then have "kept sb k fs fs1" using copy_in_kept [OF assms(1,2,4), of "components bin" r] by simp
  then have "kept sb k fs (snd (copy_libs (sb @ [Normal r]) toks (fst st, fs1)))"
    if "\<forall>t \<in> set toks. starts_with t ''/'' \<longrightarrow> ParentDir \<notin> set (inner_components t)" for toks
    using copy_libs_kept [of sb k fs "(fst st, fs1)" toks r] assms(2) that by simp
  then show ?thesis
    using assms(1,3) c \<open>kept sb k fs fs1\<close> by (auto simp: copy_binary_def plain_libs_def split: sum.split option.split)
qed

lemma copy_etc_kept:
  "kept sb k fs fs1 \<Longrightarrow> clean_abs sb \<Longrightarrow> ParentDir \<notin> set (inner_components f) \<Longrightarrow>
    kept sb k fs (copy_etc (sb @ [Normal r]) f fs1)"
  by (simp add: copy_etc_def copy_in_kept)

lemma fold_keeps: "P st \<Longrightarrow> (\<And>x st. x \<in> set xs \<Longrightarrow> P st \<Longrightarrow> P (f x st)) \<Longrightarrow> P (fold f xs st)"
  by (induction xs arbitrary: st) auto

lemma make_dirs_kept:
  "kept sb k fs fs1 \<Longrightarrow> clean_abs sb \<Longrightarrow> \<forall>p \<in> set ps. \<exists>ns. p = sb @ map Normal ns \<Longrightarrow> kept sb k fs (snd (make_dirs ps fs1))"
proof (induction ps arbitrary: fs1)
  case (Cons p ps)
  then obtain ns where "p = sb @ map Normal ns" by auto
  then have "kept sb k fs (snd (create_dir_all fs1 p))" using create_kept Cons.prems by blast
  then show ?case using Cons by (auto split: prod.split sum.split)
qed simp

lemma rootfs_names_plain:
  "f \<in> set (ROOTFS_BINARIES @ rootfs_dirs @ rootfs_etc) \<Longrightarrow> ParentDir \<notin> set (inner_components f)"
  by (auto simp: ROOTFS_BINARIES_def rootfs_dirs_def rootfs_etc_def inner_components_def inner_component_def)

lemma rootfs_dirs_below:
  assumes "d \<in> set rootfs_dirs"
  shows "\<exists>ns. path_join (sb @ [Normal r]) d = sb @ map Normal ns"
proof -
  from assms have "ParentDir \<notin> set (inner_components d)" by (simp add: rootfs_names_plain)
  then obtain ns where "in_rootfs (sb @ [Normal r]) d = sb @ map Normal (r # ns)" using in_rootfs_below by blast
  moreover have "trim_start_matches CHR ''/'' d = d"
    using assms by (auto simp: rootfs_dirs_def trim_start_matches_def)
  ultimately show ?thesis by (metis in_rootfs_def)
qed

lemma prepare_kept:
  assumes "kept sb k fs fs1" "clean_abs sb" "plain_libs ldd"
  shows "kept sb k fs (snd (prepare_shared_rootfs ldd fs1 (sb @ [Normal r])))"
proof -
  let ?root = "sb @ [Normal r]"
  obtain res fs2 where mk: "make_dirs (?root # map (path_join ?root) rootfs_dirs) fs1 = (res, fs2)" by fastforce
  have "\<forall>p \<in> set (?root # map (path_join ?root) rootfs_dirs). \<exists>ns. p = sb @ map Normal ns"
    using rootfs_dirs_below [of _ sb r] by (auto intro: exI [of _ "[r]"])
  then have 2: "kept sb k fs fs2" using make_dirs_kept [OF assms(1,2)] mk by (metis snd_conv)
  have "kept sb k fs (snd (fold (copy_binary ldd ?root) ROOTFS_BINARIES ([], fs2)))"
    by (rule fold_keeps [where P = "\<lambda>st. kept sb k fs (snd st)"])
      (simp_all add: 2 copy_binary_kept assms rootfs_names_plain)
  then have "kept sb k fs (fold (copy_etc ?root) rootfs_etc (snd (fold (copy_binary ldd ?root) ROOTFS_BINARIES ([], fs2))))"
    by (rule fold_keeps) (simp add: copy_etc_kept assms rootfs_names_plain)
  then show ?thesis using assms(1) 2 mk by (simp add: prepare_shared_rootfs_def split: sum.split)
qed


definition demo_ldd :: "fs \<Rightarrow> string \<Rightarrow> bytes option" where
  "demo_ldd fs b = Some (as_bytes ''/l/c'')"

definition demo_disk :: fs where
  "demo_disk = [([''sandboxes''], Dir), ([''bin''], Dir), ([''bin'', ''bash''], File [1]), ([''l''], Dir), ([''l'', ''c''], File [2])]"


end
