(* ===== verification/Rust_Json.thy ===== *)
theory Rust_Json
  imports Rust_Str
begin

text \<open>
  JSON values (\<open>serde_json::Value\<close>) and the accessors the handlers use. Parsing a body is
  the work of the crate \<open>serde_json\<close>: a function \<open>bytes \<Rightarrow> json option\<close> the handlers take
  as a parameter, which keeps the members of an object in the order of the text. Decoding into
  a struct (what \<open>#[derive(Deserialize)]\<close> with the attributes of the source does) is written
  out per struct with the field decoders below.
\<close>

datatype json = JNull | JBool bool | JNum int | JDec int int | JStr string | JArr "json list"
  | JObj "(string \<times> json) list"

text \<open>\<open>JNum\<close> is an integer literal, \<open>JDec m e\<close> any other number: \<open>m\<close> times ten to the \<open>e\<close>.\<close>

text \<open>\<open>Value::get\<close>: of several members with one name the last counts.\<close>

fun j_get :: "json \<Rightarrow> string \<Rightarrow> json option" where
  "j_get (JObj fs) k = map_of (rev fs) k"
| "j_get _ k = None"

fun j_str :: "json \<Rightarrow> string option" where
  "j_str (JStr s) = Some s"
| "j_str _ = None"

fun j_bool :: "json \<Rightarrow> bool option" where
  "j_bool (JBool b) = Some b"
| "j_bool _ = None"

fun j_int :: "int \<Rightarrow> int \<Rightarrow> json \<Rightarrow> int option" where
  "j_int lo hi (JNum i) = (if lo \<le> i \<and> i \<le> hi then Some i else None)"
| "j_int lo hi _ = None"

text \<open>\<open>usize\<close> and \<open>u64\<close>.\<close>

definition j_usize :: "json \<Rightarrow> nat option" where
  "j_usize j = map_option nat (j_int 0 (2 ^ 64 - 1) j)"

fun j_arr :: "json \<Rightarrow> json list option" where
  "j_arr (JArr js) = Some js"
| "j_arr _ = None"

text \<open>
  A struct is read from an object, where a repeated field is an error, or from an array that
  gives the fields in declaration order; fields missing at the end count as absent.
\<close>

definition as_struct :: "string list \<Rightarrow> json \<Rightarrow> (string \<times> json) list option" where
  "as_struct names j =
     (case j of
        JObj fs \<Rightarrow> if distinct (filter (\<lambda>k. k \<in> set names) (map fst fs)) then Some fs else None
      | JArr js \<Rightarrow> if length js \<le> length names then Some (zip names js) else None
      | _ \<Rightarrow> None)"

text \<open>
  A required field, a field with a default, and an optional one (\<open>Option<T>\<close>: absent or
  \<open>null\<close> is \<open>None\<close>). The outer option is the decoding error.
\<close>

definition field :: "string \<Rightarrow> (json \<Rightarrow> 'a option) \<Rightarrow> (string \<times> json) list \<Rightarrow> 'a option" where
  "field k dec fs = (case map_of fs k of None \<Rightarrow> None | Some v \<Rightarrow> dec v)"

definition field_or :: "'a \<Rightarrow> string \<Rightarrow> (json \<Rightarrow> 'a option) \<Rightarrow> (string \<times> json) list \<Rightarrow> 'a option" where
  "field_or x k dec fs = (case map_of fs k of None \<Rightarrow> Some x | Some v \<Rightarrow> dec v)"

definition field_opt :: "string \<Rightarrow> (json \<Rightarrow> 'a option) \<Rightarrow> (string \<times> json) list \<Rightarrow> 'a option option" where
  "field_opt k dec fs =
     (case map_of fs k of None \<Rightarrow> Some None | Some JNull \<Rightarrow> Some None | Some v \<Rightarrow> map_option Some (dec v))"

text \<open>Decoding every element of an array.\<close>

fun all_some :: "'a option list \<Rightarrow> 'a list option" where
  "all_some [] = Some []"
| "all_some (x # xs) = (case x of None \<Rightarrow> None | Some y \<Rightarrow> map_option ((#) y) (all_some xs))"

text \<open>
  A unit variant of an enum: its name, or an object with the name as only member and \<open>null\<close> in it.
\<close>

fun j_variant :: "(string \<times> 'a) list \<Rightarrow> json \<Rightarrow> 'a option" where
  "j_variant names (JStr s) = map_of names s"
| "j_variant names (JObj [(s, JNull)]) = map_of names s"
| "j_variant names _ = None"

text \<open>\<open>HashMap<String, T>\<close>: of several members with one name the last counts.\<close>

fun j_entries :: "(json \<Rightarrow> 'a option) \<Rightarrow> json \<Rightarrow> (string \<times> 'a) list option" where
  "j_entries dec (JObj fs) =
     map_option (\<lambda>vs. foldl (\<lambda>t (k, v). AList.update k v t) [] (zip (map fst fs) vs)) (all_some (map (dec \<circ> snd) fs))"
| "j_entries dec _ = None"

text \<open>A field with an alias: both names mean the field, and a second occurrence is an error.\<close>

definition with_alias :: "string \<Rightarrow> string \<Rightarrow> json \<Rightarrow> json" where
  "with_alias alias name j =
     (case j of JObj fs \<Rightarrow> JObj (map (\<lambda>(k, v). (if k = alias then name else k, v)) fs) | _ \<Rightarrow> j)"

definition j_list :: "(json \<Rightarrow> 'a option) \<Rightarrow> json \<Rightarrow> 'a list option" where
  "j_list dec j = Option.bind (j_arr j) (\<lambda>js. all_some (map dec js))"

lemma all_some_map_Some [simp]: "all_some (map (\<lambda>x. Some (f x)) xs) = Some (map f xs)"
  by (induction xs) auto

lemma all_some_eq_Some: "all_some xs = Some ys \<longleftrightarrow> xs = map Some ys"
  by (induction xs arbitrary: ys) (auto split: option.splits)

end
