(* ===== verification/Http_Model.thy ===== *)
theory Http_Model
  imports Rust_Json
begin

text \<open>
  What the HTTP handlers share: methods, the outcome of an upstream exchange, responses, and the
  request headers as a table with lower-case names.
\<close>

section \<open>Exchanges and responses\<close>

datatype http_method = HGET | HPOST | HDELETE

text \<open>An HTTP exchange: a transport error, or the status with the body (\<open>None\<close> when reading it fails).\<close>

type_synonym http_result = "string + nat \<times> bytes option"

abbreviation is_success :: "nat \<Rightarrow> bool" where
  "is_success s \<equiv> 200 \<le> s \<and> s < 300"

record response =
  rs_status :: nat
  rs_type :: "string option"
  rs_body :: bytes

definition error_response :: "http_err \<Rightarrow> response" where
  "error_response e = \<lparr>rs_status = fst e, rs_type = Some ''text/plain; charset=utf-8'', rs_body = as_bytes (snd e)\<rparr>"

definition into_response :: "http_err + response \<Rightarrow> response" where
  "into_response r = (case r of Inl e \<Rightarrow> error_response e | Inr x \<Rightarrow> x)"

text \<open>A response that is only a status.\<close>

definition bare_status :: "status \<Rightarrow> response" where
  "bare_status s = \<lparr>rs_status = s, rs_type = None, rs_body = []\<rparr>"

section \<open>Headers\<close>

text \<open>\<open>HeaderValue::to_str\<close> succeeds on visible ASCII and tabs.\<close>

definition visible_ascii :: "string \<Rightarrow> bool" where
  "visible_ascii s \<longleftrightarrow> list_all (\<lambda>c. (32 \<le> (of_char c :: nat) \<and> of_char c < (127 :: nat)) \<or> of_char c = (9 :: nat)) s"

type_synonym headers = "(string, string) table"

text \<open>\<open>headers.get(k).and_then(|h| h.to_str().ok())\<close>.\<close>

definition header_str :: "headers \<Rightarrow> string \<Rightarrow> string option" where
  "header_str hs k = Option.bind (map_of hs k) (\<lambda>v. if visible_ascii v then Some v else None)"

end
