(* ===== verification/Api_Config.thy ===== *)
theory Api_Config
  imports Fs_Model Http_Model "HOL-Library.Char_ord" "HOL-Library.List_Lexorder"
begin

text \<open>
  Configuration of the controller \<open>api-rust\<close>: template files and their defaults, memory
  sizes, warm-up limits, and the environment variables passed on to the tool containers.
  The TOML parser is a parameter: it yields the keys of the file that are present, and the
  defaults of the structs are filled in here.
\<close>

section \<open>Templates\<close>

record warmup_config =
  commands :: "string list"
  timeout_secs :: nat

record template_config =
  tpl_name :: string
  kind :: string
  base_image :: string
  extra_pip :: "string list"
  extra_apt :: "string list"
  n_containers :: nat
  memory_reservation :: string
  pids_limit :: int
  engine :: string
  warmup :: warmup_config

definition default_warmup_timeout_secs :: nat where
  "default_warmup_timeout_secs = 30"

definition default_warmup :: warmup_config where
  "default_warmup = \<lparr>commands = [], timeout_secs = default_warmup_timeout_secs\<rparr>"

definition default_kind :: string where "default_kind = ''tools''"
definition default_base_image :: string where "default_base_image = ''debian:bookworm-slim''"
definition default_containers :: nat where "default_containers = 1"
definition default_memory_reservation :: string where "default_memory_reservation = ''4g''"
definition default_pids_limit :: int where "default_pids_limit = 4096"
definition default_engine :: string where "default_engine = ''rust''"

text \<open>The keys a template file may hold, as the TOML crate delivers them.\<close>

record toml_warmup =
  tw_commands :: "string list option"
  tw_timeout :: "nat option"

record toml_template =
  tt_name :: "string option"
  tt_kind :: "string option"
  tt_base :: "string option"
  tt_pip :: "string list option"
  tt_apt :: "string list option"
  tt_containers :: "nat option"
  tt_memory :: "string option"
  tt_pids :: "int option"
  tt_engine :: "string option"
  tt_warmup :: "toml_warmup option"

definition warmup_of_toml :: "toml_warmup \<Rightarrow> warmup_config" where
  "warmup_of_toml t =
     \<lparr>commands = or_default (tw_commands t) [],
      timeout_secs = or_default (tw_timeout t) default_warmup_timeout_secs\<rparr>"

definition template_of_toml :: "toml_template \<Rightarrow> template_config option" where
  "template_of_toml t = map_option (\<lambda>n.
     \<lparr>tpl_name = n,
      kind = or_default (tt_kind t) default_kind,
      base_image = or_default (tt_base t) default_base_image,
      extra_pip = or_default (tt_pip t) [],
      extra_apt = or_default (tt_apt t) [],
      n_containers = or_default (tt_containers t) default_containers,
      memory_reservation = or_default (tt_memory t) default_memory_reservation,
      pids_limit = or_default (tt_pids t) default_pids_limit,
      engine = or_default (tt_engine t) default_engine,
      warmup = (case tt_warmup t of None \<Rightarrow> default_warmup | Some w \<Rightarrow> warmup_of_toml w)\<rparr>) (tt_name t)"

text \<open>
  \<open>load_templates\<close>: the entries of the template directory in file-name order, those without
  a \<open>template.toml\<close> skipped, the first unreadable or malformed file ends the loading.
\<close>

fun load_entries :: "fs \<Rightarrow> (string \<Rightarrow> toml_template option) \<Rightarrow> path \<Rightarrow> (string \<times> node) list
    \<Rightarrow> string + template_config list" where
  "load_entries fs toml dir [] = Inr []"
| "load_entries fs toml dir ((n, nd) # es) =
     (let p = path_join (path_join dir n) ''template.toml'' in
      if \<not> fs_exists fs p then load_entries fs toml dir es
      else rtry (map_err io_msg (fs_read fs p)) (\<lambda>raw.
        if \<not> valid_utf8 raw then Inl ''stream did not contain valid UTF-8''
        else case Option.bind (toml (of_bytes raw)) template_of_toml of
          None \<Rightarrow> Inl (''parse '' @ path_str p)
        | Some cfg \<Rightarrow> rtry (load_entries fs toml dir es) (\<lambda>r. Inr (cfg # r))))"

definition load_templates :: "fs \<Rightarrow> (string \<Rightarrow> toml_template option) \<Rightarrow> path
    \<Rightarrow> string + template_config list" where
  "load_templates fs toml dir =
     (if \<not> fs_exists fs dir then Inr []
      else rtry (map_err io_msg (fs_read_dir fs dir)) (\<lambda>es.
        load_entries fs toml dir (sort_key fst es)))"

text \<open>\<open>cfg_map\<close> of \<open>main\<close>: a later template of the same name replaces an earlier one.\<close>

definition cfg_map :: "template_config list \<Rightarrow> (string, template_config) table" where
  "cfg_map cs = foldl (\<lambda>m c. AList.update (tpl_name c) c m) [] cs"

text \<open>The limits of \<open>main\<close>; the product is computed in \<open>usize\<close>, which wraps in release builds.\<close>

definition hot_limit_of :: "env \<Rightarrow> nat" where
  "hot_limit_of env = or_default (Option.bind (env ''INSPECT_API_HOT_LIMIT'') parse_usize) 16"

definition warm_limit_of :: "env \<Rightarrow> nat" where
  "warm_limit_of env = or_default (Option.bind (env ''INSPECT_API_WARM_LIMIT'') parse_usize)
     (hot_limit_of env * 4 mod 2 ^ 64)"

section \<open>Memory sizes\<close>

text \<open>
  \<open>i64\<close> multiplication in a release build wraps around.
\<close>

definition wrap_i64 :: "int \<Rightarrow> int" where
  "wrap_i64 i = (i + 2 ^ 63) mod 2 ^ 64 - 2 ^ 63"

definition memory_unit :: "string \<Rightarrow> string \<times> int" where
  "memory_unit s =
     (case or_else (strip_suffix s ''gb'') (strip_suffix s ''g'') of
        Some n \<Rightarrow> (n, 1024 * 1024 * 1024)
      | None \<Rightarrow>
     (case or_else (strip_suffix s ''mb'') (strip_suffix s ''m'') of
        Some n \<Rightarrow> (n, 1024 * 1024)
      | None \<Rightarrow>
     (case or_else (strip_suffix s ''kb'') (strip_suffix s ''k'') of
        Some n \<Rightarrow> (n, 1024)
      | None \<Rightarrow> (s, 1))))"

text \<open>The error (\<open>ParseIntError\<close>) is \<open>None\<close>; \<open>uni\<close> is the Unicode lower-case table.\<close>

definition parse_memory :: "(string \<Rightarrow> string) \<Rightarrow> string \<Rightarrow> int option" where
  "parse_memory uni s =
     (let (num, mult) = memory_unit (to_lowercase uni (trim s))
      in map_option (\<lambda>n. wrap_i64 (n * mult)) (parse_i64 (trim num)))"

section \<open>Warm-up results\<close>

definition effective_warmup_timeout_secs :: "nat \<Rightarrow> nat" where
  "effective_warmup_timeout_secs raw = clamp_nat 1 300 raw"

text \<open>
  \<open>truncate_warmup_output\<close> slices the string at byte 512; slicing inside a multi-byte
  character panics, the value \<open>None\<close> here.
\<close>

definition is_char_boundary :: "string \<Rightarrow> nat \<Rightarrow> bool" where
  "is_char_boundary s i \<longleftrightarrow>
     i = 0 \<or> i = length s \<or> (i < length s \<and> \<not> utf8_cont (word_of_nat (of_char (s ! i))))"

definition ellipsis :: string where
  "ellipsis = map char_of [226, 128, 166 :: nat]"

definition truncate_warmup_output :: "string \<Rightarrow> string option" where
  "truncate_warmup_output s =
     (if length s \<le> 512 then Some s
      else if is_char_boundary s 512 then Some (take 512 s @ ellipsis)
      else None)"

record warmup_bash_resp =
  wb_stdout :: string
  wb_stderr :: string
  wb_exit_code :: int
  wb_timed_out :: bool

definition warmup_bash_of_json :: "json \<Rightarrow> warmup_bash_resp option" where
  "warmup_bash_of_json j =
     Option.bind (as_struct [''stdout'', ''stderr'', ''exit_code'', ''timed_out''] j) (\<lambda>fs.
     case (field ''stdout'' j_str fs, field ''stderr'' j_str fs,
           field ''exit_code'' (j_int (- (2 ^ 31)) (2 ^ 31 - 1)) fs, field_or False ''timed_out'' j_bool fs) of
        (Some out, Some err, Some code, Some t) \<Rightarrow>
          Some \<lparr>wb_stdout = out, wb_stderr = err, wb_exit_code = code, wb_timed_out = t\<rparr>
      | _ \<Rightarrow> None)"

text \<open>
  Failures of the container functions: an error with its message, a panic of the task, or
  the end of the fuel of the health poll (which \<open>health_poll_not_stuck\<close> excludes).
\<close>

datatype fault = Failed string | Panicked | Stuck

definition validate_warmup_bash_result :: "string \<Rightarrow> nat \<Rightarrow> nat \<Rightarrow> warmup_bash_resp \<Rightarrow> fault + unit" where
  "validate_warmup_bash_result template idx command_index resp =
     (let pre = ''template '' @ template @ '' replica '' @ show_nat idx
                @ '' warmup command '' @ show_nat command_index in
      if wb_timed_out resp then Inl (Failed (pre @ '' timed out''))
      else if wb_exit_code resp \<noteq> 0 then
        (case (truncate_warmup_output (wb_stderr resp), truncate_warmup_output (wb_stdout resp)) of
           (Some e, Some out) \<Rightarrow>
             Inl (Failed (pre @ '' failed with exit '' @ show_int (wb_exit_code resp)
                          @ '' stderr='' @ e @ '' stdout='' @ out))
         | _ \<Rightarrow> Inl Panicked)
      else Inr ())"

section \<open>Environment of the tool containers\<close>

definition forwarded_keys :: "string list" where
  "forwarded_keys =
     [''TOOLS_PROCESS_ENABLED'', ''TOOLS_MAX_PROCESSES_PER_SESSION'', ''TOOLS_PROCESS_BUFFER_BYTES'',
      ''TOOLS_SESSION_IDLE_REAP_SEC'', ''TOOLS_PROCESS_KILL_GROUP'', ''TOOLS_PROCESS_FORCE_UNSUPPORTED'',
      ''TOOLS_ISOLATION'']"

definition forward_tools_process_env :: "env \<Rightarrow> string list" where
  "forward_tools_process_env env =
     List.map_filter (\<lambda>k. map_option (\<lambda>v. k @ ''='' @ v) (env k)) forwarded_keys"

definition tools_network_name :: "env \<Rightarrow> string" where
  "tools_network_name env = or_default (env ''MINDBOX_TOOLS_NETWORK'') ''mindbox-tools''"

end
