(* ===== verification/Config_Props.thy ===== *)
theory Config_Props
  imports Api_Config Tools_State
begin

text \<open>
  Correctness of the controller's configuration: memory sizes, the settings a tool daemon
  receives, and the load order of templates.
\<close>

section \<open>Memory sizes\<close>

definition memory_units :: "(string \<times> int) list" where
  "memory_units =
     [('''', 1), (''k'', 2 ^ 10), (''kb'', 2 ^ 10), (''K'', 2 ^ 10), (''KB'', 2 ^ 10), (''m'', 2 ^ 20), (''mb'', 2 ^ 20),
      (''M'', 2 ^ 20), (''MB'', 2 ^ 20), (''g'', 2 ^ 30), (''gb'', 2 ^ 30), (''G'', 2 ^ 30), (''GB'', 2 ^ 30)]"

lemma digit_lower: "is_digit c \<Longrightarrow> ascii_lower c = c"
  by (auto simp: is_digit_def ascii_lower_def Let_def)

lemma digits_lower: "list_all is_digit s \<Longrightarrow> map ascii_lower s = s"
  by (induction s) (auto simp: digit_lower)

lemma plain_ascii: "plain s \<Longrightarrow> is_ascii s"
  by (auto simp: plain_def is_ascii_def)

lemma plain_append [simp]: "plain (s @ t) \<longleftrightarrow> plain s \<and> plain t"
  by (auto simp: plain_def)

lemma memory_units_lower:
  "list_all (\<lambda>(u, m). (map ascii_lower u, m) \<in> {('''', 1), (''k'', 2 ^ 10), (''kb'', 2 ^ 10), (''m'', 2 ^ 20),
      (''mb'', 2 ^ 20), (''g'', 2 ^ 30), (''gb'', 2 ^ 30 :: int)}) memory_units"
proof -
  have "ascii_lower CHR ''K'' = CHR ''k''" "ascii_lower CHR ''M'' = CHR ''m''" "ascii_lower CHR ''G'' = CHR ''g''"
    "ascii_lower CHR ''B'' = CHR ''b''" "ascii_lower CHR ''k'' = CHR ''k''" "ascii_lower CHR ''m'' = CHR ''m''"
    "ascii_lower CHR ''g'' = CHR ''g''" "ascii_lower CHR ''b'' = CHR ''b''"
    by (simp_all add: ascii_lower_def char_of_eq_iff)
  then show ?thesis by (simp add: memory_units_def)
qed

lemma memory_unit_digits:
  assumes "list_all is_digit ds" "ds \<noteq> []" "(u, m) \<in> set memory_units"
  shows "memory_unit (ds @ map ascii_lower u) = (ds, m)"
proof -
  obtain c r where rev: "rev ds = c # r" and "is_digit c"
    using assms(1,2) by (cases "rev ds") (auto simp: list_all_iff dest: arg_cong [of _ _ set])
  then have no: "c \<noteq> CHR ''b''" "c \<noteq> CHR ''g''" "c \<noteq> CHR ''m''" "c \<noteq> CHR ''k''"
    by (auto simp: is_digit_def)
  have e: "ends_with (ds @ w) p \<longleftrightarrow> take (length p) (rev w @ c # r) = rev p" for w p
    using rev by (simp add: ends_with_def starts_with_def)
  have "(map ascii_lower u, m) \<in> set [('''', 1), (''k'', 2 ^ 10), (''kb'', 2 ^ 10), (''m'', 2 ^ 20),
      (''mb'', 2 ^ 20), (''g'', 2 ^ 30), (''gb'', 2 ^ 30)]"
    using memory_units_lower assms(3) unfolding list_all_iff by auto
  then consider "map ascii_lower u = ''''" "m = 1" | "map ascii_lower u = ''k''" "m = 2 ^ 10"
    | "map ascii_lower u = ''kb''" "m = 2 ^ 10" | "map ascii_lower u = ''m''" "m = 2 ^ 20"
    | "map ascii_lower u = ''mb''" "m = 2 ^ 20" | "map ascii_lower u = ''g''" "m = 2 ^ 30"
    | "map ascii_lower u = ''gb''" "m = 2 ^ 30"
    by fastforce
  then show ?thesis
  proof cases
    case 1
    have "ends_with ds p \<longleftrightarrow> take (length p) (c # r) = rev p" for p using e [of "[]"] by simp
    then show ?thesis using 1 no by (simp add: memory_unit_def strip_suffix_def)
  qed (simp_all add: memory_unit_def strip_suffix_def e)
qed

lemma parse_memory_digits:
  assumes "(u, m) \<in> set memory_units" "n < 2 ^ 63"
  shows "parse_memory uni (show_nat n @ u) = Some (wrap_i64 (int n * m))"
proof -
  have pu: "plain u" using assms(1) by (auto simp: memory_units_def plain_def)
  have pd: "plain (show_nat n)" by (rule digits_plain [OF show_nat_digits(1)])
  have "to_lowercase uni (trim (show_nat n @ u)) = show_nat n @ map ascii_lower u"
    using pu pd by (simp add: trim_plain to_lowercase_def plain_ascii digits_lower show_nat_digits)
  moreover have "parse_i64 (trim (show_nat n)) = Some (int n)"
    using assms(2) pd by (simp add: trim_plain parse_i64_def parse_signed_show)
  ultimately show ?thesis
    using memory_unit_digits [OF show_nat_digits assms(1), of n] by (simp add: parse_memory_def)
qed

text \<open>A memory size written as a decimal number and one of the units k, kb, m, mb, g, gb (in
  lower or upper case) or none is parsed to the number times the unit, when that fits in 63
  bits.\<close>

theorem parse_memory_units:
  assumes "(u, m) \<in> set memory_units" "int n * m < 2 ^ 63"
  shows "parse_memory uni (show_nat n @ u) = Some (int n * m)"
proof -
  have "1 \<le> m" using assms(1) by (auto simp: memory_units_def)
  then have "int n \<le> int n * m" "0 \<le> int n * m" by (simp_all add: mult_le_cancel_left1)
  then have "int n < int (2 ^ 63)" using assms(2) by simp
  then have "n < 2 ^ 63" by (simp only: of_nat_less_iff)
  then show ?thesis
    using parse_memory_digits [OF assms(1)] assms(2) \<open>0 \<le> int n * m\<close> by (simp add: wrap_i64_def)
qed

theorem parse_memory_units_witness: "parse_memory id (show_nat 4 @ ''GB'') = Some (4 * 2 ^ 30)"
  using parse_memory_units [of "''GB''" "2 ^ 30" 4 id] by (simp add: memory_units_def)

text \<open>Past that the product wraps around: 16 EiB are no reservation at all.\<close>

lemma parse_memory_wraps: "parse_memory uni (show_nat (2 ^ 34) @ ''g'') = Some 0"
  using parse_memory_digits [of "''g''" "2 ^ 30" "2 ^ 34" uni] by (simp add: memory_units_def wrap_i64_def)

section \<open>The settings of a tool daemon\<close>

text \<open>
  A container's process sees the entries \<open>KEY=value\<close> of its configuration as environment
  variables.
\<close>

definition env_of_list :: "string list \<Rightarrow> env" where
  "env_of_list es k = map_option (drop (Suc (length k))) (find (\<lambda>e. starts_with e (k @ ''='')) es)"

lemma key_match:
  assumes "CHR ''='' \<notin> set k" "CHR ''='' \<notin> set k'"
  shows "starts_with (k' @ ''='' @ v) (k @ ''='') \<longleftrightarrow> k = k'"
proof
  assume "starts_with (k' @ ''='' @ v) (k @ ''='')"
  then obtain w where "k' @ CHR ''='' # v = k @ CHR ''='' # w"
    by (auto simp: starts_with_prefix prefix_def)
  then have "takeWhile (\<lambda>c. c \<noteq> CHR ''='') (k' @ CHR ''='' # v) = takeWhile (\<lambda>c. c \<noteq> CHR ''='') (k @ CHR ''='' # w)"
    by simp
  moreover have "takeWhile (\<lambda>c. c \<noteq> CHR ''='') (x @ CHR ''='' # y) = x" if "CHR ''='' \<notin> set x" for x y
    using that by (subst takeWhile_append2) auto
  ultimately show "k = k'" using assms by metis
qed (simp add: starts_with_prefix)

lemma find_setting:
  assumes "\<forall>k \<in> set ks. CHR ''='' \<notin> set k" "CHR ''='' \<notin> set k"
  shows "find (\<lambda>e. starts_with e (k @ ''=''))
      (List.map_filter (\<lambda>k. map_option (\<lambda>v. k @ ''='' @ v) (env k)) ks)
    = (if k \<in> set ks then map_option (\<lambda>v. k @ ''='' @ v) (env k) else None)"
  using assms(1)
proof (induction ks)
  case (Cons k' ks)
  then have m: "starts_with (k' @ ''='' @ v) (k @ ''='') \<longleftrightarrow> k = k'" for v
    using key_match [OF assms(2)] by simp
  show ?case
  proof (cases "env k'")
    case None
    then show ?thesis using Cons by (auto simp: map_filter_simps)
  next
    case (Some v)
    then show ?thesis using Cons m [of v] by (auto simp: map_filter_simps)
  qed
qed (simp add: map_filter_simps)

lemma env_of_forwarded:
  assumes "k \<in> set forwarded_keys"
  shows "env_of_list (forward_tools_process_env env) k = env k"
proof -
  have "\<forall>k \<in> set forwarded_keys. CHR ''='' \<notin> set k" by (simp add: forwarded_keys_def)
  then show ?thesis
    using assms find_setting [of forwarded_keys k env]
    by (cases "env k") (simp_all add: env_of_list_def forward_tools_process_env_def starts_with_def)
qed

text \<open>C36: A tool daemon started by the controller configures its process tool and its isolation
  exactly as the controller's own environment says: every variable the daemon reads for them is
  passed on with its value, and an unset variable stays unset.\<close>

theorem settings_reach_daemon:
  "process_cfg_from_env (env_of_list (forward_tools_process_env env)) = process_cfg_from_env env
   \<and> isolation_from_env (env_of_list (forward_tools_process_env env)) fs own = isolation_from_env env fs own"
  using env_of_forwarded [of _ env]
  by (simp add: process_cfg_from_env_def isolation_from_env_def env_flag_def env_num_def forwarded_keys_def)

section \<open>Quoting the output of a warm-up command\<close>

text \<open>At most 512 bytes of the output are quoted, and always a prefix of it.\<close>

lemma truncate_prefix:
  assumes "truncate_warmup_output s = Some t"
  shows "if length s \<le> 512 then t = s else t = take 512 s @ ellipsis"
  using assms by (auto simp: truncate_warmup_output_def split: if_splits)

text \<open>A two-byte character across byte 512 makes the slice panic.\<close>

lemma truncate_panics:
  "truncate_warmup_output (replicate 511 CHR ''a'' @ map char_of [195, 169 :: nat]) = None"
  by (simp add: truncate_warmup_output_def is_char_boundary_def nth_append utf8_cont_def)

end
