(* ===== verification/Api_Containers.thy ===== *)
theory Api_Containers
  imports Api_Config
begin

text \<open>
  Starting the container of a tool daemon: image check, network, creation, address, health
  poll and warm-up, with the removal of the container on every failure after its creation.
  The Docker engine, the HTTP client and the clock are parameters: the record \<open>docker\<close> holds
  the calls the code makes as functions on the state \<open>'d\<close> of that outside world.
\<close>

section \<open>The outside world\<close>

datatype docker_err = ServerError nat string | OtherError string

record container_config =
  cc_image :: string
  cc_labels :: "(string, string) table"
  cc_exposed_ports :: "string list"
  cc_env :: "string list"
  cc_memory_reservation :: int
  cc_cpu_shares :: int
  cc_pids_limit :: int
  cc_oom_score_adj :: int
  cc_security_opt :: "string list"
  cc_network_mode :: "string option"
  cc_endpoints :: "string list"

text \<open>The same for a forwarded request: status, content type and body of the answer.\<close>

type_synonym forward_result = "string + nat \<times> string option \<times> bytes option"

record 'd docker =
  inspect_image :: "string \<Rightarrow> 'd \<Rightarrow> (docker_err + unit) \<times> 'd"
  inspect_network :: "string \<Rightarrow> 'd \<Rightarrow> (docker_err + unit) \<times> 'd"
  create_network :: "string \<Rightarrow> (string, string) table \<Rightarrow> 'd \<Rightarrow> (docker_err + unit) \<times> 'd"
  connect_network :: "string \<Rightarrow> string \<Rightarrow> 'd \<Rightarrow> (docker_err + unit) \<times> 'd"
  list_containers :: "string \<Rightarrow> 'd \<Rightarrow> (docker_err + string option list) \<times> 'd"
  create_container :: "string \<Rightarrow> container_config \<Rightarrow> 'd \<Rightarrow> (docker_err + string) \<times> 'd"
  start_container :: "string \<Rightarrow> 'd \<Rightarrow> (docker_err + unit) \<times> 'd"
  inspect_addresses :: "string \<Rightarrow> 'd \<Rightarrow> (docker_err + (string, string option) table) \<times> 'd"
  pause_container :: "string \<Rightarrow> 'd \<Rightarrow> (docker_err + unit) \<times> 'd"
  unpause_container :: "string \<Rightarrow> 'd \<Rightarrow> (docker_err + unit) \<times> 'd"
  remove_container :: "string \<Rightarrow> 'd \<Rightarrow> (docker_err + unit) \<times> 'd"
  http :: "http_method \<Rightarrow> string \<Rightarrow> json option \<Rightarrow> nat \<Rightarrow> 'd \<Rightarrow> http_result \<times> 'd"
  http_forward :: "http_method \<Rightarrow> string \<Rightarrow> bytes \<Rightarrow> 'd \<Rightarrow> forward_result \<times> 'd"
  clock_ms :: "'d \<Rightarrow> nat"
  clock_ns :: "'d \<Rightarrow> nat"
  sleep_ms :: "nat \<Rightarrow> 'd \<Rightarrow> 'd"
  parse_json :: "bytes \<Rightarrow> json option"
  err_msg :: "docker_err \<Rightarrow> string"
  status_msg :: "nat \<Rightarrow> string"
  int_msg :: "string \<Rightarrow> string"
  lower_table :: "string \<Rightarrow> string"

definition text_or_default :: "bytes option \<Rightarrow> string" where
  "text_or_default b = (case b of None \<Rightarrow> [] | Some x \<Rightarrow> from_utf8_lossy x)"

text \<open>\<open>let x = call.await?\<close> on calls that also change the world.\<close>

type_synonym ('d, 'a) io = "'d \<Rightarrow> (fault + 'a) \<times> 'd"

section \<open>Docker helpers\<close>

definition docker_image_exists :: "'d docker \<Rightarrow> string \<Rightarrow> ('d, bool) io" where
  "docker_image_exists dk tag d =
     (case inspect_image dk tag d of
        (Inr _, d') \<Rightarrow> (Inr True, d')
      | (Inl (ServerError c m), d') \<Rightarrow>
          if c = 404 then (Inr False, d') else (Inl (Failed (err_msg dk (ServerError c m))), d')
      | (Inl e, d') \<Rightarrow> (Inl (Failed (err_msg dk e)), d'))"

definition remove_container_best_effort :: "'d docker \<Rightarrow> string \<Rightarrow> 'd \<Rightarrow> 'd" where
  "remove_container_best_effort dk cid d = snd (remove_container dk cid d)"

definition ensure_tools_network :: "'d docker \<Rightarrow> env \<Rightarrow> ('d, string) io" where
  "ensure_tools_network dk env d =
     (let name = tools_network_name env in
      case inspect_network dk name d of
        (Inr _, d1) \<Rightarrow> (Inr name, d1)
      | (Inl e, d1) \<Rightarrow>
          if (case e of ServerError c _ \<Rightarrow> c = 404 | _ \<Rightarrow> False) then
            (case create_network dk name [(''inspect-api-net'', ''1'')] d1 of
               (Inr _, d2) \<Rightarrow> (Inr name, d2)
             | (Inl e', d2) \<Rightarrow>
                 if (case e' of ServerError c _ \<Rightarrow> c = 409 | _ \<Rightarrow> False) then (Inr name, d2)
                 else (Inl (Failed (err_msg dk e')), d2))
          else (Inl (Failed (err_msg dk e)), d1))"

text \<open>Connecting the controller's own container; every outcome is only logged.\<close>

definition self_attach_to_tools_network :: "'d docker \<Rightarrow> env \<Rightarrow> string \<Rightarrow> 'd \<Rightarrow> 'd" where
  "self_attach_to_tools_network dk env network d =
     (case env ''HOSTNAME'' of
        None \<Rightarrow> d
      | Some h \<Rightarrow> if h = [] then d else snd (connect_network dk network h d))"

text \<open>
  Start-up removes the containers a previous instance left (found by label) and empties the
  socket directory; all of it best effort after the listing.
\<close>

definition cleanup_old_hot_containers :: "'d docker \<Rightarrow> env \<Rightarrow> fs \<Rightarrow> 'd \<Rightarrow> (docker_err + unit) \<times> fs \<times> 'd" where
  "cleanup_old_hot_containers dk env fs d =
     (case list_containers dk ''inspect-api-hot=1'' d of
        (Inl e, d') \<Rightarrow> (Inl e, fs, d')
      | (Inr cs, d') \<Rightarrow>
          let d'' = foldl (\<lambda>d c. case c of None \<Rightarrow> d | Some i \<Rightarrow> snd (remove_container dk i d)) d' cs;
              dir = components (or_default (env ''INSPECT_API_SOCKETS_DIR'') ''/opt/inspect-api/sockets'');
              fs' = (case fs_read_dir fs dir of
                       Inl _ \<Rightarrow> fs
                     | Inr es \<Rightarrow> foldl (\<lambda>fs (n, _). case fs_remove_dir_all fs (path_join dir n) of
                                          Inl _ \<Rightarrow> fs | Inr fs' \<Rightarrow> fs') fs es)
          in (Inr (), fs', d''))"

section \<open>Warm-up\<close>

definition replica_msg :: "template_config \<Rightarrow> nat \<Rightarrow> string" where
  "replica_msg cfg idx = ''template '' @ tpl_name cfg @ '' replica '' @ show_nat idx"

text \<open>A message that quotes a truncated body; the truncation may panic.\<close>

definition quoted_failure :: "string \<Rightarrow> string \<Rightarrow> fault" where
  "quoted_failure pre body =
     (case truncate_warmup_output body of None \<Rightarrow> Panicked | Some b \<Rightarrow> Failed (pre @ b))"

fun warmup_loop :: "'d docker \<Rightarrow> string \<Rightarrow> template_config \<Rightarrow> nat \<Rightarrow> string \<Rightarrow> nat \<Rightarrow> nat \<Rightarrow> string list
    \<Rightarrow> ('d, unit) io" where
  "warmup_loop dk url cfg idx sid t ci [] d = (Inr (), d)"
| "warmup_loop dk url cfg idx sid t ci (c # cs) d =
     (case http dk HPOST (url @ ''/sessions/'' @ sid @ ''/tools/bash'')
             (Some (JObj [(''command'', JStr c), (''timeout'', JNum (int t))])) ((t + 5) * 1000) d of
        (Inl e, d') \<Rightarrow>
          (Inl (Failed (replica_msg cfg idx @ '' warmup command '' @ show_nat ci @ '' HTTP request'')), d')
      | (Inr (st, body), d') \<Rightarrow>
          if \<not> is_success st then
            (Inl (quoted_failure (replica_msg cfg idx @ '' warmup command '' @ show_nat ci
                    @ '' returned HTTP '' @ status_msg dk st @ '' '') (text_or_default body)), d')
          else case Option.bind (Option.bind body (parse_json dk)) warmup_bash_of_json of
            None \<Rightarrow> (Inl (Failed ''decode warmup bash response''), d')
          | Some b \<Rightarrow>
              (case validate_warmup_bash_result (tpl_name cfg) idx ci b of
                 Inl e \<Rightarrow> (Inl e, d')
               | Inr _ \<Rightarrow> warmup_loop dk url cfg idx sid t (Suc ci) cs d'))"

definition run_template_warmup :: "'d docker \<Rightarrow> string \<Rightarrow> template_config \<Rightarrow> nat \<Rightarrow> ('d, unit) io" where
  "run_template_warmup dk url cfg idx d =
     (if commands (warmup cfg) = [] then (Inr (), d)
      else let t = effective_warmup_timeout_secs (timeout_secs (warmup cfg)) in
      case http dk HPOST (url @ ''/sessions'') (Some (JObj [])) ((t + 5) * 1000) d of
        (Inl e, d1) \<Rightarrow> (Inl (Failed ''create warmup session''), d1)
      | (Inr (st, body), d1) \<Rightarrow>
          if \<not> is_success st then
            (Inl (quoted_failure (replica_msg cfg idx @ '' warmup session create failed: HTTP ''
                    @ status_msg dk st @ '' '') (text_or_default body)), d1)
          else case Option.bind (Option.bind (Option.bind body (parse_json dk)) (as_struct [''session_id'']))
                      (field ''session_id'' j_str) of
            None \<Rightarrow> (Inl (Failed ''decode warmup session response''), d1)
          | Some sid \<Rightarrow>
              (case warmup_loop dk url cfg idx sid t 0 (commands (warmup cfg)) d1 of
                 (r, d2) \<Rightarrow>
                   if r = Inl Panicked then (r, d2)
                   else (r, snd (http dk HDELETE (url @ ''/sessions/'' @ sid) None ((t + 5) * 1000) d2))))"

section \<open>Starting a container\<close>

text \<open>
  The health poll runs until the daemon answers or 30 seconds have passed. The fuel counts
  its rounds; \<open>poll_fuel\<close> is one more than the rounds that fit into 30 seconds.
\<close>

definition poll_fuel :: nat where
  "poll_fuel = 152"

fun health_poll :: "'d docker \<Rightarrow> string \<Rightarrow> nat \<Rightarrow> nat \<Rightarrow> string option \<Rightarrow> ('d, unit) io" where
  "health_poll dk url deadline 0 last_err d = (Inl Stuck, d)"
| "health_poll dk url deadline (Suc n) last_err d =
     (if deadline \<le> clock_ms dk d then
        (Inl (Failed (''tools daemon at '' @ url @ '' not ready in 30s: ''
                      @ or_default last_err ''no probe attempts'')), d)
      else case http dk HGET (url @ ''/health'') None 2000 d of
        (Inr (st, _), d') \<Rightarrow>
          if is_success st then (Inr (), d')
          else health_poll dk url deadline n (Some (''HTTP '' @ status_msg dk st)) (sleep_ms dk 200 d')
      | (Inl e, d') \<Rightarrow> health_poll dk url deadline n (Some e) (sleep_ms dk 200 d'))"

text \<open>After the creation: \<open>or_remove\<close> runs a step and removes the container when it fails, unless the
  task panics.\<close>

definition or_remove :: "'d docker \<Rightarrow> string \<Rightarrow> ('d, 'a) io \<Rightarrow> ('d, 'a) io" where
  "or_remove dk cid m d =
     (case m d of
        (Inl Panicked, d') \<Rightarrow> (Inl Panicked, d')
      | (Inl e, d') \<Rightarrow> (Inl e, remove_container_best_effort dk cid d')
      | (Inr x, d') \<Rightarrow> (Inr x, d'))"

definition tools_container_config :: "env \<Rightarrow> template_config \<Rightarrow> string \<Rightarrow> string \<Rightarrow> int \<Rightarrow> container_config" where
  "tools_container_config env cfg tag network mem =
     \<lparr>cc_image = tag,
      cc_labels = [(''inspect-api-hot'', ''1''), (''inspect-tpl'', tpl_name cfg), (''inspect-kind'', ''tools'')],
      cc_exposed_ports = [''8002/tcp''],
      cc_env = forward_tools_process_env env,
      cc_memory_reservation = mem,
      cc_cpu_shares = 1024,
      cc_pids_limit = pids_limit cfg,
      cc_oom_score_adj = 500,
      cc_security_opt = [''no-new-privileges''],
      cc_network_mode = env ''TOOLS_CONTAINER_NETWORK_MODE'',
      cc_endpoints = [network]\<rparr>"

definition container_ip :: "'d docker \<Rightarrow> string \<Rightarrow> string \<Rightarrow> ('d, string) io" where
  "container_ip dk cid network d =
     (case inspect_addresses dk cid d of
        (Inl e, d') \<Rightarrow> (Inl (Failed ''inspect tools container''), d')
      | (Inr nets, d') \<Rightarrow>
          (case Option.bind (map_of nets network) id of
             Some ip \<Rightarrow> if ip \<noteq> [] then (Inr ip, d')
                        else (Inl (Failed (''tools container has no IP on network '' @ network)), d')
           | None \<Rightarrow> (Inl (Failed (''tools container has no IP on network '' @ network)), d')))"

text \<open>\<open>bring_up\<close> is \<open>start_tools_container\<close> from the creation of the container on.\<close>

definition bring_up :: "'d docker \<Rightarrow> template_config \<Rightarrow> nat \<Rightarrow> string \<Rightarrow> string \<Rightarrow> ('d, string \<times> string) io" where
  "bring_up dk cfg idx network cid =
     io_try (or_remove dk cid (io_err (\<lambda>_. Failed ''start tools container'') (start_container dk cid))) (\<lambda>_.
     io_try (or_remove dk cid (container_ip dk cid network)) (\<lambda>ip d.
     let url = ''http://'' @ ip @ '':8002'' in
     io_try (or_remove dk cid (health_poll dk url (clock_ms dk d + 30000) poll_fuel None)) (\<lambda>_.
     io_try (or_remove dk cid (run_template_warmup dk url cfg idx)) (\<lambda>_.
     io_lift (Inr (cid, url)))) d))"

definition start_tools_container :: "'d docker \<Rightarrow> env \<Rightarrow> template_config \<Rightarrow> nat \<Rightarrow> ('d, string \<times> string) io" where
  "start_tools_container dk env cfg idx =
     (let tag = ''inspect-tpl-tools-'' @ tpl_name cfg @ '':latest'' in
      io_try (docker_image_exists dk tag) (\<lambda>there.
      if \<not> there then
        io_lift (Inl (Failed (''template '' @ tpl_name cfg @ '' tools image '' @ tag
                              @ '' not built (try template-build '' @ tpl_name cfg @ '')'')))
      else
      io_try (ensure_tools_network dk env) (\<lambda>network.
      io_try (io_lift (ok_or (Failed (int_msg dk (memory_reservation cfg)))
                             (parse_memory (lower_table dk) (memory_reservation cfg)))) (\<lambda>mem d.
      io_try (io_err (\<lambda>_. Failed ''create tools container'')
               (create_container dk
                  (''mindbox-tpl-tools-'' @ tpl_name cfg @ ''-'' @ show_nat idx @ ''-'' @ show_nat (clock_ns dk d))
                  (tools_container_config env cfg tag network mem)))
        (bring_up dk cfg idx network) d))))"

section \<open>The health poll ends\<close>

text \<open>
  The clock is monotone and a sleep of 200 ms lasts at least 200 ms.
\<close>

definition clock_laws :: "'d docker \<Rightarrow> bool" where
  "clock_laws dk \<longleftrightarrow>
     (\<forall>m url b t d. clock_ms dk d \<le> clock_ms dk (snd (http dk m url b t d))) \<and>
     (\<forall>n d. clock_ms dk d + n \<le> clock_ms dk (sleep_ms dk n d))"

lemma health_poll_not_stuck:
  assumes "clock_laws dk" "deadline \<le> clock_ms dk d + 200 * n"
  shows "fst (health_poll dk url deadline (Suc n) last_err d) \<noteq> Inl Stuck"
  using assms(2)
proof (induction n arbitrary: d last_err)
  case 0
  then show ?case by simp
next
  case (Suc n)
  obtain r d' where h: "http dk HGET (url @ ''/health'') None 2000 d = (r, d')" by fastforce
  have "clock_ms dk d \<le> clock_ms dk d'"
    using assms(1) h unfolding clock_laws_def by (metis snd_conv)
  moreover have "clock_ms dk d' + 200 \<le> clock_ms dk (sleep_ms dk 200 d')"
    using assms(1) unfolding clock_laws_def by blast
  ultimately have "deadline \<le> clock_ms dk (sleep_ms dk 200 d') + 200 * n"
    using Suc.prems by simp
  note ih = Suc.IH [OF this]
  show ?case
    using ih h by (subst health_poll.simps) (auto split: sum.splits prod.splits)
qed

end
