(* ===== verification/Api_Registry.thy ===== *)
theory Api_Registry
  imports Api_Containers
begin

text \<open>
  The paged registry: templates move between the tiers hot (containers running), warm
  (paused) and cold (no containers), with least-recently-used eviction. The state is the
  record \<open>registry\<close>; it contains the outside world \<open>'d\<close> in its field \<open>engine_st\<close>. An
  \<open>Arc\<close> of a runtime is shared between the registry and its clients only through the
  round-robin counter, so the counters live in a store and a runtime holds the address of
  its own.

  The functions run one request at a time; the per-name lock and the state lock then have
  no effect. \<open>cold_prepare\<close> and \<open>cold_commit\<close> are the two halves of a cold start, so that
  interleavings of two starts can be composed from them.
\<close>

section \<open>State\<close>

datatype tier = Hot | Warm

record template_runtime =
  container_ids :: "string list"
  daemon_urls :: "string list"
  rr_addr :: nat

record 'd registry =
  engine_st :: 'd
  configs :: "(string, template_config) table"
  runtimes :: "(string, template_runtime \<times> tier) table"
  lru :: "string list"
  hot_limit :: nat
  warm_limit :: nat
  counters :: "nat list"

definition registry_new :: "'d \<Rightarrow> (string, template_config) table \<Rightarrow> nat \<Rightarrow> nat \<Rightarrow> 'd registry" where
  "registry_new d cfgs hot warm =
     \<lparr>engine_st = d, configs = cfgs, runtimes = [], lru = [],
      hot_limit = hot, warm_limit = warm, counters = []\<rparr>"

definition tier_of :: "'d registry \<Rightarrow> string \<Rightarrow> tier option" where
  "tier_of r n = map_option snd (map_of (runtimes r) n)"

definition touch_lru :: "string \<Rightarrow> string list \<Rightarrow> string list" where
  "touch_lru n l = remove1 n l @ [n]"

definition count_by_tier :: "'d registry \<Rightarrow> tier \<Rightarrow> nat" where
  "count_by_tier r t = length (filter (\<lambda>(_, _, t'). t' = t) (runtimes r))"

text \<open>\<open>TemplateRuntime::pick_daemon_url\<close>: the counter is a \<open>usize\<close> that wraps around.\<close>

definition pick_daemon_url :: "template_runtime \<Rightarrow> 'd registry \<Rightarrow> string option \<times> 'd registry" where
  "pick_daemon_url rt r =
     (if daemon_urls rt = [] then (None, r)
      else let i = counters r ! rr_addr rt in
        (Some (daemon_urls rt ! (i mod length (daemon_urls rt))),
         r\<lparr>counters := (counters r)[rr_addr rt := (i + 1) mod 2 ^ 64]\<rparr>))"

section \<open>Eviction\<close>

definition drop_containers :: "'d docker \<Rightarrow> string list \<Rightarrow> 'd \<Rightarrow> 'd" where
  "drop_containers dk cids d =
     foldl (\<lambda>d c. snd (remove_container dk c (snd (unpause_container dk c d)))) d cids"

definition pause_all :: "'d docker \<Rightarrow> string list \<Rightarrow> 'd \<Rightarrow> 'd" where
  "pause_all dk cids d = foldl (\<lambda>d c. snd (pause_container dk c d)) d cids"

definition unpause_all :: "'d docker \<Rightarrow> string list \<Rightarrow> 'd \<Rightarrow> 'd" where
  "unpause_all dk cids d = foldl (\<lambda>d c. snd (unpause_container dk c d)) d cids"

definition warm_victim :: "'d registry \<Rightarrow> string option" where
  "warm_victim r = find (\<lambda>n. tier_of r n = Some Warm) (lru r)"

definition evict_warm_one :: "'d docker \<Rightarrow> string \<Rightarrow> 'd registry \<Rightarrow> 'd registry" where
  "evict_warm_one dk n r =
     (let r' = r\<lparr>lru := filter (\<lambda>m. m \<noteq> n) (lru r), runtimes := AList.delete n (runtimes r)\<rparr> in
      case map_of (runtimes r) n of
        None \<Rightarrow> r'
      | Some (rt, _) \<Rightarrow> r'\<lparr>engine_st := drop_containers dk (container_ids rt) (engine_st r)\<rparr>)"

lemma evict_warm_one_lru [simp]: "lru (evict_warm_one dk n r) = filter (\<lambda>m. m \<noteq> n) (lru r)"
  by (simp add: evict_warm_one_def Let_def split: option.split)

function evict_warm_to_cold_if_needed :: "'d docker \<Rightarrow> 'd registry \<Rightarrow> 'd registry" where
  "evict_warm_to_cold_if_needed dk r =
     (if count_by_tier r Warm \<le> warm_limit r then r
      else case warm_victim r of
        None \<Rightarrow> r
      | Some n \<Rightarrow> evict_warm_to_cold_if_needed dk (evict_warm_one dk n r))"
  by pat_completeness auto
termination
proof (relation "measure (\<lambda>(dk, r). length (lru r))")
  fix dk :: "'d docker" and r :: "'d registry" and n
  assume "warm_victim r = Some n"
  then have "n \<in> set (lru r)" by (auto simp: warm_victim_def find_Some_iff)
  then have "length (filter (\<lambda>m. m \<noteq> n) (lru r)) < length (lru r)"
    by (auto simp: length_filter_less)
  then show "((dk, evict_warm_one dk n r), dk, r) \<in> measure (\<lambda>(dk, r). length (lru r))" by simp
qed simp

declare evict_warm_to_cold_if_needed.simps [simp del]

definition hot_victim :: "string \<Rightarrow> 'd registry \<Rightarrow> string option" where
  "hot_victim exclude r = find (\<lambda>n. n \<noteq> exclude \<and> tier_of r n = Some Hot) (lru r)"

definition demote :: "'d docker \<Rightarrow> string \<Rightarrow> 'd registry \<Rightarrow> 'd registry" where
  "demote dk n r =
     (case map_of (runtimes r) n of
        None \<Rightarrow> r
      | Some (rt, _) \<Rightarrow>
          evict_warm_to_cold_if_needed dk
            (r\<lparr>engine_st := pause_all dk (container_ids rt) (engine_st r),
               runtimes := AList.update n (rt, Warm) (runtimes r)\<rparr>))"

lemma filter_update_less:
  "map_of t n = Some (rt, Hot) \<Longrightarrow>
   length (filter (\<lambda>(_, _, t'). t' = Hot) (AList.update n (rt', Warm) t)) < length (filter (\<lambda>(_, _, t'). t' = Hot) t)"
  by (induction t) (auto split: if_splits)

lemma filter_delete_le:
  "length (filter P (AList.delete n t)) \<le> length (filter P t)"
  by (induction t) auto

lemma count_evict_warm_one: "count_by_tier (evict_warm_one dk n r) t \<le> count_by_tier r t"
  by (simp add: count_by_tier_def evict_warm_one_def Let_def filter_delete_le split: option.split)

lemma count_evict_warm: "count_by_tier (evict_warm_to_cold_if_needed dk r) t \<le> count_by_tier r t"
proof (induction dk r rule: evict_warm_to_cold_if_needed.induct)
  case (1 dk r)
  show ?case
  proof (cases "count_by_tier r Warm \<le> warm_limit r \<or> warm_victim r = None")
    case True
    then show ?thesis by (auto simp: evict_warm_to_cold_if_needed.simps [of dk r])
  next
    case False
    then obtain n where n: "\<not> count_by_tier r Warm \<le> warm_limit r" "warm_victim r = Some n" by auto
    have "count_by_tier (evict_warm_to_cold_if_needed dk r) t \<le> count_by_tier (evict_warm_one dk n r) t"
      using "1.IH" [OF n] n by (simp add: evict_warm_to_cold_if_needed.simps [of dk r])
    also have "\<dots> \<le> count_by_tier r t" by (rule count_evict_warm_one)
    finally show ?thesis .
  qed
qed

lemma count_demote: "tier_of r n = Some Hot \<Longrightarrow> count_by_tier (demote dk n r) Hot < count_by_tier r Hot"
  using count_evict_warm [of dk _ Hot] filter_update_less [of "runtimes r" n]
  by (fastforce simp: tier_of_def demote_def count_by_tier_def intro: le_less_trans)

lemma hot_victim_tier: "hot_victim x r = Some n \<Longrightarrow> n \<in> set (lru r) \<and> n \<noteq> x \<and> tier_of r n = Some Hot"
  by (auto simp: hot_victim_def find_Some_iff)

lemma warm_victim_tier: "warm_victim r = Some n \<Longrightarrow> n \<in> set (lru r) \<and> tier_of r n = Some Warm"
  by (auto simp: warm_victim_def find_Some_iff)

function evict_hot_to_warm_if_needed_excluding :: "'d docker \<Rightarrow> string \<Rightarrow> 'd registry \<Rightarrow> 'd registry" where
  "evict_hot_to_warm_if_needed_excluding dk exclude r =
     (if count_by_tier r Hot < hot_limit r then r
      else case hot_victim exclude r of
        None \<Rightarrow> r
      | Some n \<Rightarrow> evict_hot_to_warm_if_needed_excluding dk exclude (demote dk n r))"
  by pat_completeness auto
termination
  by (relation "measure (\<lambda>(dk, x, r). count_by_tier r Hot)") (auto dest!: hot_victim_tier simp: count_demote)

declare evict_hot_to_warm_if_needed_excluding.simps [simp del]

section \<open>Acquiring a template\<close>

definition set_hot :: "string \<Rightarrow> template_runtime \<Rightarrow> 'd registry \<Rightarrow> 'd registry" where
  "set_hot n rt r = r\<lparr>runtimes := AList.update n (rt, Hot) (runtimes r), lru := touch_lru n (lru r)\<rparr>"

text \<open>
  \<open>start_replicas\<close> starts the replicas \<open>i, i + 1, \<dots>\<close> and removes those already started when
  one fails. A panic leaves them running.
\<close>

fun start_replicas :: "'d docker \<Rightarrow> env \<Rightarrow> template_config \<Rightarrow> nat list \<Rightarrow> string list \<Rightarrow> string list
    \<Rightarrow> ('d, string list \<times> string list) io" where
  "start_replicas dk env cfg [] cids urls d = (Inr (cids, urls), d)"
| "start_replicas dk env cfg (i # is) cids urls d =
     (case start_tools_container dk env cfg i d of
        (Inr (cid, url), d') \<Rightarrow> start_replicas dk env cfg is (cids @ [cid]) (urls @ [url]) d'
      | (Inl Panicked, d') \<Rightarrow> (Inl Panicked, d')
      | (Inl e, d') \<Rightarrow> (Inl e, foldl (\<lambda>d c. remove_container_best_effort dk c d) d' cids))"

definition promote_warm :: "'d docker \<Rightarrow> string \<Rightarrow> template_runtime \<Rightarrow> 'd registry \<Rightarrow> 'd registry" where
  "promote_warm dk n rt r =
     (let r1 = r\<lparr>engine_st := unpause_all dk (container_ids rt) (engine_st r)\<rparr>;
          r2 = evict_hot_to_warm_if_needed_excluding dk n r1
      in set_hot n rt r2)"

definition cold_prepare :: "'d docker \<Rightarrow> env \<Rightarrow> string \<Rightarrow> template_config \<Rightarrow> 'd registry
    \<Rightarrow> (fault + string list \<times> string list) \<times> 'd registry" where
  "cold_prepare dk env n cfg r =
     (let r1 = evict_hot_to_warm_if_needed_excluding dk n r in
      case start_replicas dk env cfg [0..<max 1 (n_containers cfg)] [] [] (engine_st r1) of
        (res, d) \<Rightarrow> (res, r1\<lparr>engine_st := d\<rparr>))"

definition cold_commit :: "string \<Rightarrow> string list \<times> string list \<Rightarrow> 'd registry
    \<Rightarrow> template_runtime \<times> 'd registry" where
  "cold_commit n cu r =
     (let rt = \<lparr>container_ids = fst cu, daemon_urls = snd cu, rr_addr = length (counters r)\<rparr>
      in (rt, set_hot n rt (r\<lparr>counters := counters r @ [0]\<rparr>)))"

definition acquire_slow :: "'d docker \<Rightarrow> env \<Rightarrow> string \<Rightarrow> 'd registry \<Rightarrow> (fault + template_runtime) \<times> 'd registry" where
  "acquire_slow dk env n r =
     (case map_of (runtimes r) n of
        Some (rt, Hot) \<Rightarrow> (Inr rt, set_hot n rt r)
      | Some (rt, Warm) \<Rightarrow> (Inr rt, promote_warm dk n rt r)
      | None \<Rightarrow>
          (case map_of (configs r) n of
             None \<Rightarrow> (Inl (Failed (''unknown template: '' @ n)), r)
           | Some cfg \<Rightarrow>
               (case cold_prepare dk env n cfg r of
                  (Inl e, r') \<Rightarrow> (Inl e, r')
                | (Inr cu, r') \<Rightarrow> (case cold_commit n cu r' of (rt, r'') \<Rightarrow> (Inr rt, r'')))))"

definition acquire :: "'d docker \<Rightarrow> env \<Rightarrow> string \<Rightarrow> 'd registry \<Rightarrow> (fault + template_runtime) \<times> 'd registry" where
  "acquire dk env n r =
     (case map_of (runtimes r) n of
        Some (rt, Hot) \<Rightarrow> (Inr rt, set_hot n rt r)
      | _ \<Rightarrow> acquire_slow dk env n r)"

lemma acquire_eq_slow: "acquire dk env n r = acquire_slow dk env n r"
  by (auto simp: acquire_def acquire_slow_def split: option.split tier.split)

section \<open>What the routes report\<close>

definition full_snapshot :: "'d registry \<Rightarrow> (string \<times> template_runtime \<times> tier) list" where
  "full_snapshot r = map (\<lambda>(n, rt, t). (n, rt, t)) (runtimes r)"

definition names_in_tier :: "'d registry \<Rightarrow> tier \<Rightarrow> string list" where
  "names_in_tier r t = sort (map fst (filter (\<lambda>(_, _, t'). t' = t) (runtimes r)))"

definition health :: "'d registry \<Rightarrow> json" where
  "health r = JObj
     [(''ok'', JBool True),
      (''configs_total'', JNum (int (length (configs r)))),
      (''hot'', JArr (map JStr (names_in_tier r Hot))),
      (''warm'', JArr (map JStr (names_in_tier r Warm))),
      (''hot_count'', JNum (int (length (names_in_tier r Hot)))),
      (''warm_count'', JNum (int (length (names_in_tier r Warm)))),
      (''hot_limit'', JNum (int (hot_limit r))),
      (''warm_limit'', JNum (int (warm_limit r)))]"

definition list_templates :: "'d registry \<Rightarrow> json" where
  "list_templates r = JObj [(''templates'', JArr (map (\<lambda>n. case map_of (configs r) n of
      None \<Rightarrow> JNull
    | Some cfg \<Rightarrow> JObj [(''name'', JStr n), (''base_image'', JStr (base_image cfg)),
                        (''containers'', JNum (int (n_containers cfg)))]) (sort (map fst (configs r)))))]"

definition stats_handler :: "'d registry \<Rightarrow> json" where
  "stats_handler r = JObj
     [(''hot'', JArr (map JStr (names_in_tier r Hot))),
      (''warm'', JArr (map JStr (names_in_tier r Warm))),
      (''configs_total'', JNum (int (length (configs r))))]"

text \<open>\<open>main\<close> up to the routers: templates, leftovers of an earlier run, limits, network.\<close>

definition api_boot :: "'d docker \<Rightarrow> env \<Rightarrow> fs \<Rightarrow> (string \<Rightarrow> toml_template option) \<Rightarrow> 'd
    \<Rightarrow> (string + 'd registry) \<times> fs" where
  "api_boot dk env fs toml d =
     (let fs1 = snd (create_dir_all fs (components (or_default (env ''INSPECT_API_SOCKETS_DIR'')
                                                     ''/opt/inspect-api/sockets''))) in
      case load_templates fs1 toml (components (or_default (env ''INSPECT_API_TEMPLATES_DIR'')
                                                 ''/opt/inspect-api/templates'')) of
        Inl e \<Rightarrow> (Inl e, fs1)
      | Inr cs \<Rightarrow>
          (case cleanup_old_hot_containers dk env fs1 d of
             (_, fs2, d1) \<Rightarrow>
               (case ensure_tools_network dk env d1 of
                  (Inr net, d2) \<Rightarrow>
                    (Inr (registry_new (self_attach_to_tools_network dk env net d2) (cfg_map cs)
                           (hot_limit_of env) (warm_limit_of env)), fs2)
                | (Inl _, d2) \<Rightarrow>
                    (Inr (registry_new d2 (cfg_map cs) (hot_limit_of env) (warm_limit_of env)), fs2))))"

end
