(* ===== verification/Registry_Props.thy ===== *)
theory Registry_Props
  imports Api_Registry
begin

text \<open>
  Correctness of the paged registry: the well-formedness of its tables and the limits of the
  tiers in every reachable state, and which containers run when a runtime is handed out.
\<close>

section \<open>Well-formed registries\<close>

definition runtime_ok :: "'d registry \<Rightarrow> template_runtime \<Rightarrow> bool" where
  "runtime_ok r rt \<longleftrightarrow> container_ids rt \<noteq> [] \<and> length (daemon_urls rt) = length (container_ids rt)
     \<and> rr_addr rt < length (counters r)"

definition tables_ok :: "'d registry \<Rightarrow> bool" where
  "tables_ok r \<longleftrightarrow> distinct (keys (runtimes r)) \<and> distinct (lru r) \<and> set (lru r) = set (keys (runtimes r))
     \<and> set (keys (runtimes r)) \<subseteq> set (keys (configs r))
     \<and> (\<forall>n rt t. map_of (runtimes r) n = Some (rt, t) \<longrightarrow> runtime_ok r rt)"

definition registry_ok :: "'d registry \<Rightarrow> bool" where
  "registry_ok r \<longleftrightarrow> tables_ok r \<and> count_by_tier r Warm \<le> warm_limit r
     \<and> count_by_tier r Hot \<le> max 1 (hot_limit r)"

text \<open>What eviction never changes.\<close>

definition same_limits :: "'d registry \<Rightarrow> 'd registry \<Rightarrow> bool" where
  "same_limits r r' \<longleftrightarrow> configs r' = configs r \<and> hot_limit r' = hot_limit r \<and> warm_limit r' = warm_limit r
     \<and> counters r' = counters r"

lemma same_limits_refl [simp]: "same_limits r r"
  by (simp add: same_limits_def)

lemma same_limits_trans: "same_limits r r' \<Longrightarrow> same_limits r' r'' \<Longrightarrow> same_limits r r''"
  by (simp add: same_limits_def)

lemma same_limits_engine [simp]: "same_limits r (r'\<lparr>engine_st := d\<rparr>) \<longleftrightarrow> same_limits r r'"
  by (simp add: same_limits_def)

lemma runtime_ok_same: "same_limits r r' \<Longrightarrow> runtime_ok r' rt \<longleftrightarrow> runtime_ok r rt"
  by (simp add: same_limits_def runtime_ok_def)

lemma same_limits_evict_warm_one: "same_limits r (evict_warm_one dk n r)"
  by (simp add: evict_warm_one_def Let_def same_limits_def split: option.split)

lemma tables_okI:
  assumes "distinct (keys (runtimes r))" "distinct (lru r)" "set (lru r) = set (keys (runtimes r))"
    "set (keys (runtimes r)) \<subseteq> set (keys (configs r))"
    "\<And>n rt t. map_of (runtimes r) n = Some (rt, t) \<Longrightarrow> runtime_ok r rt"
  shows "tables_ok r"
  using assms unfolding tables_ok_def by blast

lemma tables_okD:
  assumes "tables_ok r"
  shows "distinct (keys (runtimes r))" "distinct (lru r)" "set (lru r) = set (keys (runtimes r))"
    "set (keys (runtimes r)) \<subseteq> set (keys (configs r))"
    "map_of (runtimes r) n = Some (rt, t) \<Longrightarrow> runtime_ok r rt"
  using assms unfolding tables_ok_def by blast+

lemma tables_ok_entry:
  assumes "tables_ok r" "(n, rt, t) \<in> set (runtimes r)"
  shows "tier_of r n = Some t \<and> n \<in> set (lru r)"
proof -
  have "map_of (runtimes r) n = Some (rt, t)"
    using assms by (simp add: tables_okD(1))
  moreover have "n \<in> set (keys (runtimes r))" using assms(2) by force
  ultimately show ?thesis using tables_okD(3) [OF assms(1)] by (simp add: tier_of_def)
qed

lemma tables_ok_evict_warm_one:
  assumes "tables_ok r"
  shows "tables_ok (evict_warm_one dk n r)"
proof (rule tables_okI)
  have rts: "runtimes (evict_warm_one dk n r) = AList.delete n (runtimes r)"
    by (simp add: evict_warm_one_def Let_def split: option.split)
  have cs: "configs (evict_warm_one dk n r) = configs r"
    using same_limits_evict_warm_one [of r dk n] by (simp add: same_limits_def)
  note ok = tables_okD [OF assms]
  show "distinct (keys (runtimes (evict_warm_one dk n r)))"
    unfolding rts by (rule distinct_delete [OF ok(1)])
  show "distinct (lru (evict_warm_one dk n r))" using ok(2) by simp
  show "set (lru (evict_warm_one dk n r)) = set (keys (runtimes (evict_warm_one dk n r)))"
    unfolding rts keys_delete using ok(3) by auto
  show "set (keys (runtimes (evict_warm_one dk n r))) \<subseteq> set (keys (configs (evict_warm_one dk n r)))"
    unfolding rts cs keys_delete using ok(4) by blast
  show "runtime_ok (evict_warm_one dk n r) rt"
    if "map_of (runtimes (evict_warm_one dk n r)) m = Some (rt, t)" for m rt t
    using that ok(5) [of m rt t] runtime_ok_same [OF same_limits_evict_warm_one [of r dk n]]
    unfolding rts lookup_delete by (simp split: if_splits)
qed

lemma count_pos:
  "count_by_tier r t \<noteq> 0 \<longleftrightarrow> (\<exists>n rt. (n, rt, t) \<in> set (runtimes r))"
  by (force simp: count_by_tier_def filter_empty_conv)

lemma warm_victim_exists:
  assumes "tables_ok r" "count_by_tier r Warm \<noteq> 0"
  shows "warm_victim r \<noteq> None"
proof -
  obtain n rt where e: "(n, rt, Warm) \<in> set (runtimes r)" using assms(2) count_pos by blast
  note tables_ok_entry [OF assms(1) e]
  then show ?thesis by (auto simp: warm_victim_def find_None_iff)
qed

lemma evict_warm_ok:
  assumes "tables_ok r"
  shows "tables_ok (evict_warm_to_cold_if_needed dk r) \<and> same_limits r (evict_warm_to_cold_if_needed dk r)
     \<and> count_by_tier (evict_warm_to_cold_if_needed dk r) Warm \<le> warm_limit r"
  using assms
proof (induction dk r rule: evict_warm_to_cold_if_needed.induct)
  case (1 dk r)
  show ?case
  proof (cases "count_by_tier r Warm \<le> warm_limit r")
    case True
    with 1 show ?thesis by (simp add: evict_warm_to_cold_if_needed.simps [of dk r])
  next
    case False
    then obtain n where n: "warm_victim r = Some n"
      using warm_victim_exists [OF "1.prems"] by fastforce
    let ?r = "evict_warm_one dk n r"
    have "tables_ok ?r" using "1.prems" by (rule tables_ok_evict_warm_one)
    note ih = "1.IH" [OF False n this]
    moreover have "same_limits r ?r" by (rule same_limits_evict_warm_one)
    moreover have "warm_limit ?r = warm_limit r"
      using \<open>same_limits r ?r\<close> by (simp add: same_limits_def)
    ultimately show ?thesis
      using False n same_limits_trans [of r ?r]
      by (simp add: evict_warm_to_cold_if_needed.simps [of dk r])
  qed
qed

lemma tables_ok_update_tier:
  assumes "tables_ok r" "map_of (runtimes r) n = Some (rt, t)"
  shows "tables_ok (r\<lparr>engine_st := d, runtimes := AList.update n (rt, t') (runtimes r)\<rparr>)"
proof -
  define r' where "r' = r\<lparr>engine_st := d, runtimes := AList.update n (rt, t') (runtimes r)\<rparr>"
  have sel: "runtimes r' = AList.update n (rt, t') (runtimes r)" "lru r' = lru r"
    "configs r' = configs r" "counters r' = counters r"
    by (simp_all add: r'_def)
  note ok = tables_okD [OF assms(1)]
  have ks: "set (keys (runtimes r')) = set (keys (runtimes r))"
    unfolding sel keys_update using lookup_keys [OF assms(2)] by blast
  have "tables_ok r'"
  proof (rule tables_okI)
    show "distinct (keys (runtimes r'))" unfolding sel by (rule distinct_update [OF ok(1)])
    show "distinct (lru r')" unfolding sel by (rule ok(2))
    show "set (lru r') = set (keys (runtimes r'))" unfolding ks sel(2) by (rule ok(3))
    show "set (keys (runtimes r')) \<subseteq> set (keys (configs r'))" unfolding ks sel(3) by (rule ok(4))
    show "runtime_ok r' rt'" if "map_of (runtimes r') m = Some (rt', u)" for m rt' u
      using that ok(5) [OF assms(2)] ok(5) [of m rt' u]
      unfolding sel lookup_update runtime_ok_def by (simp split: if_splits)
  qed
  then show ?thesis by (simp add: r'_def)
qed

lemma demote_ok:
  assumes "tables_ok r" "tier_of r n = Some Hot"
  shows "tables_ok (demote dk n r) \<and> same_limits r (demote dk n r)
     \<and> count_by_tier (demote dk n r) Warm \<le> warm_limit r"
proof -
  obtain rt where rt: "map_of (runtimes r) n = Some (rt, Hot)"
    using assms(2) by (auto simp: tier_of_def)
  let ?r = "r\<lparr>engine_st := pause_all dk (container_ids rt) (engine_st r),
              runtimes := AList.update n (rt, Warm) (runtimes r)\<rparr>"
  have "same_limits r ?r" by (simp add: same_limits_def)
  moreover have "tables_ok ?r" using assms(1) rt by (rule tables_ok_update_tier)
  ultimately show ?thesis
    using evict_warm_ok [of ?r dk] same_limits_trans [of r ?r] rt by (auto simp: demote_def)
qed

definition others_hot :: "string \<Rightarrow> 'd registry \<Rightarrow> nat" where
  "others_hot n r = length (filter (\<lambda>(m, _, t). m \<noteq> n \<and> t = Hot) (runtimes r))"

lemma hot_victim_exists:
  assumes "tables_ok r" "others_hot x r \<noteq> 0"
  shows "hot_victim x r \<noteq> None"
proof -
  obtain n rt where e: "(n, rt, Hot) \<in> set (runtimes r)" and "n \<noteq> x"
    using assms(2) by (force simp: others_hot_def filter_empty_conv)
  moreover note tables_ok_entry [OF assms(1) e]
  ultimately show ?thesis by (auto simp: hot_victim_def find_None_iff)
qed

lemma evict_hot_ok:
  assumes "tables_ok r" "count_by_tier r Warm \<le> warm_limit r"
  shows "tables_ok (evict_hot_to_warm_if_needed_excluding dk x r)
     \<and> same_limits r (evict_hot_to_warm_if_needed_excluding dk x r)
     \<and> count_by_tier (evict_hot_to_warm_if_needed_excluding dk x r) Warm \<le> warm_limit r
     \<and> (count_by_tier (evict_hot_to_warm_if_needed_excluding dk x r) Hot < hot_limit r
        \<or> others_hot x (evict_hot_to_warm_if_needed_excluding dk x r) = 0)"
  using assms
proof (induction dk x r rule: evict_hot_to_warm_if_needed_excluding.induct)
  case (1 dk x r)
  consider "count_by_tier r Hot < hot_limit r" | "\<not> count_by_tier r Hot < hot_limit r" "hot_victim x r = None"
    | n where "\<not> count_by_tier r Hot < hot_limit r" "hot_victim x r = Some n"
    by fastforce
  then show ?case
  proof cases
    case 1
    then show ?thesis using "1.prems" by (simp add: evict_hot_to_warm_if_needed_excluding.simps [of dk x r])
  next
    case 2
    then have "others_hot x r = 0" using hot_victim_exists [OF "1.prems"(1)] by blast
    then show ?thesis using 2 "1.prems" by (simp add: evict_hot_to_warm_if_needed_excluding.simps [of dk x r])
  next
    case (3 n)
    have ok: "tables_ok (demote dk n r)" "same_limits r (demote dk n r)"
        "count_by_tier (demote dk n r) Warm \<le> warm_limit r"
      using demote_ok [OF "1.prems"(1)] hot_victim_tier [OF 3(2)] by auto
    have lim: "warm_limit (demote dk n r) = warm_limit r" "hot_limit (demote dk n r) = hot_limit r"
      using ok(2) by (simp_all add: same_limits_def)
    show ?thesis
      using "1.IH" [OF 3 ok(1)] ok 3 same_limits_trans [OF ok(2)]
      by (simp add: evict_hot_to_warm_if_needed_excluding.simps [of dk x r] lim)
  qed
qed

section \<open>Acquiring keeps the tables and the limits\<close>

lemma filter_hot_update:
  "distinct (keys t) \<Longrightarrow>
   length (filter (\<lambda>(_, _, u). u = Hot) (AList.update n (rt, Hot) t))
     = Suc (length (filter (\<lambda>(m, _, u). m \<noteq> n \<and> u = Hot) t))"
proof (induction t)
  case (Cons e t)
  obtain m rt' u where e: "e = (m, rt', u)" by (cases e)
  show ?case
  proof (cases "m = n")
    case True
    then have "filter (\<lambda>(_, _, u). u = Hot) t = filter (\<lambda>(m, _, u). m \<noteq> n \<and> u = Hot) t"
      using Cons.prems e by (intro filter_cong) force+
    with True e show ?thesis by simp
  next
    case False
    with Cons e show ?thesis by simp
  qed
qed simp

lemma filter_warm_update:
  "length (filter (\<lambda>(_, _, u). u = Warm) (AList.update n (rt, Hot) t)) \<le> length (filter (\<lambda>(_, _, u). u = Warm) t)"
  by (induction t) auto

lemma count_set_hot:
  assumes "tables_ok r"
  shows "count_by_tier (set_hot n rt r) Hot = Suc (others_hot n r)"
    "count_by_tier (set_hot n rt r) Warm \<le> count_by_tier r Warm"
  using filter_hot_update [OF tables_okD(1) [OF assms]] filter_warm_update
  by (simp_all add: count_by_tier_def others_hot_def set_hot_def)

lemma others_hot_le: "others_hot n r \<le> count_by_tier r Hot"
proof -
  have "length (filter (\<lambda>(m, _, u). m \<noteq> n \<and> u = Hot) t) \<le> length (filter (\<lambda>(_, _, u). u = Hot) t)" for t
    by (induction t) auto
  then show ?thesis by (simp add: others_hot_def count_by_tier_def)
qed

lemma others_hot_less:
  assumes "map_of (runtimes r) n = Some (rt, Hot)"
  shows "Suc (others_hot n r) \<le> count_by_tier r Hot"
proof -
  have "map_of t n = Some (rt, Hot) \<Longrightarrow>
     Suc (length (filter (\<lambda>(m, _, u). m \<noteq> n \<and> u = Hot) t)) \<le> length (filter (\<lambda>(_, _, u). u = Hot) t)" for t
  proof (induction t)
    case (Cons e t)
    have le: "length (filter (\<lambda>(m, _, u). m \<noteq> n \<and> u = Hot) t) \<le> length (filter (\<lambda>(_, _, u). u = Hot) t)"
      by (induction t) auto
    show ?case using Cons le by (auto split: if_splits prod.splits)
  qed simp
  then show ?thesis using assms by (simp add: others_hot_def count_by_tier_def)
qed

lemma tables_ok_set_hot:
  assumes "tables_ok r" "n \<in> set (keys (configs r))" "runtime_ok r rt"
  shows "tables_ok (set_hot n rt r)"
proof (rule tables_okI)
  note ok = tables_okD [OF assms(1)]
  have sel: "runtimes (set_hot n rt r) = AList.update n (rt, Hot) (runtimes r)"
      "lru (set_hot n rt r) = touch_lru n (lru r)" "configs (set_hot n rt r) = configs r"
      "counters (set_hot n rt r) = counters r"
    by (simp_all add: set_hot_def)
  show "distinct (keys (runtimes (set_hot n rt r)))" unfolding sel by (rule distinct_update [OF ok(1)])
  show "distinct (lru (set_hot n rt r))"
    unfolding sel touch_lru_def using ok(2) by (simp add: distinct_remove1)
  show "set (lru (set_hot n rt r)) = set (keys (runtimes (set_hot n rt r)))"
    unfolding sel touch_lru_def keys_update using ok(2,3) by auto
  show "set (keys (runtimes (set_hot n rt r))) \<subseteq> set (keys (configs (set_hot n rt r)))"
    unfolding sel keys_update using ok(4) assms(2) by blast
  show "runtime_ok (set_hot n rt r) rt'"
    if "map_of (runtimes (set_hot n rt r)) m = Some (rt', u)" for m rt' u
    using that ok(5) [of m rt' u] assms(3)
    unfolding sel lookup_update runtime_ok_def by (simp split: if_splits)
qed

lemma same_limits_set_hot: "same_limits r (set_hot n rt r)"
  by (simp add: same_limits_def set_hot_def)

text \<open>
  After making room, entering one hot template keeps the limits. Between the two steps the
  counters may have grown and the world may have changed.
\<close>

lemma tables_ok_grow:
  assumes "tables_ok r" "runtimes r' = runtimes r" "lru r' = lru r" "configs r' = configs r"
    "length (counters r) \<le> length (counters r')"
  shows "tables_ok r'"
proof -
  note ok = tables_okD [OF assms(1)]
  show ?thesis
  proof (rule tables_okI)
    show "runtime_ok r' rt" if "map_of (runtimes r') n = Some (rt, t)" for n rt t
      using that ok(5) [of n rt t] assms(2,5) by (simp add: runtime_ok_def)
  qed (use ok(1-4) assms(2-4) in \<open>simp_all only:\<close>)
qed

lemma set_hot_after_evict:
  fixes r :: "'d registry" and dk :: "'d docker" and n :: string
  defines "r' \<equiv> evict_hot_to_warm_if_needed_excluding dk n r"
  assumes "tables_ok r" "count_by_tier r Warm \<le> warm_limit r"
    and r'': "runtimes r'' = runtimes r'" "lru r'' = lru r'" "configs r'' = configs r'"
      "hot_limit r'' = hot_limit r'" "warm_limit r'' = warm_limit r'"
      "length (counters r') \<le> length (counters r'')"
    and "n \<in> set (keys (configs r))" "runtime_ok r'' rt"
  shows "registry_ok (set_hot n rt r'')"
proof -
  note ev = evict_hot_ok [OF assms(2,3), of dk n, folded r'_def]
  have same: "configs r' = configs r" "warm_limit r' = warm_limit r" "hot_limit r' = hot_limit r"
    using ev by (simp_all add: same_limits_def)
  have t: "tables_ok r''" using ev r''(1-3,6) by (blast intro: tables_ok_grow)
  have t': "tables_ok (set_hot n rt r'')"
    using t assms(10,11) unfolding r''(3) [symmetric] same(1) [symmetric] by (intro tables_ok_set_hot) simp_all
  have eq: "count_by_tier r'' u = count_by_tier r' u" "others_hot n r'' = others_hot n r'" for u
    using r''(1) by (simp_all add: count_by_tier_def others_hot_def)
  have lim: "warm_limit (set_hot n rt r'') = warm_limit r" "hot_limit (set_hot n rt r'') = hot_limit r"
    using r''(4,5) same by (simp_all add: set_hot_def)
  show ?thesis
    using t' count_set_hot [OF t, of n rt] ev others_hot_le [of n r'] unfolding registry_ok_def lim eq
    by auto
qed

lemma start_replicas_lengths:
  "start_replicas dk env cfg is cids urls d = (Inr (cids', urls'), d') \<Longrightarrow>
   length cids' = length cids + length is \<and> length urls' = length urls + length is"
proof (induction dk env cfg "is" cids urls d rule: start_replicas.induct)
  case (2 dk env cfg i "is" cids urls d)
  obtain res d1 where st: "start_tools_container dk env cfg i d = (res, d1)" by fastforce
  show ?case
  proof (cases res)
    case (Inl e)
    then show ?thesis using 2 st by (cases e) auto
  next
    case (Inr cu)
    then show ?thesis using 2 st by (cases cu) fastforce
  qed
qed simp

lemma tables_ok_counters:
  "tables_ok r \<Longrightarrow> length cs \<ge> length (counters r) \<Longrightarrow> tables_ok (r\<lparr>counters := cs\<rparr>)"
  unfolding tables_ok_def runtime_ok_def by force

lemma registry_ok_engine: "registry_ok (r\<lparr>engine_st := d\<rparr>) \<longleftrightarrow> registry_ok r"
  by (simp add: registry_ok_def tables_ok_def runtime_ok_def count_by_tier_def)

lemma evict_hot_registry_ok:
  assumes "registry_ok r"
  shows "registry_ok (evict_hot_to_warm_if_needed_excluding dk n r)"
proof -
  have mono: "count_by_tier (evict_hot_to_warm_if_needed_excluding dk n r) Hot \<le> count_by_tier r Hot"
  proof (induction dk n r rule: evict_hot_to_warm_if_needed_excluding.induct)
    case (1 dk x r)
    show ?case
    proof (cases "count_by_tier r Hot < hot_limit r \<or> hot_victim x r = None")
      case True
      then show ?thesis by (auto simp: evict_hot_to_warm_if_needed_excluding.simps [of dk x r])
    next
      case False
      then obtain m where m: "\<not> count_by_tier r Hot < hot_limit r" "hot_victim x r = Some m" by auto
      have "count_by_tier (demote dk m r) Hot < count_by_tier r Hot"
        using hot_victim_tier [OF m(2)] by (simp add: count_demote)
      then show ?thesis
        using "1.IH" [OF m] m by (simp add: evict_hot_to_warm_if_needed_excluding.simps [of dk x r])
    qed
  qed
  then show ?thesis
    using evict_hot_ok [of r dk n] assms unfolding registry_ok_def same_limits_def by fastforce
qed

lemma registry_okD:
  assumes "registry_ok r"
  shows "tables_ok r" "count_by_tier r Warm \<le> warm_limit r" "count_by_tier r Hot \<le> max 1 (hot_limit r)"
  using assms by (auto simp: registry_ok_def)

lemma registry_key_config:
  assumes "registry_ok r" "map_of (runtimes r) n = Some (rt, t)"
  shows "n \<in> set (keys (configs r))" "runtime_ok r rt"
  using tables_okD(4,5) [OF registry_okD(1) [OF assms(1)]] lookup_keys [OF assms(2)] assms(2) by blast+

lemma touch_hot_ok:
  assumes "registry_ok r" "map_of (runtimes r) n = Some (rt, Hot)"
  shows "registry_ok (set_hot n rt r)"
proof -
  note d = registry_okD [OF assms(1)]
  note k = registry_key_config [OF assms]
  have lim: "warm_limit (set_hot n rt r) = warm_limit r" "hot_limit (set_hot n rt r) = hot_limit r"
    by (simp_all add: set_hot_def)
  show ?thesis
    using tables_ok_set_hot [OF d(1) k] count_set_hot [OF d(1), of n rt] d(2,3) others_hot_less [OF assms(2)]
    unfolding registry_ok_def lim by auto
qed

lemma promote_warm_ok:
  assumes "registry_ok r" "map_of (runtimes r) n = Some (rt, Warm)"
  shows "registry_ok (promote_warm dk n rt r)"
proof -
  define r1 where "r1 = r\<lparr>engine_st := unpause_all dk (container_ids rt) (engine_st r)\<rparr>"
  have ok1: "registry_ok r1" using assms(1) by (simp add: r1_def registry_ok_engine)
  have m1: "map_of (runtimes r1) n = Some (rt, Warm)" using assms(2) by (simp add: r1_def)
  note d = registry_okD [OF ok1] and k = registry_key_config [OF ok1 m1]
  have "runtime_ok (evict_hot_to_warm_if_needed_excluding dk n r1) rt"
    using evict_hot_ok [OF d(1,2), of dk n] k(2) runtime_ok_same by blast
  then have "registry_ok (set_hot n rt (evict_hot_to_warm_if_needed_excluding dk n r1))"
    using k(1) by (intro set_hot_after_evict [OF d(1,2), of _ dk n]) simp_all
  then show ?thesis by (simp add: promote_warm_def r1_def Let_def)
qed

lemma cold_start_ok:
  assumes "registry_ok r" "map_of (configs r) n = Some cfg"
    and "cold_prepare dk env n cfg r = (Inr cu, r')" "cold_commit n cu r' = (rt, r'')"
  shows "registry_ok r''"
proof -
  define r1 where "r1 = evict_hot_to_warm_if_needed_excluding dk n r"
  note d = registry_okD [OF assms(1)]
  obtain d' where st: "start_replicas dk env cfg [0..<max 1 (n_containers cfg)] [] [] (engine_st r1) = (Inr cu, d')"
    and r': "r' = r1\<lparr>engine_st := d'\<rparr>"
    using assms(3) by (auto simp: cold_prepare_def r1_def Let_def split: prod.splits)
  have len: "length (fst cu) = max 1 (n_containers cfg)" "length (snd cu) = max 1 (n_containers cfg)"
    using start_replicas_lengths [of dk env cfg _ "[]" "[]" _ "fst cu" "snd cu"] st by auto
  define r2 where "r2 = r'\<lparr>counters := counters r' @ [0]\<rparr>"
  have rt: "rt = \<lparr>container_ids = fst cu, daemon_urls = snd cu, rr_addr = length (counters r')\<rparr>"
    and r'': "r'' = set_hot n rt r2"
    using assms(4) by (auto simp: cold_commit_def Let_def r2_def)
  have "fst cu \<noteq> []" using len(1) by (cases "fst cu") auto
  then have "runtime_ok r2 rt" using len by (simp add: runtime_ok_def rt r2_def)
  then show ?thesis
    unfolding r''
    using lookup_keys [OF assms(2)]
    by (intro set_hot_after_evict [OF d(1,2), of r2 dk n]) (simp_all add: r2_def r' r1_def)
qed

lemma cold_prepare_ok:
  assumes "registry_ok r" "cold_prepare dk env n cfg r = (res, r')"
  shows "registry_ok r'"
  using assms evict_hot_registry_ok [OF assms(1), of dk n]
  by (auto simp: cold_prepare_def Let_def registry_ok_engine split: prod.splits)

lemma acquire_ok:
  assumes "registry_ok r" "acquire dk env n r = (res, r')"
  shows "registry_ok r'"
proof (cases "map_of (runtimes r) n")
  case (Some e)
  obtain rt t where e: "e = (rt, t)" by (cases e)
  show ?thesis
    using assms Some touch_hot_ok [of r n rt] promote_warm_ok [of r n rt dk]
    by (cases t) (auto simp: acquire_eq_slow acquire_slow_def e)
next
  case None
  show ?thesis
  proof (cases "map_of (configs r) n")
    case None
    then show ?thesis using assms \<open>map_of (runtimes r) n = None\<close>
      by (simp add: acquire_eq_slow acquire_slow_def)
  next
    case (Some cfg)
    obtain res1 r1 where p: "cold_prepare dk env n cfg r = (res1, r1)" by fastforce
    show ?thesis
    proof (cases res1)
      case (Inl e)
      then show ?thesis using assms p Some None cold_prepare_ok [OF assms(1) p]
        by (simp add: acquire_eq_slow acquire_slow_def)
    next
      case (Inr cu)
      obtain rt r2 where c: "cold_commit n cu r1 = (rt, r2)" by fastforce
      show ?thesis using assms(2) p Some None Inr c cold_start_ok [OF assms(1) Some p [unfolded Inr] c]
        by (simp add: acquire_eq_slow acquire_slow_def)
    qed
  qed
qed

section \<open>Reachable registries\<close>

text \<open>
  The registry moves by requests that acquire a template, by clients that pick a daemon of a
  runtime they hold, and by changes of the outside world between requests.
\<close>

inductive registry_step :: "'d docker \<Rightarrow> env \<Rightarrow> 'd registry \<Rightarrow> 'd registry \<Rightarrow> bool" for dk env where
  step_acquire: "acquire dk env n r = (res, r') \<Longrightarrow> registry_step dk env r r'"
| step_pick: "pick_daemon_url rt r = (u, r') \<Longrightarrow> registry_step dk env r r'"
| step_world: "registry_step dk env r (r\<lparr>engine_st := d\<rparr>)"

lemma registry_step_ok: "registry_step dk env r r' \<Longrightarrow> registry_ok r \<Longrightarrow> registry_ok r'"
proof (induction rule: registry_step.induct)
  case (step_pick rt r u r')
  define c where "c = (counters r)[rr_addr rt := (counters r ! rr_addr rt + 1) mod 2 ^ 64]"
  have "r' = r \<or> r' = r\<lparr>counters := c\<rparr>"
    using step_pick by (auto simp: pick_daemon_url_def Let_def c_def split: if_splits)
  then show ?case
    using step_pick(2) tables_ok_counters [of r c]
    by (auto simp: registry_ok_def count_by_tier_def c_def)
qed (simp_all add: acquire_ok registry_ok_engine)

lemma registry_new_ok: "registry_ok (registry_new d cfgs hot warm)"
  by (simp add: registry_ok_def registry_new_def tables_ok_def count_by_tier_def)


text \<open>A template with two replicas that was acquired once.\<close>

definition two_replicas :: template_runtime where
  "two_replicas = \<lparr>container_ids = [''c0'', ''c1''], daemon_urls = [''u0'', ''u1''], rr_addr = 0\<rparr>"

section \<open>Round robin\<close>

fun picks :: "nat \<Rightarrow> template_runtime \<Rightarrow> 'd registry \<Rightarrow> string option list \<times> 'd registry" where
  "picks 0 rt r = ([], r)"
| "picks (Suc k) rt r =
     (case pick_daemon_url rt r of (u, r') \<Rightarrow> case picks k rt r' of (us, r'') \<Rightarrow> (u # us, r''))"

lemma picks_nth:
  assumes "daemon_urls rt \<noteq> []" "rr_addr rt < length (counters r)" "counters r ! rr_addr rt + k \<le> 2 ^ 64"
  shows "fst (picks k rt r)
    = map (\<lambda>j. Some (daemon_urls rt ! ((counters r ! rr_addr rt + j) mod length (daemon_urls rt)))) [0..<k]"
  using assms
proof (induction k arbitrary: r)
  case (Suc k)
  define i where "i = counters r ! rr_addr rt"
  define r' where "r' = r\<lparr>counters := (counters r)[rr_addr rt := i + 1]\<rparr>"
  have i: "(i + 1) mod 2 ^ 64 = (if i + 1 = 2 ^ 64 then 0 else i + 1)" using Suc.prems(3) by (simp add: i_def)
  show ?case
  proof (cases "k = 0")
    case True
    then show ?thesis using Suc.prems by (simp add: pick_daemon_url_def Let_def)
  next
    case False
    then have "(i + 1) mod 2 ^ 64 = i + 1" using Suc.prems(3) by (simp add: i_def)
    then have p: "pick_daemon_url rt r = (Some (daemon_urls rt ! (i mod length (daemon_urls rt))), r')"
      using Suc.prems(1) by (simp add: pick_daemon_url_def Let_def r'_def i_def)
    have c: "counters r' ! rr_addr rt = i + 1" "rr_addr rt < length (counters r')"
      using Suc.prems(2) by (simp_all add: r'_def)
    have "fst (picks k rt r') = map (\<lambda>j. Some (daemon_urls rt ! ((i + 1 + j) mod length (daemon_urls rt)))) [0..<k]"
      using Suc.IH [OF Suc.prems(1) c(2)] Suc.prems(3) by (simp add: c(1) i_def)
    moreover have "fst (picks (Suc k) rt r) = Some (daemon_urls rt ! (i mod length (daemon_urls rt))) # fst (picks k rt r')"
      by (simp add: p split: prod.splits)
    ultimately show ?thesis
      by (simp add: i_def [symmetric] upt_conv_Cons map_Suc_upt [symmetric] del: upt_Suc)
  qed
qed simp

text \<open>As many consecutive picks as a runtime has daemons return every daemon URL exactly
  once, in rotation from the position of the counter (while the counter does not wrap).\<close>

theorem picks_rotate:
  assumes "rr_addr rt < length (counters r)" "daemon_urls rt \<noteq> []"
    and "counters r ! rr_addr rt + length (daemon_urls rt) \<le> 2 ^ 64"
  shows "fst (picks (length (daemon_urls rt)) rt r) = map Some (rotate (counters r ! rr_addr rt) (daemon_urls rt))"
  unfolding picks_nth [OF assms(2,1,3)]
  by (rule nth_equalityI) (simp_all add: nth_rotate)

theorem picks_rotate_witness:
  "fst (picks 2 two_replicas ((registry_new () [] 1 1)\<lparr>counters := [1]\<rparr>)) = [Some ''u1'', Some ''u0'']"
proof -
  let ?r = "(registry_new () [] 1 1)\<lparr>counters := [1]\<rparr>"
  have "fst (picks (length (daemon_urls two_replicas)) two_replicas ?r)
      = map Some (rotate (counters ?r ! rr_addr two_replicas) (daemon_urls two_replicas))"
    by (rule picks_rotate) (simp_all add: two_replicas_def)
  moreover have "length (daemon_urls two_replicas) = 2" by (simp add: two_replicas_def)
  moreover have "map Some (rotate (counters ?r ! rr_addr two_replicas) (daemon_urls two_replicas)) = [Some ''u1'', Some ''u0'']"
    by (simp add: two_replicas_def)
  ultimately show ?thesis by simp
qed

section \<open>Two cold starts at once\<close>

text \<open>
  The check for room and the entry as hot are separate critical sections, with the start of
  the containers between them. Two requests for different cold templates can both find the
  last free place: the limit is then exceeded.
\<close>

lemma evict_hot_noop: "count_by_tier r Hot < hot_limit r \<Longrightarrow> evict_hot_to_warm_if_needed_excluding dk x r = r"
  by (simp add: evict_hot_to_warm_if_needed_excluding.simps [of dk x r])

lemma cold_starts_overshoot:
  assumes "hot_limit r = Suc (count_by_tier r Hot)" "n \<noteq> m"
    and "n \<notin> set (keys (runtimes r))" "m \<notin> set (keys (runtimes r))"
    and "cold_prepare dk env n cfg r = (Inr cu, r1)" "cold_prepare dk env m cfg' r1 = (Inr cv, r2)"
  shows "count_by_tier (snd (cold_commit m cv (snd (cold_commit n cu r2)))) Hot = Suc (hot_limit r)"
proof -
  have "runtimes r1 = runtimes r \<and> hot_limit r1 = hot_limit r"
    using assms(1,5) by (auto simp: cold_prepare_def evict_hot_noop Let_def split: prod.splits)
  then have "count_by_tier r1 Hot < hot_limit r1" "runtimes r1 = runtimes r"
    using assms(1) by (simp_all add: count_by_tier_def)
  then have r2: "runtimes r2 = runtimes r"
    using assms(6) by (auto simp: cold_prepare_def evict_hot_noop Let_def split: prod.splits)
  have new: "k \<notin> set (keys t) \<Longrightarrow> AList.update k v t = t @ [(k, v)]" for k and v :: "template_runtime \<times> tier" and t
    by (induction t) auto
  have "n \<notin> set (keys (runtimes r2))" "m \<notin> set (keys (runtimes r2 @ [(n, e)]))" for e
    using assms(2-4) r2 by auto
  then show ?thesis
    using assms(1) r2 by (simp add: cold_commit_def set_hot_def count_by_tier_def new Let_def del: list.set_map)
qed

end
