(* ===== verification/Container_Facts.thy ===== *)
theory Container_Facts
  imports Registry_Props
begin

text \<open>
  What the container functions do to the containers of a Docker engine that behaves as
  documented. \<open>cst d\<close> observes the containers of the world \<open>d\<close>; the laws say what each
  engine call does to them.
\<close>

datatype cstate = Created | Up | Paused

definition docker_laws :: "'d docker \<Rightarrow> ('d \<Rightarrow> string \<Rightarrow> cstate option) \<Rightarrow> bool" where
  "docker_laws dk cst \<longleftrightarrow>
     (\<forall>c d. cst (snd (pause_container dk c d)) = (if cst d c = Some Up then (cst d)(c \<mapsto> Paused) else cst d)) \<and>
     (\<forall>c d. cst (snd (unpause_container dk c d)) = (if cst d c = Some Paused then (cst d)(c \<mapsto> Up) else cst d)) \<and>
     (\<forall>c d. cst (snd (remove_container dk c d)) = (cst d)(c := None)) \<and>
     (\<forall>n cfg d c d'. create_container dk n cfg d = (Inr c, d') \<longrightarrow> cst d c = None \<and> cst d' = (cst d)(c \<mapsto> Created)) \<and>
     (\<forall>n cfg d e d'. create_container dk n cfg d = (Inl e, d') \<longrightarrow> cst d' = cst d) \<and>
     (\<forall>c d u d'. start_container dk c d = (Inr u, d') \<longrightarrow> cst d' = (cst d)(c \<mapsto> Up)) \<and>
     (\<forall>c d e d'. start_container dk c d = (Inl e, d') \<longrightarrow> cst d' = cst d) \<and>
     (\<forall>t d. cst (snd (inspect_image dk t d)) = cst d) \<and>
     (\<forall>t d. cst (snd (inspect_network dk t d)) = cst d) \<and>
     (\<forall>t l d. cst (snd (create_network dk t l d)) = cst d) \<and>
     (\<forall>c d. cst (snd (inspect_addresses dk c d)) = cst d) \<and>
     (\<forall>m u b t d. cst (snd (http dk m u b t d)) = cst d) \<and>
     (\<forall>n d. cst (sleep_ms dk n d) = cst d)"

lemma docker_lawsD:
  assumes "docker_laws dk cst"
  shows "cst (snd (pause_container dk c d)) = (if cst d c = Some Up then (cst d)(c \<mapsto> Paused) else cst d)"
    "cst (snd (unpause_container dk c d)) = (if cst d c = Some Paused then (cst d)(c \<mapsto> Up) else cst d)"
    "cst (snd (remove_container dk c d)) = (cst d)(c := None)"
    "create_container dk n cfg d = (Inr c, d') \<Longrightarrow> cst d c = None \<and> cst d' = (cst d)(c \<mapsto> Created)"
    "create_container dk n cfg d = (Inl e, d') \<Longrightarrow> cst d' = cst d"
    "start_container dk c d = (Inr v, d') \<Longrightarrow> cst d' = (cst d)(c \<mapsto> Up)"
    "start_container dk c d = (Inl e, d') \<Longrightarrow> cst d' = cst d"
    "cst (snd (inspect_image dk t d)) = cst d"
    "cst (snd (inspect_network dk t d)) = cst d"
    "cst (snd (create_network dk t l d)) = cst d"
    "cst (snd (inspect_addresses dk c d)) = cst d"
    "cst (snd (http dk m u b tm d)) = cst d"
    "cst (sleep_ms dk k d) = cst d"
  using assms unfolding docker_laws_def by (elim conjE; simp)+

section \<open>Calls that leave the containers alone\<close>

lemma image_exists_quiet: "docker_laws dk cst \<Longrightarrow> cst (snd (docker_image_exists dk t d)) = cst d"
  using docker_lawsD(8) [of dk cst t d]
  by (auto simp: docker_image_exists_def split: prod.splits sum.splits docker_err.splits)

lemma network_quiet:
  assumes "docker_laws dk cst"
  shows "cst (snd (ensure_tools_network dk env d)) = cst d"
proof -
  obtain r1 d1 where i: "inspect_network dk (tools_network_name env) d = (r1, d1)" by fastforce
  obtain r2 d2 where c: "create_network dk (tools_network_name env) [(''inspect-api-net'', ''1'')] d1 = (r2, d2)"
    by fastforce
  have "cst d1 = cst d" "cst d2 = cst d1"
    using docker_lawsD(9) [OF assms, of "tools_network_name env" d] i
      docker_lawsD(10) [OF assms, of "tools_network_name env" "[(''inspect-api-net'', ''1'')]" d1] c by simp_all
  then show ?thesis by (cases r1; cases r2) (simp_all add: ensure_tools_network_def Let_def i c)
qed

lemma ip_quiet: "docker_laws dk cst \<Longrightarrow> cst (snd (container_ip dk c n d)) = cst d"
  using docker_lawsD(11) [of dk cst c d]
  by (auto simp: container_ip_def split: prod.splits sum.splits option.splits)

lemma poll_quiet:
  assumes "docker_laws dk cst"
  shows "cst (snd (health_poll dk url deadline n e d)) = cst d"
proof (induction n arbitrary: e d)
  case (Suc n)
  obtain r d' where h: "http dk HGET (url @ ''/health'') None 2000 d = (r, d')" by fastforce
  have "cst d' = cst d" using docker_lawsD(12) [OF assms, of HGET "url @ ''/health''" None 2000 d] h by simp
  then show ?case using Suc.IH docker_lawsD(13) [OF assms] h by (cases r) auto
qed simp

lemma warmup_loop_quiet:
  assumes "docker_laws dk cst"
  shows "cst (snd (warmup_loop dk url cfg idx sid t ci cs d)) = cst d"
proof (induction cs arbitrary: ci d)
  case (Cons c cs)
  let ?h = "http dk HPOST (url @ ''/sessions/'' @ sid @ ''/tools/bash'')
             (Some (JObj [(''command'', JStr c), (''timeout'', JNum (int t))])) ((t + 5) * 1000)"
  obtain r d' where h: "?h d = (r, d')" by fastforce
  have q: "cst d' = cst d" using docker_lawsD(12) [OF assms] h by (metis snd_conv)
  show ?case
  proof (cases r)
    case (Inl e)
    then show ?thesis using h q by simp
  next
    case (Inr sb)
    then show ?thesis using h q Cons.IH by (cases sb) (auto split: option.splits sum.splits)
  qed
qed simp

lemma warmup_quiet:
  assumes "docker_laws dk cst"
  shows "cst (snd (run_template_warmup dk url cfg idx d)) = cst d"
proof (cases "commands (warmup cfg) = []")
  case False
  define t where "t = effective_warmup_timeout_secs (timeout_secs (warmup cfg))"
  obtain r d1 where h: "http dk HPOST (url @ ''/sessions'') (Some (JObj [])) ((t + 5) * 1000) d = (r, d1)" by fastforce
  have q: "cst d1 = cst d" using docker_lawsD(12) [OF assms] h by (metis snd_conv)
  have l: "cst (snd (warmup_loop dk url cfg idx sid t 0 (commands (warmup cfg)) d1)) = cst d1" for sid
    by (rule warmup_loop_quiet [OF assms])
  show ?thesis
    using False h q l docker_lawsD(12) [OF assms]
    by (auto simp: run_template_warmup_def Let_def t_def [symmetric] split: sum.splits prod.splits option.splits)
      (metis snd_conv)+
qed (simp add: run_template_warmup_def)

section \<open>Starting containers\<close>

text \<open>
  A rule for \<open>let x = call?\<close>: a property of result and world holds after the chain when the
  error of the call has it and every successful continuation has it.
\<close>

lemma io_tryI:
  assumes "\<And>e d1. m d = (Inl e, d1) \<Longrightarrow> Q (Inl e, d1)" "\<And>x d1. m d = (Inr x, d1) \<Longrightarrow> Q (f x d1)"
  shows "Q (io_try m f d)"
  using assms by (cases "m d"; cases "fst (m d)") (auto simp: io_try_def)

definition start_post :: "('d \<Rightarrow> string \<Rightarrow> cstate option) \<Rightarrow> 'd \<Rightarrow> (fault + string \<times> string) \<times> 'd \<Rightarrow> bool" where
  "start_post cst d res \<longleftrightarrow>
     (case res of
        (Inr (c, url), d') \<Rightarrow> cst d c = None \<and> cst d' = (cst d)(c \<mapsto> Up)
      | (Inl Panicked, d') \<Rightarrow> True
      | (Inl e, d') \<Rightarrow> cst d' = cst d)"

lemma start_post_err: "cst d1 = cst d \<Longrightarrow> start_post cst d (Inl e, d1)"
  by (cases e) (auto simp: start_post_def)

lemma start_post_ok: "cst d c = None \<Longrightarrow> cst d1 = (cst d)(c \<mapsto> Up) \<Longrightarrow> start_post cst d (Inr (c, url), d1)"
  by (simp add: start_post_def)

text \<open>A step after the creation that keeps the container up, or fails and removes it.\<close>

lemma or_removeI:
  assumes "docker_laws dk cst" "cst d0 c = None"
    and "\<And>r d1. m d = (r, d1) \<Longrightarrow> \<exists>s. cst d1 = (cst d0)(c := s)"
    and "\<And>x d1. m d = (Inr x, d1) \<Longrightarrow> start_post cst d0 (f x d1)"
  shows "start_post cst d0 (io_try (or_remove dk c m) f d)"
proof (rule io_tryI [where Q = "start_post cst d0"])
  fix e d1 assume e: "or_remove dk c m d = (Inl e, d1)"
  show "start_post cst d0 (Inl e, d1)"
  proof (cases "e = Panicked")
    case False
    then obtain d2 where m: "m d = (Inl e, d2)" and d1: "d1 = snd (remove_container dk c d2)"
      using e by (auto simp: or_remove_def remove_container_best_effort_def
          split: prod.splits sum.splits fault.splits)
    obtain s where "cst d2 = (cst d0)(c := s)" using assms(3) [OF m] by blast
    then have "cst d1 = cst d0" using d1 docker_lawsD(3) [OF assms(1), of c d2] assms(2) by auto
    then show ?thesis by (rule start_post_err)
  qed (simp add: start_post_def)
next
  fix x d1 assume "or_remove dk c m d = (Inr x, d1)"
  then have "m d = (Inr x, d1)"
    by (auto simp: or_remove_def split: prod.splits sum.splits fault.splits)
  then show "start_post cst d0 (f x d1)" by (rule assms(4))
qed

lemma bring_up_post:
  assumes l: "docker_laws dk cst" and none: "cst d0 c = None" and created: "cst d = (cst d0)(c \<mapsto> Created)"
  shows "start_post cst d0 (bring_up dk cfg idx network c d)"
  unfolding bring_up_def Let_def
proof (rule or_removeI [OF l none], goal_cases)
  case (1 r d1)
  then obtain r' where "start_container dk c d = (r', d1)" by (auto simp: io_err_def split: prod.splits)
  then have "cst d1 = (cst d)(c \<mapsto> Up) \<or> cst d1 = cst d"
    using docker_lawsD(6,7) [OF l] by (cases r') blast+
  then show ?case using created by auto
next
  case (2 x d1)
  then obtain u where "start_container dk c d = (Inr u, d1)"
    by (auto simp: io_err_def result_simps split: prod.splits)
  then have up: "cst d1 = (cst d0)(c \<mapsto> Up)" using docker_lawsD(6) [OF l] created by (metis fun_upd_upd)
  show ?case
  proof (rule or_removeI [OF l none], goal_cases)
    case (1 r d2)
    then show ?case using ip_quiet [OF l] up by (metis snd_conv)
  next
    case (2 ip d2)
    then have up2: "cst d2 = (cst d0)(c \<mapsto> Up)" using ip_quiet [OF l] up by (metis snd_conv)
    show ?case
    proof (rule or_removeI [OF l none], goal_cases)
      case (1 r d3)
      then show ?case using poll_quiet [OF l] up2 by (metis snd_conv)
    next
      case (2 u d3)
      then have up3: "cst d3 = (cst d0)(c \<mapsto> Up)" using poll_quiet [OF l] up2 by (metis snd_conv)
      show ?case
      proof (rule or_removeI [OF l none], goal_cases)
        case (1 r d4)
        then show ?case using warmup_quiet [OF l] up3 by (metis snd_conv)
      next
        case (2 v d4)
        then have "cst d4 = (cst d0)(c \<mapsto> Up)" using warmup_quiet [OF l] up3 by (metis snd_conv)
        then show ?case by (simp add: io_lift_def start_post_ok none)
      qed
    qed
  qed
qed

lemma start_tools_container_post:
  assumes l: "docker_laws dk cst"
  shows "start_post cst d (start_tools_container dk env cfg idx d)"
  unfolding start_tools_container_def Let_def
proof (rule io_tryI [where Q = "start_post cst d"], goal_cases)
  case (1 e d1)
  then show ?case using image_exists_quiet [OF l] by (metis snd_conv start_post_err)
next
  case (2 there d1)
  then have q1: "cst d1 = cst d" using image_exists_quiet [OF l] by (metis snd_conv)
  show ?case
  proof (cases there)
    case False
    then show ?thesis by (simp add: io_lift_def start_post_err q1)
  next
    case True
    have "start_post cst d (io_try (ensure_tools_network dk env) (\<lambda>network.
      io_try (io_lift (ok_or (Failed (int_msg dk (memory_reservation cfg)))
                             (parse_memory (lower_table dk) (memory_reservation cfg)))) (\<lambda>mem d.
      io_try (io_err (\<lambda>_. Failed ''create tools container'')
               (create_container dk
                  (''mindbox-tpl-tools-'' @ tpl_name cfg @ ''-'' @ show_nat idx @ ''-'' @ show_nat (clock_ns dk d))
                  (tools_container_config env cfg (''inspect-tpl-tools-'' @ tpl_name cfg @ '':latest'') network mem)))
        (bring_up dk cfg idx network) d)) d1)"
    proof (rule io_tryI [where Q = "start_post cst d"], goal_cases)
      case (1 e d2)
      then show ?case using network_quiet [OF l] q1 by (metis snd_conv start_post_err)
    next
      case (2 network d2)
      then have q2: "cst d2 = cst d" using network_quiet [OF l] q1 by (metis snd_conv)
      show ?case
      proof (rule io_tryI [where Q = "start_post cst d"], goal_cases)
        case (1 e d3)
        then show ?case using q2 by (simp add: io_lift_def start_post_err)
      next
        case (2 mem d3)
        then have q3: "cst d3 = cst d" using q2 by (simp add: io_lift_def)
        show ?case
        proof (rule io_tryI [where Q = "start_post cst d"], goal_cases)
          case (1 e d4)
          then show ?case using docker_lawsD(5) [OF l] q3
            by (auto simp: io_err_def result_simps start_post_err split: prod.splits)
        next
          case (2 c d4)
          then obtain n k where "create_container dk n k d3 = (Inr c, d4)"
            by (auto simp: io_err_def result_simps split: prod.splits)
          then show ?case using docker_lawsD(4) [OF l] q3 by (metis bring_up_post [OF l])
        qed
      qed
    qed
    then show ?thesis using True by simp
  qed
qed

section \<open>Starting the replicas of a template\<close>

definition all_up :: "string list \<Rightarrow> (string \<Rightarrow> cstate option) \<Rightarrow> string \<Rightarrow> cstate option" where
  "all_up cids f = (\<lambda>c. if c \<in> set cids then Some Up else f c)"

lemma remove_all:
  assumes "docker_laws dk cst"
  shows "cst (foldl (\<lambda>d c. remove_container_best_effort dk c d) d cids)
    = (\<lambda>c. if c \<in> set cids then None else cst d c)"
  using docker_lawsD(3) [OF assms]
  by (induction cids arbitrary: d) (auto simp: remove_container_best_effort_def)

lemma start_replicas_post:
  assumes l: "docker_laws dk cst"
    and "start_replicas dk env cfg is cids urls d = (res, d')"
    and "\<forall>c \<in> set cids. cst d0 c = None" "cst d = all_up cids (cst d0)"
  shows "case res of
       Inr (cids', urls') \<Rightarrow> (\<forall>c \<in> set cids'. cst d0 c = None) \<and> cst d' = all_up cids' (cst d0)
     | Inl e \<Rightarrow> e = Panicked \<or> cst d' = cst d0"
  using assms(2-4)
proof (induction "is" arbitrary: cids urls d)
  case Nil
  then show ?case by auto
next
  case (Cons i "is")
  obtain r1 d1 where st: "start_tools_container dk env cfg i d = (r1, d1)" by fastforce
  have post: "start_post cst d (r1, d1)"
    using start_tools_container_post [OF l, of d env cfg i] st by simp
  show ?case
  proof (cases r1)
    case (Inr cu)
    obtain c u where cu: "cu = (c, u)" by (cases cu)
    have c: "cst d c = None" "cst d1 = (cst d)(c \<mapsto> Up)"
      using post by (simp_all add: start_post_def Inr cu)
    have "cst d0 c = None" using c(1) Cons.prems(3) by (auto simp: all_up_def split: if_splits)
    moreover have "cst d1 = all_up (cids @ [c]) (cst d0)"
      using c(2) Cons.prems(3) by (auto simp: all_up_def)
    ultimately show ?thesis
      using Cons.IH [of "cids @ [c]" "urls @ [u]" d1] Cons.prems st by (simp add: Inr cu)
  next
    case (Inl e)
    show ?thesis
    proof (cases "e = Panicked")
      case True
      then show ?thesis using Cons.prems(1) st by (auto simp: Inl)
    next
      case False
      then have "cst d1 = cst d" using post by (auto simp: start_post_def Inl split: fault.splits)
      moreover have "res = Inl e \<and> d' = foldl (\<lambda>d c. remove_container_best_effort dk c d) d1 cids"
        using Cons.prems(1) st False by (auto simp: Inl split: fault.splits)
      ultimately show ?thesis using remove_all [OF l, of d1 cids] Cons.prems(2,3) by (auto simp: all_up_def)
    qed
  qed
qed

section \<open>Pausing, resuming, dropping\<close>

lemma pause_all_cst:
  assumes "docker_laws dk cst"
  shows "cst (pause_all dk cids d) = (\<lambda>c. if c \<in> set cids \<and> cst d c = Some Up then Some Paused else cst d c)"
  unfolding pause_all_def
  using docker_lawsD(1) [OF assms]
  by (induction cids arbitrary: d) (auto simp: fun_eq_iff)

lemma unpause_all_cst:
  assumes "docker_laws dk cst"
  shows "cst (unpause_all dk cids d) = (\<lambda>c. if c \<in> set cids \<and> cst d c = Some Paused then Some Up else cst d c)"
  unfolding unpause_all_def
  using docker_lawsD(2) [OF assms]
  by (induction cids arbitrary: d) (auto simp: fun_eq_iff)

lemma drop_containers_cst:
  assumes "docker_laws dk cst"
  shows "cst (drop_containers dk cids d) = (\<lambda>c. if c \<in> set cids then None else cst d c)"
  unfolding drop_containers_def
  using docker_lawsD(2,3) [OF assms]
  by (induction cids arbitrary: d) (auto simp: fun_eq_iff)

end
