(* ===== verification/Lease_Props.thy ===== *)
theory Lease_Props
  imports Container_Facts
begin

text \<open>
  Which containers run when the registry hands out a runtime, and that failed starts leave no
  containers behind.
\<close>

section \<open>Containers of the tiers\<close>

definition containers_ok :: "('d \<Rightarrow> string \<Rightarrow> cstate option) \<Rightarrow> 'd registry \<Rightarrow> bool" where
  "containers_ok cst r \<longleftrightarrow>
     (\<forall>n rt t. map_of (runtimes r) n = Some (rt, t) \<longrightarrow> (\<forall>c \<in> set (container_ids rt).
        cst (engine_st r) c = Some Up \<or> t = Warm \<and> cst (engine_st r) c = Some Paused)) \<and>
     (\<forall>n m rt rt' t t'. n \<noteq> m \<longrightarrow> map_of (runtimes r) n = Some (rt, t) \<longrightarrow>
        map_of (runtimes r) m = Some (rt', t') \<longrightarrow> set (container_ids rt) \<inter> set (container_ids rt') = {})"

lemma containers_okI:
  assumes "\<And>n rt t c. map_of (runtimes r) n = Some (rt, t) \<Longrightarrow> c \<in> set (container_ids rt) \<Longrightarrow>
      cst (engine_st r) c = Some Up \<or> t = Warm \<and> cst (engine_st r) c = Some Paused"
    "\<And>n m rt rt' t t' c. n \<noteq> m \<Longrightarrow> map_of (runtimes r) n = Some (rt, t) \<Longrightarrow>
      map_of (runtimes r) m = Some (rt', t') \<Longrightarrow> c \<in> set (container_ids rt) \<Longrightarrow> c \<in> set (container_ids rt') \<Longrightarrow> False"
  shows "containers_ok cst r"
  unfolding containers_ok_def using assms by blast

lemma containers_okD:
  assumes "containers_ok cst r"
  shows "map_of (runtimes r) n = Some (rt, t) \<Longrightarrow> c \<in> set (container_ids rt) \<Longrightarrow>
      cst (engine_st r) c = Some Up \<or> t = Warm \<and> cst (engine_st r) c = Some Paused"
    "n \<noteq> m \<Longrightarrow> map_of (runtimes r) n = Some (rt, t) \<Longrightarrow> map_of (runtimes r) m = Some (rt', t') \<Longrightarrow>
      c \<in> set (container_ids rt) \<Longrightarrow> c \<notin> set (container_ids rt')"
  using assms unfolding containers_ok_def by blast+

text \<open>No container appears.\<close>

definition none_new :: "('d \<Rightarrow> string \<Rightarrow> cstate option) \<Rightarrow> 'd \<Rightarrow> 'd \<Rightarrow> bool" where
  "none_new cst d d' \<longleftrightarrow> (\<forall>c. cst d c = None \<longrightarrow> cst d' c = None)"

lemma none_new_refl [simp]: "none_new cst d d"
  by (simp add: none_new_def)

lemma none_new_trans: "none_new cst d d' \<Longrightarrow> none_new cst d' d'' \<Longrightarrow> none_new cst d d''"
  by (simp add: none_new_def)

section \<open>Eviction\<close>

lemma evict_warm_one_containers:
  assumes l: "docker_laws dk cst" and ok: "containers_ok cst r" and n: "tier_of r n = Some Warm"
  shows "containers_ok cst (evict_warm_one dk n r) \<and> none_new cst (engine_st r) (engine_st (evict_warm_one dk n r))"
proof -
  obtain rt where rt: "map_of (runtimes r) n = Some (rt, Warm)" using n by (auto simp: tier_of_def)
  define r' where "r' = evict_warm_one dk n r"
  have sel: "runtimes r' = AList.delete n (runtimes r)"
      "cst (engine_st r') = (\<lambda>c. if c \<in> set (container_ids rt) then None else cst (engine_st r) c)"
    by (simp_all add: r'_def evict_warm_one_def rt drop_containers_cst [OF l])
  have "containers_ok cst r'"
  proof (rule containers_okI)
    fix m rt' t c assume m: "map_of (runtimes r') m = Some (rt', t)" and c: "c \<in> set (container_ids rt')"
    then have "m \<noteq> n" "map_of (runtimes r) m = Some (rt', t)"
      by (auto simp: sel lookup_delete split: if_splits)
    then show "cst (engine_st r') c = Some Up \<or> t = Warm \<and> cst (engine_st r') c = Some Paused"
      using containers_okD [OF ok] rt c by (auto simp: sel)
  next
    fix m m' rt1 rt2 t t' c
    assume "m \<noteq> m'" "map_of (runtimes r') m = Some (rt1, t)" "map_of (runtimes r') m' = Some (rt2, t')"
      "c \<in> set (container_ids rt1)" "c \<in> set (container_ids rt2)"
    then show False using containers_okD(2) [OF ok, of m m' rt1 t rt2 t' c]
      by (auto simp: sel lookup_delete split: if_splits)
  qed
  moreover have "none_new cst (engine_st r) (engine_st r')" by (simp add: none_new_def sel)
  ultimately show ?thesis by (simp add: r'_def)
qed

lemma evict_warm_containers:
  assumes "docker_laws dk cst" "containers_ok cst r"
  shows "containers_ok cst (evict_warm_to_cold_if_needed dk r)
    \<and> none_new cst (engine_st r) (engine_st (evict_warm_to_cold_if_needed dk r))"
  using assms
proof (induction dk r rule: evict_warm_to_cold_if_needed.induct)
  case (1 dk r)
  show ?case
  proof (cases "count_by_tier r Warm \<le> warm_limit r \<or> warm_victim r = None")
    case True
    with 1 show ?thesis by (auto simp: evict_warm_to_cold_if_needed.simps [of dk r])
  next
    case False
    then obtain n where n: "\<not> count_by_tier r Warm \<le> warm_limit r" "warm_victim r = Some n" by auto
    note one = evict_warm_one_containers [OF "1.prems" conjunct2 [OF warm_victim_tier [OF n(2)]]]
    show ?thesis
      using "1.IH" [OF n "1.prems"(1)] one n none_new_trans
      by (fastforce simp: evict_warm_to_cold_if_needed.simps [of dk r])
  qed
qed

definition paused_entry :: "'d docker \<Rightarrow> string \<Rightarrow> template_runtime \<Rightarrow> 'd registry \<Rightarrow> 'd registry" where
  "paused_entry dk n rt r =
     r\<lparr>engine_st := pause_all dk (container_ids rt) (engine_st r),
       runtimes := AList.update n (rt, Warm) (runtimes r)\<rparr>"

lemma demote_paused:
  "map_of (runtimes r) n = Some (rt, t) \<Longrightarrow> demote dk n r = evict_warm_to_cold_if_needed dk (paused_entry dk n rt r)"
  by (simp add: demote_def paused_entry_def)

lemma paused_entry_containers:
  assumes l: "docker_laws dk cst" and ok: "containers_ok cst r" and n: "map_of (runtimes r) n = Some (rt, Hot)"
  shows "containers_ok cst (paused_entry dk n rt r)
    \<and> none_new cst (engine_st r) (engine_st (paused_entry dk n rt r))"
proof -
  define r' where "r' = paused_entry dk n rt r"
  have sel: "runtimes r' = AList.update n (rt, Warm) (runtimes r)"
      "cst (engine_st r') = (\<lambda>c. if c \<in> set (container_ids rt) \<and> cst (engine_st r) c = Some Up then Some Paused
                                 else cst (engine_st r) c)"
    by (simp_all add: r'_def paused_entry_def pause_all_cst [OF l])
  have "containers_ok cst r'"
  proof (rule containers_okI)
    fix m rt' t c assume m: "map_of (runtimes r') m = Some (rt', t)" and c: "c \<in> set (container_ids rt')"
    show "cst (engine_st r') c = Some Up \<or> t = Warm \<and> cst (engine_st r') c = Some Paused"
    proof (cases "m = n")
      case True
      then show ?thesis using m c containers_okD(1) [OF ok n] by (auto simp: sel lookup_update)
    next
      case False
      then have m': "map_of (runtimes r) m = Some (rt', t)" using m by (simp add: sel lookup_update)
      then have "c \<notin> set (container_ids rt)" using containers_okD(2) [OF ok False m' n c] by simp
      then show ?thesis using containers_okD(1) [OF ok m' c] by (simp add: sel)
    qed
  next
    fix m m' rt1 rt2 t t' c
    assume "m \<noteq> m'" "map_of (runtimes r') m = Some (rt1, t)" "map_of (runtimes r') m' = Some (rt2, t')"
      "c \<in> set (container_ids rt1)" "c \<in> set (container_ids rt2)"
    then show False
      using containers_okD(2) [OF ok] n by (auto simp: sel lookup_update split: if_splits)
  qed
  moreover have "none_new cst (engine_st r) (engine_st r')" by (simp add: none_new_def sel)
  ultimately show ?thesis by (simp add: r'_def)
qed

lemma demote_containers:
  assumes "docker_laws dk cst" "containers_ok cst r" "tier_of r n = Some Hot"
  shows "containers_ok cst (demote dk n r) \<and> none_new cst (engine_st r) (engine_st (demote dk n r))"
proof -
  obtain rt where rt: "map_of (runtimes r) n = Some (rt, Hot)" using assms(3) by (auto simp: tier_of_def)
  note p = paused_entry_containers [OF assms(1,2) rt]
  note e = evict_warm_containers [OF assms(1) conjunct1 [OF p]]
  show ?thesis
    unfolding demote_paused [OF rt] using e none_new_trans [OF conjunct2 [OF p] conjunct2 [OF e]] by simp
qed

lemma evict_hot_containers:
  assumes "docker_laws dk cst" "containers_ok cst r"
  shows "containers_ok cst (evict_hot_to_warm_if_needed_excluding dk x r)
    \<and> none_new cst (engine_st r) (engine_st (evict_hot_to_warm_if_needed_excluding dk x r))"
  using assms
proof (induction dk x r rule: evict_hot_to_warm_if_needed_excluding.induct)
  case (1 dk x r)
  show ?case
  proof (cases "count_by_tier r Hot < hot_limit r \<or> hot_victim x r = None")
    case True
    with 1 show ?thesis by (auto simp: evict_hot_to_warm_if_needed_excluding.simps [of dk x r])
  next
    case False
    then obtain n where n: "\<not> count_by_tier r Hot < hot_limit r" "hot_victim x r = Some n" by auto
    then have "tier_of r n = Some Hot" using hot_victim_tier by blast
    note d = demote_containers [OF "1.prems" this]
    show ?thesis
      using "1.IH" [OF n "1.prems"(1)] d n none_new_trans
      by (fastforce simp: evict_hot_to_warm_if_needed_excluding.simps [of dk x r])
  qed
qed

section \<open>A warm template that is promoted\<close>

lemma filter_warm_update_le:
  "length (filter (\<lambda>(_, _, u). u = Warm) (AList.update n (rt, Warm) t))
     \<le> Suc (length (filter (\<lambda>(_, _, u). u = Warm) t))"
  by (induction t) auto

text \<open>
  Making room demotes at most one template. When the warm tier has a free place, or nothing is
  demoted, the template being promoted stays where it is.
\<close>

lemma evict_hot_keeps_warm:
  assumes l: "docker_laws dk cst" and ok: "registry_ok r" "containers_ok cst r"
    and x: "map_of (runtimes r) x = Some (rt, Warm)"
    and room: "count_by_tier r Warm < warm_limit r \<or> count_by_tier r Hot < hot_limit r"
    and c: "c \<in> set (container_ids rt)"
  shows "cst (engine_st (evict_hot_to_warm_if_needed_excluding dk x r)) c = cst (engine_st r) c
    \<and> map_of (runtimes (evict_hot_to_warm_if_needed_excluding dk x r)) x = Some (rt, Warm)"
proof -
  note step = evict_hot_to_warm_if_needed_excluding.simps
  consider "count_by_tier r Hot < hot_limit r \<or> hot_victim x r = None"
    | n where "\<not> count_by_tier r Hot < hot_limit r" "hot_victim x r = Some n" by auto
  then show ?thesis
  proof cases
    case 1
    then show ?thesis using x by (auto simp: step [of dk x r])
  next
    case (2 n)
    obtain rn where rn: "map_of (runtimes r) n = Some (rn, Hot)" and nx: "n \<noteq> x"
      using hot_victim_tier [OF 2(2)] by (auto simp: tier_of_def)
    define p where "p = paused_entry dk n rn r"
    have "count_by_tier p Warm \<le> warm_limit p"
      using room 2(1) filter_warm_update_le [of n rn "runtimes r"]
      by (auto simp: p_def paused_entry_def count_by_tier_def)
    then have d: "demote dk n r = p"
      unfolding demote_paused [OF rn] p_def [symmetric] by (simp add: evict_warm_to_cold_if_needed.simps [of dk p])
    have lim: "hot_limit p = hot_limit r" by (simp add: p_def paused_entry_def)
    have "count_by_tier p Hot < count_by_tier r Hot"
      using count_demote [of r n dk] rn d by (simp add: tier_of_def)
    then have "count_by_tier p Hot < hot_limit p \<or> count_by_tier p Hot = 0"
      using registry_okD(3) [OF ok(1)] by (auto simp: lim)
    then have "count_by_tier p Hot < hot_limit p \<or> hot_victim x p = None"
    proof
      assume z: "count_by_tier p Hot = 0"
      have "tier_of p m \<noteq> Some Hot" for m
      proof
        assume "tier_of p m = Some Hot"
        then obtain rm where "map_of (runtimes p) m = Some (rm, Hot)" by (auto simp: tier_of_def)
        then have "(m, rm, Hot) \<in> set (runtimes p)" by (rule map_of_SomeD)
        then show False using z count_pos [of p Hot] by blast
      qed
      then show ?thesis by (auto simp: hot_victim_def find_None_iff)
    qed simp
    then have stop: "evict_hot_to_warm_if_needed_excluding dk x p = p"
      by (auto simp: step [of dk x p])
    have r': "evict_hot_to_warm_if_needed_excluding dk x r = p"
      using 2 d stop by (simp add: step [of dk x r])
    have "c \<notin> set (container_ids rn)" using containers_okD(2) [OF ok(2) nx [symmetric] x rn c] .
    then show ?thesis
      unfolding r' using x nx by (simp add: p_def paused_entry_def pause_all_cst [OF l] lookup_update)
  qed
qed

lemma set_hot_containers:
  assumes "containers_ok cst r" "\<And>c. c \<in> set (container_ids rt) \<Longrightarrow> cst (engine_st r) c = Some Up"
    and "\<And>m rt' t' c. m \<noteq> n \<Longrightarrow> map_of (runtimes r) m = Some (rt', t') \<Longrightarrow>
      c \<in> set (container_ids rt') \<Longrightarrow> c \<notin> set (container_ids rt)"
  shows "containers_ok cst (set_hot n rt r)"
proof (rule containers_okI)
  have sel: "runtimes (set_hot n rt r) = AList.update n (rt, Hot) (runtimes r)"
    "engine_st (set_hot n rt r) = engine_st r" by (simp_all add: set_hot_def)
  show "cst (engine_st (set_hot n rt r)) c = Some Up \<or> t = Warm \<and> cst (engine_st (set_hot n rt r)) c = Some Paused"
    if "map_of (runtimes (set_hot n rt r)) m = Some (rt', t)" "c \<in> set (container_ids rt')" for m rt' t c
    using that assms(2) containers_okD(1) [OF assms(1)] by (auto simp: sel lookup_update split: if_splits)
  show False
    if "m \<noteq> m'" "map_of (runtimes (set_hot n rt r)) m = Some (rt1, t)"
      "map_of (runtimes (set_hot n rt r)) m' = Some (rt2, t')"
      "c \<in> set (container_ids rt1)" "c \<in> set (container_ids rt2)" for m m' rt1 rt2 t t' c
    using that assms(3) [of m' rt2 t' c] assms(3) [of m rt1 t c]
      containers_okD(2) [OF assms(1), of m m' rt1 t rt2 t' c]
    by (auto simp: sel lookup_update split: if_splits)
qed

section \<open>Acquiring\<close>

text \<open>What a request leaves behind: on success the runtime it hands out runs and is hot; on an
  error no container exists that did not exist before.\<close>

definition acquire_post :: "('d \<Rightarrow> string \<Rightarrow> cstate option) \<Rightarrow> string \<Rightarrow> 'd registry
    \<Rightarrow> (fault + template_runtime) \<times> 'd registry \<Rightarrow> bool" where
  "acquire_post cst n r p \<longleftrightarrow>
     (case p of
        (Inr rt, r') \<Rightarrow> containers_ok cst r' \<and> map_of (runtimes r') n = Some (rt, Hot)
          \<and> (\<forall>c \<in> set (container_ids rt). cst (engine_st r') c = Some Up)
      | (Inl e, r') \<Rightarrow> e \<noteq> Panicked \<longrightarrow> containers_ok cst r' \<and> none_new cst (engine_st r) (engine_st r'))"

lemma acquire_post_hot:
  assumes "containers_ok cst (set_hot n rt r')" "\<And>c. c \<in> set (container_ids rt) \<Longrightarrow> cst (engine_st r') c = Some Up"
  shows "acquire_post cst n r (Inr rt, set_hot n rt r')"
  using assms by (simp add: acquire_post_def set_hot_def lookup_update)

lemma acquire_hot_post:
  assumes "containers_ok cst r" "map_of (runtimes r) n = Some (rt, Hot)"
  shows "acquire_post cst n r (Inr rt, set_hot n rt r)"
proof (rule acquire_post_hot)
  show up: "cst (engine_st r) c = Some Up" if "c \<in> set (container_ids rt)" for c
    using containers_okD(1) [OF assms that] by simp
  show "containers_ok cst (set_hot n rt r)"
    using containers_okD(2) [OF assms(1)] assms(2) up by (intro set_hot_containers [OF assms(1)]) blast+
qed

lemma unpaused_containers_ok:
  assumes l: "docker_laws dk cst" and ok: "containers_ok cst r" and n: "map_of (runtimes r) n = Some (rt, Warm)"
  shows "containers_ok cst (r\<lparr>engine_st := unpause_all dk (container_ids rt) (engine_st r)\<rparr>)"
  by (rule containers_okI)
    (use containers_okD [OF ok] in \<open>auto simp: unpause_all_cst [OF l]\<close>)

lemma acquire_warm_post:
  assumes l: "docker_laws dk cst" and ok: "registry_ok r" "containers_ok cst r"
    and n: "map_of (runtimes r) n = Some (rt, Warm)"
    and room: "count_by_tier r Warm < warm_limit r \<or> count_by_tier r Hot < hot_limit r"
  shows "acquire_post cst n r (Inr rt, promote_warm dk n rt r)"
proof -
  define r1 where "r1 = r\<lparr>engine_st := unpause_all dk (container_ids rt) (engine_st r)\<rparr>"
  define r2 where "r2 = evict_hot_to_warm_if_needed_excluding dk n r1"
  have ok1: "registry_ok r1" "containers_ok cst r1"
    using ok(1) unpaused_containers_ok [OF l ok(2) n] by (simp_all add: r1_def registry_ok_engine)
  have n1: "map_of (runtimes r1) n = Some (rt, Warm)"
    and room1: "count_by_tier r1 Warm < warm_limit r1 \<or> count_by_tier r1 Hot < hot_limit r1"
    using n room by (simp_all add: r1_def count_by_tier_def)
  have up1: "cst (engine_st r1) c = Some Up" if "c \<in> set (container_ids rt)" for c
    using that containers_okD(1) [OF ok(2) n] by (auto simp: r1_def unpause_all_cst [OF l])
  have ok2: "containers_ok cst r2"
    unfolding r2_def using evict_hot_containers [OF l ok1(2)] by blast
  have up2: "cst (engine_st r2) c = Some Up" "map_of (runtimes r2) n = Some (rt, Warm)"
    if "c \<in> set (container_ids rt)" for c
    using evict_hot_keeps_warm [OF l ok1 n1 room1 that] up1 that unfolding r2_def by simp_all
  have "containers_ok cst (set_hot n rt r2)"
  proof (rule set_hot_containers [OF ok2 up2(1)])
    fix m rt' t' c assume m: "m \<noteq> n" "map_of (runtimes r2) m = Some (rt', t')" "c \<in> set (container_ids rt')"
    show "c \<notin> set (container_ids rt)"
    proof
      assume c: "c \<in> set (container_ids rt)"
      then show False using containers_okD(2) [OF ok2 m(1,2) up2(2) [OF c] m(3)] by simp
    qed
  qed
  then have "acquire_post cst n r (Inr rt, set_hot n rt r2)" using up2(1) by (rule acquire_post_hot)
  then show ?thesis by (simp add: promote_warm_def r1_def r2_def Let_def)
qed

lemma acquire_cold_post:
  assumes l: "docker_laws dk cst" and ok: "registry_ok r" "containers_ok cst r"
    and n: "map_of (runtimes r) n = None" and cfg: "map_of (configs r) n = Some cfg"
  shows "acquire_post cst n r (acquire_slow dk env n r)"
proof -
  define r1 where "r1 = evict_hot_to_warm_if_needed_excluding dk n r"
  obtain res d where st: "start_replicas dk env cfg [0..<max 1 (n_containers cfg)] [] [] (engine_st r1) = (res, d)"
    by fastforce
  have prep: "cold_prepare dk env n cfg r = (res, r1\<lparr>engine_st := d\<rparr>)"
    using st by (simp add: cold_prepare_def r1_def Let_def)
  have ok1: "containers_ok cst r1" "none_new cst (engine_st r) (engine_st r1)"
    using evict_hot_containers [OF l ok(2)] by (simp_all add: r1_def)
  note post = start_replicas_post [OF l st, of "engine_st r1", simplified]
  show ?thesis
  proof (cases res)
    case (Inl e)
    have "containers_ok cst (r1\<lparr>engine_st := d\<rparr>) \<and> none_new cst (engine_st r) d" if "e \<noteq> Panicked"
    proof -
      have "cst d = cst (engine_st r1)" using post that Inl by (auto simp: all_up_def)
      then show ?thesis using ok1 unfolding containers_ok_def none_new_def by simp
    qed
    then show ?thesis using prep n cfg Inl by (simp add: acquire_slow_def acquire_post_def)
  next
    case (Inr cu)
    define rt where "rt = \<lparr>container_ids = fst cu, daemon_urls = snd cu, rr_addr = length (counters r1)\<rparr>"
    define r2 where "r2 = r1\<lparr>engine_st := d, counters := counters r1 @ [0]\<rparr>"
    have fresh: "\<forall>c \<in> set (fst cu). cst (engine_st r1) c = None" and d: "cst d = all_up (fst cu) (cst (engine_st r1))"
      using post Inr by (auto simp: all_up_def split: prod.splits)
    have old: "c \<notin> set (container_ids rt)"
      if "map_of (runtimes r1) m = Some (rt', t')" "c \<in> set (container_ids rt')" for m rt' t' c
      using containers_okD(1) [OF ok1(1) that] fresh by (auto simp: rt_def)
    have ok2: "containers_ok cst r2"
    proof (rule containers_okI)
      fix m rt' t c assume m: "map_of (runtimes r2) m = Some (rt', t)" "c \<in> set (container_ids rt')"
      then have m1: "map_of (runtimes r1) m = Some (rt', t)" by (simp add: r2_def)
      show "cst (engine_st r2) c = Some Up \<or> t = Warm \<and> cst (engine_st r2) c = Some Paused"
        using containers_okD(1) [OF ok1(1) m1 m(2)] by (simp add: r2_def d all_up_def)
    qed (use containers_okD(2) [OF ok1(1)] in \<open>simp add: r2_def\<close>)
    have up2: "cst (engine_st r2) c = Some Up" if "c \<in> set (container_ids rt)" for c
      using that by (simp add: r2_def d all_up_def rt_def)
    have "containers_ok cst (set_hot n rt r2)"
      by (rule set_hot_containers [OF ok2 up2]) (simp_all add: r2_def old)
    then have "acquire_post cst n r (Inr rt, set_hot n rt r2)" using up2 by (rule acquire_post_hot)
    then show ?thesis using prep n cfg Inr
      by (simp add: acquire_slow_def cold_commit_def Let_def rt_def r2_def)
  qed
qed


section \<open>An engine that satisfies the laws\<close>

record sim =
  sim_cs :: "(string, cstate) table"
  sim_ms :: nat

definition sim_cst :: "sim \<Rightarrow> string \<Rightarrow> cstate option" where
  "sim_cst s = map_of (sim_cs s)"

definition sim_set :: "string \<Rightarrow> cstate \<Rightarrow> sim \<Rightarrow> sim" where
  "sim_set c v s = s\<lparr>sim_cs := AList.update c v (sim_cs s)\<rparr>"

definition sim_fresh :: "sim \<Rightarrow> string" where
  "sim_fresh s = replicate (Suc (sum_list (map length (keys (sim_cs s))))) CHR ''c''"

definition sim_docker :: "sim docker" where
  "sim_docker =
     \<lparr>inspect_image = \<lambda>t s. (Inr (), s),
      inspect_network = \<lambda>t s. (Inr (), s),
      create_network = \<lambda>t l s. (Inr (), s),
      connect_network = \<lambda>n h s. (Inr (), s),
      list_containers = \<lambda>l s. (Inr (map (Some \<circ> fst) (sim_cs s)), s),
      create_container = \<lambda>n cfg s. (Inr (sim_fresh s), sim_set (sim_fresh s) Created s),
      start_container = \<lambda>c s. (Inr (), sim_set c Up s),
      inspect_addresses = \<lambda>c s. (Inr [(''mindbox-tools'', Some c)], s),
      pause_container = \<lambda>c s. (Inr (), if sim_cst s c = Some Up then sim_set c Paused s else s),
      unpause_container = \<lambda>c s. (Inr (), if sim_cst s c = Some Paused then sim_set c Up s else s),
      remove_container = \<lambda>c s. (Inr (), s\<lparr>sim_cs := AList.delete c (sim_cs s)\<rparr>),
      http = \<lambda>m u b t s. (Inr (200, None), s),
      http_forward = \<lambda>m u b s. (Inr (200, None, Some b), s),
      clock_ms = sim_ms, clock_ns = sim_ms,
      sleep_ms = \<lambda>n s. s\<lparr>sim_ms := sim_ms s + n\<rparr>,
      parse_json = \<lambda>b. None, err_msg = \<lambda>e. [], status_msg = show_nat, int_msg = id, lower_table = id\<rparr>"

lemma sim_fresh_None: "sim_cst s (sim_fresh s) = None"
proof -
  have "sim_fresh s \<notin> set (keys (sim_cs s))"
  proof
    assume "sim_fresh s \<in> set (keys (sim_cs s))"
    then have "length (sim_fresh s) \<in> set (map length (keys (sim_cs s)))" by force
    then have "length (sim_fresh s) \<le> sum_list (map length (keys (sim_cs s)))" by (rule member_le_sum_list) simp
    then show False by (simp only: sim_fresh_def length_replicate)
  qed
  then show ?thesis by (simp add: sim_cst_def lookup_None_iff)
qed

lemma sim_set_cst [simp]: "sim_cst (sim_set c v s) = (sim_cst s)(c \<mapsto> v)"
  by (simp add: sim_cst_def sim_set_def update_conv')

lemma sim_docker_laws: "docker_laws sim_docker sim_cst" "clock_laws sim_docker"
  by (simp_all add: docker_laws_def clock_laws_def sim_docker_def sim_fresh_None)
    (auto simp: sim_cst_def delete_conv)

definition demo_tpl :: "string \<Rightarrow> template_config" where
  "demo_tpl n = \<lparr>tpl_name = n, kind = ''tools'', base_image = ''debian'', extra_pip = [], extra_apt = [],
     n_containers = 1, memory_reservation = ''4g'', pids_limit = 64, engine = ''rust'', warmup = default_warmup\<rparr>"

definition demo_rt :: "string \<Rightarrow> nat \<Rightarrow> template_runtime" where
  "demo_rt c a = \<lparr>container_ids = [c], daemon_urls = [''http://'' @ c], rr_addr = a\<rparr>"


text \<open>Template a is warm, template b hot; the limits are the parameters.\<close>

definition demo_registry :: "nat \<Rightarrow> nat \<Rightarrow> sim registry" where
  "demo_registry hot warm =
     \<lparr>engine_st = \<lparr>sim_cs = [(''ca'', Paused), (''cb'', Up)], sim_ms = 0\<rparr>,
      configs = [(''a'', demo_tpl ''a''), (''b'', demo_tpl ''b'')],
      runtimes = [(''a'', (demo_rt ''ca'' 0, Warm)), (''b'', (demo_rt ''cb'' 1, Hot))],
      lru = [''a'', ''b''], hot_limit = hot, warm_limit = warm, counters = [0, 0]\<rparr>"

lemma demo_registry_ok: "0 < warm \<Longrightarrow> registry_ok (demo_registry hot warm)"
  by (auto simp: registry_ok_def tables_ok_def demo_registry_def runtime_ok_def demo_rt_def count_by_tier_def)

lemma demo_registry_containers: "containers_ok sim_cst (demo_registry hot warm)"
  by (rule containers_okI) (auto simp: demo_registry_def demo_rt_def sim_cst_def split: if_splits)


text \<open>
  The condition is needed: with both tiers full, promoting the least recently used warm
  template demotes the hot one, the warm tier overflows, and the eviction removes the
  containers of the very template that is then entered as hot.
\<close>

lemma promotion_evicts_itself:
  "registry_ok (demo_registry 1 1) \<and> containers_ok sim_cst (demo_registry 1 1)
   \<and> (case acquire sim_docker (\<lambda>_. None) ''a'' (demo_registry 1 1) of (res, r') \<Rightarrow>
        res = Inr (demo_rt ''ca'' 0) \<and> tier_of r' ''a'' = Some Hot \<and> sim_cst (engine_st r') ''ca'' = None)"
proof -
  let ?r = "demo_registry 1 1" and ?rt = "demo_rt ''ca'' 0"
  have "acquire sim_docker (\<lambda>_. None) ''a'' ?r = (Inr ?rt, promote_warm sim_docker ''a'' ?rt ?r)"
    by (simp add: acquire_def acquire_slow_def demo_registry_def)
  moreover have "promote_warm sim_docker ''a'' ?rt ?r = (demo_registry 1 1)
      \<lparr>engine_st := \<lparr>sim_cs = [(''cb'', Paused)], sim_ms = 0\<rparr>,
       runtimes := [(''b'', (demo_rt ''cb'' 1, Warm)), (''a'', (?rt, Hot))], lru := [''b'', ''a'']\<rparr>"
    by (simp add: promote_warm_def Let_def unpause_all_def sim_docker_def sim_cst_def sim_set_def
        evict_hot_to_warm_if_needed_excluding.simps evict_warm_to_cold_if_needed.simps demote_def
        hot_victim_def warm_victim_def evict_warm_one_def drop_containers_def pause_all_def set_hot_def touch_lru_def
        tier_of_def count_by_tier_def demo_registry_def demo_rt_def)
  ultimately show ?thesis
    using demo_registry_ok [of 1 1] demo_registry_containers [of 1 1]
    by (simp add: tier_of_def sim_cst_def)
qed

section \<open>Acquiring ends\<close>

abbreviation ends :: "(fault + 'a) \<times> 'd \<Rightarrow> bool" where
  "ends p \<equiv> fst p \<noteq> Inl Stuck"

lemma poll_ends:
  assumes "clock_laws dk"
  shows "ends (health_poll dk url (clock_ms dk d + 30000) poll_fuel e d)"
  using health_poll_not_stuck [OF assms, of "clock_ms dk d + 30000" d 151 url e]
  by (simp add: poll_fuel_def)

lemma or_remove_ends: "ends (m d) \<Longrightarrow> ends (or_remove dk c m d)"
  by (cases "m d"; cases "fst (m d)") (auto simp: or_remove_def split: fault.splits)

lemma quoted_not_stuck: "quoted_failure p b \<noteq> Stuck"
  by (simp add: quoted_failure_def split: option.split)

lemma warmup_loop_ends: "ends (warmup_loop dk url cfg idx sid t ci cs d)"
proof (induction cs arbitrary: ci d)
  case (Cons c cs)
  have "validate_warmup_bash_result n i k b \<noteq> Inl Stuck" for n i k b
    by (auto simp: validate_warmup_bash_result_def Let_def split: option.split)
  then show ?case using Cons.IH quoted_not_stuck
    by (auto split: prod.split sum.split option.split)
qed simp

lemma warmup_ends: "ends (run_template_warmup dk url cfg idx d)"
proof -
  have "warmup_loop dk url cfg idx s t 0 cs d1 \<noteq> (Inl Stuck, d2)" for s t cs d1 d2
    using warmup_loop_ends [of dk url cfg idx s t 0 cs d1] by auto
  then show ?thesis using quoted_not_stuck
    by (auto simp: run_template_warmup_def Let_def split: prod.split sum.split option.split)
qed

lemma io_try_ends:
  assumes "ends (m d)" "\<And>x d1. ends (f x d1)"
  shows "ends (io_try m f d)"
  using assms by (cases "m d"; cases "fst (m d)") (auto simp: io_try_def)

lemma if_ends: "ends (f d) \<Longrightarrow> ends (g d) \<Longrightarrow> ends ((if c then f else g) d)"
  by simp

lemma leaf_ends:
  "ends (io_err (\<lambda>_. Failed e) m d)" "ends (container_ip dk c n d)" "ends (docker_image_exists dk t d)"
  "ends (ensure_tools_network dk env d)" "ends (io_lift (ok_or (Failed e) v) d)"
  "ends (io_lift (Inr x) d)" "ends (io_lift (Inl (Failed e)) d)"
  by (auto simp: io_err_def container_ip_def docker_image_exists_def ensure_tools_network_def io_lift_def
      Let_def result_simps split: prod.split sum.split option.split docker_err.split)

lemma bring_up_ends: "clock_laws dk \<Longrightarrow> ends (bring_up dk cfg idx network cid d)"
  unfolding bring_up_def Let_def by (intro io_try_ends or_remove_ends poll_ends warmup_ends leaf_ends)

lemma start_tools_container_ends: "clock_laws dk \<Longrightarrow> ends (start_tools_container dk env cfg idx d)"
  unfolding start_tools_container_def Let_def
  by (intro io_try_ends if_ends leaf_ends bring_up_ends)

lemma start_replicas_ends: "clock_laws dk \<Longrightarrow> ends (start_replicas dk env cfg is cids urls d)"
proof (induction "is" arbitrary: cids urls d)
  case (Cons i "is")
  then show ?case using start_tools_container_ends [of dk env cfg i d]
    by (auto split: prod.split sum.split fault.split)
qed simp

text \<open>C28: Acquiring a template ends: with a clock that does not go backwards and sleeps that last
  as long as asked, every health poll gives up after at most 152 rounds, so a request never
  gets stuck and returns a runtime or an error (or its task panics).\<close>

theorem acquire_ends:
  assumes "clock_laws dk"
  shows "fst (acquire dk env n r) \<noteq> Inl Stuck"
  using start_replicas_ends [OF assms]
  by (auto simp: acquire_eq_slow acquire_slow_def cold_prepare_def cold_commit_def Let_def
      split: option.split prod.split sum.split tier.split) (metis fst_conv)

theorem acquire_ends_witness: "fst (acquire sim_docker (\<lambda>_. None) ''a'' (demo_registry 1 1)) \<noteq> Inl Stuck"
  by (rule acquire_ends [OF sim_docker_laws(2)])

end
