(* ===== verification/Tools_Forward.thy ===== *)
theory Tools_Forward
  imports Lease_Props
begin

text \<open>
  The \<open>/v2\<close> routes: a daemon is chosen when a session is created and remembered in the
  sticky table, later calls of the session go to the same daemon. Requests and answers carry
  their raw bytes; the upstream HTTP exchange is the field \<open>http_forward\<close> of \<open>docker\<close>.
\<close>

section \<open>State and responses\<close>

definition FALLBACK_TEMPLATE :: string where
  "FALLBACK_TEMPLATE = ''__fallback_daemon__''"

record 'd forward =
  registry :: "'d registry"
  fallback_daemon :: "string option"
  sticky :: "(string, string \<times> string) table"

text \<open>A request body: the bytes, or the error of reading them; \<open>to_bytes\<close> enforces a limit.\<close>

type_synonym body = "string + bytes"

definition to_bytes :: "body \<Rightarrow> nat \<Rightarrow> string + bytes" where
  "to_bytes b limit = rtry b (\<lambda>bs. if length bs \<le> limit then Inr bs else Inl ''length limit exceeded'')"

definition fallback_of_env :: "env \<Rightarrow> string option" where
  "fallback_of_env env =
     (case map_option (trim_end_matches CHR ''/'') (env ''TOOLS_DAEMON_URL'') of
        Some u \<Rightarrow> if u = [] then None else Some u
      | None \<Rightarrow> None)"

definition forward_new :: "env \<Rightarrow> 'd registry \<Rightarrow> 'd forward" where
  "forward_new env r = \<lparr>registry = r, fallback_daemon = fallback_of_env env, sticky = []\<rparr>"

section \<open>Choosing a daemon\<close>

fun fault_msg :: "fault \<Rightarrow> string" where
  "fault_msg (Failed m) = m"
| "fault_msg Panicked = []"
| "fault_msg Stuck = []"

text \<open>A panic of the acquisition ends the request without an answer; it is the \<open>None\<close> here.\<close>

definition daemon_for :: "'d docker \<Rightarrow> env \<Rightarrow> string \<Rightarrow> 'd forward \<Rightarrow> string result option \<times> 'd forward" where
  "daemon_for dk env template st =
     (let fall = (\<lambda>st'. (Some (ok_or (SERVICE_UNAVAILABLE, ''no template registered and TOOLS_DAEMON_URL unset'')
                                 (fallback_daemon st')), st')) in
      if template \<noteq> FALLBACK_TEMPLATE then
        (case acquire dk env template (registry st) of
           (Inr rt, r1) \<Rightarrow>
             (case pick_daemon_url rt r1 of
                (Some u, r2) \<Rightarrow> (Some (Inr u), st\<lparr>registry := r2\<rparr>)
              | (None, r2) \<Rightarrow>
                  (Some (Inl (BAD_REQUEST, ''template '' @ [CHR 0x27] @ template @ [CHR 0x27]
                                           @ '' is not backed by a tools daemon'')), st\<lparr>registry := r2\<rparr>))
         | (Inl e, r1) \<Rightarrow>
             if e = Panicked then (None, st\<lparr>registry := r1\<rparr>)
             else if fallback_daemon st = None then
               (Some (Inl (NOT_FOUND, ''template '' @ [CHR 0x27] @ template @ [CHR 0x27] @ '' not found: ''
                                      @ fault_msg e)), st\<lparr>registry := r1\<rparr>)
             else fall (st\<lparr>registry := r1\<rparr>))
      else fall st)"

section \<open>Forwarding\<close>

definition forward_to_url :: "'d docker \<Rightarrow> string \<Rightarrow> http_method \<Rightarrow> string \<Rightarrow> body \<Rightarrow> 'd \<Rightarrow> response result \<times> 'd" where
  "forward_to_url dk upstream m path b d =
     (case to_bytes b (8 * 1024 * 1024) of
        Inl e \<Rightarrow> (Inl (BAD_REQUEST, ''read body: '' @ e), d)
      | Inr bs \<Rightarrow>
          (case http_forward dk m (upstream @ path) bs d of
             (Inl e, d') \<Rightarrow> (Inl (BAD_GATEWAY, ''upstream '' @ upstream @ '': '' @ e), d')
           | (Inr (status, ct, body), d') \<Rightarrow>
               (Inr \<lparr>rs_status = (if 100 \<le> status \<and> status < 1000 then status else BAD_GATEWAY),
                     rs_type = (case ct of None \<Rightarrow> None | Some s \<Rightarrow> if visible_ascii s then Some s else None),
                     rs_body = or_default body []\<rparr>, d')))"

abbreviation on_world :: "('d \<Rightarrow> 'a \<times> 'd) \<Rightarrow> 'd forward \<Rightarrow> 'a \<times> 'd forward" where
  "on_world f st \<equiv>
     (case f (engine_st (registry st)) of
        (x, d) \<Rightarrow> (x, st\<lparr>registry := (registry st)\<lparr>engine_st := d\<rparr>\<rparr>))"

definition forward_to :: "'d docker \<Rightarrow> env \<Rightarrow> string \<Rightarrow> http_method \<Rightarrow> string \<Rightarrow> body \<Rightarrow> 'd forward
    \<Rightarrow> response result option \<times> 'd forward" where
  "forward_to dk env template m path b st =
     (case daemon_for dk env template st of
        (None, st1) \<Rightarrow> (None, st1)
      | (Some (Inl e), st1) \<Rightarrow> (Some (Inl e), st1)
      | (Some (Inr u), st1) \<Rightarrow> (case on_world (forward_to_url dk u m path b) st1 of (r, st2) \<Rightarrow> (Some r, st2)))"

definition v2_health :: "'d docker \<Rightarrow> env \<Rightarrow> 'd forward \<Rightarrow> response option \<times> 'd forward" where
  "v2_health dk env st =
     (case forward_to dk env FALLBACK_TEMPLATE HGET ''/health'' (Inr []) st of
        (r, st') \<Rightarrow> (map_option into_response r, st'))"

section \<open>Sessions\<close>

definition create_session_req :: "'d docker \<Rightarrow> bytes \<Rightarrow> string" where
  "create_session_req dk bs =
     or_default (Option.bind (Option.bind (parse_json dk bs) (as_struct [''template'']))
                   (field_or [] ''template'' j_str)) []"

text \<open>The session id in an answer of the daemon.\<close>

definition session_id_of :: "'d docker \<Rightarrow> bytes \<Rightarrow> string option" where
  "session_id_of dk bs = Option.bind (Option.bind (parse_json dk bs) (\<lambda>v. j_get v ''session_id'')) j_str"

definition v2_create_session :: "'d docker \<Rightarrow> env \<Rightarrow> body \<Rightarrow> 'd forward \<Rightarrow> response option \<times> 'd forward" where
  "v2_create_session dk env b st =
     (case to_bytes b (64 * 1024) of
        Inl e \<Rightarrow> (Some (error_response (BAD_REQUEST, ''read body: '' @ e)), st)
      | Inr bs \<Rightarrow>
          let t = create_session_req dk bs; template = (if t = [] then FALLBACK_TEMPLATE else t) in
          (case daemon_for dk env template st of
             (None, st1) \<Rightarrow> (None, st1)
           | (Some (Inl e), st1) \<Rightarrow> (Some (error_response e), st1)
           | (Some (Inr u), st1) \<Rightarrow>
               (case on_world (forward_to_url dk u HPOST ''/sessions'' (Inr bs)) st1 of
                  (Inl e, st2) \<Rightarrow> (Some (error_response e), st2)
                | (Inr resp, st2) \<Rightarrow>
                    if length (rs_body resp) > 64 * 1024 then
                      (Some (error_response (BAD_GATEWAY, ''read body: length limit exceeded'')), st2)
                    else
                      (Some resp,
                       if is_success (rs_status resp) then
                         (case session_id_of dk (rs_body resp) of
                            Some sid \<Rightarrow> st2\<lparr>sticky := AList.update sid (template, u) (sticky st2)\<rparr>
                          | None \<Rightarrow> st2)
                       else st2))))"

text \<open>The daemon of a session: the sticky entry, else the fallback.\<close>

definition upstream_of :: "'d forward \<Rightarrow> string \<Rightarrow> string option" where
  "upstream_of st sid = or_else (map_option snd (map_of (sticky st) sid)) (fallback_daemon st)"

definition session_not_found :: "string \<Rightarrow> response" where
  "session_not_found sid = error_response (NOT_FOUND, ''session '' @ sid @ '' not found'')"

definition v2_delete_session :: "'d docker \<Rightarrow> string \<Rightarrow> 'd forward \<Rightarrow> response \<times> 'd forward" where
  "v2_delete_session dk sid st =
     (let st1 = st\<lparr>sticky := AList.delete sid (sticky st)\<rparr> in
      case upstream_of st sid of
        None \<Rightarrow> (session_not_found sid, st1)
      | Some u \<Rightarrow>
          (case on_world (forward_to_url dk u HDELETE (''/sessions/'' @ sid) (Inr [])) st1 of
             (r, st2) \<Rightarrow> (into_response r, st2)))"

definition process_tool_exposed :: "env \<Rightarrow> bool" where
  "process_tool_exposed env \<longleftrightarrow>
     env ''TOOLS_EXPOSE_PROCESS'' = Some ''1'' \<or> env ''TOOLS_EXPOSE_PROCESS'' = Some ''true''
     \<or> env ''TOOLS_EXPOSE_PROCESS'' = Some ''yes''"

definition process_forbidden :: response where
  "process_forbidden = \<lparr>rs_status = FORBIDDEN, rs_type = Some ''application/json'',
     rs_body = as_bytes (''{\"code\":\"process_forbidden\",\"message\":\"process tool is not agent-facing; ''
       @ ''set TOOLS_EXPOSE_PROCESS=1 on api-rust to enable\"}'')\<rparr>"

definition v2_tool_call :: "'d docker \<Rightarrow> env \<Rightarrow> string \<Rightarrow> string \<Rightarrow> body \<Rightarrow> 'd forward \<Rightarrow> response \<times> 'd forward" where
  "v2_tool_call dk env sid tool b st =
     (if tool = ''process'' \<and> \<not> process_tool_exposed env then (process_forbidden, st)
      else case upstream_of st sid of
        None \<Rightarrow> (session_not_found sid, st)
      | Some u \<Rightarrow>
          (case on_world (forward_to_url dk u HPOST (''/sessions/'' @ sid @ ''/tools/'' @ tool) b) st of
             (r, st2) \<Rightarrow> (into_response r, st2)))"

definition v2_templates :: "'d forward \<Rightarrow> json" where
  "v2_templates st = JObj
     [(''templates'', JArr (map (JStr \<circ> fst) (filter (\<lambda>(_, c). kind c = ''tools'') (configs (registry st))))),
      (''fallback_daemon'', case fallback_daemon st of None \<Rightarrow> JNull | Some u \<Rightarrow> JStr u)]"

text \<open>The router. The route of one session answers every method with the deletion.\<close>

datatype route = RHealth | RTemplates | RSessions | RSession string | RTool string string

definition v2_router :: "'d docker \<Rightarrow> env \<Rightarrow> string \<Rightarrow> route \<Rightarrow> body \<Rightarrow> 'd forward \<Rightarrow> (json + response) option \<times> 'd forward" where
  "v2_router dk env m rt b st =
     (let no = (Some (Inr \<lparr>rs_status = 405, rs_type = None, rs_body = []\<rparr>), st) in
      case rt of
        RHealth \<Rightarrow> if m = ''GET'' \<or> m = ''HEAD'' then
            (case v2_health dk env st of (r, st') \<Rightarrow> (map_option Inr r, st')) else no
      | RTemplates \<Rightarrow> if m = ''GET'' \<or> m = ''HEAD'' then (Some (Inl (v2_templates st)), st) else no
      | RSessions \<Rightarrow> if m = ''POST'' then
            (case v2_create_session dk env b st of (r, st') \<Rightarrow> (map_option Inr r, st')) else no
      | RSession sid \<Rightarrow> (case v2_delete_session dk sid st of (r, st') \<Rightarrow> (Some (Inr r), st'))
      | RTool sid tool \<Rightarrow> if m = ''POST'' then
            (case v2_tool_call dk env sid tool b st of (r, st') \<Rightarrow> (Some (Inr r), st')) else no)"

section \<open>The registry as a provider of runtimes\<close>

text \<open>
  What the routes need of the registry: acquiring keeps its invariant and yields a runtime
  with at least one daemon, and picking returns a daemon of the runtime.
\<close>

locale runtime_provider =
  fixes inv :: "'s \<Rightarrow> bool"
    and acq :: "string \<Rightarrow> 's \<Rightarrow> (fault + 'rt) \<times> 's"
    and pick :: "'rt \<Rightarrow> 's \<Rightarrow> string option \<times> 's"
    and urls :: "'rt \<Rightarrow> string list"
    and hot :: "'s \<Rightarrow> string \<Rightarrow> 'rt \<Rightarrow> bool"
  assumes acq_inv: "inv s \<Longrightarrow> acq n s = (res, s') \<Longrightarrow> inv s'"
    and acq_hot: "inv s \<Longrightarrow> acq n s = (Inr rt, s') \<Longrightarrow> urls rt \<noteq> [] \<and> hot s' n rt"
    and pick_inv: "inv s \<Longrightarrow> pick rt s = (u, s') \<Longrightarrow> inv s' \<and> (hot s n rt' \<longrightarrow> hot s' n rt')"
    and pick_url: "urls rt \<noteq> [] \<Longrightarrow> pick rt s = (u, s') \<Longrightarrow> \<exists>x \<in> set (urls rt). u = Some x"
begin

lemma acquire_then_pick:
  assumes "inv s" "acq n s = (Inr rt, s1)" "pick rt s1 = (u, s2)"
  shows "inv s2 \<and> hot s2 n rt \<and> (\<exists>x \<in> set (urls rt). u = Some x)"
  using acq_inv [OF assms(1,2)] acq_hot [OF assms(1,2)] pick_inv [of s1 rt u s2 n rt] pick_url [of rt s1 u s2] assms(3)
  by blast

end

lemma set_hot_lookup: "map_of (runtimes (set_hot n rt r)) n = Some (rt, Hot)"
  by (simp add: set_hot_def lookup_update)

lemma acquire_registers:
  assumes "acquire dk env n r = (Inr rt, r')"
  shows "map_of (runtimes r') n = Some (rt, Hot)"
proof (cases "map_of (runtimes r) n")
  case (Some e)
  obtain rt' t where e: "e = (rt', t)" by (cases e)
  show ?thesis
    using assms Some by (cases t) (auto simp: acquire_eq_slow acquire_slow_def e promote_warm_def Let_def set_hot_lookup)
next
  case None
  then obtain cfg cu r1 where "cold_prepare dk env n cfg r = (Inr cu, r1)" "cold_commit n cu r1 = (rt, r')"
    using assms by (auto simp: acquire_eq_slow acquire_slow_def split: option.splits prod.splits sum.splits)
  then show ?thesis by (auto simp: cold_commit_def Let_def set_hot_lookup)
qed

lemma pick_frame:
  assumes "pick_daemon_url rt r = (u, r')"
  shows "\<exists>c. r' = r\<lparr>counters := c\<rparr> \<and> length c = length (counters r)"
proof (cases "daemon_urls rt = []")
  case True
  then show ?thesis using assms by (intro exI [of _ "counters r"]) (simp add: pick_daemon_url_def)
qed (use assms in \<open>auto simp: pick_daemon_url_def Let_def\<close>)

lemma pick_in_urls:
  "daemon_urls rt \<noteq> [] \<Longrightarrow> pick_daemon_url rt r = (u, r') \<Longrightarrow> \<exists>x \<in> set (daemon_urls rt). u = Some x"
  by (auto simp: pick_daemon_url_def Let_def)

interpretation paged: runtime_provider registry_ok "acquire dk env" pick_daemon_url daemon_urls
    "\<lambda>r n rt. map_of (runtimes r) n = Some (rt, Hot)" for dk env
proof (unfold_locales, goal_cases)
  case (1 s n res s')
  then show ?case by (rule acquire_ok)
next
  case (2 s n rt s')
  have "map_of (runtimes s') n = Some (rt, Hot)" by (rule acquire_registers [OF 2(2)])
  moreover have "runtime_ok s' rt"
    using tables_okD(5) [OF registry_okD(1) [OF acquire_ok [OF 2]] calculation] .
  ultimately show ?case by (auto simp: runtime_ok_def)
next
  case (3 s rt u s' n rt')
  then have "registry_ok s'" by (auto intro: registry_step_ok step_pick)
  then show ?case using pick_frame [OF 3(2)] by auto
next
  case (4 rt s u s')
  then show ?case by (rule pick_in_urls)
qed

end
