(* ===== verification/Forward_Props.thy ===== *)
theory Forward_Props
  imports Tools_Forward
begin

text \<open>
  What the \<open>/v2\<close> routes promise: which daemon a request gets, that a session stays with its
  daemon, and that a deleted session is gone.
\<close>

section \<open>Choosing a daemon\<close>

lemma daemon_for_frame:
  assumes "daemon_for dk env t st = (res, st')"
  shows "sticky st' = sticky st \<and> fallback_daemon st' = fallback_daemon st"
  using assms
  by (auto simp: daemon_for_def Let_def split: if_splits prod.splits sum.splits option.splits)


section \<open>Sequences of requests\<close>

type_synonym request = "string \<times> route \<times> body"

fun run :: "'d docker \<Rightarrow> env \<Rightarrow> request list \<Rightarrow> 'd forward \<Rightarrow> (json + response) option list \<times> 'd forward" where
  "run dk env [] st = ([], st)"
| "run dk env ((m, rt, b) # qs) st =
     (case v2_router dk env m rt b st of (r, st1) \<Rightarrow> case run dk env qs st1 of (rs, st2) \<Rightarrow> (r # rs, st2))"

definition created :: "'d docker \<Rightarrow> response \<Rightarrow> string \<Rightarrow> bool" where
  "created dk resp sid \<longleftrightarrow> is_success (rs_status resp) \<and> session_id_of dk (rs_body resp) = Some sid"

text \<open>No request of the sequence creates the session \<open>sid\<close> (again).\<close>

fun creates :: "'d docker \<Rightarrow> string \<Rightarrow> request \<Rightarrow> (json + response) option \<Rightarrow> bool" where
  "creates dk sid (m, rt, b) r \<longleftrightarrow> rt = RSessions \<and> (\<exists>resp. r = Some (Inr resp) \<and> created dk resp sid)"

lemma daemon_for_error: "daemon_for dk env t st = (Some (Inl e), st') \<Longrightarrow> \<not> is_success (fst e)"
  by (auto simp: daemon_for_def Let_def result_simps split: if_splits prod.splits sum.splits option.splits)

lemma forward_error: "forward_to_url dk u m p b d = (Inl e, d') \<Longrightarrow> \<not> is_success (fst e)"
  by (auto simp: forward_to_url_def Let_def split: prod.splits sum.splits)

text \<open>The steps of a session creation that reaches a daemon.\<close>

lemma create_session_cases:
  assumes "v2_create_session dk env b st = (r, st')"
  obtains (refused) "sticky st' = sticky st" "fallback_daemon st' = fallback_daemon st"
      "\<forall>resp. r = Some resp \<longrightarrow> \<not> is_success (rs_status resp)"
  | (answered) t u st1 st2 resp where "daemon_for dk env t st = (Some (Inr u), st1)" "r = Some resp"
      "sticky st2 = sticky st" "fallback_daemon st' = fallback_daemon st"
      "st' = (if is_success (rs_status resp) then
                (case session_id_of dk (rs_body resp) of
                   Some sid \<Rightarrow> st2\<lparr>sticky := AList.update sid (t, u) (sticky st2)\<rparr> | None \<Rightarrow> st2)
              else st2)"
proof (cases "to_bytes b (64 * 1024)")
  case (Inl e)
  then show thesis using assms refused by (auto simp: v2_create_session_def error_response_def)
next
  case (Inr bs)
  define t where "t = (if create_session_req dk bs = [] then FALLBACK_TEMPLATE else create_session_req dk bs)"
  obtain d st1 where df: "daemon_for dk env t st = (d, st1)" by fastforce
  note fr = daemon_for_frame [OF df]
  consider "d = None" | e where "d = Some (Inl e)" | u where "d = Some (Inr u)"
    by (cases d; cases "the d") auto
  then show thesis
  proof cases
    case 1
    then show thesis using assms Inr df fr refused by (simp add: v2_create_session_def Let_def t_def)
  next
    case (2 e)
    then show thesis using assms Inr df fr refused daemon_for_error [of dk env t st e st1]
      by (auto simp: v2_create_session_def Let_def t_def error_response_def)
  next
    case (3 u)
    obtain fr' d2 where fw: "forward_to_url dk u HPOST ''/sessions'' (Inr bs) (engine_st (registry st1)) = (fr', d2)"
      by fastforce
    define st2 where "st2 = st1\<lparr>registry := (registry st1)\<lparr>engine_st := d2\<rparr>\<rparr>"
    have st2: "sticky st2 = sticky st" "fallback_daemon st2 = fallback_daemon st"
      using fr by (simp_all add: st2_def)
    show thesis
    proof (cases fr')
      case (Inl e)
      then show thesis using assms \<open>to_bytes b _ = Inr bs\<close> df 3 fw st2 refused forward_error [of dk u HPOST "''/sessions''"]
        by (fastforce simp: v2_create_session_def Let_def t_def error_response_def st2_def)
    next
      case (Inr resp)
      note eq = assms [unfolded v2_create_session_def \<open>to_bytes b _ = Inr bs\<close>]
      show thesis
      proof (cases "length (rs_body resp) > 64 * 1024")
        case True
        then have "r = Some (error_response (BAD_GATEWAY, ''read body: length limit exceeded''))" "st' = st2"
          using eq df 3 fw Inr by (auto simp: Let_def t_def st2_def)
        then show thesis using st2 refused by (simp add: error_response_def)
      next
        case False
        then have "v2_create_session dk env b st = (Some resp,
              if is_success (rs_status resp) then
                (case session_id_of dk (rs_body resp) of
                   Some sid \<Rightarrow> st2\<lparr>sticky := AList.update sid (t, u) (sticky st2)\<rparr> | None \<Rightarrow> st2)
              else st2)"
          using \<open>to_bytes b _ = Inr bs\<close> 3 fw Inr df
          by (simp add: v2_create_session_def Let_def t_def [symmetric] st2_def [symmetric])
            (auto simp: t_def split: option.split)
        with assms have "r = Some resp" "st' = (if is_success (rs_status resp) then
                (case session_id_of dk (rs_body resp) of
                   Some sid \<Rightarrow> st2\<lparr>sticky := AList.update sid (t, u) (sticky st2)\<rparr> | None \<Rightarrow> st2)
              else st2)" by simp_all
        then show thesis using answered [of t u st1 resp st2] df 3 st2 by (auto split: option.splits)
      qed
    qed
  qed
qed

lemma create_session_sticky:
  assumes "v2_create_session dk env b st = (Some resp, st')" "created dk resp sid"
  shows "\<exists>t u st1. daemon_for dk env t st = (Some (Inr u), st1) \<and> sticky st' = AList.update sid (t, u) (sticky st)
    \<and> fallback_daemon st' = fallback_daemon st"
  using assms(1)
proof (cases rule: create_session_cases)
  case refused
  then show ?thesis using assms(2) by (simp add: created_def)
next
  case (answered t u st1 st2 resp')
  then show ?thesis using assms(2) by (auto simp: created_def)
qed

lemma create_session_other:
  assumes "v2_create_session dk env b st = (r, st')" "\<forall>resp. r = Some resp \<longrightarrow> \<not> created dk resp sid"
  shows "map_of (sticky st') sid = map_of (sticky st) sid \<and> fallback_daemon st' = fallback_daemon st"
  using assms(1)
proof (cases rule: create_session_cases)
  case (answered t u st1 st2 resp)
  then show ?thesis using assms(2) by (auto simp: created_def lookup_update split: option.splits)
qed simp

lemma delete_session_frame:
  assumes "v2_delete_session dk sid st = (r, st')"
  shows "sticky st' = AList.delete sid (sticky st) \<and> fallback_daemon st' = fallback_daemon st"
  using assms by (auto simp: v2_delete_session_def Let_def split: option.splits prod.splits)

lemma tool_call_frame:
  assumes "v2_tool_call dk env sid tool b st = (r, st')"
  shows "sticky st' = sticky st \<and> fallback_daemon st' = fallback_daemon st"
  using assms by (auto simp: v2_tool_call_def split: option.splits prod.splits if_splits)

lemma health_frame:
  assumes "v2_health dk env st = (r, st')"
  shows "sticky st' = sticky st \<and> fallback_daemon st' = fallback_daemon st"
  using assms daemon_for_frame [of dk env FALLBACK_TEMPLATE st]
  by (fastforce simp: v2_health_def forward_to_def split: option.splits prod.splits sum.splits)

text \<open>One request that does not create \<open>sid\<close>: only the route of \<open>sid\<close> itself touches its sticky entry.\<close>

lemma router_frame:
  assumes "v2_router dk env m rt b st = (r, st')" "\<not> creates dk sid (m, rt, b) r"
  shows "fallback_daemon st' = fallback_daemon st
    \<and> map_of (sticky st') sid = (if rt = RSession sid then None else map_of (sticky st) sid)"
proof (cases rt)
  case RHealth
  then show ?thesis using assms health_frame [of dk env st]
    by (cases "v2_health dk env st") (auto simp: v2_router_def Let_def split: if_splits)
next
  case RSessions
  obtain r1 st1 where c: "v2_create_session dk env b st = (r1, st1)" by fastforce
  show ?thesis
  proof (cases "m = ''POST''")
    case True
    then have "r = map_option Inr r1" "st' = st1" using assms(1) RSessions c by (auto simp: v2_router_def Let_def)
    then have "\<forall>resp. r1 = Some resp \<longrightarrow> \<not> created dk resp sid" using assms(2) RSessions by auto
    from create_session_other [OF c this] show ?thesis using \<open>st' = st1\<close> RSessions by simp
  qed (use assms(1) RSessions in \<open>auto simp: v2_router_def Let_def\<close>)
next
  case (RSession s)
  then show ?thesis using assms(1) delete_session_frame [of dk s st]
    by (cases "v2_delete_session dk s st") (auto simp: v2_router_def Let_def lookup_delete)
next
  case (RTool s tool)
  then show ?thesis using assms(1) tool_call_frame [of dk env s tool b st]
    by (cases "v2_tool_call dk env s tool b st") (auto simp: v2_router_def Let_def split: if_splits)
qed (use assms(1) in \<open>auto simp: v2_router_def Let_def split: if_splits\<close>)

definition never_creates :: "'d docker \<Rightarrow> string \<Rightarrow> request list \<Rightarrow> (json + response) option list \<Rightarrow> bool" where
  "never_creates dk sid qs rs \<longleftrightarrow> (\<forall>(q, r) \<in> set (zip qs rs). \<not> creates dk sid q r)"

lemma run_frame:
  assumes "run dk env qs st = (rs, st')" "never_creates dk sid qs rs"
  shows "fallback_daemon st' = fallback_daemon st
    \<and> map_of (sticky st') sid
        = (if \<exists>(m, rt, b) \<in> set qs. rt = RSession sid then None else map_of (sticky st) sid)"
  using assms
proof (induction qs arbitrary: st rs st')
  case (Cons q qs)
  obtain m rt b where q: "q = (m, rt, b)" by (cases q)
  obtain r st1 where r: "v2_router dk env m rt b st = (r, st1)" by fastforce
  obtain rs' st2 where rs: "run dk env qs st1 = (rs', st2)" by fastforce
  have eq: "rs = r # rs'" "st' = st2" using Cons.prems(1) by (auto simp: q r rs)
  have "\<not> creates dk sid (m, rt, b) r" "never_creates dk sid qs rs'"
    using Cons.prems(2) by (auto simp: never_creates_def eq q)
  then show ?case
    using router_frame [OF r] Cons.IH [OF rs] by (auto simp: eq q split: if_splits)
qed simp

lemma tool_call_forwards:
  assumes "upstream_of st sid = Some u" "tool = ''process'' \<longrightarrow> process_tool_exposed env"
  shows "v2_tool_call dk env sid tool b st =
    (case forward_to_url dk u HPOST (''/sessions/'' @ sid @ ''/tools/'' @ tool) b (engine_st (registry st)) of
       (r, d) \<Rightarrow> (into_response r, st\<lparr>registry := (registry st)\<lparr>engine_st := d\<rparr>\<rparr>))"
  using assms by (auto simp: v2_tool_call_def split: prod.split)

text \<open>C29: A session stays with its daemon: when a creation answers with a session id, the daemon
  chosen for it serves every later tool call of that session, after any sequence of other
  requests that neither delete the session nor create it again.\<close>

theorem sticky_routing:
  assumes "v2_create_session dk env b0 st = (Some resp, st1)" "created dk resp sid"
    and "run dk env qs st1 = (rs, st2)" "never_creates dk sid qs rs"
    and "\<forall>(m, rt, b) \<in> set qs. rt \<noteq> RSession sid"
    and "tool = ''process'' \<longrightarrow> process_tool_exposed env"
  shows "\<exists>t u st'. daemon_for dk env t st = (Some (Inr u), st')
    \<and> v2_tool_call dk env sid tool b st2 =
       (case forward_to_url dk u HPOST (''/sessions/'' @ sid @ ''/tools/'' @ tool) b (engine_st (registry st2)) of
          (r, d) \<Rightarrow> (into_response r, st2\<lparr>registry := (registry st2)\<lparr>engine_st := d\<rparr>\<rparr>))"
proof -
  obtain t u st' where d: "daemon_for dk env t st = (Some (Inr u), st')"
    and s1: "sticky st1 = AList.update sid (t, u) (sticky st)"
    using create_session_sticky [OF assms(1,2)] by blast
  have "map_of (sticky st2) sid = Some (t, u)"
    using run_frame [OF assms(3,4)] assms(5) s1 by (auto simp: lookup_update)
  then have "upstream_of st2 sid = Some u" by (simp add: upstream_of_def)
  from d tool_call_forwards [OF this assms(6)] show ?thesis by blast
qed

text \<open>C18: A deleted session is gone: without a fallback daemon, after its deletion and any
  sequence of requests that does not create it again, tool calls and further deletions of the
  session are answered with 404 and no daemon is contacted.\<close>

theorem deleted_session_gone:
  assumes "v2_delete_session dk sid st = (resp, st1)" "fallback_daemon st = None"
    and "run dk env qs st1 = (rs, st2)" "never_creates dk sid qs rs"
    and "tool = ''process'' \<longrightarrow> process_tool_exposed env"
  shows "v2_tool_call dk env sid tool b st2 = (session_not_found sid, st2)
    \<and> fst (v2_delete_session dk sid st2) = session_not_found sid
    \<and> registry (snd (v2_delete_session dk sid st2)) = registry st2"
proof -
  have "map_of (sticky st1) sid = None" "fallback_daemon st1 = None"
    using delete_session_frame [OF assms(1)] assms(2) by (auto simp: lookup_delete)
  then have "map_of (sticky st2) sid = None" "fallback_daemon st2 = None"
    using run_frame [OF assms(3,4)] by (auto split: if_splits)
  then show ?thesis
    using assms(5) by (auto simp: v2_tool_call_def v2_delete_session_def upstream_of_def Let_def)
qed

section \<open>Witnesses\<close>

text \<open>A daemon that answers every request with 201 and a session id.\<close>

definition echo_docker :: "sim docker" where
  "echo_docker = sim_docker\<lparr>
     http_forward := \<lambda>m u b s. (Inr (201, None, Some (as_bytes ''id'')), s),
     parse_json := \<lambda>b. if b = as_bytes ''id'' then Some (JObj [(''session_id'', JStr ''s1'')]) else None\<rparr>"

definition demo_forward :: "string option \<Rightarrow> sim forward" where
  "demo_forward fb = \<lparr>registry = demo_registry 2 2, fallback_daemon = fb, sticky = [(''s0'', (''a'', ''http://ca''))]\<rparr>"

lemma no_creation: "\<forall>(m, rt, b) \<in> set qs. rt \<noteq> RSessions \<Longrightarrow> never_creates dk sid qs rs"
  by (fastforce simp: never_creates_def dest: set_zip_leftD)

definition no_env :: env where
  "no_env = (\<lambda>_. None)"


definition demo_requests :: "request list" where
  "demo_requests = [(''GET'', RHealth, Inr []), (''POST'', RTool ''s1'' ''ls'', Inr []), (''DELETE'', RSession ''s0'', Inr [])]"

lemma demo_create:
  "\<exists>resp st1. v2_create_session echo_docker no_env (Inr []) (demo_forward (Some ''http://d'')) = (Some resp, st1)
     \<and> created echo_docker resp ''s1''"
  by (simp add: v2_create_session_def to_bytes_def create_session_req_def echo_docker_def daemon_for_def Let_def
      demo_forward_def forward_to_url_def session_id_of_def created_def as_bytes_def)

theorem sticky_routing_witness:
  "\<exists>u st2. v2_tool_call echo_docker no_env ''s1'' ''read'' (Inr []) st2 =
       (case forward_to_url echo_docker u HPOST (''/sessions/'' @ ''s1'' @ ''/tools/'' @ ''read'') (Inr [])
               (engine_st (registry st2)) of
          (r, d) \<Rightarrow> (into_response r, st2\<lparr>registry := (registry st2)\<lparr>engine_st := d\<rparr>\<rparr>))"
proof -
  obtain resp st1 where c: "v2_create_session echo_docker no_env (Inr []) (demo_forward (Some ''http://d'')) = (Some resp, st1)"
    "created echo_docker resp ''s1''" using demo_create by blast
  obtain rs st2 where r: "run echo_docker no_env demo_requests st1 = (rs, st2)" by fastforce
  have n: "never_creates echo_docker ''s1'' demo_requests rs"
    by (rule no_creation) (simp add: demo_requests_def)
  have d: "\<forall>(m, rt, b) \<in> set demo_requests. rt \<noteq> RSession ''s1''"
    by (simp add: demo_requests_def)
  from sticky_routing [OF c r n d, of "''read''" "Inr []"] show ?thesis by auto
qed

theorem deleted_session_gone_witness:
  "\<exists>st2. v2_tool_call echo_docker no_env ''s0'' ''read'' (Inr []) st2 = (session_not_found ''s0'', st2)"
proof -
  obtain resp st1 where d: "v2_delete_session echo_docker ''s0'' (demo_forward None) = (resp, st1)" by fastforce
  obtain rs st2 where r: "run echo_docker no_env demo_requests st1 = (rs, st2)" by fastforce
  have n: "never_creates echo_docker ''s0'' demo_requests rs"
    by (rule no_creation) (simp add: demo_requests_def)
  have "fallback_daemon (demo_forward None) = None" by (simp add: demo_forward_def)
  from deleted_session_gone [OF d this r n, where tool = "''read''" and b = "Inr []"] show ?thesis by auto
qed

section \<open>Where the routes fall short\<close>

text \<open>
  The gate of the process tool compares the decoded path segment, but the upstream URL is
  put together without encoding it again: a tool named \<open>process?\<close> (sent as \<open>process%3F\<close>)
  passes the gate and reaches the process route of the daemon, with an empty query.
\<close>

lemma process_gate_bypassed:
  assumes "upstream_of st sid = Some u"
  shows "v2_tool_call dk no_env sid ''process'' b st = (process_forbidden, st)"
    "v2_tool_call dk no_env sid ''process?'' b st =
      (case forward_to_url dk u HPOST (''/sessions/'' @ sid @ ''/tools/process'' @ ''?'') b (engine_st (registry st)) of
         (r, d) \<Rightarrow> (into_response r, st\<lparr>registry := (registry st)\<lparr>engine_st := d\<rparr>\<rparr>))"
  using tool_call_forwards [OF assms, of "''process?''" no_env dk b]
  by (simp_all add: v2_tool_call_def process_tool_exposed_def no_env_def)

text \<open>Reading a session with GET deletes it.\<close>

lemma any_method_deletes:
  "v2_router dk env ''GET'' (RSession sid) b st = v2_router dk env ''DELETE'' (RSession sid) b st"
  by (simp add: v2_router_def)

text \<open>The sticky entry is removed even when the daemon could not be reached.\<close>

lemma failed_delete_forgets:
  assumes "upstream_of st sid = Some u" "http_forward dk HDELETE (u @ ''/sessions/'' @ sid) [] (engine_st (registry st)) = (Inl e, d)"
  shows "rs_status (fst (v2_delete_session dk sid st)) = 502 \<and> map_of (sticky (snd (v2_delete_session dk sid st))) sid = None"
  using assms
  by (simp add: v2_delete_session_def Let_def forward_to_url_def to_bytes_def into_response_def error_response_def lookup_delete)

end
