(* ===== verification/Shim_Codec.thy ===== *)
theory Shim_Codec
  imports Rust_Json Rust_Path
begin

text \<open>
  The encodings of \<open>e2b-shim\<close>: base64, Connect envelopes, percent encoding, shell quoting,
  template names, multipart bodies, S3 keys and relative paths. Each is translated as it is
  written; the standard decoders they are checked against are in \<open>Codec_Props\<close>.
\<close>

unbundle bit_operations_syntax

section \<open>Base64\<close>

definition b64_alphabet :: string where
  "b64_alphabet = ''ABCDEFGHIJKLMNOPQRSTUVWXYZabcdefghijklmnopqrstuvwxyz0123456789+/''"

definition b64_char :: "u32 \<Rightarrow> char" where
  "b64_char v = b64_alphabet ! unat (v AND 63)"

fun general_b64 :: "bytes \<Rightarrow> string" where
  "general_b64 (a # b # c # r) =
     (let n = push_bit 16 (ucast a :: u32) OR push_bit 8 (ucast b) OR ucast c
      in b64_char (drop_bit 18 n) # b64_char (drop_bit 12 n) # b64_char (drop_bit 6 n) # b64_char n
         # general_b64 r)"
| "general_b64 [a, b] =
     (let n = push_bit 16 (ucast a :: u32) OR push_bit 8 (ucast b)
      in [b64_char (drop_bit 18 n), b64_char (drop_bit 12 n), b64_char (drop_bit 6 n), CHR ''=''])"
| "general_b64 [a] =
     (let n = push_bit 16 (ucast a :: u32)
      in [b64_char (drop_bit 18 n), b64_char (drop_bit 12 n), CHR ''='', CHR ''=''])"
| "general_b64 [] = []"

section \<open>Connect envelopes\<close>

definition be_bytes :: "u32 \<Rightarrow> bytes" where
  "be_bytes w = [ucast (drop_bit 24 w), ucast (drop_bit 16 w), ucast (drop_bit 8 w), ucast w]"

definition from_be_bytes :: "u8 \<Rightarrow> u8 \<Rightarrow> u8 \<Rightarrow> u8 \<Rightarrow> u32" where
  "from_be_bytes a b c d =
     push_bit 24 (ucast a) OR push_bit 16 (ucast b) OR push_bit 8 (ucast c) OR ucast d"

text \<open>The length is cast to \<open>u32\<close>, which wraps.\<close>

definition envelope :: "u8 \<Rightarrow> bytes \<Rightarrow> bytes" where
  "envelope flags d = flags # be_bytes (word_of_nat (length d)) @ d"

datatype codec = Proto | Json

definition codec_from_content_type :: "string \<Rightarrow> codec" where
  "codec_from_content_type ct = (if str_contains ct ''json'' then Json else Proto)"

definition is_stream_ct :: "string \<Rightarrow> bool" where
  "is_stream_ct ct \<longleftrightarrow> starts_with ct ''application/connect+''"

definition extract_body :: "string \<Rightarrow> bytes \<Rightarrow> bytes option" where
  "extract_body ct body =
     (if is_stream_ct ct then
        (case body of
           f # a # b # c # d # r \<Rightarrow>
             (let len = unat (from_be_bytes a b c d) in if length r < len then None else Some (take len r))
         | _ \<Rightarrow> None)
      else Some body)"

section \<open>Percent encoding\<close>

definition unreserved :: "char \<Rightarrow> bool" where
  "unreserved c \<longleftrightarrow> (let n = of_char c :: nat in
     97 \<le> n \<and> n \<le> 122 \<or> 65 \<le> n \<and> n \<le> 90 \<or> 48 \<le> n \<and> n \<le> 57 \<or> c \<in> set ''-._~'')"

definition hex_digit :: "nat \<Rightarrow> char" where
  "hex_digit n = (if n < 10 then char_of (48 + n) else char_of (55 + n))"

fun urlencoding_encode :: "string \<Rightarrow> string" where
  "urlencoding_encode [] = []"
| "urlencoding_encode (c # s) =
     (if unreserved c then [c]
      else [CHR ''%'', hex_digit (of_char c div 16), hex_digit (of_char c mod 16)]) @ urlencoding_encode s"

text \<open>
  \<open>u8::from_str_radix(_, 16)\<close> on two bytes: two hexadecimal digits, or a plus sign and one
  digit.
\<close>

definition hex_val :: "char \<Rightarrow> nat option" where
  "hex_val c = (let n = of_char c :: nat in
     if 48 \<le> n \<and> n \<le> 57 then Some (n - 48)
     else if 65 \<le> n \<and> n \<le> 70 then Some (n - 55)
     else if 97 \<le> n \<and> n \<le> 102 then Some (n - 87)
     else None)"

definition from_hex :: "char \<Rightarrow> char \<Rightarrow> nat option" where
  "from_hex a b =
     (if a = CHR ''+'' then hex_val b
      else Option.bind (hex_val a) (\<lambda>x. map_option (\<lambda>y. 16 * x + y) (hex_val b)))"

text \<open>
  The two bytes must be UTF-8, that is two ASCII bytes or one two-byte character; the latter is
  no number either, so only ASCII needs a test of its own in \<open>from_hex\<close>. The result is the
  sequence of bytes before the final UTF-8 check.
\<close>

fun url_bytes :: "string \<Rightarrow> string option" where
  "url_bytes [] = Some []"
| "url_bytes (c # s) =
     (case s of
        a # b # r \<Rightarrow>
          if c = CHR ''%'' then
            Option.bind (from_hex a b) (\<lambda>v. map_option ((#) (char_of v)) (url_bytes r))
          else map_option ((#) c) (url_bytes s)
      | _ \<Rightarrow> map_option ((#) c) (url_bytes s))"

definition urlencoding_decode :: "string \<Rightarrow> string option" where
  "urlencoding_decode s =
     Option.bind (url_bytes s) (\<lambda>bs. if valid_utf8 (as_bytes bs) then Some bs else None)"

section \<open>Shell words, names, keys and paths\<close>

text \<open>\<open>replace\<close> of a one-character pattern.\<close>

definition shell_quote :: "string \<Rightarrow> string" where
  "shell_quote s = [CHR 0x27] @ replace [CHR 0x27] [CHR 0x27, CHR 0x22, CHR 0x27, CHR 0x22, CHR 0x27] s @ [CHR 0x27]"

definition tools_relative_path :: "string \<Rightarrow> string" where
  "tools_relative_path p = trim_start_matches CHR ''/'' p"

definition clean_rel_path :: "string \<Rightarrow> path" where
  "clean_rel_path p = filter is_Normal (components (trim_start_matches CHR ''/'' p))"

definition name_char :: "char \<Rightarrow> bool" where
  "name_char c \<longleftrightarrow> (let n = of_char c :: nat in
     97 \<le> n \<and> n \<le> 122 \<or> 65 \<le> n \<and> n \<le> 90 \<or> 48 \<le> n \<and> n \<le> 57 \<or> c \<in> set ''._-'')"

definition sanitize_name :: "string \<Rightarrow> string" where
  "sanitize_name raw =
     (let out = filter name_char (takeWhile (\<lambda>c. c \<noteq> CHR '':'') raw) in if out = [] then ''tpl'' else out)"

definition s3_key :: "string \<Rightarrow> string \<Rightarrow> string" where
  "s3_key pre rel =
     (let p = trim_matches CHR ''/'' pre; r = trim_matches CHR ''/'' rel in
      if p = [] then r else if r = [] then p else p @ ''/'' @ r)"

section \<open>Multipart bodies\<close>

fun find_subseq_from :: "nat \<Rightarrow> bytes \<Rightarrow> bytes \<Rightarrow> nat option" where
  "find_subseq_from i [] needle = (if needle = [] then Some i else None)"
| "find_subseq_from i (x # hay) needle =
     (if take (length needle) (x # hay) = needle then Some i else find_subseq_from (Suc i) hay needle)"

definition find_subseq :: "bytes \<Rightarrow> bytes \<Rightarrow> nat option" where
  "find_subseq hay needle =
     (if needle = [] \<or> length hay < length needle then None else find_subseq_from 0 hay needle)"

text \<open>The positions of the separators: start and end of each, from left to right.\<close>

lemma find_subseq_from_bound:
  "needle \<noteq> [] \<Longrightarrow> find_subseq_from i hay needle = Some k \<Longrightarrow> i \<le> k \<and> k - i + length needle \<le> length hay"
proof (induction hay arbitrary: i)
  case (Cons x hay)
  show ?case
  proof (cases "take (length needle) (x # hay) = needle")
    case True
    then have "length needle \<le> length (x # hay)" by (metis length_take min.cobounded1)
    with True Cons.prems show ?thesis by simp
  next
    case False
    then show ?thesis using Cons.IH [of "Suc i"] Cons.prems by auto
  qed
qed simp

lemma find_subseq_bound: "find_subseq hay needle = Some k \<Longrightarrow> needle \<noteq> [] \<and> k + length needle \<le> length hay"
  using find_subseq_from_bound [of needle 0 hay k] by (auto simp: find_subseq_def split: if_splits)

function separators :: "bytes \<Rightarrow> bytes \<Rightarrow> nat \<Rightarrow> (nat \<times> nat) list" where
  "separators sep body i =
     (case find_subseq (drop i body) sep of
        None \<Rightarrow> []
      | Some k \<Rightarrow> (i + k, i + k + length sep) # separators sep body (i + k + length sep))"
  by pat_completeness auto
termination
proof (relation "measure (\<lambda>(sep, body, i). length body - i)", simp)
  fix sep body :: bytes and i k
  assume "find_subseq (drop i body) sep = Some k"
  then have "sep \<noteq> []" "k + length sep \<le> length body - i" using find_subseq_bound by fastforce+
  then show "((sep, body, i + k + length sep), sep, body, i) \<in> measure (\<lambda>(sep, body, i). length body - i)"
    by (cases sep) auto
qed

declare separators.simps [simp del]

definition CRLF :: bytes where
  "CRLF = [13, 10]"

definition extract_first_multipart_file :: "string \<Rightarrow> bytes \<Rightarrow> bytes option" where
  "extract_first_multipart_file content_type body =
     (case split_str ''boundary='' content_type of
        _ # b # _ \<Rightarrow>
          let sep = as_bytes (''--'' @ trim_matches CHR 0x22 b) in
          (case separators sep body 0 of
             (_, a1) # (b2, _) # _ \<Rightarrow>
               let part = take (b2 - a1) (drop a1 body);
                   s = (if take 2 part = CRLF then 2 else 0);
                   rest = drop s part in
               (case find_subseq rest (CRLF @ CRLF) of
                  None \<Rightarrow> None
                | Some h \<Rightarrow>
                    let bp = drop (s + h + 4) part in
                    Some (if length bp \<ge> 2 \<and> drop (length bp - 2) bp = CRLF then take (length bp - 2) bp else bp))
           | _ \<Rightarrow> None)
      | _ \<Rightarrow> None)"

end
