(* ===== verification/Codec_Props.thy ===== *)
theory Codec_Props
  imports Shim_Codec
begin

text \<open>
  The encodings of \<open>e2b-shim\<close> against the standards they are meant to follow: a decoder of
  RFC 4648 base64, a reader of Connect frames, and a POSIX reader of shell words are written
  down here as references, independently of the code.
\<close>

unbundle bit_operations_syntax

section \<open>Base64\<close>

text \<open>The value of a base64 digit, and the reference decoder (padding checked, no line breaks).\<close>

definition b64_val :: "char \<Rightarrow> u32 option" where
  "b64_val c = map_of (zip b64_alphabet (map word_of_nat [0..<64])) c"

definition b64_word :: "char list \<Rightarrow> u32 option" where
  "b64_word cs = foldl (\<lambda>acc c. Option.bind acc (\<lambda>w. map_option (\<lambda>v. push_bit 6 w OR v) (b64_val c))) (Some 0) cs"

fun b64_decode :: "string \<Rightarrow> bytes option" where
  "b64_decode [] = Some []"
| "b64_decode (a # b # c # d # r) =
     (if c = CHR ''='' then
        (if d = CHR ''='' \<and> r = [] then
           map_option (\<lambda>w. [ucast (drop_bit 4 w)]) (b64_word [a, b]) else None)
      else if d = CHR ''='' then
        (if r = [] then
           map_option (\<lambda>w. [ucast (drop_bit 10 w), ucast (drop_bit 2 w)]) (b64_word [a, b, c]) else None)
      else
        Option.bind (b64_word [a, b, c, d]) (\<lambda>w.
          map_option ((@) [ucast (drop_bit 16 w), ucast (drop_bit 8 w), ucast w]) (b64_decode r)))"
| "b64_decode _ = None"

lemma b64_alphabet_length: "length b64_alphabet = 64"
  by (simp add: b64_alphabet_def)

lemma b64_alphabet_distinct: "distinct b64_alphabet"
  by (simp add: b64_alphabet_def)

lemma digit_lt: "unat (v AND 63 :: u32) < 64"
proof -
  have "v AND 63 \<le> (63 :: u32)" by (rule word_and_le1)
  then show ?thesis by (simp add: word_le_nat_alt)
qed

lemma b64_val_char: "b64_val (b64_char v) = Some (v AND 63)"
proof -
  have "map_of (zip b64_alphabet (map word_of_nat [0..<64])) (b64_alphabet ! unat (v AND 63)) =
        Some (map word_of_nat [0..<64] ! unat (v AND 63) :: u32)"
    using digit_lt [of v] by (intro map_of_zip_nth) (simp_all add: b64_alphabet_length b64_alphabet_distinct)
  also have "map word_of_nat [0..<64] ! unat (v AND 63) = word_of_nat (unat (v AND 63))"
    using digit_lt [of v] by (subst nth_map) simp_all
  finally show ?thesis by (simp only: b64_val_def b64_char_def of_nat_unat ucast_id)
qed

lemma b64_char_not_pad: "b64_char v \<noteq> CHR ''=''"
proof
  assume "b64_char v = CHR ''=''"
  then have "CHR ''='' \<in> set b64_alphabet"
    using digit_lt [of v] nth_mem [of "unat (v AND 63)" b64_alphabet]
    by (simp add: b64_char_def b64_alphabet_length)
  then show False by (simp add: b64_alphabet_def)
qed

lemma mask6: "(63 :: u32) = mask 6"
  by (simp add: mask_eq_exp_minus_1)

text \<open>The bits of three bytes put back together, one octet at a time.\<close>

lemma less_8_cases: "n < 8 \<Longrightarrow> n \<in> {0, 1, 2, 3, 4, 5, 6, 7 :: nat}"
  by auto

lemma byte_eqI: "(\<And>n. n \<in> {0, 1, 2, 3, 4, 5, 6, 7} \<Longrightarrow> bit (x :: u8) n = bit y n) \<Longrightarrow> x = y"
  by (rule bit_word_eqI) (use less_8_cases in auto)

lemma high_bits: "8 \<le> n \<Longrightarrow> \<not> bit (x :: u8) n"
  using bit_imp_le_length [of x n] by auto

lemma b64_bytes3:
  fixes a b c :: u8
  defines "n \<equiv> push_bit 16 (ucast a :: u32) OR push_bit 8 (ucast b) OR ucast c"
  defines "w \<equiv> push_bit 6 (push_bit 6 (push_bit 6 (drop_bit 18 n AND 63)
                  OR (drop_bit 12 n AND 63)) OR (drop_bit 6 n AND 63)) OR (n AND 63)"
  shows "ucast (drop_bit 16 w) = a" "ucast (drop_bit 8 w) = b" "ucast w = c"
  unfolding w_def n_def mask6
  by (rule byte_eqI; elim insertE emptyE; simp add: bit_simps high_bits)+





lemma b64_bytes2:
  fixes a b :: u8
  defines "n \<equiv> push_bit 16 (ucast a :: u32) OR push_bit 8 (ucast b)"
  defines "w \<equiv> push_bit 6 (push_bit 6 (drop_bit 18 n AND 63) OR (drop_bit 12 n AND 63)) OR (drop_bit 6 n AND 63)"
  shows "ucast (drop_bit 10 w) = a" "ucast (drop_bit 2 w) = b"
  unfolding w_def n_def mask6
  by (rule byte_eqI; elim insertE emptyE; simp add: bit_simps high_bits)+

lemma b64_byte1:
  fixes a :: u8
  defines "n \<equiv> push_bit 16 (ucast a :: u32)"
  defines "w \<equiv> push_bit 6 (drop_bit 18 n AND 63) OR (drop_bit 12 n AND 63)"
  shows "ucast (drop_bit 4 w) = a"
  unfolding w_def n_def mask6
  by (rule byte_eqI; elim insertE emptyE; simp add: bit_simps high_bits)

lemma b64_word_chars:
  "b64_word [b64_char x, b64_char y] = Some (push_bit 6 (x AND 63) OR (y AND 63))"
  "b64_word [b64_char x, b64_char y, b64_char z] = Some (push_bit 6 (push_bit 6 (x AND 63) OR (y AND 63)) OR (z AND 63))"
  "b64_word [b64_char x, b64_char y, b64_char z, b64_char v] =
     Some (push_bit 6 (push_bit 6 (push_bit 6 (x AND 63) OR (y AND 63)) OR (z AND 63)) OR (v AND 63))"
  by (simp_all only: b64_word_def foldl.simps b64_val_char Option.bind.bind_lunit option.map push_bit_of_0 or.left_neutral)

text \<open>What \<open>general_b64\<close> writes, a decoder of the standard reads back: no byte is lost or
  changed, whatever the length, and the padding is the one the standard asks for.\<close>

theorem b64_roundtrip: "b64_decode (general_b64 bs) = Some bs"
proof (induction bs rule: general_b64.induct)
  case (1 a b c r)
  then show ?case
    by (simp only: general_b64.simps Let_def b64_decode.simps b64_char_not_pad if_False b64_word_chars
        b64_bytes3 Option.bind.bind_lunit option.map append.simps)
next
  case (2 a b)
  show ?case
    by (simp only: general_b64.simps Let_def b64_decode.simps b64_char_not_pad if_False if_True refl
        b64_word_chars b64_bytes2 option.map)
next
  case (3 a)
  show ?case
    by (simp only: general_b64.simps Let_def b64_decode.simps b64_char_not_pad if_False if_True refl simp_thms
        b64_word_chars b64_byte1 option.map)
qed simp

section \<open>Connect frames\<close>

lemma from_be_be_bytes: "be_bytes w = [a, b, c, d] \<Longrightarrow> from_be_bytes a b c d = w"
proof -
  assume "be_bytes w = [a, b, c, d]"
  then have abcd: "a = ucast (drop_bit 24 w)" "b = ucast (drop_bit 16 w)" "c = ucast (drop_bit 8 w)" "d = ucast w"
    by (auto simp: be_bytes_def)
  have "\<forall>n \<in> set [0..<32]. bit (from_be_bytes a b c d) n = bit w n"
    unfolding abcd from_be_bytes_def by (simp add: upt_conv_Cons bit_simps, simp add: eval_nat_numeral)
  then show ?thesis by (auto intro: bit_word_eqI)
qed

text \<open>A reader of a stream of frames, as a client of the Connect protocol has it.\<close>

function frames :: "bytes \<Rightarrow> (u8 \<times> bytes) list option" where
  "frames bs =
     (case bs of
        [] \<Rightarrow> Some []
      | f # a # b # c # d # r \<Rightarrow>
          (let n = unat (from_be_bytes a b c d) in
           if length r < n then None else map_option ((#) (f, take n r)) (frames (drop n r)))
      | _ \<Rightarrow> None)"
  by pat_completeness auto
termination
  by (relation "measure length") auto

declare frames.simps [simp del]

lemma envelope_shape: "\<exists>a b c d. envelope f x = f # a # b # c # d # x
    \<and> (length x < 2 ^ 32 \<longrightarrow> unat (from_be_bytes a b c d) = length x)"
proof -
  define w :: u32 where "w = word_of_nat (length x)"
  obtain a b c d where be: "be_bytes w = [a, b, c, d]" by (simp add: be_bytes_def)
  moreover have "length x < 2 ^ 32 \<longrightarrow> unat w = length x"
    by (simp add: w_def unat_of_nat take_bit_nat_eq_self)
  ultimately show ?thesis by (auto simp: envelope_def w_def [symmetric] from_be_be_bytes [OF be])
qed

lemma frames_envelope:
  assumes "length x < 2 ^ 32"
  shows "frames (envelope f x @ r) = map_option ((#) (f, x)) (frames r)"
proof -
  obtain a b c d where "envelope f x = f # a # b # c # d # x" "unat (from_be_bytes a b c d) = length x"
    using envelope_shape [of f x] assms by blast
  then show ?thesis by (simp add: frames.simps [of "f # a # b # c # d # x @ r"])
qed

text \<open>C39: Frames that are sent one after the other are read back one by one, each with its flags
  and its payload, and the payload of the first one is what \<open>extract_body\<close> hands to the
  decoder of a streaming request; the only condition is that a payload is shorter than 4 GiB.\<close>

theorem frames_of_envelopes:
  assumes "\<forall>x \<in> set es. length (snd x) < 2 ^ 32"
  shows "frames (concat (map (\<lambda>(f, x). envelope f x) es)) = Some es
    \<and> (\<forall>f x es'. es = (f, x) # es' \<longrightarrow> (\<forall>ct. is_stream_ct ct \<longrightarrow>
         extract_body ct (concat (map (\<lambda>(f, x). envelope f x) es)) = Some x))"
proof (intro conjI allI impI)
  show "frames (concat (map (\<lambda>(f, x). envelope f x) es)) = Some es"
    using assms by (induction es) (auto simp: frames_envelope frames.simps [of "[]"])
next
  fix f x es' ct
  assume es: "es = (f, x) # es'" and ct: "is_stream_ct ct"
  obtain a b c d where "envelope f x = f # a # b # c # d # x" "unat (from_be_bytes a b c d) = length x"
    using envelope_shape [of f x] assms es by auto
  then show "extract_body ct (concat (map (\<lambda>(f, x). envelope f x) es)) = Some x"
    using es ct by (simp add: extract_body_def)
qed

theorem frames_of_envelopes_witness:
  "frames (envelope 0 [1, 2] @ envelope 2 [3] @ []) = Some [(0, [1, 2]), (2, [3])]
   \<and> extract_body ''application/connect+json'' (envelope 0 [1, 2] @ envelope 2 [3] @ []) = Some [1, 2]"
  using frames_of_envelopes [of "[(0, [1, 2]), (2, [3])]"]
  by (simp add: is_stream_ct_def starts_with_def)

text \<open>Without the condition the length field wraps: a payload of 4 GiB is announced as empty.\<close>

lemma envelope_wraps: "length x = 2 ^ 32 \<Longrightarrow> take 5 (envelope f x) = [f, 0, 0, 0, 0]"
  by (simp add: envelope_def be_bytes_def)

section \<open>Percent encoding\<close>

lemma of_char_nibbles: "of_char c div 16 < (16 :: nat)" "of_char c mod 16 < (16 :: nat)"
proof -
  have "(of_char c :: nat) < 256" by simp
  then show "of_char c div 16 < (16 :: nat)" "of_char c mod 16 < (16 :: nat)"
    using less_mult_imp_div_less [of "of_char c" 16 16] by simp_all
qed

lemma hex_val_digit: "n < 16 \<Longrightarrow> hex_val (hex_digit n) = Some n"
  by (auto simp: hex_val_def hex_digit_def Let_def)

lemma hex_digit_not_plus: "n < 16 \<Longrightarrow> hex_digit n \<noteq> CHR ''+''"
  by (auto simp: hex_digit_def char_of_eq_iff take_bit_nat_eq_self)

lemma from_hex_digits: "from_hex (hex_digit (of_char c div 16)) (hex_digit (of_char c mod 16)) = Some (of_char c)"
  by (simp add: from_hex_def hex_digit_not_plus hex_val_digit of_char_nibbles)

lemma unreserved_not_percent: "unreserved c \<Longrightarrow> c \<noteq> CHR ''%''"
  by (auto simp: unreserved_def Let_def)

lemma url_bytes_plain: "c \<noteq> CHR ''%'' \<Longrightarrow> url_bytes (c # s) = map_option ((#) c) (url_bytes s)"
  by (auto split: list.splits)

lemma url_bytes_encode: "url_bytes (urlencoding_encode s) = Some s"
proof (induction s)
  case (Cons c s)
  show ?case
  proof (cases "unreserved c")
    case True
    then show ?thesis
      using Cons unreserved_not_percent [OF True] by (simp add: url_bytes_plain del: url_bytes.simps)
  next
    case False
    then show ?thesis using Cons by (simp add: from_hex_digits)
  qed
qed simp

lemma hex_digit_unreserved: "n < 16 \<Longrightarrow> unreserved (hex_digit n)"
  by (auto simp: hex_digit_def unreserved_def Let_def)

text \<open>A token is carried through a URL unchanged: the encoding of every string decodes to the
  string itself, and it consists of unreserved characters and percent signs only, so it is one
  segment of a path.\<close>

theorem urlencoding_roundtrip:
  "valid_utf8 (as_bytes s) \<Longrightarrow>
     urlencoding_decode (urlencoding_encode s) = Some s
     \<and> list_all (\<lambda>c. unreserved c \<or> c = CHR ''%'') (urlencoding_encode s)"
proof
  assume "valid_utf8 (as_bytes s)"
  then show "urlencoding_decode (urlencoding_encode s) = Some s"
    by (simp add: urlencoding_decode_def url_bytes_encode)
  show "list_all (\<lambda>c. unreserved c \<or> c = CHR ''%'') (urlencoding_encode s)"
    by (induction s) (auto simp: hex_digit_unreserved of_char_nibbles)
qed

theorem urlencoding_roundtrip_witness:
  "urlencoding_decode (urlencoding_encode ''b1:a/b'') = Some ''b1:a/b'' \<and> urlencoding_encode ''b1:a/b'' = ''b1%3Aa%2Fb''"
proof -
  have "valid_utf8 (as_bytes ''b1:a/b'')"
    by (simp add: as_bytes_def utf8_seq_def utf8_width_def)
  then show ?thesis
    using urlencoding_roundtrip [of "''b1:a/b''"] by (simp add: unreserved_def hex_digit_def char_of_eq_iff)
qed

section \<open>Shell words\<close>

text \<open>
  A POSIX shell reading one word (XCU 2.2, 2.3) after the alias and reserved-word questions:
  unquoted text, single and double quotes. Everything the shell would expand or treat as a
  pattern makes the reader fail, so a word it returns reaches the command literally.
\<close>

definition sh_blank :: "char \<Rightarrow> bool" where
  "sh_blank c \<longleftrightarrow> c \<in> {CHR '' '', CHR 0x09, CHR 0x0A, CHR '';'', CHR ''&'', CHR ''|'', CHR ''<'', CHR ''>'', CHR ''('', CHR '')''}"

datatype quoting = Unquoted | Single | Double

fun sh_word :: "quoting \<Rightarrow> string \<Rightarrow> (string \<times> string) option" where
  "sh_word Unquoted [] = Some ([], [])"
| "sh_word Unquoted (c # s) =
     (if sh_blank c then Some ([], c # s)
      else if c = CHR 0x27 then sh_word Single s
      else if c = CHR 0x22 then sh_word Double s
      else if c \<in> {CHR ''$'', CHR 0x60, CHR 0x5C, CHR ''*'', CHR ''?'', CHR ''['', CHR ''~'', CHR ''#'', CHR ''{''} then None
      else map_option (apfst ((#) c)) (sh_word Unquoted s))"
| "sh_word Single [] = None"
| "sh_word Single (c # s) =
     (if c = CHR 0x27 then sh_word Unquoted s else map_option (apfst ((#) c)) (sh_word Single s))"
| "sh_word Double [] = None"
| "sh_word Double (c # s) =
     (if c = CHR 0x22 then sh_word Unquoted s
      else if c \<in> {CHR ''$'', CHR 0x60, CHR 0x5C} then None
      else map_option (apfst ((#) c)) (sh_word Double s))"

lemma replace_char: "replace [a] new (c # s) = (if c = a then new else [c]) @ replace [a] new s"
  by (simp add: starts_with_def)

lemma sh_blank_quotes [simp]: "\<not> sh_blank CHR 0x27" "\<not> sh_blank CHR 0x22"
  by (simp_all add: sh_blank_def)

lemma sh_word_single:
  "sh_word Single (replace [CHR 0x27] [CHR 0x27, CHR 0x22, CHR 0x27, CHR 0x22, CHR 0x27] s @ CHR 0x27 # r)
     = map_option (apfst ((@) s)) (sh_word Unquoted r)"
proof (induction s)
  case Nil
  then show ?case by (cases "sh_word Unquoted r") auto
next
  case (Cons c s)
  then show ?case
    by (cases "sh_word Unquoted r") (auto simp: replace_char simp del: replace.simps(2))
qed

text \<open>C40: A quoted string is one word of the command line with the string as its value, whatever
  characters it holds: nothing in a path or mount name is expanded, split or run by the shell the
  command is sent to.\<close>

theorem shell_quote_literal:
  "r = [] \<or> sh_blank (hd r) \<Longrightarrow> sh_word Unquoted (shell_quote s @ r) = Some (s, r)"
proof -
  assume "r = [] \<or> sh_blank (hd r)"
  then have "sh_word Unquoted r = Some ([], r)" by (cases r) auto
  then show ?thesis
    using sh_word_single [of s r] by (simp add: shell_quote_def sh_blank_def)
qed

theorem shell_quote_literal_witness:
  "sh_word Unquoted (shell_quote ''a$(rm)'' @ '' && x'') = Some (''a$(rm)'', '' && x'')
   \<and> shell_quote [CHR 0x27] = [CHR 0x27, CHR 0x27, CHR 0x22, CHR 0x27, CHR 0x22, CHR 0x27, CHR 0x27]"
  using shell_quote_literal [of "'' && x''" "''a$(rm)''"]
  by (simp add: sh_blank_def shell_quote_def starts_with_def)

section \<open>What the path and name helpers leave in\<close>

text \<open>
  \<open>tools_relative_path\<close> is documented to strip \<open>..\<close> segments as well, \<open>s3_key\<close> to produce no
  duplicate slashes, and \<open>sanitize_name\<close> to yield a template name; none of the three does.
\<close>

lemma tools_relative_path_keeps_dotdot: "tools_relative_path ''/../etc'' = ''../etc''"
  by (simp add: tools_relative_path_def trim_start_matches_def)

lemma s3_key_keeps_duplicate_slashes: "s3_key ''v'' ''a//b'' = ''v/a//b''"
  by (simp add: s3_key_def trim_matches_def trim_start_matches_def trim_end_matches_def)

lemma sanitize_name_keeps_dotdot: "sanitize_name ''..'' = ''..''"
  by (simp add: sanitize_name_def name_char_def)

text \<open>The path below a volume: only ordinary names remain.\<close>

lemma clean_rel_path_Normal: "\<exists>ns. clean_rel_path p = map Normal ns"
proof -
  have "\<exists>ns. filter is_Normal cs = map Normal ns" for cs
  proof (induction cs)
    case (Cons c cs)
    then obtain ns where "filter is_Normal cs = map Normal ns" by blast
    then show ?case
      by (cases c) (auto intro: exI [of _ ns] exI [of _ "x # ns" for x])
  qed simp
  then show ?thesis by (simp add: clean_rel_path_def)
qed

end
