(* ===== verification/Shim_State.thy ===== *)
theory Shim_State
  imports Shim_Codec Http_Model Fs_Model "HOL-Library.Monad_Syntax"
begin

text \<open>
  The state of \<open>e2b-shim\<close> (\<open>AppState\<close> with its records), what it asks of the outside world, the
  registry files that carry the sandboxes over a restart, the API-key check, and the calls to the
  tool daemon through \<open>api-rust\<close>. The file system below the shim is part of the state; the
  network, the clock, randomness, S3 and the JSON and date formats are the parameter \<open>host\<close>.
\<close>

section \<open>Records\<close>

record sandbox_volume_mount =
  mnt_name :: string
  mnt_path :: string

record sandbox_rec =
  sb_id :: string
  sb_template_id :: string
  sb_client_id :: string
  sb_domain :: "string option"
  sb_envd_version :: string
  sb_access_token :: "string option"
  sb_alias :: "string option"
  sb_metadata :: "json option"
  sb_started_at :: string
  sb_end_at :: string
  sb_cpu_count :: int
  sb_memory_mb :: int
  sb_disk_size_mb :: int
  sb_state :: string
  sb_volume_mounts :: "sandbox_volume_mount list"

definition default_cpu :: int where "default_cpu = 2"
definition default_mem :: int where "default_mem = 1024"
definition default_disk :: int where "default_disk = 4096"
definition default_state :: string where "default_state = ''running''"

record s3_volume_cfg =
  s3_bucket :: string
  s3_prefix :: string
  s3_region :: string
  s3_endpoint :: string

datatype volume_backend = Local | S3 s3_volume_cfg

record volume_rec =
  vol_id :: string
  vol_name :: string
  vol_token :: string
  vol_size_mb :: int
  vol_created_at :: string
  vol_backend :: volume_backend

record snapshot_rec =
  snap_id :: string
  snap_sandbox_id :: string
  snap_template_id :: string
  snap_tos_url :: string
  snap_created_at :: string

datatype build_status = Pending | Building | Ready | BuildError

record template_build =
  tb_template_id :: string
  tb_build_id :: string
  tb_name :: string
  tb_status :: build_status
  tb_logs :: "string list"

text \<open>An opened bucket: name, region, endpoint, access key, secret key.\<close>

record bucket =
  bk_name :: string
  bk_region :: string
  bk_endpoint :: string
  bk_keys :: "string \<times> string"

text \<open>
  \<open>AppState\<close>. A \<open>TemplateBuild\<close> is shared by reference between the table and the task of its
  build; it is identified by its build id here. \<open>host_fs\<close> and \<open>outside\<close> stand for the machine and
  for everything else.
\<close>

record 's shim =
  sandboxes :: "(string, sandbox_rec) table"
  upstream :: string
  api_key :: "string option"
  tos :: "bucket option"
  template_builds :: "(string, template_build) table"
  template_id_to_build :: "(string, string) table"
  template_tags :: "(string, string list) table"
  volumes :: "(string, volume_rec) table"
  snapshots :: "(string, snapshot_rec) table"
  s3_creds :: "(string, string \<times> string) table"
  host_fs :: fs
  outside :: 's

section \<open>The outside world\<close>

text \<open>
  \<open>post_json\<close> is a POST of a JSON body (or of no body) through \<open>reqwest\<close>, \<open>post_stream\<close> one whose
  answer is read in chunks until it ends or fails, \<open>delete_url\<close> a DELETE whose outcome the code
  ignores. Times are nanoseconds since 1970. \<open>add_secs\<close> is \<open>Utc::now() +
  chrono::Duration::seconds(_)\<close>, which panics out of range (\<open>None\<close>). The bucket calls answer with
  a transport error or the status; \<open>s3_list\<close> gives the keys of all pages. \<open>stat_of\<close> is what
  \<open>lstat\<close> reports beyond the nodes of the model.
\<close>

record file_stat =
  fst_size :: nat
  fst_mode :: nat
  fst_uid :: nat
  fst_gid :: nat
  fst_mtime :: int

record 's host =
  post_json :: "string \<Rightarrow> json option \<Rightarrow> 's \<Rightarrow> http_result \<times> 's"
  post_stream :: "string \<Rightarrow> 's \<Rightarrow> (string + nat \<times> bytes list) \<times> 's"
  delete_url :: "string \<Rightarrow> 's \<Rightarrow> 's"
  now :: "'s \<Rightarrow> int"
  uuid :: "'s \<Rightarrow> string \<times> 's"
  add_secs :: "int \<Rightarrow> int \<Rightarrow> int option"
  rfc3339 :: "int \<Rightarrow> string"
  of_rfc3339 :: "string \<Rightarrow> int option"
  format_time :: "string \<Rightarrow> int \<Rightarrow> string"
  json_text :: "json \<Rightarrow> string"
  json_pretty :: "json \<Rightarrow> bytes"
  of_json_text :: "bytes \<Rightarrow> json option"
  json_err :: "bytes option \<Rightarrow> string"
  debug_str :: "string \<Rightarrow> string"
  status_text :: "nat \<Rightarrow> string"
  creds_err :: "string \<times> string \<Rightarrow> string option"
  bucket_err :: "bucket \<Rightarrow> string option"
  s3_put :: "bucket \<Rightarrow> string \<Rightarrow> bytes \<Rightarrow> 's \<Rightarrow> (string + nat) \<times> 's"
  s3_get :: "bucket \<Rightarrow> string \<Rightarrow> 's \<Rightarrow> (string + nat \<times> bytes) \<times> 's"
  s3_del :: "bucket \<Rightarrow> string \<Rightarrow> 's \<Rightarrow> (string + nat) \<times> 's"
  s3_list :: "bucket \<Rightarrow> string \<Rightarrow> 's \<Rightarrow> (string + string list) \<times> 's"
  tar_gz :: "fs \<Rightarrow> path \<Rightarrow> string + bytes"
  stat_of :: "fs \<Rightarrow> string list \<Rightarrow> file_stat"

type_synonym ('s, 'a) act = "'s shim \<Rightarrow> (http_err + 'a) \<times> 's shim"

abbreviation with_world :: "('s \<Rightarrow> 'a \<times> 's) \<Rightarrow> 's shim \<Rightarrow> 'a \<times> 's shim" where
  "with_world f st \<equiv> (case f (outside st) of (x, s) \<Rightarrow> (x, st\<lparr>outside := s\<rparr>))"

text \<open>The error bodies of the shim.\<close>

definition err_json :: "string \<Rightarrow> string \<Rightarrow> string" where
  "err_json code msg = ''{\"code\":\"'' @ code @ ''\",\"message\":\"'' @ msg @ ''\"}''"

definition env_nonempty :: "env \<Rightarrow> string \<Rightarrow> string option" where
  "env_nonempty env k = Option.bind (env k) (\<lambda>s. if s = [] then None else Some s)"

definition non_empty :: "string option \<Rightarrow> string option" where
  "non_empty v = Option.bind v (\<lambda>s. if s = [] then None else Some s)"

section \<open>Sandbox records as JSON\<close>

fun opt_json :: "string option \<Rightarrow> json" where
  "opt_json None = JNull"
| "opt_json (Some s) = JStr s"

definition mount_json :: "sandbox_volume_mount \<Rightarrow> json" where
  "mount_json m = JObj [(''name'', JStr (mnt_name m)), (''path'', JStr (mnt_path m))]"

definition mount_of_json :: "json \<Rightarrow> sandbox_volume_mount option" where
  "mount_of_json j = do {
     fs \<leftarrow> as_struct [''name'', ''path''] j;
     n \<leftarrow> field ''name'' j_str fs;
     p \<leftarrow> field ''path'' j_str fs;
     Some \<lparr>mnt_name = n, mnt_path = p\<rparr> }"

definition sandbox_json :: "sandbox_rec \<Rightarrow> json" where
  "sandbox_json r = JObj
     [(''sandboxID'', JStr (sb_id r)),
      (''templateID'', JStr (sb_template_id r)),
      (''clientID'', JStr (sb_client_id r)),
      (''domain'', opt_json (sb_domain r)),
      (''envdVersion'', JStr (sb_envd_version r)),
      (''envdAccessToken'', opt_json (sb_access_token r)),
      (''alias'', opt_json (sb_alias r)),
      (''metadata'', or_default (sb_metadata r) JNull),
      (''startedAt'', JStr (sb_started_at r)),
      (''endAt'', JStr (sb_end_at r)),
      (''cpuCount'', JNum (sb_cpu_count r)),
      (''memoryMB'', JNum (sb_memory_mb r)),
      (''diskSizeMB'', JNum (sb_disk_size_mb r)),
      (''state'', JStr (sb_state r)),
      (''volumeMounts'', JArr (map mount_json (sb_volume_mounts r)))]"

definition sandbox_fields :: "string list" where
  "sandbox_fields = [''sandboxID'', ''templateID'', ''clientID'', ''domain'', ''envdVersion'',
     ''envdAccessToken'', ''alias'', ''metadata'', ''startedAt'', ''endAt'', ''cpuCount'', ''memoryMB'',
     ''diskSizeMB'', ''state'', ''volumeMounts'']"

abbreviation j_u32 :: "json \<Rightarrow> int option" where
  "j_u32 \<equiv> j_int 0 (2 ^ 32 - 1)"

definition sandbox_of_json :: "json \<Rightarrow> sandbox_rec option" where
  "sandbox_of_json j = do {
     fs \<leftarrow> as_struct sandbox_fields j;
     sid \<leftarrow> field ''sandboxID'' j_str fs;
     tid \<leftarrow> field ''templateID'' j_str fs;
     cid \<leftarrow> field ''clientID'' j_str fs;
     dom \<leftarrow> field_opt ''domain'' j_str fs;
     ver \<leftarrow> field ''envdVersion'' j_str fs;
     tok \<leftarrow> field_opt ''envdAccessToken'' j_str fs;
     ali \<leftarrow> field_opt ''alias'' j_str fs;
     meta \<leftarrow> field_opt ''metadata'' Some fs;
     sta \<leftarrow> field ''startedAt'' j_str fs;
     en \<leftarrow> field ''endAt'' j_str fs;
     cpu \<leftarrow> field_or default_cpu ''cpuCount'' j_u32 fs;
     mem \<leftarrow> field_or default_mem ''memoryMB'' j_u32 fs;
     disk \<leftarrow> field_or default_disk ''diskSizeMB'' j_u32 fs;
     stt \<leftarrow> field_or default_state ''state'' j_str fs;
     mts \<leftarrow> field_or [] ''volumeMounts'' (j_list mount_of_json) fs;
     Some \<lparr>sb_id = sid, sb_template_id = tid, sb_client_id = cid, sb_domain = dom, sb_envd_version = ver,
       sb_access_token = tok, sb_alias = ali, sb_metadata = meta, sb_started_at = sta, sb_end_at = en,
       sb_cpu_count = cpu, sb_memory_mb = mem, sb_disk_size_mb = disk, sb_state = stt,
       sb_volume_mounts = mts\<rparr> }"

section \<open>Registry files\<close>

definition SANDBOX_FS_ROOT :: path where
  "SANDBOX_FS_ROOT = components ''/var/lib/e2b-shim/sandboxes''"

definition SANDBOX_REGISTRY_DIR :: path where
  "SANDBOX_REGISTRY_DIR = components ''/var/lib/e2b-shim/registry''"

definition sandbox_fs_dir :: "string \<Rightarrow> path" where
  "sandbox_fs_dir sid = path_join SANDBOX_FS_ROOT sid"

definition registry_path :: "string \<Rightarrow> path" where
  "registry_path sid = path_join SANDBOX_REGISTRY_DIR (sid @ ''.json'')"

text \<open>\<open>let _ = \<dots>\<close> on a file operation: the error is dropped.\<close>

definition best_effort :: "(fs \<Rightarrow> io_error + fs) \<Rightarrow> fs \<Rightarrow> fs" where
  "best_effort f fs = (case f fs of Inl _ \<Rightarrow> fs | Inr fs' \<Rightarrow> fs')"

definition persist_sandbox :: "'s host \<Rightarrow> sandbox_rec \<Rightarrow> fs \<Rightarrow> fs" where
  "persist_sandbox h r fs =
     best_effort (\<lambda>fs. fs_write fs (registry_path (sb_id r)) (json_pretty h (sandbox_json r)))
       (snd (create_dir_all fs SANDBOX_REGISTRY_DIR))"

definition forget_sandbox :: "string \<Rightarrow> fs \<Rightarrow> fs" where
  "forget_sandbox sid = best_effort (\<lambda>fs. fs_remove_file fs (registry_path sid))"

text \<open>\<open>Path::extension\<close> of a file name: what follows the last dot, unless the name starts with it.\<close>

definition file_extension :: "string \<Rightarrow> string option" where
  "file_extension n =
     (let ext = rev (takeWhile (\<lambda>c. c \<noteq> CHR ''.'') (rev n)) in
      if Suc (length ext) < length n then Some ext else None)"

definition load_registry :: "'s host \<Rightarrow> fs \<Rightarrow> sandbox_rec list" where
  "load_registry h fs =
     (case fs_read_dir fs SANDBOX_REGISTRY_DIR of
        Inl _ \<Rightarrow> []
      | Inr ents \<Rightarrow> List.map_filter
          (\<lambda>(n, _). if file_extension n \<noteq> Some ''json'' then None
             else (case fs_read fs (path_join SANDBOX_REGISTRY_DIR n) of
                     Inl _ \<Rightarrow> None
                   | Inr bs \<Rightarrow> Option.bind (of_json_text h bs) sandbox_of_json)) ents)"

text \<open>Start-up: configuration from the environment, the sandboxes of the registry files.\<close>

definition tos_from_env :: "'s host \<Rightarrow> env \<Rightarrow> bucket option" where
  "tos_from_env h env = do {
     name \<leftarrow> env_nonempty env ''TOS_BUCKET'';
     ep \<leftarrow> env_nonempty env ''TOS_S3_ENDPOINT'';
     ak \<leftarrow> env_nonempty env ''TOS_ACCESS_KEY'';
     sk \<leftarrow> env_nonempty env ''TOS_SECRET_KEY'';
     if creds_err h (ak, sk) \<noteq> None then None
     else let b = \<lparr>bk_name = name, bk_region = or_default (env ''TOS_REGION'') ''cn-beijing'',
                   bk_endpoint = ep, bk_keys = (ak, sk)\<rparr>
       in if bucket_err h b \<noteq> None then None else Some b }"

definition shim_boot :: "'s host \<Rightarrow> env \<Rightarrow> fs \<Rightarrow> 's \<Rightarrow> 's shim" where
  "shim_boot h env fs s =
     \<lparr>sandboxes = fold (\<lambda>r. AList.update (sb_id r) r) (load_registry h fs) [],
      upstream = or_default (env ''E2B_SHIM_UPSTREAM'') ''http://127.0.0.1:8000'',
      api_key = env ''E2B_SHIM_API_KEY'', tos = tos_from_env h env,
      template_builds = [], template_id_to_build = [], template_tags = [], volumes = [], snapshots = [],
      s3_creds = [], host_fs = fs, outside = s\<rparr>"

section \<open>Authorisation\<close>

definition check_api_key :: "'s shim \<Rightarrow> headers \<Rightarrow> unit result" where
  "check_api_key st hs =
     (case api_key st of
        None \<Rightarrow> Inr ()
      | Some want \<Rightarrow>
          let got = or_else (header_str hs ''x-api-key'')
                      (Option.bind (header_str hs ''authorization'') (\<lambda>s. strip_prefix s ''Bearer '')) in
          if got = Some want then Inr ()
          else Inl (UNAUTHORIZED, err_json ''unauthenticated'' ''invalid X-API-KEY''))"

text \<open>\<open>check_api_key(&state, &headers).await?\<close> at the head of a handler.\<close>

definition authorized :: "headers \<Rightarrow> ('s, 'a) act \<Rightarrow> ('s, 'a) act" where
  "authorized hs f st = (case check_api_key st hs of Inl e \<Rightarrow> (Inl e, st) | Inr _ \<Rightarrow> f st)"

section \<open>Calls to the tool daemon\<close>

definition tools_url :: "'s shim \<Rightarrow> string \<Rightarrow> string \<Rightarrow> string" where
  "tools_url st sid tool = upstream st @ ''/v2/sessions/'' @ sid @ ''/tools/'' @ tool"

text \<open>\<open>resp.json()\<close>: reading the body, then parsing it.\<close>

definition body_json :: "'s host \<Rightarrow> bytes option \<Rightarrow> json option" where
  "body_json h b = Option.bind b (of_json_text h)"

definition forward_tools_tool :: "'s host \<Rightarrow> string \<Rightarrow> string \<Rightarrow> json \<Rightarrow> ('s, json) act" where
  "forward_tools_tool h sid tool b st =
     (case with_world (post_json h (tools_url st sid tool) (Some b)) st of
        (Inl e, st1) \<Rightarrow> (Inl (BAD_GATEWAY, ''forward tools/'' @ tool @ '': '' @ e), st1)
      | (Inr (status, body), st1) \<Rightarrow>
          (case body_json h body of
             None \<Rightarrow> (Inl (BAD_GATEWAY, ''forward json: '' @ json_err h body), st1)
           | Some v \<Rightarrow> (if is_success status then Inr v else Inl (status, json_text h v), st1)))"

record tools_bash_resp =
  tbr_stdout :: string
  tbr_stderr :: string
  tbr_exit_code :: int
  tbr_timed_out :: bool

definition tools_bash_of_json :: "json \<Rightarrow> tools_bash_resp option" where
  "tools_bash_of_json j = do {
     fs \<leftarrow> as_struct [''stdout'', ''stderr'', ''exit_code'', ''timed_out''] j;
     out \<leftarrow> field ''stdout'' j_str fs;
     err \<leftarrow> field ''stderr'' j_str fs;
     code \<leftarrow> field ''exit_code'' (j_int (- (2 ^ 31)) (2 ^ 31 - 1)) fs;
     tmo \<leftarrow> field_or False ''timed_out'' j_bool fs;
     Some \<lparr>tbr_stdout = out, tbr_stderr = err, tbr_exit_code = code, tbr_timed_out = tmo\<rparr> }"

definition run_tools_bash :: "'s host \<Rightarrow> string \<Rightarrow> string \<Rightarrow> nat \<Rightarrow> ('s, tools_bash_resp) act" where
  "run_tools_bash h sid command timeout st =
     (case with_world (post_json h (tools_url st sid ''bash'')
             (Some (JObj [(''command'', JStr command), (''timeout'', JNum (int timeout))]))) st of
        (Inl e, st1) \<Rightarrow> (Inl (BAD_GATEWAY, ''tools bash: '' @ e), st1)
      | (Inr (status, body), st1) \<Rightarrow>
          (case Option.bind (body_json h body) tools_bash_of_json of
             None \<Rightarrow> (Inl (BAD_GATEWAY, ''tools bash json: '' @ json_err h body), st1)
           | Some r \<Rightarrow>
               if \<not> is_success status \<or> tbr_exit_code r \<noteq> 0 \<or> tbr_timed_out r then
                 (Inl (BAD_GATEWAY, err_json ''bad_gateway'' (''tools bash failed status='' @ status_text h status
                    @ '' exit='' @ show_int (tbr_exit_code r)
                    @ '' timed_out='' @ (if tbr_timed_out r then ''true'' else ''false'')
                    @ '' stderr='' @ debug_str h (tbr_stderr r) @ '' stdout='' @ debug_str h (tbr_stdout r))), st1)
               else (Inr r, st1)))"

definition write_tools_file :: "'s host \<Rightarrow> string \<Rightarrow> string \<Rightarrow> bytes \<Rightarrow> ('s, unit) act" where
  "write_tools_file h sid rel bs =
     io_try (run_tools_bash h sid
         (''mkdir -p -- $(dirname -- '' @ shell_quote rel @ '') && base64 -d > '' @ shell_quote rel
          @ '' <<'' @ [CHR 0x27] @ ''EOF'' @ [CHR 0x27, CHR 0x0A] @ general_b64 bs @ [CHR 0x0A] @ ''EOF'') 120)
       (\<lambda>_. io_lift (Inr ()))"

end
