(* ===== verification/Shim_Volumes.thy ===== *)
theory Shim_Volumes
  imports Shim_State "HOL-Library.List_Lexorder" "HOL-Library.Char_ord"
begin

text \<open>
  Volumes: their records and directories, the S3 backend, the content routes
  \<open>/volumecontent/*\<close>, the copy of a volume into a session when it is mounted, and the mirroring
  of session writes and deletes back to the volume.
\<close>

section \<open>Paths\<close>

definition volumes_root :: "env \<Rightarrow> path" where
  "volumes_root env = components (or_default (env ''E2B_SHIM_VOLUMES_ROOT'') ''/var/lib/e2b-shim/volumes'')"

definition volume_fs_dir :: "env \<Rightarrow> string \<Rightarrow> path" where
  "volume_fs_dir env vid = path_join (volumes_root env) vid"

definition volume_path :: "env \<Rightarrow> string \<Rightarrow> string \<Rightarrow> path" where
  "volume_path env vid p = volume_fs_dir env vid @ clean_rel_path p"

text \<open>File operations of a handler, with the error they answer with.\<close>

definition fs_step :: "(io_error \<Rightarrow> http_err) \<Rightarrow> (fs \<Rightarrow> io_error + fs) \<Rightarrow> ('s, unit) act" where
  "fs_step g f st = (case f (host_fs st) of Inl e \<Rightarrow> (Inl (g e), st) | Inr fs \<Rightarrow> (Inr (), st\<lparr>host_fs := fs\<rparr>))"

definition dirs_step :: "(io_error \<Rightarrow> http_err) \<Rightarrow> path \<Rightarrow> ('s, unit) act" where
  "dirs_step g p st = (case create_dir_all (host_fs st) p of (r, fs) \<Rightarrow> (map_err g r, st\<lparr>host_fs := fs\<rparr>))"

abbreviation on_fs :: "(fs \<Rightarrow> fs) \<Rightarrow> 's shim \<Rightarrow> 's shim" where
  "on_fs f st \<equiv> st\<lparr>host_fs := f (host_fs st)\<rparr>"

section \<open>The S3 backend\<close>

definition creds_lookup :: "env \<Rightarrow> string \<Rightarrow> 's shim \<Rightarrow> (string \<times> string) option" where
  "creds_lookup env vid st =
     (case map_of (s3_creds st) vid of
        Some v \<Rightarrow> Some v
      | None \<Rightarrow> do {
          ak \<leftarrow> env_nonempty env ''TOS_ACCESS_KEY'';
          sk \<leftarrow> env_nonempty env ''TOS_SECRET_KEY'';
          Some (ak, sk) })"

definition s3_bucket_for :: "'s host \<Rightarrow> env \<Rightarrow> string \<Rightarrow> s3_volume_cfg \<Rightarrow> 's shim \<Rightarrow> bucket result" where
  "s3_bucket_for h env vid cfg st =
     (case creds_lookup env vid st of
        None \<Rightarrow> Inl (BAD_REQUEST, err_json ''s3_unconfigured'' ''no S3 credentials available for this volume'')
      | Some ks \<Rightarrow>
          (case creds_err h ks of
             Some e \<Rightarrow> Inl (BAD_REQUEST, err_json ''s3_unconfigured'' (''invalid S3 credentials: '' @ e))
           | None \<Rightarrow>
               let b = \<lparr>bk_name = s3_bucket cfg, bk_region = s3_region cfg, bk_endpoint = s3_endpoint cfg, bk_keys = ks\<rparr> in
               (case bucket_err h b of
                  Some e \<Rightarrow> Inl (BAD_REQUEST, err_json ''s3_unconfigured'' (''bucket setup failed: '' @ e))
                | None \<Rightarrow> Inr b)))"

text \<open>A bucket call: its transport error, then the tests of its status.\<close>

definition s3_call :: "(string \<Rightarrow> http_err) \<Rightarrow> ('s \<Rightarrow> (string + 'a) \<times> 's) \<Rightarrow> ('s, 'a) act" where
  "s3_call g f = io_err g (with_world f)"

definition s3_put_file :: "'s host \<Rightarrow> env \<Rightarrow> string \<Rightarrow> s3_volume_cfg \<Rightarrow> string \<Rightarrow> bytes \<Rightarrow> ('s, unit) act" where
  "s3_put_file h env vid cfg rel bs st =
     (case s3_bucket_for h env vid cfg st of
        Inl e \<Rightarrow> (Inl e, st)
      | Inr b \<Rightarrow>
          io_try (s3_call (\<lambda>e. (BAD_GATEWAY, ''s3 put_object: '' @ e)) (s3_put h b (s3_key (s3_prefix cfg) rel) bs))
            (\<lambda>code. io_lift (if is_success code then Inr ()
                             else Inl (BAD_GATEWAY, ''s3 put_object status='' @ show_nat code))) st)"

definition s3_get_file :: "'s host \<Rightarrow> env \<Rightarrow> string \<Rightarrow> s3_volume_cfg \<Rightarrow> string \<Rightarrow> ('s, bytes) act" where
  "s3_get_file h env vid cfg rel st =
     (case s3_bucket_for h env vid cfg st of
        Inl e \<Rightarrow> (Inl e, st)
      | Inr b \<Rightarrow>
          io_try (s3_call (\<lambda>e. (NOT_FOUND, ''s3 get_object: '' @ e)) (s3_get h b (s3_key (s3_prefix cfg) rel)))
            (\<lambda>(code, bs). io_lift (if code = 404 then Inl (NOT_FOUND, ''not found'')
                             else if is_success code then Inr bs
                             else Inl (BAD_GATEWAY, ''s3 get_object status='' @ show_nat code))) st)"

definition s3_delete_object :: "'s host \<Rightarrow> env \<Rightarrow> string \<Rightarrow> s3_volume_cfg \<Rightarrow> string \<Rightarrow> ('s, unit) act" where
  "s3_delete_object h env vid cfg rel st =
     (case s3_bucket_for h env vid cfg st of
        Inl e \<Rightarrow> (Inl e, st)
      | Inr b \<Rightarrow>
          io_try (s3_call (\<lambda>e. (BAD_GATEWAY, ''s3 delete_object: '' @ e)) (s3_del h b (s3_key (s3_prefix cfg) rel)))
            (\<lambda>code. io_lift (if code = 404 \<or> is_success code then Inr ()
                             else Inl (BAD_GATEWAY, ''s3 delete_object status='' @ show_nat code))) st)"

text \<open>The key of an entry relative to the volume.\<close>

definition s3_rel_key :: "s3_volume_cfg \<Rightarrow> string \<Rightarrow> string" where
  "s3_rel_key cfg key =
     (let strip = (if s3_prefix cfg = [] then [] else trim_matches CHR ''/'' (s3_prefix cfg) @ ''/'') in
      if strip \<noteq> [] \<and> starts_with key strip then drop (length strip) key
      else trim_start_matches CHR ''/'' key)"

definition s3_list_prefix :: "'s host \<Rightarrow> env \<Rightarrow> string \<Rightarrow> s3_volume_cfg \<Rightarrow> string \<Rightarrow> ('s, string list) act" where
  "s3_list_prefix h env vid cfg rel st =
     (case s3_bucket_for h env vid cfg st of
        Inl e \<Rightarrow> (Inl e, st)
      | Inr b \<Rightarrow>
          io_try (s3_call (\<lambda>e. (BAD_GATEWAY, ''s3 list: '' @ e)) (s3_list h b (s3_key (s3_prefix cfg) rel)))
            (\<lambda>ks. io_lift (Inr (map (s3_rel_key cfg) ks))) st)"

text \<open>\<open>for x in xs { f(x).await?; }\<close>\<close>

fun each :: "('a \<Rightarrow> ('s, unit) act) \<Rightarrow> 'a list \<Rightarrow> ('s, unit) act" where
  "each f [] st = (Inr (), st)"
| "each f (x # xs) st = io_try (f x) (\<lambda>_. each f xs) st"

definition s3_delete_prefix :: "'s host \<Rightarrow> env \<Rightarrow> string \<Rightarrow> s3_volume_cfg \<Rightarrow> string \<Rightarrow> ('s, unit) act" where
  "s3_delete_prefix h env vid cfg rel =
     io_try (s3_list_prefix h env vid cfg rel) (each (s3_delete_object h env vid cfg))"

section \<open>Volume records\<close>

record s3_create_body =
  sc_bucket :: "string option"
  sc_prefix :: "string option"
  sc_region :: "string option"
  sc_endpoint :: "string option"
  sc_access_key :: "string option"
  sc_secret_key :: "string option"

record create_volume_body =
  cv_name :: "string option"
  cv_size_mb :: "int option"
  cv_backend :: "string option"
  cv_s3 :: "s3_create_body option"

definition no_s3_body :: s3_create_body where
  "no_s3_body = \<lparr>sc_bucket = None, sc_prefix = None, sc_region = None, sc_endpoint = None,
     sc_access_key = None, sc_secret_key = None\<rparr>"

definition resolve_s3_cfg :: "env \<Rightarrow> s3_create_body option \<Rightarrow> string
    \<Rightarrow> (s3_volume_cfg \<times> (string \<times> string) option) result" where
  "resolve_s3_cfg env body vid =
     (let b = or_default body no_s3_body in
      rtry (ok_or (BAD_REQUEST, err_json ''s3_unconfigured''
             ''no bucket: provide s3.bucket or set S3_VOLUME_DEFAULT_BUCKET / TOS_BUCKET'')
           (or_else (non_empty (sc_bucket b)) (or_else (env_nonempty env ''S3_VOLUME_DEFAULT_BUCKET'')
              (env_nonempty env ''TOS_BUCKET'')))) (\<lambda>bucket.
      let region = or_default (or_else (non_empty (sc_region b)) (env_nonempty env ''TOS_REGION'')) ''cn-beijing'' in
      rtry (ok_or (BAD_REQUEST, err_json ''s3_unconfigured''
             ''no endpoint: provide s3.endpoint or set TOS_S3_ENDPOINT'')
           (or_else (non_empty (sc_endpoint b)) (env_nonempty env ''TOS_S3_ENDPOINT''))) (\<lambda>endpoint.
      let pre = (case or_else (non_empty (sc_prefix b)) (env_nonempty env ''S3_VOLUME_DEFAULT_PREFIX'') of
                   None \<Rightarrow> vid
                 | Some p \<Rightarrow> let q = trim_matches CHR ''/'' p in if q = [] then vid else q @ ''/'' @ vid);
          creds = (case (sc_access_key b, sc_secret_key b) of
                     (Some ak, Some sk) \<Rightarrow> if ak \<noteq> [] \<and> sk \<noteq> [] then Some (ak, sk) else None
                   | _ \<Rightarrow> None) in
      if creds = None \<and> (env_nonempty env ''TOS_ACCESS_KEY'' = None \<or> env_nonempty env ''TOS_SECRET_KEY'' = None)
      then Inl (BAD_REQUEST, err_json ''s3_unconfigured''
             ''no credentials: provide s3.accessKey/secretKey or set TOS_ACCESS_KEY/TOS_SECRET_KEY'')
      else Inr (\<lparr>s3_bucket = bucket, s3_prefix = pre, s3_region = region, s3_endpoint = endpoint\<rparr>, creds))))"

text \<open>The backend of a new volume; explicit S3 keys are recorded at once.\<close>

definition choose_backend :: "env \<Rightarrow> create_volume_body \<Rightarrow> string \<Rightarrow> ('s, volume_backend) act" where
  "choose_backend env b vid st =
     (let nm = map ascii_lower (or_default (cv_backend b) ''local'') in
      if nm = ''local'' then (Inr Local, st)
      else if nm = ''s3'' then
        (case resolve_s3_cfg env (cv_s3 b) vid of
           Inl e \<Rightarrow> (Inl e, st)
         | Inr (cfg, None) \<Rightarrow> (Inr (S3 cfg), st)
         | Inr (cfg, Some ks) \<Rightarrow> (Inr (S3 cfg), st\<lparr>s3_creds := AList.update vid ks (s3_creds st)\<rparr>))
      else (Inl (BAD_REQUEST, err_json ''bad_request'' (''unknown backend: '' @ nm)), st))"

definition volumes_create :: "'s host \<Rightarrow> env \<Rightarrow> headers \<Rightarrow> create_volume_body \<Rightarrow> ('s, status \<times> volume_rec) act" where
  "volumes_create h env hs b = authorized hs (\<lambda>st.
     let vid = ''vol'' @ format_time h ''%Y%m%dT%H%M%SZ%f'' (now h (outside st)) in
     io_try (choose_backend env b vid) (\<lambda>be st1.
       let (tok, s) = uuid h (outside st1); st2 = st1\<lparr>outside := s\<rparr>;
           r = \<lparr>vol_id = vid, vol_name = or_default (cv_name b) vid, vol_token = tok,
                vol_size_mb = or_default (cv_size_mb b) 1024, vol_created_at = rfc3339 h (now h s), vol_backend = be\<rparr> in
       io_try (dirs_step (\<lambda>e. (INTERNAL_SERVER_ERROR, err_json ''internal'' (''create volume dir: '' @ io_msg e)))
                 (volume_fs_dir env vid))
         (\<lambda>_ st3. (Inr (CREATED, r), st3\<lparr>volumes := AList.update vid r (volumes st3)\<rparr>)) st2) st)"

definition volumes_list :: "headers \<Rightarrow> ('s, volume_rec list) act" where
  "volumes_list hs = authorized hs (\<lambda>st. (Inr (map snd (volumes st)), st))"

definition volume_get :: "headers \<Rightarrow> string \<Rightarrow> ('s, volume_rec) act" where
  "volume_get hs vid = authorized hs (\<lambda>st.
     (ok_or (NOT_FOUND, ''volume '' @ vid @ '' not found'') (map_of (volumes st) vid), st))"

definition volume_delete :: "env \<Rightarrow> headers \<Rightarrow> string \<Rightarrow> ('s, status) act" where
  "volume_delete env hs vid = authorized hs (\<lambda>st.
     (Inr NO_CONTENT,
      on_fs (best_effort (\<lambda>fs. fs_remove_dir_all fs (volume_fs_dir env vid)))
        (st\<lparr>volumes := AList.delete vid (volumes st), s3_creds := AList.delete vid (s3_creds st)\<rparr>)))"

definition volume_rec_of :: "string \<Rightarrow> 's shim \<Rightarrow> volume_rec result" where
  "volume_rec_of vid st =
     ok_or (NOT_FOUND, err_json ''not_found'' (''volume '' @ vid @ '' not found'')) (map_of (volumes st) vid)"

definition check_volume_auth :: "headers \<Rightarrow> volume_rec \<Rightarrow> unit result" where
  "check_volume_auth hs v =
     (let got = or_else (Option.bind (header_str hs ''authorization'') (\<lambda>s. strip_prefix s ''Bearer ''))
                  (header_str hs ''x-api-key'') in
      if got = Some (vol_token v) then Inr ()
      else if vol_token v \<noteq> [] then Inl (UNAUTHORIZED, err_json ''unauthenticated'' ''invalid volume token'')
      else Inr ())"

section \<open>Content routes\<close>

record volume_query =
  vq_path :: string
  vq_force :: "bool option"
  vq_depth :: "nat option"

text \<open>The head of every content handler: the record of the volume, then its token.\<close>

definition with_volume :: "headers \<Rightarrow> string \<Rightarrow> (volume_rec \<Rightarrow> ('s, 'a) act) \<Rightarrow> ('s, 'a) act" where
  "with_volume hs vid f st =
     io_try (io_lift (volume_rec_of vid st)) (\<lambda>v. io_try (io_lift (check_volume_auth hs v)) (\<lambda>_. f v)) st"

fun node_type :: "node \<Rightarrow> string" where
  "node_type Dir = ''directory''"
| "node_type (Symlink _) = ''symlink''"
| "node_type (File _) = ''file''"
| "node_type Other = ''unknown''"

definition node_size :: "node \<Rightarrow> file_stat \<Rightarrow> nat" where
  "node_size nd m = (case nd of File b \<Rightarrow> length b | _ \<Rightarrow> fst_size m)"

definition entry_stat_json :: "'s host \<Rightarrow> fs \<Rightarrow> path \<Rightarrow> string \<Rightarrow> io_error + json" where
  "entry_stat_json h fs p logical =
     rtry (entry_pos fs p) (\<lambda>k.
       case node_at fs k of
         None \<Rightarrow> Inl ENOENT
       | Some nd \<Rightarrow>
           let m = stat_of h fs k; ts = rfc3339 h (fst_mtime m) in
           Inr (JObj
             [(''name'', JStr (case path_file_name p of None \<Rightarrow> [] | Some n \<Rightarrow> from_utf8_lossy (as_bytes n))),
              (''type'', JStr (node_type nd)),
              (''path'', JStr (if starts_with logical ''/'' then logical else ''/'' @ logical)),
              (''size'', JNum (int (node_size nd m))),
              (''mode'', JNum (int (fst_mode m mod 4096))),
              (''uid'', JNum (int (fst_uid m))), (''gid'', JNum (int (fst_gid m))),
              (''atime'', JStr ts), (''mtime'', JStr ts), (''ctime'', JStr ts)]))"

definition json_response :: "'s host \<Rightarrow> status \<Rightarrow> json \<Rightarrow> response" where
  "json_response h s v = \<lparr>rs_status = s, rs_type = Some ''application/json'', rs_body = as_bytes (json_text h v)\<rparr>"

definition octets :: "bytes \<Rightarrow> response" where
  "octets bs = \<lparr>rs_status = OK_S, rs_type = Some ''application/octet-stream'', rs_body = bs\<rparr>"

text \<open>The description of the entry that ends most handlers.\<close>

definition stat_step :: "'s host \<Rightarrow> status \<Rightarrow> (io_error \<Rightarrow> http_err) \<Rightarrow> path \<Rightarrow> string \<Rightarrow> ('s, response) act" where
  "stat_step h s g p logical st =
     (map_err g (rtry (entry_stat_json h (host_fs st) p logical) (\<lambda>v. Inr (json_response h s v))), st)"

definition volume_file_put :: "'s host \<Rightarrow> env \<Rightarrow> headers \<Rightarrow> string \<Rightarrow> volume_query \<Rightarrow> bytes \<Rightarrow> ('s, response) act" where
  "volume_file_put h env hs vid q body = with_volume hs vid (\<lambda>v st.
     let p = volume_path env vid (vq_path q) in
     if fs_exists (host_fs st) p \<and> vq_force q = Some False then
       (Inl (CONFLICT, err_json ''already_exists'' ''path already exists''), st)
     else
       io_try (case path_parent p of None \<Rightarrow> io_lift (Inr ())
                 | Some par \<Rightarrow> dirs_step (\<lambda>e. (INTERNAL_SERVER_ERROR, ''mkdir: '' @ io_msg e)) par) (\<lambda>_.
       io_try (fs_step (\<lambda>e. (INTERNAL_SERVER_ERROR, ''write: '' @ io_msg e)) (\<lambda>fs. fs_write fs p body)) (\<lambda>_.
       io_try (case vol_backend v of Local \<Rightarrow> io_lift (Inr ())
                 | S3 cfg \<Rightarrow> s3_put_file h env vid cfg (vq_path q) body) (\<lambda>_.
       stat_step h CREATED (\<lambda>e. (INTERNAL_SERVER_ERROR, ''stat: '' @ io_msg e)) p (vq_path q)))) st)"

definition volume_file_get :: "'s host \<Rightarrow> env \<Rightarrow> headers \<Rightarrow> string \<Rightarrow> volume_query \<Rightarrow> ('s, response) act" where
  "volume_file_get h env hs vid q = with_volume hs vid (\<lambda>v st.
     let scratch = (\<lambda>st'. (map_err (\<lambda>e. (NOT_FOUND, ''not found: '' @ io_msg e))
                    (rtry (fs_read (host_fs st') (volume_path env vid (vq_path q))) (\<lambda>b. Inr (octets b))), st')) in
     (case vol_backend v of
        Local \<Rightarrow> scratch st
      | S3 cfg \<Rightarrow>
          (case s3_get_file h env vid cfg (vq_path q) st of
             (Inr b, st1) \<Rightarrow> (Inr (octets b), st1)
           | (Inl (code, _), st1) \<Rightarrow> if code = NOT_FOUND then (Inl (code, ''not found''), st1) else scratch st1)))"

definition volume_dir_post :: "'s host \<Rightarrow> env \<Rightarrow> headers \<Rightarrow> string \<Rightarrow> volume_query \<Rightarrow> ('s, response) act" where
  "volume_dir_post h env hs vid q = with_volume hs vid (\<lambda>v.
     let p = volume_path env vid (vq_path q); g = (\<lambda>e. (INTERNAL_SERVER_ERROR, ''mkdir: '' @ io_msg e)) in
     io_try (if or_default (vq_force q) True then dirs_step g p else fs_step g (\<lambda>fs. fs_mkdir fs p))
       (\<lambda>_. stat_step h CREATED (\<lambda>e. (INTERNAL_SERVER_ERROR, ''stat: '' @ io_msg e)) p (vq_path q)))"

definition json_path :: "json \<Rightarrow> string" where
  "json_path v = or_default (Option.bind (j_get v ''path'') j_str) []"

definition volume_dir_get :: "'s host \<Rightarrow> env \<Rightarrow> headers \<Rightarrow> string \<Rightarrow> volume_query \<Rightarrow> ('s, response) act" where
  "volume_dir_get h env hs vid q = with_volume hs vid (\<lambda>v st.
     let p = volume_path env vid (vq_path q) in
     (case fs_read_dir (host_fs st) p of
        Inl e \<Rightarrow> (Inl (NOT_FOUND, ''list: '' @ io_msg e), st)
      | Inr ents \<Rightarrow>
          let out = List.map_filter (\<lambda>(n, _).
                      case entry_stat_json h (host_fs st) (p @ [Normal n])
                             (trim_end_matches CHR ''/'' (vq_path q) @ ''/'' @ from_utf8_lossy (as_bytes n)) of
                        Inl _ \<Rightarrow> None | Inr j \<Rightarrow> Some j) ents in
          (Inr (json_response h OK_S
             (JArr (if or_default (vq_depth q) 1 > 1 then sort_key json_path out else out))), st)))"

definition volume_path_get :: "'s host \<Rightarrow> env \<Rightarrow> headers \<Rightarrow> string \<Rightarrow> volume_query \<Rightarrow> ('s, response) act" where
  "volume_path_get h env hs vid q = with_volume hs vid (\<lambda>v.
     stat_step h OK_S (\<lambda>e. (NOT_FOUND, ''not found: '' @ io_msg e)) (volume_path env vid (vq_path q)) (vq_path q))"

text \<open>The S3 part of a deletion; its failure is only logged.\<close>

definition s3_delete_entry :: "'s host \<Rightarrow> env \<Rightarrow> string \<Rightarrow> volume_backend \<Rightarrow> bool \<Rightarrow> string \<Rightarrow> 's shim \<Rightarrow> 's shim" where
  "s3_delete_entry h env vid be was_dir rel st =
     (case be of
        Local \<Rightarrow> st
      | S3 cfg \<Rightarrow> snd (if was_dir then s3_delete_prefix h env vid cfg rel st
                       else s3_delete_object h env vid cfg rel st))"

definition remove_path :: "path \<Rightarrow> fs \<Rightarrow> io_error + fs" where
  "remove_path p fs = (if fs_is_dir fs p then fs_remove_dir_all fs p else fs_remove_file fs p)"

definition volume_path_delete :: "'s host \<Rightarrow> env \<Rightarrow> headers \<Rightarrow> string \<Rightarrow> volume_query \<Rightarrow> ('s, status) act" where
  "volume_path_delete h env hs vid q = with_volume hs vid (\<lambda>v st.
     let p = volume_path env vid (vq_path q); was_dir = fs_is_dir (host_fs st) p in
     (case fs_step (\<lambda>e. (NOT_FOUND, ''remove: '' @ io_msg e)) (remove_path p) st of
        (r, st1) \<Rightarrow> (rtry r (\<lambda>_. Inr NO_CONTENT), s3_delete_entry h env vid (vol_backend v) was_dir (vq_path q) st1)))"

text \<open>\<open>PATCH\<close> changes nothing: it answers like \<open>GET\<close>.\<close>

definition volume_path_patch :: "'s host \<Rightarrow> env \<Rightarrow> headers \<Rightarrow> string \<Rightarrow> volume_query \<Rightarrow> bytes \<Rightarrow> ('s, response) act" where
  "volume_path_patch h env hs vid q _ = with_volume hs vid (\<lambda>v.
     stat_step h OK_S (\<lambda>e. (NOT_FOUND, ''not found: '' @ io_msg e)) (volume_path env vid (vq_path q)) (vq_path q))"

end
