(* ===== verification/Shim_Mounts.thy ===== *)
theory Shim_Mounts
  imports Shim_Volumes
begin

text \<open>
  Volume mounts: their validation, the copy of a volume into the session that mounts it, the
  mirroring of writes and deletes under a mount back to the volume, and the rewriting of mount
  paths in commands.
\<close>

section \<open>Which mount a path belongs to\<close>

definition mount_root :: "sandbox_volume_mount \<Rightarrow> string" where
  "mount_root m = trim_end_matches CHR ''/'' (mnt_path m)"

text \<open>\<open>sort_by(|a, b| b.path.len().cmp(&a.path.len()))\<close> is stable, and so is \<open>sort_key\<close>.\<close>

definition longest_first :: "sandbox_volume_mount list \<Rightarrow> sandbox_volume_mount list" where
  "longest_first ms = sort_key (\<lambda>m. - int (length (mnt_path m))) ms"

definition with_slash :: "string \<Rightarrow> string" where
  "with_slash p = (if starts_with p ''/'' then p else ''/'' @ p)"

fun first_mount :: "string \<Rightarrow> sandbox_volume_mount list \<Rightarrow> (string \<times> string) option" where
  "first_mount norm [] = None"
| "first_mount norm (m # ms) =
     (let r = mount_root m in
      if r \<noteq> [] \<and> (norm = r \<or> starts_with norm (r @ ''/'')) then
        Some (mnt_name m, trim_start_matches CHR ''/'' (drop (length r) norm))
      else first_mount norm ms)"

definition volume_mirror_for :: "sandbox_rec \<Rightarrow> string \<Rightarrow> (string \<times> string) option" where
  "volume_mirror_for r abs_path = first_mount (with_slash abs_path) (longest_first (sb_volume_mounts r))"

text \<open>The volume a mount names, by id or by name: the first one in the order of the table.\<close>

definition find_volume :: "string \<Rightarrow> 's shim \<Rightarrow> volume_rec option" where
  "find_volume nm st = find (\<lambda>v. vol_id v = nm \<or> vol_name v = nm) (map snd (volumes st))"

section \<open>Mirroring\<close>

definition mirror_write_to_volume :: "'s host \<Rightarrow> env \<Rightarrow> sandbox_rec \<Rightarrow> string \<Rightarrow> bytes \<Rightarrow> 's shim \<Rightarrow> 's shim" where
  "mirror_write_to_volume h env r abs_path bs st =
     (case volume_mirror_for r abs_path of
        None \<Rightarrow> st
      | Some (nm, rel) \<Rightarrow>
          (case find_volume nm st of
             None \<Rightarrow> st
           | Some v \<Rightarrow>
               let vid = vol_id v; target = volume_path env vid rel;
                   st1 = (case path_parent target of None \<Rightarrow> st
                          | Some par \<Rightarrow> on_fs (\<lambda>fs. snd (create_dir_all fs par)) st);
                   st2 = on_fs (best_effort (\<lambda>fs. fs_write fs target bs)) st1 in
               (case vol_backend v of
                  Local \<Rightarrow> st2
                | S3 cfg \<Rightarrow> snd (s3_put_file h env vid cfg rel bs st2))))"

definition mirror_delete_from_volume :: "'s host \<Rightarrow> env \<Rightarrow> sandbox_rec \<Rightarrow> string \<Rightarrow> 's shim \<Rightarrow> 's shim" where
  "mirror_delete_from_volume h env r abs_path st =
     (case volume_mirror_for r abs_path of
        None \<Rightarrow> st
      | Some (nm, rel) \<Rightarrow>
          (case find_volume nm st of
             None \<Rightarrow> st
           | Some v \<Rightarrow>
               let vid = vol_id v; target = volume_path env vid rel; was_dir = fs_is_dir (host_fs st) target in
               s3_delete_entry h env vid (vol_backend v) was_dir rel
                 (on_fs (best_effort (remove_path target)) st)))"

section \<open>Commands\<close>

definition rewrite_step :: "string \<Rightarrow> sandbox_volume_mount \<Rightarrow> string" where
  "rewrite_step out m =
     (let from = mount_root m; to = tools_relative_path from in
      if from = [] \<or> to = [] then out else replace from to out)"

definition rewrite_command_mount_paths :: "string option \<Rightarrow> string \<Rightarrow> 's shim \<Rightarrow> string" where
  "rewrite_command_mount_paths sid command st =
     (case Option.bind sid (map_of (sandboxes st)) of
        None \<Rightarrow> command
      | Some r \<Rightarrow> foldl rewrite_step command (longest_first (sb_volume_mounts r)))"

section \<open>Mounting\<close>

fun validate_volume_mounts :: "sandbox_volume_mount list \<Rightarrow> 's shim
    \<Rightarrow> (sandbox_volume_mount \<times> volume_rec) list result" where
  "validate_volume_mounts [] st = Inr []"
| "validate_volume_mounts (m # ms) st =
     (if mnt_name m = [] then Inl (BAD_REQUEST, err_json ''bad_request'' ''volume mount name is required'')
      else if mnt_path m = [] \<or> \<not> starts_with (mnt_path m) ''/'' then
        Inl (BAD_REQUEST, err_json ''bad_request'' (''volume mount path must be absolute: '' @ mnt_path m))
      else
        rtry (ok_or (NOT_FOUND, err_json ''not_found'' (''volume '' @ mnt_name m @ '' not found''))
               (find_volume (mnt_name m) st)) (\<lambda>v.
        rtry (validate_volume_mounts ms st) (\<lambda>out. Inr ((m, v) # out))))"

text \<open>
  The directory walk keeps a stack and runs as long as it is not empty; its rounds are counted
  by \<open>fuel\<close>, and \<open>None\<close> is running out of it. One round creates the directory in the session
  and sends its files; subdirectories go on the stack.
\<close>

fun copy_entries :: "'s host \<Rightarrow> string \<Rightarrow> path \<Rightarrow> string \<Rightarrow> (string \<times> node) list \<Rightarrow> (path \<times> string) list
    \<Rightarrow> ('s, (path \<times> string) list) act" where
  "copy_entries h sid dir rel [] stack st = (Inr stack, st)"
| "copy_entries h sid dir rel ((n, nd) # es) stack st =
     (let p = dir @ [Normal n]; child = trim_end_matches CHR ''/'' rel @ ''/'' @ from_utf8_lossy (as_bytes n) in
      case nd of
        Dir \<Rightarrow> copy_entries h sid dir rel es ((p, child) # stack) st
      | File _ \<Rightarrow>
          io_try (io_lift (map_err (\<lambda>e. (INTERNAL_SERVER_ERROR, err_json ''internal'' (''read volume file: '' @ io_msg e)))
                             (fs_read (host_fs st) p)))
            (\<lambda>bs. io_try (write_tools_file h sid child bs) (\<lambda>_. copy_entries h sid dir rel es stack)) st
      | _ \<Rightarrow> copy_entries h sid dir rel es stack st)"

definition mkdir_command :: "string \<Rightarrow> string" where
  "mkdir_command p = ''mkdir -p -- '' @ shell_quote p"

definition copy_round :: "'s host \<Rightarrow> string \<Rightarrow> path \<Rightarrow> string \<Rightarrow> (path \<times> string) list \<Rightarrow> ('s, (path \<times> string) list) act" where
  "copy_round h sid dir rel stack =
     io_try (run_tools_bash h sid (mkdir_command rel) 30) (\<lambda>_ st.
       case fs_read_dir (host_fs st) dir of
         Inl e \<Rightarrow> (Inl (INTERNAL_SERVER_ERROR, err_json ''internal'' (''read volume dir: '' @ io_msg e)), st)
       | Inr ents \<Rightarrow> copy_entries h sid dir rel ents stack st)"

fun copy_dir_loop :: "'s host \<Rightarrow> string \<Rightarrow> nat \<Rightarrow> (path \<times> string) list \<Rightarrow> 's shim \<Rightarrow> unit result option \<times> 's shim" where
  "copy_dir_loop h sid fuel [] st = (Some (Inr ()), st)"
| "copy_dir_loop h sid 0 (x # stack) st = (None, st)"
| "copy_dir_loop h sid (Suc fuel) ((dir, rel) # stack) st =
     (case copy_round h sid dir rel stack st of
        (Inl e, st1) \<Rightarrow> (Some (Inl e), st1)
      | (Inr stack1, st1) \<Rightarrow> copy_dir_loop h sid fuel stack1 st1)"

definition copy_dir_to_tools :: "'s host \<Rightarrow> string \<Rightarrow> path \<Rightarrow> string \<Rightarrow> 's shim \<Rightarrow> unit result option \<times> 's shim" where
  "copy_dir_to_tools h sid src dst_rel st =
     copy_dir_loop h sid (Suc (length (host_fs st))) [(src, dst_rel)] st"

definition before_last_slash :: "string \<Rightarrow> string" where
  "before_last_slash s = rev (tl (dropWhile (\<lambda>c. c \<noteq> CHR ''/'') (rev s)))"

definition copy_s3_entry :: "'s host \<Rightarrow> env \<Rightarrow> string \<Rightarrow> string \<Rightarrow> s3_volume_cfg \<Rightarrow> string \<Rightarrow> string \<Rightarrow> ('s, unit) act" where
  "copy_s3_entry h env sid vid cfg dst_rel key =
     (if key = [] \<or> ends_with key ''/'' then io_lift (Inr ())
      else
        io_try (s3_get_file h env vid cfg key) (\<lambda>bs.
        let child = trim_end_matches CHR ''/'' dst_rel @ ''/'' @ key; p = path_join (volume_fs_dir env vid) key in
        io_try (run_tools_bash h sid (mkdir_command (before_last_slash child)) 30) (\<lambda>_ st.
        let st1 = (case path_parent p of None \<Rightarrow> st | Some par \<Rightarrow> on_fs (\<lambda>fs. snd (create_dir_all fs par)) st) in
        write_tools_file h sid child bs (on_fs (best_effort (\<lambda>fs. fs_write fs p bs)) st1))))"

definition copy_s3_to_tools :: "'s host \<Rightarrow> env \<Rightarrow> string \<Rightarrow> string \<Rightarrow> s3_volume_cfg \<Rightarrow> string \<Rightarrow> ('s, unit) act" where
  "copy_s3_to_tools h env sid vid cfg dst_rel =
     io_try (s3_list_prefix h env vid cfg []) (\<lambda>keys st.
       each (copy_s3_entry h env sid vid cfg dst_rel) keys
         (on_fs (\<lambda>fs. snd (create_dir_all fs (volume_fs_dir env vid))) st))"

definition copy_volume_to_tools_session :: "'s host \<Rightarrow> env \<Rightarrow> string \<Rightarrow> string \<Rightarrow> string \<Rightarrow> 's shim
    \<Rightarrow> unit result option \<times> 's shim" where
  "copy_volume_to_tools_session h env sid vid mount_path st =
     (case volume_rec_of vid st of
        Inl e \<Rightarrow> (Some (Inl e), st)
      | Inr v \<Rightarrow>
          let dst = tools_relative_path mount_path in
          (case run_tools_bash h sid (''rm -rf -- '' @ shell_quote dst @ '' && '' @ mkdir_command dst) 30 st of
             (Inl e, st1) \<Rightarrow> (Some (Inl e), st1)
           | (Inr _, st1) \<Rightarrow>
               (case vol_backend v of
                  Local \<Rightarrow>
                    if \<not> fs_exists (host_fs st1) (volume_fs_dir env vid) then
                      (Some (Inl (NOT_FOUND, err_json ''not_found'' (''volume '' @ vid @ '' not found''))), st1)
                    else copy_dir_to_tools h sid (volume_fs_dir env vid) dst st1
                | S3 cfg \<Rightarrow> (case copy_s3_to_tools h env sid vid cfg dst st1 of (r, st2) \<Rightarrow> (Some r, st2)))))"

fun materialize_volume_mounts :: "'s host \<Rightarrow> env \<Rightarrow> string \<Rightarrow> (sandbox_volume_mount \<times> volume_rec) list \<Rightarrow> 's shim
    \<Rightarrow> unit result option \<times> 's shim" where
  "materialize_volume_mounts h env sid [] st = (Some (Inr ()), st)"
| "materialize_volume_mounts h env sid ((m, v) # ms) st =
     (case copy_volume_to_tools_session h env sid (vol_id v) (mnt_path m) st of
        (Some (Inr _), st1) \<Rightarrow> materialize_volume_mounts h env sid ms st1
      | (r, st1) \<Rightarrow> (r, st1))"

end
