(* ===== verification/Shim_Sandboxes.thy ===== *)
theory Shim_Sandboxes
  imports Shim_Mounts
begin

text \<open>
  The sandbox routes of \<open>e2b-shim\<close>: creation through the upstream session, detail, deletion,
  timeout, pause, resume, refresh, snapshots, and the sweep of expired sandboxes. A handler that
  can panic answers \<open>None\<close>.
\<close>

section \<open>Creation\<close>

record new_sandbox =
  ns_template_id :: string
  ns_metadata :: "json option"
  ns_alias :: "string option"
  ns_timeout :: "nat option"
  ns_volume_mounts :: "sandbox_volume_mount list"

definition effective_template_id :: "env \<Rightarrow> string \<Rightarrow> string" where
  "effective_template_id env tid =
     (let raw = (if tid = [] then ''base'' else tid) in
      if raw = ''base'' then or_default (env ''E2B_SHIM_BASE_TEMPLATE'') ''tools-default'' else raw)"

text \<open>\<open>as i64\<close> of an unsigned number.\<close>

definition as_i64 :: "nat \<Rightarrow> int" where
  "as_i64 n = (int n + 2 ^ 63) mod 2 ^ 64 - 2 ^ 63"

definition upstream_session :: "'s host \<Rightarrow> string \<Rightarrow> ('s, string) act" where
  "upstream_session h template st =
     (case with_world (post_json h (upstream st @ ''/v2/sessions'') (Some (JObj [(''template'', JStr template)]))) st of
        (Inl e, st1) \<Rightarrow> (Inl (BAD_GATEWAY, ''upstream: '' @ e), st1)
      | (Inr (status, body), st1) \<Rightarrow>
          (if \<not> is_success status then
             (Inl (BAD_GATEWAY, ''upstream /v2/sessions: ''
                     @ (case body of None \<Rightarrow> [] | Some b \<Rightarrow> from_utf8_lossy b)), st1)
           else case body_json h body of
             None \<Rightarrow> (Inl (BAD_GATEWAY, ''upstream json: '' @ json_err h body), st1)
           | Some v \<Rightarrow>
               (ok_or (BAD_GATEWAY, ''upstream /v2/sessions: missing session_id'')
                  (Option.bind (j_get v ''session_id'') j_str), st1)))"

definition session_url :: "'s shim \<Rightarrow> string \<Rightarrow> string" where
  "session_url st sid = upstream st @ ''/v2/sessions/'' @ sid"

definition drop_session :: "'s host \<Rightarrow> string \<Rightarrow> 's shim \<Rightarrow> 's shim" where
  "drop_session h sid st = st\<lparr>outside := delete_url h (session_url st sid) (outside st)\<rparr>"

text \<open>Entering a record: into the table, then into its registry file.\<close>

definition put_sandbox :: "'s host \<Rightarrow> string \<Rightarrow> sandbox_rec \<Rightarrow> 's shim \<Rightarrow> 's shim" where
  "put_sandbox h sid r st =
     on_fs (persist_sandbox h r) (st\<lparr>sandboxes := AList.update sid r (sandboxes st)\<rparr>)"

definition new_record :: "'s host \<Rightarrow> string \<Rightarrow> string \<Rightarrow> new_sandbox \<Rightarrow> int \<Rightarrow> int \<Rightarrow> string \<Rightarrow> 's shim \<Rightarrow> sandbox_rec" where
  "new_record h sid template b t0 t1 tok st =
     \<lparr>sb_id = sid, sb_template_id = template, sb_client_id = ''shim'',
      sb_domain = Some (replace ''https://'' [] (replace ''http://'' [] (upstream st))),
      sb_envd_version = ''0.5.0'', sb_access_token = Some tok, sb_alias = ns_alias b,
      sb_metadata = ns_metadata b, sb_started_at = rfc3339 h t0, sb_end_at = rfc3339 h t1,
      sb_cpu_count = 2, sb_memory_mb = 1024, sb_disk_size_mb = 4096, sb_state = ''running'',
      sb_volume_mounts = ns_volume_mounts b\<rparr>"

definition create_sandbox :: "'s host \<Rightarrow> env \<Rightarrow> headers \<Rightarrow> new_sandbox \<Rightarrow> 's shim
    \<Rightarrow> (status \<times> sandbox_rec) result option \<times> 's shim" where
  "create_sandbox h env hs b st =
     (case rtry (check_api_key st hs) (\<lambda>_. validate_volume_mounts (ns_volume_mounts b) st) of
        Inl e \<Rightarrow> (Some (Inl e), st)
      | Inr mounts \<Rightarrow>
          let template = effective_template_id env (ns_template_id b) in
          (case upstream_session h template st of
             (Inl e, st1) \<Rightarrow> (Some (Inl e), st1)
           | (Inr sid, st1) \<Rightarrow>
               (case materialize_volume_mounts h env sid mounts st1 of
                  (None, st2) \<Rightarrow> (None, st2)
                | (Some (Inl e), st2) \<Rightarrow> (Some (Inl e), drop_session h sid st2)
                | (Some (Inr _), st2) \<Rightarrow>
                    let t0 = now h (outside st2) in
                    (case add_secs h t0 (as_i64 (or_default (ns_timeout b) 900)) of
                       None \<Rightarrow> (None, st2)
                     | Some t1 \<Rightarrow>
                         let (tok, s) = uuid h (outside st2);
                             r = new_record h sid template b t0 t1 tok st2 in
                         (Some (Inr (CREATED, r)), put_sandbox h sid r (st2\<lparr>outside := s\<rparr>))))))"

section \<open>The other routes of a sandbox\<close>

definition not_found_json :: "string \<Rightarrow> http_err" where
  "not_found_json sid = (NOT_FOUND, err_json ''not_found'' (''sandbox '' @ sid @ '' not found''))"

definition not_found_text :: "string \<Rightarrow> http_err" where
  "not_found_text sid = (NOT_FOUND, ''sandbox '' @ sid @ '' not found'')"

definition get_sandbox :: "headers \<Rightarrow> string \<Rightarrow> ('s, sandbox_rec) act" where
  "get_sandbox hs sid = authorized hs (\<lambda>st. (ok_or (not_found_json sid) (map_of (sandboxes st) sid), st))"

text \<open>Removing a sandbox here: table, registry file, scratch directory.\<close>

definition remove_sandbox :: "string \<Rightarrow> 's shim \<Rightarrow> 's shim" where
  "remove_sandbox sid st =
     on_fs (\<lambda>fs. best_effort (\<lambda>fs. fs_remove_dir_all fs (sandbox_fs_dir sid)) (forget_sandbox sid fs))
       (st\<lparr>sandboxes := AList.delete sid (sandboxes st)\<rparr>)"

definition delete_sandbox :: "'s host \<Rightarrow> headers \<Rightarrow> string \<Rightarrow> ('s, status) act" where
  "delete_sandbox h hs sid = authorized hs (\<lambda>st. (Inr NO_CONTENT, drop_session h sid (remove_sandbox sid st)))"

text \<open>
  The handlers that extend the life of a sandbox read its record, set \<open>end_at\<close> and write the
  record back. \<open>None\<close> is the panic of the date arithmetic.
\<close>

definition extend_lease :: "'s host \<Rightarrow> (string \<Rightarrow> http_err) \<Rightarrow> headers \<Rightarrow> string \<Rightarrow> int \<Rightarrow> (sandbox_rec \<Rightarrow> sandbox_rec)
    \<Rightarrow> (sandbox_rec \<Rightarrow> 'a) \<Rightarrow> 's shim \<Rightarrow> 'a result option \<times> 's shim" where
  "extend_lease h missing hs sid secs upd ans st =
     (case rtry (check_api_key st hs) (\<lambda>_. ok_or (missing sid) (map_of (sandboxes st) sid)) of
        Inl e \<Rightarrow> (Some (Inl e), st)
      | Inr r \<Rightarrow>
          (case add_secs h (now h (outside st)) secs of
             None \<Rightarrow> (None, st)
           | Some t \<Rightarrow>
               let r' = (upd r)\<lparr>sb_end_at := rfc3339 h t\<rparr> in
               (Some (Inr (ans r')), put_sandbox h sid r' st)))"

definition set_sandbox_timeout :: "'s host \<Rightarrow> headers \<Rightarrow> string \<Rightarrow> int \<Rightarrow> 's shim \<Rightarrow> status result option \<times> 's shim" where
  "set_sandbox_timeout h hs sid timeout =
     extend_lease h not_found_json hs sid (max timeout 1) id (\<lambda>_. NO_CONTENT)"

definition sandbox_resume :: "'s host \<Rightarrow> headers \<Rightarrow> string \<Rightarrow> 's shim \<Rightarrow> sandbox_rec result option \<times> 's shim" where
  "sandbox_resume h hs sid =
     extend_lease h not_found_text hs sid 900 (\<lambda>r. r\<lparr>sb_state := ''running''\<rparr>) id"

definition sandbox_refreshes :: "'s host \<Rightarrow> headers \<Rightarrow> string \<Rightarrow> 's shim \<Rightarrow> status result option \<times> 's shim" where
  "sandbox_refreshes h hs sid = extend_lease h not_found_text hs sid 900 id (\<lambda>_. NO_CONTENT)"

definition sandbox_pause :: "'s host \<Rightarrow> headers \<Rightarrow> string \<Rightarrow> ('s, status) act" where
  "sandbox_pause h hs sid = authorized hs (\<lambda>st.
     case map_of (sandboxes st) sid of
       None \<Rightarrow> (Inl (not_found_text sid), st)
     | Some r \<Rightarrow>
         (Inr NO_CONTENT,
          if sb_state r = ''paused'' then st else put_sandbox h sid (r\<lparr>sb_state := ''paused''\<rparr>) st))"

definition sandbox_connect :: "headers \<Rightarrow> string \<Rightarrow> ('s, sandbox_rec) act" where
  "sandbox_connect hs sid = authorized hs (\<lambda>st. (ok_or (not_found_text sid) (map_of (sandboxes st) sid), st))"

definition sandboxes_list :: "headers \<Rightarrow> ('s, sandbox_rec list) act" where
  "sandboxes_list hs = authorized hs (\<lambda>st. (Inr (map snd (sandboxes st)), st))"

text \<open>The metrics are constant rows: nothing is measured per sandbox.\<close>

record sandbox_metrics =
  sm_sandbox_id :: string
  sm_cpu_used_pct :: nat
  sm_mem_used_mb :: nat
  sm_disk_used_mb :: nat
  sm_timestamp :: string

definition zero_metrics :: "string \<Rightarrow> string \<Rightarrow> sandbox_metrics" where
  "zero_metrics sid ts = \<lparr>sm_sandbox_id = sid, sm_cpu_used_pct = 0, sm_mem_used_mb = 0, sm_disk_used_mb = 0,
     sm_timestamp = ts\<rparr>"

definition sandboxes_metrics :: "'s host \<Rightarrow> headers \<Rightarrow> ('s, sandbox_metrics list) act" where
  "sandboxes_metrics h hs = authorized hs (\<lambda>st.
     (Inr (map (\<lambda>(sid, _). zero_metrics sid (rfc3339 h (now h (outside st)))) (sandboxes st)), st))"

definition sandbox_metrics_one :: "'s host \<Rightarrow> headers \<Rightarrow> string \<Rightarrow> ('s, sandbox_metrics list) act" where
  "sandbox_metrics_one h hs sid = authorized hs (\<lambda>st.
     (rtry (ok_or (not_found_text sid) (map_of (sandboxes st) sid))
        (\<lambda>_. Inr [zero_metrics sid (rfc3339 h (now h (outside st)))]), st))"

definition sandbox_logs :: "headers \<Rightarrow> string \<Rightarrow> ('s, json) act" where
  "sandbox_logs hs sid = authorized hs (\<lambda>st.
     (rtry (ok_or (not_found_text sid) (map_of (sandboxes st) sid)) (\<lambda>_. Inr (JObj [(''logs'', JArr [])])), st))"

definition shim_health :: "'s shim \<Rightarrow> json" where
  "shim_health st = JObj
     [(''ok'', JBool True), (''shim'', JStr ''e2b''), (''upstream'', JStr (upstream st)),
      (''sandbox_count'', JNum (int (length (sandboxes st)))),
      (''sandboxes'', JArr (map JStr (keys (sandboxes st))))]"

section \<open>The sweep\<close>

definition expired :: "'s host \<Rightarrow> int \<Rightarrow> sandbox_rec \<Rightarrow> bool" where
  "expired h t r \<longleftrightarrow> (case of_rfc3339 h (sb_end_at r) of None \<Rightarrow> False | Some e \<Rightarrow> e < t)"

definition sweep_expired :: "'s host \<Rightarrow> 's shim \<Rightarrow> 's shim" where
  "sweep_expired h st =
     fold remove_sandbox (map fst (filter (\<lambda>(_, r). expired h (now h (outside st)) r) (sandboxes st))) st"

section \<open>Snapshots\<close>

definition sandbox_snapshot :: "'s host \<Rightarrow> headers \<Rightarrow> string \<Rightarrow> ('s, json) act" where
  "sandbox_snapshot h hs sid = authorized hs (\<lambda>st.
     case tos st of
       None \<Rightarrow> (Inl (SERVICE_UNAVAILABLE, err_json ''unavailable'' ''TOS not configured''), st)
     | Some b \<Rightarrow>
         if \<not> fs_exists (host_fs st) (sandbox_fs_dir sid) then
           (Inl (NOT_FOUND, err_json ''not_found'' (''sandbox '' @ sid @ '' fs dir not found'')), st)
         else (case tar_gz h (host_fs st) (sandbox_fs_dir sid) of
             Inl e \<Rightarrow> (Inl (INTERNAL_SERVER_ERROR, err_json ''internal'' (''tar: '' @ e)), st)
           | Inr body \<Rightarrow>
               let key = ''harbor/sandboxes/'' @ sid @ ''/'' @ format_time h ''%Y%m%dT%H%M%SZ'' (now h (outside st))
                         @ ''.tar.gz'' in
               (case with_world (s3_put h b key body) st of
                  (Inl e, st1) \<Rightarrow> (Inl (BAD_GATEWAY, err_json ''bad_gateway'' (''tos put: '' @ e)), st1)
                | (Inr code, st1) \<Rightarrow>
                    if \<not> is_success code then
                      (Inl (BAD_GATEWAY, err_json ''bad_gateway'' (''tos status '' @ show_nat code)), st1)
                    else
                      (Inr (JObj
                        [(''sandbox_id'', JStr sid),
                         (''tos_url'', JStr (''s3://'' @ bk_name b @ ''/'' @ key)),
                         (''bucket'', JStr (bk_name b)), (''key'', JStr key),
                         (''size_bytes'', JNum (int (length body))),
                         (''endpoint'', JStr (bk_endpoint b)), (''region'', JStr (bk_region b))]), st1))))"

definition sandbox_snapshots_e2b :: "'s host \<Rightarrow> headers \<Rightarrow> string \<Rightarrow> ('s, status \<times> snapshot_rec) act" where
  "sandbox_snapshots_e2b h hs sid =
     io_try (sandbox_snapshot h hs sid) (\<lambda>j st.
       let t = now h (outside st); nid = ''snap'' @ format_time h ''%Y%m%dT%H%M%S%fZ'' t;
           s = \<lparr>snap_id = nid, snap_sandbox_id = sid,
                snap_template_id = (case map_of (sandboxes st) sid of None \<Rightarrow> [] | Some r \<Rightarrow> sb_template_id r),
                snap_tos_url = or_default (Option.bind (j_get j ''tos_url'') j_str) [],
                snap_created_at = rfc3339 h t\<rparr> in
       (Inr (CREATED, s), st\<lparr>snapshots := AList.update nid s (snapshots st)\<rparr>))"

definition snapshots_list :: "headers \<Rightarrow> ('s, snapshot_rec list) act" where
  "snapshots_list hs = authorized hs (\<lambda>st. (Inr (map snd (snapshots st)), st))"

end
