(* ===== verification/Shim_Process.thy ===== *)
theory Shim_Process
  imports Shim_Sandboxes
begin

text \<open>
  The envd side of \<open>e2b-shim\<close>: which sandbox a request means, the process stream, the files route
  and the filesystem service. The protobuf messages are encoded by the crate \<open>prost\<close>: the record
  \<open>pb\<close> holds what the code calls of it.
\<close>

section \<open>Messages\<close>

record process_config =
  pc_cmd :: string
  pc_args :: "string list"
  pc_envs :: "(string \<times> string) list"
  pc_cwd :: "string option"

record start_request =
  sr_process :: "process_config option"
  sr_tag :: "string option"
  sr_stdin :: "bool option"

datatype data_output = Stdout bytes | Stderr bytes | Pty bytes | NoOutput

datatype process_event = PStart nat | PData data_output | PEnd int bool string "string option" | PKeepalive

record pb =
  pb_start_request :: "bytes \<Rightarrow> start_request option"
  pb_start_response :: "process_event option \<Rightarrow> bytes"
  pb_list_response :: bytes
  pb_varint_ok :: "bytes \<Rightarrow> bool"

text \<open>\<open>StartResponse\<close> in the JSON form of proto3.\<close>

fun data_json :: "data_output \<Rightarrow> json" where
  "data_json (Stdout b) = JObj [(''stdout'', JStr (general_b64 b))]"
| "data_json (Stderr b) = JObj [(''stderr'', JStr (general_b64 b))]"
| "data_json (Pty b) = JObj [(''pty'', JStr (general_b64 b))]"
| "data_json NoOutput = JObj []"

fun event_json :: "process_event \<Rightarrow> json" where
  "event_json (PStart n) = JObj [(''start'', JObj [(''pid'', JNum (int n))])]"
| "event_json (PData d) = JObj [(''data'', data_json d)]"
| "event_json (PEnd code ex s e) = JObj [(''end'', JObj
     [(''exitCode'', JNum code), (''exited'', JBool ex), (''status'', JStr s), (''error'', opt_json e)])]"
| "event_json PKeepalive = JObj [(''keepalive'', JObj [])]"

definition response_to_json :: "process_event option \<Rightarrow> json" where
  "response_to_json e = JObj [(''event'', case e of None \<Rightarrow> JNull | Some x \<Rightarrow> event_json x)]"

definition enc_resp :: "'s host \<Rightarrow> pb \<Rightarrow> codec \<Rightarrow> process_event \<Rightarrow> bytes" where
  "enc_resp h pb c e =
     envelope 0 (case c of Proto \<Rightarrow> pb_start_response pb (Some e)
                         | Json \<Rightarrow> as_bytes (json_text h (response_to_json (Some e))))"

definition end_envelope_ok :: bytes where
  "end_envelope_ok = envelope 2 (as_bytes ''{}'')"

definition end_envelope_err :: "'s host \<Rightarrow> string \<Rightarrow> string \<Rightarrow> bytes" where
  "end_envelope_err h code msg =
     envelope 2 (as_bytes (json_text h (JObj [(''error'', JObj [(''code'', JStr code), (''message'', JStr msg)])])))"

text \<open>The JSON form of a start request; every field has a default.\<close>

definition j_string_map :: "json \<Rightarrow> (string \<times> string) list option" where
  "j_string_map j = (case j of
     JObj fs \<Rightarrow> all_some (map (\<lambda>(k, v). map_option (Pair k) (j_str v)) fs)
   | _ \<Rightarrow> None)"

definition json_process_config :: "json \<Rightarrow> process_config option" where
  "json_process_config j = do {
     fs \<leftarrow> as_struct [''cmd'', ''args'', ''envs'', ''cwd''] j;
     cmd \<leftarrow> field_or [] ''cmd'' j_str fs;
     args \<leftarrow> field_or [] ''args'' (j_list j_str) fs;
     envs \<leftarrow> field_or [] ''envs'' j_string_map fs;
     cwd \<leftarrow> field_opt ''cwd'' j_str fs;
     Some \<lparr>pc_cmd = cmd, pc_args = args, pc_envs = envs, pc_cwd = cwd\<rparr> }"

definition json_start_request :: "json \<Rightarrow> start_request option" where
  "json_start_request j = do {
     fs \<leftarrow> as_struct [''process'', ''tag'', ''stdin''] j;
     p \<leftarrow> field_opt ''process'' json_process_config fs;
     t \<leftarrow> field_opt ''tag'' j_str fs;
     i \<leftarrow> field_opt ''stdin'' j_bool fs;
     Some \<lparr>sr_process = p, sr_tag = t, sr_stdin = i\<rparr> }"

definition decode_start_request :: "'s host \<Rightarrow> pb \<Rightarrow> string \<Rightarrow> bytes \<Rightarrow> start_request option" where
  "decode_start_request h pb ct body =
     Option.bind (extract_body ct body) (\<lambda>payload.
       case codec_from_content_type ct of
         Proto \<Rightarrow> pb_start_request pb payload
       | Json \<Rightarrow> Option.bind (of_json_text h payload) json_start_request)"

section \<open>Which sandbox is meant\<close>

text \<open>\<open>max_by\<close> on \<open>started_at\<close>: of equal ones the last in the order of the table.\<close>

definition latest_sandbox :: "(string, sandbox_rec) table \<Rightarrow> string option" where
  "latest_sandbox t =
     map_option fst (foldl (\<lambda>acc e. case acc of None \<Rightarrow> Some e
        | Some m \<Rightarrow> if sb_started_at (snd e) < sb_started_at (snd m) then Some m else Some e) None t)"

definition pick_sandbox_id :: "env \<Rightarrow> headers \<Rightarrow> 's shim \<Rightarrow> string result" where
  "pick_sandbox_id env hs st =
     (case Option.bind (or_else (map_of hs ''e2b-sandbox-id'') (map_of hs ''x-sandbox-id''))
             (\<lambda>v. if visible_ascii v then Some v else None) of
        Some v \<Rightarrow> Inr v
      | None \<Rightarrow>
          ok_or (BAD_REQUEST, err_json ''invalid_argument'' ''no X-Sandbox-Id header and multiple sandboxes'')
            (or_else (latest_sandbox (sandboxes st)) (env ''E2B_SHIM_DEFAULT_SANDBOX'')))"

definition resolve_path :: "env \<Rightarrow> headers \<Rightarrow> string \<Rightarrow> ('s, path) act" where
  "resolve_path env hs p st =
     (case pick_sandbox_id env hs st of
        Inl e \<Rightarrow> (Inl e, st)
      | Inr sid \<Rightarrow>
          let r = sandbox_fs_dir sid in
          (Inr (path_join r (trim_start_matches CHR ''/'' p)), on_fs (\<lambda>fs. snd (create_dir_all fs r)) st))"

section \<open>Processes\<close>

definition content_type_or :: "string \<Rightarrow> headers \<Rightarrow> string" where
  "content_type_or d hs = or_default (header_str hs ''content-type'') d"

text \<open>The frames sent for the outcome of the upstream call.\<close>

definition bash_frames :: "'s host \<Rightarrow> pb \<Rightarrow> codec \<Rightarrow> tools_bash_resp \<Rightarrow> bytes list" where
  "bash_frames h pb c u =
     (if tbr_stdout u = [] then [] else [enc_resp h pb c (PData (Stdout (as_bytes (tbr_stdout u))))])
     @ (if tbr_stderr u = [] then [] else [enc_resp h pb c (PData (Stderr (as_bytes (tbr_stderr u))))])
     @ [enc_resp h pb c (PEnd (tbr_exit_code u) True
          (if tbr_timed_out u then ''timeout (exit '' @ show_int (tbr_exit_code u) @ '')''
           else ''exit '' @ show_int (tbr_exit_code u)) None),
        end_envelope_ok]"

definition process_start_tools :: "'s host \<Rightarrow> pb \<Rightarrow> codec \<Rightarrow> string option \<Rightarrow> string \<Rightarrow> 's shim \<Rightarrow> response \<times> 's shim" where
  "process_start_tools h pb c sid cmd st =
     (case sid of
        None \<Rightarrow> (error_response (BAD_REQUEST, err_json ''bad_request'' ''tools backend requires a sandbox_id header''), st)
      | Some s \<Rightarrow>
          (case with_world (post_json h (tools_url st s ''bash'')
                 (Some (JObj [(''command'', JStr cmd), (''timeout'', JNum 60)]))) st of
             (r, st1) \<Rightarrow>
               let fs = (case r of
                     Inl e \<Rightarrow> [end_envelope_err h ''unavailable'' (''upstream send: '' @ e)]
                   | Inr (_, body) \<Rightarrow>
                       (case Option.bind (body_json h body) tools_bash_of_json of
                          None \<Rightarrow> [end_envelope_err h ''internal'' (''upstream json: '' @ json_err h body)]
                        | Some u \<Rightarrow> bash_frames h pb c u)) in
               (\<lparr>rs_status = OK_S,
                 rs_type = Some (case c of Proto \<Rightarrow> ''application/connect+proto'' | Json \<Rightarrow> ''application/connect+json''),
                 rs_body = concat (enc_resp h pb c (PStart 1) # fs)\<rparr>, st1)))"

definition bash_command :: "process_config \<Rightarrow> string" where
  "bash_command p = (if pc_args p = [] then pc_cmd p else pc_cmd p @ '' '' @ join '' '' (pc_args p))"

definition default_process_config :: process_config where
  "default_process_config = \<lparr>pc_cmd = [], pc_args = [], pc_envs = [], pc_cwd = None\<rparr>"

definition process_start :: "'s host \<Rightarrow> pb \<Rightarrow> env \<Rightarrow> headers \<Rightarrow> bytes \<Rightarrow> 's shim \<Rightarrow> response \<times> 's shim" where
  "process_start h pb env hs body st =
     (let ct = content_type_or ''application/connect+proto'' hs; c = codec_from_content_type ct in
      case decode_start_request h pb ct body of
        None \<Rightarrow> (error_response (BAD_REQUEST, ''decode failed''), st)
      | Some req \<Rightarrow>
          let p = or_default (sr_process req) default_process_config;
              sid = (case pick_sandbox_id env hs st of Inl _ \<Rightarrow> None | Inr s \<Rightarrow> Some s);
              r = Option.bind sid (map_of (sandboxes st)) in
          if map_option sb_state r = Some ''paused'' then
            (error_response (CONFLICT, err_json ''conflict'' ''sandbox is paused; call resume() first''), st)
          else process_start_tools h pb c sid (rewrite_command_mount_paths sid (bash_command p) st) st)"

definition process_list :: "'s host \<Rightarrow> pb \<Rightarrow> headers \<Rightarrow> response" where
  "process_list h pb hs =
     (case codec_from_content_type (content_type_or ''application/proto'' hs) of
        Json \<Rightarrow> json_response h OK_S (JObj [(''processes'', JArr [])])
      | Proto \<Rightarrow> \<lparr>rs_status = OK_S, rs_type = Some ''application/proto'', rs_body = pb_list_response pb\<rparr>)"

section \<open>The filesystem service\<close>

definition tools_not_implemented :: "string \<Rightarrow> response" where
  "tools_not_implemented op = error_response (NOT_IMPLEMENTED, err_json ''not_implemented''
     (''e2b filesystem.'' @ op @ '' isn'' @ [CHR 0x27] @ ''t bridged to the tools backend yet; use /v2/sessions/<id>/tools/''
      @ op @ '' directly or commands.run with shell''))"

definition fs_stat :: response where "fs_stat = tools_not_implemented ''stat''"
definition fs_mkdir_route :: response where "fs_mkdir_route = tools_not_implemented ''mkdir''"
definition fs_list :: response where "fs_list = tools_not_implemented ''list''"
definition fs_move :: response where "fs_move = tools_not_implemented ''move''"

text \<open>The path of a unary request. A protobuf body is not decoded: its path is empty.\<close>

definition path_of_json :: "json \<Rightarrow> string option" where
  "path_of_json j = do {
     fs \<leftarrow> as_struct [''path'', ''source'', ''destination'', ''depth''] j;
     p \<leftarrow> field_or [] ''path'' j_str fs;
     src \<leftarrow> field_or [] ''source'' j_str fs;
     dst \<leftarrow> field_or [] ''destination'' j_str fs;
     d \<leftarrow> field_or 0 ''depth'' j_u32 fs;
     Some p }"

definition decode_unary_path_request :: "'s host \<Rightarrow> pb \<Rightarrow> string \<Rightarrow> bytes \<Rightarrow> string option" where
  "decode_unary_path_request h pb ct body =
     Option.bind (extract_body ct body) (\<lambda>payload.
       case codec_from_content_type ct of
         Json \<Rightarrow> Option.bind (of_json_text h payload) path_of_json
       | Proto \<Rightarrow> if payload \<noteq> [] \<and> \<not> pb_varint_ok pb payload then None else Some [])"

definition unary_json_response :: "'s host \<Rightarrow> string \<Rightarrow> json \<Rightarrow> response" where
  "unary_json_response h ct v =
     \<lparr>rs_status = OK_S,
      rs_type = Some (case codec_from_content_type ct of Proto \<Rightarrow> ''application/proto'' | Json \<Rightarrow> ''application/json''),
      rs_body = as_bytes (json_text h v)\<rparr>"

definition fs_remove :: "'s host \<Rightarrow> pb \<Rightarrow> env \<Rightarrow> headers \<Rightarrow> bytes \<Rightarrow> 's shim \<Rightarrow> response \<times> 's shim" where
  "fs_remove h pb env hs body st =
     (let ct = content_type_or [] hs in
      case decode_unary_path_request h pb ct body of
        None \<Rightarrow> (error_response (BAD_REQUEST, ''decode''), st)
      | Some p \<Rightarrow>
          let st1 = (case pick_sandbox_id env hs st of
                       Inl _ \<Rightarrow> st
                     | Inr sid \<Rightarrow> (case map_of (sandboxes st) sid of
                                    None \<Rightarrow> st | Some r \<Rightarrow> mirror_delete_from_volume h env r p st)) in
          (case resolve_path env hs p st1 of
             (Inl e, st2) \<Rightarrow> (error_response e, st2)
           | (Inr target, st2) \<Rightarrow>
               (unary_json_response h ct (JObj []), on_fs (best_effort (remove_path target)) st2)))"

section \<open>The files route\<close>

definition files_get :: "'s host \<Rightarrow> env \<Rightarrow> headers \<Rightarrow> string \<Rightarrow> 's shim \<Rightarrow> response \<times> 's shim" where
  "files_get h env hs p st =
     (case pick_sandbox_id env hs st of
        Inr sid \<Rightarrow>
          (case forward_tools_tool h sid ''read'' (JObj [(''path'', JStr (tools_relative_path p))]) st of
             (Inr v, st1) \<Rightarrow>
               (octets (as_bytes (or_default (Option.bind (j_get v ''content'') j_str) [])), st1)
           | (Inl e, st1) \<Rightarrow> (error_response e, st1))
      | Inl _ \<Rightarrow>
          (case resolve_path env hs p st of
             (Inl e, st1) \<Rightarrow> (error_response e, st1)
           | (Inr f, st1) \<Rightarrow>
               (into_response (map_err (\<lambda>e. (NOT_FOUND, ''not found: '' @ io_msg e))
                  (rtry (fs_read (host_fs st1) f) (\<lambda>b. Inr (octets b)))), st1)))"

text \<open>The payload of an upload: the first file of a form, or the body.\<close>

definition upload_payload :: "headers \<Rightarrow> bytes \<Rightarrow> bytes option" where
  "upload_payload hs body =
     (let ct = content_type_or [] hs in
      if str_contains ct ''multipart/form-data'' then extract_first_multipart_file ct body else Some body)"

definition written_entry :: "string \<Rightarrow> string \<Rightarrow> json" where
  "written_entry name p = JArr [JObj [(''name'', JStr name), (''type'', JStr ''file''), (''path'', JStr p)]]"

definition after_last_slash :: "string \<Rightarrow> string" where
  "after_last_slash s = rev (takeWhile (\<lambda>c. c \<noteq> CHR ''/'') (rev s))"

definition files_post :: "'s host \<Rightarrow> env \<Rightarrow> headers \<Rightarrow> string \<Rightarrow> bytes \<Rightarrow> 's shim \<Rightarrow> response \<times> 's shim" where
  "files_post h env hs p body st =
     (case upload_payload hs body of
        None \<Rightarrow> (error_response (BAD_REQUEST, ''empty multipart''), st)
      | Some payload \<Rightarrow>
          (case pick_sandbox_id env hs st of
             Inr sid \<Rightarrow>
               if \<not> valid_utf8 payload then
                 (error_response (UNSUPPORTED_MEDIA_TYPE, err_json ''unsupported''
                    (''tools backend file write requires UTF-8 content; binary file write isn'' @ [CHR 0x27]
                     @ ''t bridged through e2b API '' @ map char_of [226, 128, 148 :: nat]
                     @ '' use /v2/sessions/<id>/tools/write directly'')), st)
               else
                 let rel = tools_relative_path p in
                 (case forward_tools_tool h sid ''write''
                        (JObj [(''path'', JStr rel), (''content'', JStr (of_bytes payload))]) st of
                    (Inl e, st1) \<Rightarrow> (error_response e, st1)
                  | (Inr _, st1) \<Rightarrow>
                      (json_response h OK_S (written_entry (after_last_slash rel) (''/'' @ rel)),
                       case map_of (sandboxes st1) sid of
                         None \<Rightarrow> st1 | Some r \<Rightarrow> mirror_write_to_volume h env r p payload st1))
           | Inl _ \<Rightarrow>
               (case resolve_path env hs p st of
                  (Inl e, st1) \<Rightarrow> (error_response e, st1)
                | (Inr f, st1) \<Rightarrow>
                    let st2 = (case path_parent f of None \<Rightarrow> st1
                               | Some par \<Rightarrow> on_fs (\<lambda>fs. snd (create_dir_all fs par)) st1) in
                    (case fs_write (host_fs st2) f payload of
                       Inl e \<Rightarrow> (error_response (INTERNAL_SERVER_ERROR, ''write: '' @ io_msg e), st2)
                     | Inr fs' \<Rightarrow>
                         (json_response h OK_S (written_entry
                            (case path_file_name f of None \<Rightarrow> [] | Some n \<Rightarrow> from_utf8_lossy (as_bytes n))
                            (from_utf8_lossy (as_bytes (path_str f)))), st2\<lparr>host_fs := fs'\<rparr>)))))"

end
