(* ===== verification/Shim_Templates.thy ===== *)
theory Shim_Templates
  imports Shim_Sandboxes
begin

text \<open>
  The template bridge of \<open>e2b-shim\<close>: registering a build, uploading files, writing the template
  directory with its Dockerfile, the task that follows the upstream build, and the template and
  tag routes.
\<close>

section \<open>Identifiers and paths\<close>

definition STAGING_ROOT :: string where "STAGING_ROOT = ''/var/lib/e2b-shim/template-builds''"
definition TEMPLATES_ROOT :: string where "TEMPLATES_ROOT = ''/opt/inspect-api/templates''"

text \<open>\<open>{:020}\<close> of the nanoseconds since 1970 as \<open>u64\<close>.\<close>

definition pad20 :: "nat \<Rightarrow> string" where
  "pad20 n = (let s = show_nat n in replicate (20 - length s) CHR ''0'' @ s)"

definition unix_nanos :: "int \<Rightarrow> nat" where
  "unix_nanos t = nat t mod 2 ^ 64"

definition new_template_id :: "'s host \<Rightarrow> 's shim \<Rightarrow> string" where
  "new_template_id h st = ''t'' @ pad20 (unix_nanos (now h (outside st)))"

definition new_build_id :: "'s host \<Rightarrow> 's shim \<Rightarrow> string" where
  "new_build_id h st = ''b'' @ pad20 (unix_nanos (now h (outside st)))"

definition staging_dir :: "string \<Rightarrow> string" where
  "staging_dir bid = STAGING_ROOT @ ''/'' @ bid @ ''/files''"

definition template_dir :: "string \<Rightarrow> string" where
  "template_dir nm = TEMPLATES_ROOT @ ''/'' @ nm"

section \<open>Registering a build\<close>

text \<open>Of the request the code uses the names and the tags.\<close>

record template_request =
  tr_alias :: "string option"
  tr_name :: "string option"
  tr_tags :: "string list option"

definition templates_create_v3 :: "'s host \<Rightarrow> headers \<Rightarrow> template_request \<Rightarrow> ('s, status \<times> json) act" where
  "templates_create_v3 h hs b = authorized hs (\<lambda>st.
     let nm = sanitize_name (or_default (or_else (tr_name b) (tr_alias b)) ''tpl'');
         tid = new_template_id h st; bid = new_build_id h st;
         tb = \<lparr>tb_template_id = tid, tb_build_id = bid, tb_name = nm, tb_status = Pending, tb_logs = []\<rparr>;
         tags = JArr (map JStr (or_default (tr_tags b) [])) in
     (Inr (ACCEPTED, JObj
        [(''aliases'', tags), (''buildID'', JStr bid), (''names'', JArr [JStr nm]), (''public'', JBool False),
         (''tags'', tags), (''templateID'', JStr tid)]),
      on_fs (\<lambda>fs. snd (create_dir_all fs (components (staging_dir bid))))
        (st\<lparr>template_builds := AList.update bid tb (template_builds st),
            template_id_to_build := AList.update tid bid (template_id_to_build st)\<rparr>)))"

definition templates_create_legacy :: "'s host \<Rightarrow> headers \<Rightarrow> template_request \<Rightarrow> ('s, status \<times> json) act" where
  "templates_create_legacy = templates_create_v3"

definition templates_files_hash :: "headers \<Rightarrow> string \<Rightarrow> string \<Rightarrow> ('s, json) act" where
  "templates_files_hash hs tid hash = authorized hs (\<lambda>st.
     (rtry (ok_or (NOT_FOUND, err_json ''not_found'' (''template '' @ tid)) (map_of (template_id_to_build st) tid))
        (\<lambda>bid. Inr (JObj [(''present'', JBool False),
                          (''url'', JStr (''/v1/files/'' @ urlencoding_encode (bid @ '':'' @ hash)))])), st))"

definition split_once :: "char \<Rightarrow> string \<Rightarrow> (string \<times> string) option" where
  "split_once c s = (if c \<in> set s then Some (takeWhile (\<lambda>x. x \<noteq> c) s, tl (dropWhile (\<lambda>x. x \<noteq> c) s)) else None)"

definition files_upload :: "headers \<Rightarrow> string \<Rightarrow> bytes \<Rightarrow> ('s, status) act" where
  "files_upload hs token body = authorized hs (\<lambda>st.
     case split_once CHR '':'' (or_default (urlencoding_decode token) token) of
       None \<Rightarrow> (Inl (BAD_REQUEST, ''bad token''), st)
     | Some (bid, hash) \<Rightarrow>
         if map_of (template_builds st) bid = None then (Inl (NOT_FOUND, ''unknown build '' @ bid), st)
         else
           io_try (fs_step (\<lambda>e. (INTERNAL_SERVER_ERROR, ''write: '' @ io_msg e))
                     (\<lambda>fs. fs_write fs (components (staging_dir bid @ ''/'' @ hash)) body))
             (\<lambda>_. io_lift (Inr OK_S))
             (on_fs (\<lambda>fs. snd (create_dir_all fs (components (staging_dir bid)))) st))"

section \<open>Starting a build\<close>

record template_step =
  ts_type :: string
  ts_args :: "string list"
  ts_files_hash :: "string option"

record template_build_start =
  tbs_from_image :: "string option"
  tbs_from_template :: "string option"
  tbs_start_cmd :: "string option"
  tbs_steps :: "template_step list"

definition plain_steps :: "string list" where
  "plain_steps = [''RUN'', ''ENV'', ''WORKDIR'', ''USER'', ''EXPOSE'', ''ARG'', ''LABEL'', ''CMD'', ''ENTRYPOINT'']"

text \<open>One step: its text, and for an uploaded file the copy into the template directory.\<close>

definition dockerfile_step :: "string \<Rightarrow> string \<Rightarrow> template_step \<Rightarrow> ('s, string) act" where
  "dockerfile_step bid dir s =
     (let ty = map ascii_upper (ts_type s); args = join '' '' (ts_args s) in
      if ty = ''COPY'' then
        (case ts_files_hash s of
           Some hash \<Rightarrow>
             if ts_args s \<noteq> [] then
               io_try (fs_step (\<lambda>e. (BAD_REQUEST, ''missing upload '' @ hash @ '': '' @ io_msg e))
                   (\<lambda>fs. rtry (fs_read fs (components (staging_dir bid @ ''/'' @ hash)))
                           (\<lambda>bs. fs_write fs (components (dir @ ''/'' @ hash)) bs)))
                 (\<lambda>_. io_lift (Inr (''COPY '' @ hash @ '' '' @ last (ts_args s) @ [CHR 0x0A])))
             else io_lift (Inr (''COPY '' @ args @ [CHR 0x0A]))
         | None \<Rightarrow> io_lift (Inr (''COPY '' @ args @ [CHR 0x0A])))
      else if ty \<in> set plain_steps then io_lift (Inr (ty @ '' '' @ args @ [CHR 0x0A]))
      else io_lift (Inr (''# UNKNOWN STEP '' @ ty @ '': '' @ args @ [CHR 0x0A])))"

fun dockerfile_steps :: "string \<Rightarrow> string \<Rightarrow> template_step list \<Rightarrow> string \<Rightarrow> ('s, string) act" where
  "dockerfile_steps bid dir [] df st = (Inr df, st)"
| "dockerfile_steps bid dir (s # ss) df st =
     io_try (dockerfile_step bid dir s) (\<lambda>t. dockerfile_steps bid dir ss (df @ t)) st"

definition build_base :: "template_build_start \<Rightarrow> string" where
  "build_base b =
     or_default (or_else (tbs_from_image b)
       (map_option (\<lambda>t. ''inspect-tpl-'' @ t @ '':latest'') (tbs_from_template b))) ''python:3.12-slim''"

definition default_toml :: "string \<Rightarrow> string" where
  "default_toml nm = ''name = \"'' @ nm @ ''\"'' @ [CHR 0x0A] @ ''pool_size = 16'' @ [CHR 0x0A]
     @ ''containers = 1'' @ [CHR 0x0A]"

definition set_build :: "string \<Rightarrow> (template_build \<Rightarrow> template_build) \<Rightarrow> 's shim \<Rightarrow> 's shim" where
  "set_build bid f st =
     (case map_of (template_builds st) bid of
        None \<Rightarrow> st | Some tb \<Rightarrow> st\<lparr>template_builds := AList.update bid (f tb) (template_builds st)\<rparr>)"

text \<open>The answer is sent when the template directory is written; the build itself is a task.\<close>

definition templates_build_start :: "headers \<Rightarrow> string \<Rightarrow> string \<Rightarrow> template_build_start \<Rightarrow> ('s, status) act" where
  "templates_build_start hs tid bid b = authorized hs (\<lambda>st.
     case map_of (template_builds st) bid of
       None \<Rightarrow> (Inl (NOT_FOUND, ''build '' @ bid @ '' not found''), st)
     | Some tb \<Rightarrow>
         if tb_template_id tb \<noteq> tid then (Inl (BAD_REQUEST, ''template/build mismatch''), st)
         else
           let dir = template_dir (tb_name tb) in
           io_try (dockerfile_steps bid dir (tbs_steps b) (''FROM '' @ build_base b @ [CHR 0x0A])) (\<lambda>df.
           let df' = (case tbs_start_cmd b of None \<Rightarrow> df | Some c \<Rightarrow> df @ ''CMD '' @ c @ [CHR 0x0A]) in
           io_try (fs_step (\<lambda>e. (INTERNAL_SERVER_ERROR, ''write Dockerfile: '' @ io_msg e))
                     (\<lambda>fs. fs_write fs (components (dir @ ''/Dockerfile'')) (as_bytes df'))) (\<lambda>_ st2.
           let toml = components (dir @ ''/template.toml'');
               st3 = (if fs_exists (host_fs st2) toml then st2
                      else on_fs (best_effort (\<lambda>fs. fs_write fs toml (as_bytes (default_toml (tb_name tb))))) st2) in
           (Inr ACCEPTED, set_build bid (\<lambda>tb. tb\<lparr>tb_status := Building\<rparr>) st3)))
             (on_fs (\<lambda>fs. snd (create_dir_all fs (components dir))) st))"

section \<open>Following the upstream build\<close>

text \<open>A line of the build output: it is logged, and an exit marker in it sets the status.\<close>

definition log_line :: "bool \<Rightarrow> bytes \<Rightarrow> template_build \<Rightarrow> template_build" where
  "log_line bad bs tb =
     (let l = from_utf8_lossy bs;
          tb1 = (if str_contains l ''=== exit '' then
                   tb\<lparr>tb_status := (if str_contains l ''=== exit 0 ==='' \<and> \<not> bad then Ready else BuildError)\<rparr>
                 else tb) in
      tb1\<lparr>tb_logs := tb_logs tb1 @ [l]\<rparr>)"

text \<open>The inner loop: complete lines are taken off the front of the buffer.\<close>

function take_lines :: "bool \<Rightarrow> bytes \<Rightarrow> template_build \<Rightarrow> bytes \<times> template_build" where
  "take_lines bad buf tb =
     (if 10 \<in> set buf then
        take_lines bad (tl (dropWhile (\<lambda>b. b \<noteq> 10) buf)) (log_line bad (takeWhile (\<lambda>b. b \<noteq> 10) buf) tb)
      else (buf, tb))"
  by pat_completeness auto
termination
proof (relation "measure (\<lambda>(bad, buf, tb). length buf)", simp, clarsimp)
  fix buf :: bytes
  assume "10 \<in> set buf"
  then have "dropWhile (\<lambda>b. b \<noteq> 10) buf \<noteq> []" by (simp add: dropWhile_eq_Nil_conv)
  then show "length (dropWhile (\<lambda>b. b \<noteq> 10) buf) - Suc 0 < length buf"
    using length_dropWhile_le [of "\<lambda>b. b \<noteq> 10" buf]
    by (cases "dropWhile (\<lambda>b. b \<noteq> 10) buf") auto
qed

declare take_lines.simps [simp del]

fun feed_chunks :: "bool \<Rightarrow> bytes \<Rightarrow> bytes list \<Rightarrow> template_build \<Rightarrow> bytes \<times> template_build" where
  "feed_chunks bad buf [] tb = (buf, tb)"
| "feed_chunks bad buf (c # cs) tb = (case take_lines bad (buf @ c) tb of (buf', tb') \<Rightarrow> feed_chunks bad buf' cs tb')"

text \<open>The end of the stream: the rest without a newline is logged, and a build still running is settled.\<close>

definition finish_build :: "bool \<Rightarrow> bytes \<Rightarrow> template_build \<Rightarrow> template_build" where
  "finish_build bad buf tb =
     (let tb1 = (if buf = [] then tb else tb\<lparr>tb_logs := tb_logs tb @ [from_utf8_lossy buf]\<rparr>) in
      if tb_status tb1 = Building then tb1\<lparr>tb_status := (if bad then BuildError else Ready)\<rparr> else tb1)"

definition follow_build :: "'s host \<Rightarrow> nat \<Rightarrow> bytes list \<Rightarrow> template_build \<Rightarrow> template_build" where
  "follow_build h status chunks tb =
     (let bad = \<not> is_success status;
          tb1 = (if bad then tb\<lparr>tb_logs := tb_logs tb @ [''[shim] api-rust returned HTTP '' @ status_text h status]\<rparr>
                 else tb) in
      case feed_chunks bad [] chunks tb1 of (buf, tb2) \<Rightarrow> finish_build bad buf tb2)"

definition build_task :: "'s host \<Rightarrow> string \<Rightarrow> 's shim \<Rightarrow> 's shim" where
  "build_task h bid st =
     (case map_of (template_builds st) bid of
        None \<Rightarrow> st
      | Some tb \<Rightarrow>
          (case with_world (post_stream h (upstream st @ ''/admin/build/'' @ urlencoding_encode (tb_name tb))) st of
             (Inl e, st1) \<Rightarrow>
               set_build bid (\<lambda>tb. tb\<lparr>tb_status := BuildError,
                 tb_logs := tb_logs tb @ [''[shim] api-rust POST failed: '' @ e]\<rparr>) st1
           | (Inr (status, chunks), st1) \<Rightarrow> set_build bid (follow_build h status chunks) st1))"

fun status_word :: "build_status \<Rightarrow> string" where
  "status_word Pending = ''waiting''"
| "status_word Building = ''building''"
| "status_word Ready = ''ready''"
| "status_word BuildError = ''error''"

definition templates_build_status :: "headers \<Rightarrow> string \<Rightarrow> ('s, json) act" where
  "templates_build_status hs bid = authorized hs (\<lambda>st.
     (rtry (ok_or (NOT_FOUND, ''build '' @ bid @ '' not found'') (map_of (template_builds st) bid)) (\<lambda>tb.
        Inr (JObj [(''status'', JStr (status_word (tb_status tb))), (''templateID'', JStr (tb_template_id tb)),
                   (''buildID'', JStr (tb_build_id tb))])), st))"

definition templates_build_logs :: "headers \<Rightarrow> string \<Rightarrow> ('s, json) act" where
  "templates_build_logs hs bid = authorized hs (\<lambda>st.
     (rtry (ok_or (NOT_FOUND, ''build '' @ bid @ '' not found'') (map_of (template_builds st) bid)) (\<lambda>tb.
        Inr (JObj [(''logs'', JArr (map JStr (tb_logs tb)))])), st))"

section \<open>Templates\<close>

record template_info =
  ti_template_id :: string
  ti_name :: string
  ti_aliases :: "string list"
  ti_tags :: "string list"
  ti_public :: bool
  ti_build_id :: string

definition list_template_names_on_disk :: "fs \<Rightarrow> string list" where
  "list_template_names_on_disk fs =
     (case fs_read_dir fs (components TEMPLATES_ROOT) of
        Inl _ \<Rightarrow> []
      | Inr ents \<Rightarrow> sort (map fst (filter (\<lambda>(n, _). valid_utf8 (as_bytes n)
          \<and> fs_exists fs (components TEMPLATES_ROOT @ [Normal n, Normal ''template.toml''])) ents)))"

definition build_id_for_name :: "string \<Rightarrow> 's shim \<Rightarrow> string" where
  "build_id_for_name nm st =
     (case find (\<lambda>tb. tb_name tb = nm) (map snd (template_builds st)) of
        Some tb \<Rightarrow> tb_build_id tb | None \<Rightarrow> ''b-'' @ nm)"

definition template_info_of :: "string \<Rightarrow> 's shim \<Rightarrow> template_info" where
  "template_info_of nm st =
     \<lparr>ti_template_id = ''t-'' @ nm, ti_name = nm, ti_aliases = [nm],
      ti_tags = or_default (map_of (template_tags st) nm) [], ti_public = False,
      ti_build_id = build_id_for_name nm st\<rparr>"

definition templates_list :: "headers \<Rightarrow> ('s, template_info list) act" where
  "templates_list hs = authorized hs (\<lambda>st.
     (Inr (map (\<lambda>nm. template_info_of nm st) (list_template_names_on_disk (host_fs st))), st))"

definition template_get :: "headers \<Rightarrow> string \<Rightarrow> ('s, template_info) act" where
  "template_get hs tid = authorized hs (\<lambda>st.
     let nm = (case strip_prefix tid ''t-'' of
                 Some r \<Rightarrow> r
               | None \<Rightarrow> (case map_of (template_builds st) tid of Some tb \<Rightarrow> tb_name tb | None \<Rightarrow> tid)) in
     if \<not> fs_exists (host_fs st) (components (template_dir nm)) then
       (Inl (NOT_FOUND, ''template '' @ nm @ '' not found''), st)
     else (Inr (template_info_of nm st), st))"

definition template_get_by_alias :: "headers \<Rightarrow> string \<Rightarrow> ('s, template_info) act" where
  "template_get_by_alias = template_get"

text \<open>The body of an update is accepted and ignored.\<close>

definition template_update :: "headers \<Rightarrow> string \<Rightarrow> ('s, template_info) act" where
  "template_update = template_get"

definition bare_name :: "string \<Rightarrow> string" where
  "bare_name t = or_default (strip_prefix t ''t-'') t"

definition template_delete :: "headers \<Rightarrow> string \<Rightarrow> ('s, status) act" where
  "template_delete hs tid = authorized hs (\<lambda>st.
     let nm = bare_name tid in
     (Inr NO_CONTENT,
      on_fs (best_effort (\<lambda>fs. fs_remove_dir_all fs (components (template_dir nm))))
        (st\<lparr>template_tags := AList.delete nm (template_tags st)\<rparr>)))"

section \<open>Tags\<close>

record assign_tags =
  at_template_id :: "string option"
  at_name :: "string option"
  at_tags :: "string list"

definition tagged_name :: "assign_tags \<Rightarrow> string result" where
  "tagged_name b = ok_or (BAD_REQUEST, ''missing templateID or name'')
     (or_else (map_option bare_name (at_template_id b)) (at_name b))"

definition tags_assign :: "headers \<Rightarrow> assign_tags \<Rightarrow> ('s, status) act" where
  "tags_assign hs b = authorized hs (\<lambda>st.
     case tagged_name b of
       Inl e \<Rightarrow> (Inl e, st)
     | Inr nm \<Rightarrow> (Inr NO_CONTENT, st\<lparr>template_tags :=
         AList.update nm (or_default (map_of (template_tags st) nm) [] @ at_tags b) (template_tags st)\<rparr>))"

definition tags_remove :: "headers \<Rightarrow> assign_tags \<Rightarrow> ('s, status) act" where
  "tags_remove hs b = authorized hs (\<lambda>st.
     case tagged_name b of
       Inl e \<Rightarrow> (Inl e, st)
     | Inr nm \<Rightarrow> (Inr NO_CONTENT,
         case map_of (template_tags st) nm of
           None \<Rightarrow> st
         | Some v \<Rightarrow> st\<lparr>template_tags := AList.update nm (filter (\<lambda>t. t \<notin> set (at_tags b)) v) (template_tags st)\<rparr>))"

definition tags_get :: "headers \<Rightarrow> string \<Rightarrow> ('s, json) act" where
  "tags_get hs tid = authorized hs (\<lambda>st.
     (Inr (JObj [(''tags'', JArr (map JStr (or_default (map_of (template_tags st) (bare_name tid)) [])))]), st))"

end
