(* ===== verification/Shim_Routes.thy ===== *)
theory Shim_Routes
  imports Shim_Process Shim_Templates
begin

text \<open>
  The router of \<open>e2b-shim\<close>: a request names its handler with the decoded path, query and body;
  routes that differ in the URL only are one request. Extractor errors of the framework are not
  modelled, nor the CORS layer.
\<close>

section \<open>Answers as JSON\<close>

definition volume_json :: "volume_rec \<Rightarrow> json" where
  "volume_json v = JObj
     [(''volumeID'', JStr (vol_id v)), (''name'', JStr (vol_name v)), (''token'', JStr (vol_token v)),
      (''sizeMB'', JNum (vol_size_mb v)), (''createdAt'', JStr (vol_created_at v)),
      (''backend'', case vol_backend v of
         Local \<Rightarrow> JObj [(''kind'', JStr ''local'')]
       | S3 c \<Rightarrow> JObj [(''kind'', JStr ''s3''), (''bucket'', JStr (s3_bucket c)), (''prefix'', JStr (s3_prefix c)),
                       (''region'', JStr (s3_region c)), (''endpoint'', JStr (s3_endpoint c))])]"

definition snapshot_json :: "snapshot_rec \<Rightarrow> json" where
  "snapshot_json s = JObj
     [(''snapshotID'', JStr (snap_id s)), (''sandboxID'', JStr (snap_sandbox_id s)),
      (''templateID'', JStr (snap_template_id s)), (''tosURL'', JStr (snap_tos_url s)),
      (''createdAt'', JStr (snap_created_at s))]"

definition metrics_json :: "sandbox_metrics \<Rightarrow> json" where
  "metrics_json m = JObj
     [(''sandboxID'', JStr (sm_sandbox_id m)), (''cpuUsedPct'', JNum (int (sm_cpu_used_pct m))),
      (''memUsedMB'', JNum (int (sm_mem_used_mb m))), (''diskUsedMB'', JNum (int (sm_disk_used_mb m))),
      (''timestamp'', JStr (sm_timestamp m))]"

definition template_json :: "template_info \<Rightarrow> json" where
  "template_json t = JObj
     [(''templateID'', JStr (ti_template_id t)), (''name'', JStr (ti_name t)),
      (''aliases'', JArr (map JStr (ti_aliases t))), (''tags'', JArr (map JStr (ti_tags t))),
      (''public'', JBool (ti_public t)), (''buildID'', JStr (ti_build_id t))]"

section \<open>Requests\<close>

datatype shim_request =
    QHealth
  | QCreate new_sandbox | QList | QGet string | QDelete string | QTimeout string int
  | QMetrics | QMetricsOne string | QLogs string | QPause string | QResume string | QConnect string
  | QRefreshes string | QSnapshot string | QSnapshots string | QSnapshotList
  | QTemplateCreate template_request | QTemplateFiles string string | QUpload string bytes
  | QBuildStart string string template_build_start | QBuildStatus string | QBuildLogs string
  | QTemplateList | QTemplateGet string | QTemplateDelete string | QTemplateUpdate string | QTemplateAlias string
  | QTagsAssign assign_tags | QTagsRemove assign_tags | QTagsGet string
  | QVolumeCreate create_volume_body | QVolumeList | QVolumeGet string | QVolumeDelete string
  | QFilePut string volume_query bytes | QFileGet string volume_query
  | QDirPost string volume_query | QDirGet string volume_query
  | QPathGet string volume_query | QPathDelete string volume_query | QPathPatch string volume_query bytes
  | QProcessStart bytes | QProcessList | QStat | QMakeDir | QListDir | QRemove bytes | QMove
  | QFilesGet string | QFilesPost string bytes

definition reply :: "('a \<Rightarrow> response) \<Rightarrow> ('s, 'a) act \<Rightarrow> 's shim \<Rightarrow> response option \<times> 's shim" where
  "reply enc f st = (case f st of (r, st') \<Rightarrow> (Some (into_response (rtry r (\<lambda>x. Inr (enc x)))), st'))"

definition reply_opt :: "('a \<Rightarrow> response) \<Rightarrow> ('s shim \<Rightarrow> 'a result option \<times> 's shim) \<Rightarrow> 's shim
    \<Rightarrow> response option \<times> 's shim" where
  "reply_opt enc f st =
     (case f st of (r, st') \<Rightarrow> (map_option (\<lambda>r. into_response (rtry r (\<lambda>x. Inr (enc x)))) r, st'))"

abbreviation raw :: "('s shim \<Rightarrow> response \<times> 's shim) \<Rightarrow> 's shim \<Rightarrow> response option \<times> 's shim" where
  "raw f st \<equiv> (case f st of (r, st') \<Rightarrow> (Some r, st'))"

text \<open>No answer (\<open>None\<close>) is a panic of the handler.\<close>

fun shim_handle :: "'s host \<Rightarrow> pb \<Rightarrow> env \<Rightarrow> headers \<Rightarrow> shim_request \<Rightarrow> 's shim \<Rightarrow> response option \<times> 's shim" where
  "shim_handle h pb env hs QHealth st = (Some (json_response h OK_S (shim_health st)), st)"
| "shim_handle h pb env hs (QCreate b) st =
     reply_opt (\<lambda>(s, r). json_response h s (sandbox_json r)) (create_sandbox h env hs b) st"
| "shim_handle h pb env hs QList st =
     reply (\<lambda>rs. json_response h OK_S (JArr (map sandbox_json rs))) (sandboxes_list hs) st"
| "shim_handle h pb env hs (QGet sid) st = reply (json_response h OK_S \<circ> sandbox_json) (get_sandbox hs sid) st"
| "shim_handle h pb env hs (QDelete sid) st = reply bare_status (delete_sandbox h hs sid) st"
| "shim_handle h pb env hs (QTimeout sid t) st = reply_opt bare_status (set_sandbox_timeout h hs sid t) st"
| "shim_handle h pb env hs QMetrics st =
     reply (\<lambda>ms. json_response h OK_S (JArr (map metrics_json ms))) (sandboxes_metrics h hs) st"
| "shim_handle h pb env hs (QMetricsOne sid) st =
     reply (\<lambda>ms. json_response h OK_S (JArr (map metrics_json ms))) (sandbox_metrics_one h hs sid) st"
| "shim_handle h pb env hs (QLogs sid) st = reply (json_response h OK_S) (sandbox_logs hs sid) st"
| "shim_handle h pb env hs (QPause sid) st = reply bare_status (sandbox_pause h hs sid) st"
| "shim_handle h pb env hs (QResume sid) st =
     reply_opt (json_response h OK_S \<circ> sandbox_json) (sandbox_resume h hs sid) st"
| "shim_handle h pb env hs (QConnect sid) st =
     reply (json_response h OK_S \<circ> sandbox_json) (sandbox_connect hs sid) st"
| "shim_handle h pb env hs (QRefreshes sid) st = reply_opt bare_status (sandbox_refreshes h hs sid) st"
| "shim_handle h pb env hs (QSnapshot sid) st = reply (json_response h OK_S) (sandbox_snapshot h hs sid) st"
| "shim_handle h pb env hs (QSnapshots sid) st =
     reply (\<lambda>(s, x). json_response h s (snapshot_json x)) (sandbox_snapshots_e2b h hs sid) st"
| "shim_handle h pb env hs QSnapshotList st =
     reply (\<lambda>xs. json_response h OK_S (JArr (map snapshot_json xs))) (snapshots_list hs) st"
| "shim_handle h pb env hs (QTemplateCreate b) st =
     reply (\<lambda>(s, j). json_response h s j) (templates_create_v3 h hs b) st"
| "shim_handle h pb env hs (QTemplateFiles tid hash) st =
     reply (json_response h OK_S) (templates_files_hash hs tid hash) st"
| "shim_handle h pb env hs (QUpload token body) st = reply bare_status (files_upload hs token body) st"
| "shim_handle h pb env hs (QBuildStart tid bid b) st = reply bare_status (templates_build_start hs tid bid b) st"
| "shim_handle h pb env hs (QBuildStatus bid) st = reply (json_response h OK_S) (templates_build_status hs bid) st"
| "shim_handle h pb env hs (QBuildLogs bid) st = reply (json_response h OK_S) (templates_build_logs hs bid) st"
| "shim_handle h pb env hs QTemplateList st =
     reply (\<lambda>ts. json_response h OK_S (JArr (map template_json ts))) (templates_list hs) st"
| "shim_handle h pb env hs (QTemplateGet tid) st =
     reply (json_response h OK_S \<circ> template_json) (template_get hs tid) st"
| "shim_handle h pb env hs (QTemplateDelete tid) st = reply bare_status (template_delete hs tid) st"
| "shim_handle h pb env hs (QTemplateUpdate tid) st =
     reply (json_response h OK_S \<circ> template_json) (template_update hs tid) st"
| "shim_handle h pb env hs (QTemplateAlias a) st =
     reply (json_response h OK_S \<circ> template_json) (template_get_by_alias hs a) st"
| "shim_handle h pb env hs (QTagsAssign b) st = reply bare_status (tags_assign hs b) st"
| "shim_handle h pb env hs (QTagsRemove b) st = reply bare_status (tags_remove hs b) st"
| "shim_handle h pb env hs (QTagsGet tid) st = reply (json_response h OK_S) (tags_get hs tid) st"
| "shim_handle h pb env hs (QVolumeCreate b) st =
     reply (\<lambda>(s, v). json_response h s (volume_json v)) (volumes_create h env hs b) st"
| "shim_handle h pb env hs QVolumeList st =
     reply (\<lambda>vs. json_response h OK_S (JArr (map volume_json vs))) (volumes_list hs) st"
| "shim_handle h pb env hs (QVolumeGet vid) st = reply (json_response h OK_S \<circ> volume_json) (volume_get hs vid) st"
| "shim_handle h pb env hs (QVolumeDelete vid) st = reply bare_status (volume_delete env hs vid) st"
| "shim_handle h pb env hs (QFilePut vid q body) st = reply id (volume_file_put h env hs vid q body) st"
| "shim_handle h pb env hs (QFileGet vid q) st = reply id (volume_file_get h env hs vid q) st"
| "shim_handle h pb env hs (QDirPost vid q) st = reply id (volume_dir_post h env hs vid q) st"
| "shim_handle h pb env hs (QDirGet vid q) st = reply id (volume_dir_get h env hs vid q) st"
| "shim_handle h pb env hs (QPathGet vid q) st = reply id (volume_path_get h env hs vid q) st"
| "shim_handle h pb env hs (QPathDelete vid q) st = reply bare_status (volume_path_delete h env hs vid q) st"
| "shim_handle h pb env hs (QPathPatch vid q body) st = reply id (volume_path_patch h env hs vid q body) st"
| "shim_handle h pb env hs (QProcessStart body) st = raw (process_start h pb env hs body) st"
| "shim_handle h pb env hs QProcessList st = (Some (process_list h pb hs), st)"
| "shim_handle h pb env hs QStat st = (Some fs_stat, st)"
| "shim_handle h pb env hs QMakeDir st = (Some fs_mkdir_route, st)"
| "shim_handle h pb env hs QListDir st = (Some fs_list, st)"
| "shim_handle h pb env hs (QRemove body) st = raw (fs_remove h pb env hs body) st"
| "shim_handle h pb env hs QMove st = (Some fs_move, st)"
| "shim_handle h pb env hs (QFilesGet p) st = raw (files_get h env hs p) st"
| "shim_handle h pb env hs (QFilesPost p body) st = raw (files_post h env hs p body) st"

end
