(* ===== verification/Shim_Demo.thy ===== *)
theory Shim_Demo
  imports Shim_Routes
begin

text \<open>
  A concrete outside world, protobuf decoder and sandbox, on which the witnesses of the shim's
  properties evaluate: every upstream call succeeds, session creation answers \<open>s1\<close>.
\<close>

definition demo_rec :: sandbox_rec where
  "demo_rec = \<lparr>sb_id = ''s1'', sb_template_id = ''tools-default'', sb_client_id = ''shim'',
     sb_domain = Some ''api:8000'', sb_envd_version = ''0.5.0'', sb_access_token = Some ''u'', sb_alias = None,
     sb_metadata = None, sb_started_at = ''2026'', sb_end_at = ''2026'', sb_cpu_count = 2, sb_memory_mb = 1024,
     sb_disk_size_mb = 4096, sb_state = ''running'', sb_volume_mounts = []\<rparr>"

definition demo_host :: "unit host" where
  "demo_host = \<lparr>post_json = (\<lambda>_ _ s. (Inr (200, Some [1]), s)), post_stream = (\<lambda>_ s. (Inr (200, []), s)),
     delete_url = (\<lambda>_ s. s), now = (\<lambda>_. 0), uuid = (\<lambda>s. (''u'', s)), add_secs = (\<lambda>t s. Some (t + s)),
     rfc3339 = (\<lambda>_. ''2026''), of_rfc3339 = (\<lambda>_. Some 0), format_time = (\<lambda>_ _. []), json_text = (\<lambda>_. []),
     json_pretty = (\<lambda>_. [2]),
     of_json_text = (\<lambda>b. Some (if b = [1] then JObj [(''session_id'', JStr ''s1'')] else sandbox_json demo_rec)),
     json_err = (\<lambda>_. []), debug_str = id, status_text = show_nat, creds_err = (\<lambda>_. None), bucket_err = (\<lambda>_. None),
     s3_put = (\<lambda>_ _ _ s. (Inr 200, s)), s3_get = (\<lambda>_ _ s. (Inr (200, []), s)), s3_del = (\<lambda>_ _ s. (Inr 200, s)),
     s3_list = (\<lambda>_ _ s. (Inr [], s)), tar_gz = (\<lambda>_ _. Inr []),
     stat_of = (\<lambda>_ _. \<lparr>fst_size = 0, fst_mode = 0, fst_uid = 0, fst_gid = 0, fst_mtime = 0\<rparr>)\<rparr>"

definition demo_pb :: pb where
  "demo_pb = \<lparr>pb_start_request = (\<lambda>_. None), pb_start_response = (\<lambda>_. []), pb_list_response = [],
     pb_varint_ok = (\<lambda>_. True)\<rparr>"

definition demo_query :: "string \<Rightarrow> volume_query" where
  "demo_query p = \<lparr>vq_path = p, vq_force = None, vq_depth = None\<rparr>"

text \<open>A shim with one volume, its directory on disk, and an API key.\<close>

definition demo_shim :: "unit shim" where
  "demo_shim = \<lparr>sandboxes = [], upstream = ''http://127.0.0.1:8000'', api_key = Some ''k'', tos = None,
     template_builds = [], template_id_to_build = [], template_tags = [],
     volumes = [(''vol1'', \<lparr>vol_id = ''vol1'', vol_name = ''data'', vol_token = ''t'', vol_size_mb = 1024,
       vol_created_at = [], vol_backend = Local\<rparr>)],
     snapshots = [], s3_creds = [], host_fs = [([''v''], Dir), ([''v'', ''vol1''], Dir)], outside = ()\<rparr>"

definition demo_env :: env where
  "demo_env = [''E2B_SHIM_VOLUMES_ROOT'' \<mapsto> ''/v'']"

definition demo_token :: headers where
  "demo_token = [(''authorization'', ''Bearer t'')]"

end
