(* ===== verification/Build_Props.thy ===== *)
theory Build_Props
  imports Shim_Demo
begin

text \<open>
  What becomes of a template build: the log and the status as functions of the bytes the upstream
  sent, however they were cut into chunks, and what cannot work in the bridge.
\<close>

section \<open>Lines of a byte stream\<close>

fun split_nl :: "bytes \<Rightarrow> bytes list" where
  "split_nl [] = [[]]"
| "split_nl (b # bs) = (if b = 10 then [] # split_nl bs else (b # hd (split_nl bs)) # tl (split_nl bs))"

lemma split_nl_nonempty [simp]: "split_nl bs \<noteq> []"
  by (induction bs) auto

lemma split_nl_join: "hd (split_nl bs) # tl (split_nl bs) = split_nl bs"
  by (simp add: list.collapse)

lemma split_nl_no_newline: "10 \<notin> set bs \<Longrightarrow> split_nl bs = [bs]"
  by (induction bs) auto

lemma split_nl_last: "10 \<notin> set (last (split_nl bs))"
proof (induction bs)
  case (Cons b bs)
  then show ?case by (cases "split_nl bs") auto
qed simp

lemma split_nl_append:
  "split_nl (x @ y) = butlast (split_nl x) @ split_nl (last (split_nl x) @ y)"
proof (induction x)
  case (Cons b x)
  obtain l ls where x: "split_nl x = l # ls" by (cases "split_nl x") auto
  show ?case
  proof (cases "b = 10")
    case True
    then show ?thesis using Cons x by simp
  next
    case False
    show ?thesis
    proof (cases ls)
      case Nil
      then show ?thesis using Cons x False by simp
    next
      case (Cons l' ls')
      then show ?thesis using Cons.IH x False by simp
    qed
  qed
qed simp

lemma split_nl_step:
  "10 \<in> set bs \<Longrightarrow> split_nl bs = takeWhile (\<lambda>b. b \<noteq> 10) bs # split_nl (tl (dropWhile (\<lambda>b. b \<noteq> 10) bs))"
  by (induction bs) auto

section \<open>The loops over chunks and lines\<close>

lemma take_lines_eq:
  "take_lines bad buf tb = (last (split_nl buf), fold (log_line bad) (butlast (split_nl buf)) tb)"
proof (induction bad buf tb rule: take_lines.induct)
  case (1 bad buf tb)
  show ?case
  proof (cases "10 \<in> set buf")
    case True
    then show ?thesis using 1 by (simp add: take_lines.simps [of bad buf] split_nl_step)
  next
    case False
    then show ?thesis by (simp add: take_lines.simps [of bad buf] split_nl_no_newline)
  qed
qed

lemma feed_chunks_eq:
  "10 \<notin> set buf \<Longrightarrow> feed_chunks bad buf cs tb =
     (last (split_nl (buf @ concat cs)), fold (log_line bad) (butlast (split_nl (buf @ concat cs))) tb)"
proof (induction cs arbitrary: buf tb)
  case Nil
  then show ?case by (simp add: split_nl_no_newline)
next
  case (Cons c cs)
  have "split_nl (buf @ concat (c # cs)) =
      butlast (split_nl (buf @ c)) @ split_nl (last (split_nl (buf @ c)) @ concat cs)"
    using split_nl_append [of "buf @ c" "concat cs"] by simp
  moreover have "feed_chunks bad (last (split_nl (buf @ c))) cs t =
      (last (split_nl (last (split_nl (buf @ c)) @ concat cs)),
       fold (log_line bad) (butlast (split_nl (last (split_nl (buf @ c)) @ concat cs))) t)" for t
    using Cons.IH [OF split_nl_last [of "buf @ c"]] by blast
  ultimately show ?case by (simp add: take_lines_eq butlast_append)
qed

definition exit_marks :: "string list \<Rightarrow> string list" where
  "exit_marks ls = filter (\<lambda>l. str_contains l ''=== exit '') ls"

definition verdict :: "bool \<Rightarrow> build_status \<Rightarrow> string list \<Rightarrow> build_status" where
  "verdict bad s ls =
     (if exit_marks ls = [] then s
      else if str_contains (last (exit_marks ls)) ''=== exit 0 ==='' \<and> \<not> bad then Ready else BuildError)"

lemma fold_log_line:
  "fold (log_line bad) bss tb =
     tb\<lparr>tb_status := verdict bad (tb_status tb) (map from_utf8_lossy bss),
        tb_logs := tb_logs tb @ map from_utf8_lossy bss\<rparr>"
proof (induction bss arbitrary: tb)
  case Nil
  then show ?case by (simp add: verdict_def exit_marks_def)
next
  case (Cons b bss)
  then show ?case by (auto simp: log_line_def verdict_def exit_marks_def Let_def)
qed

text \<open>C31: The outcome of a build depends on the bytes of the answer only, not on how they arrive:
  the log holds every line of the output in order (with the rest after the last newline), and
  the status is \<open>ready\<close> exactly when the upstream answered with success and the last exit marker,
  if there is one, reports 0.\<close>

theorem build_outcome:
  assumes "tb_status tb = Building"
  shows "let out = concat chunks; ls = map from_utf8_lossy (butlast (split_nl out)); r = last (split_nl out) in
    follow_build h status chunks tb =
      tb\<lparr>tb_status := (if is_success status \<and>
              (exit_marks ls = [] \<or> str_contains (last (exit_marks ls)) ''=== exit 0 ==='')
            then Ready else BuildError),
         tb_logs := tb_logs tb
           @ (if is_success status then [] else [''[shim] api-rust returned HTTP '' @ status_text h status])
           @ ls @ (if r = [] then [] else [from_utf8_lossy r])\<rparr>"
  using assms
  by (auto simp: follow_build_def feed_chunks_eq fold_log_line finish_build_def verdict_def Let_def)

lemma split_nl_line: "10 \<notin> set x \<Longrightarrow> split_nl (x @ 10 # y) = x # split_nl y"
  by (induction x) auto

lemma valid_utf8_ascii: "is_ascii s \<Longrightarrow> valid_utf8 (as_bytes s)"
proof (induction s)
  case (Cons c s)
  then have "of_char c < (128 :: nat)" "valid_utf8 (as_bytes s)" by (auto simp: is_ascii_def)
  moreover from this have "(word_of_nat (of_char c) :: u8) < 128" by (simp add: word_less_nat_alt)
  ultimately show ?case by (simp add: as_bytes_def utf8_seq_def utf8_width_def)
qed (simp add: as_bytes_def)

theorem build_outcome_witness:
  "tb_status (follow_build demo_host 200 [as_bytes ''=== ex'', as_bytes ''it 0 ==='' @ [10]]
     \<lparr>tb_template_id = ''t1'', tb_build_id = ''b1'', tb_name = ''x'', tb_status = Building, tb_logs = []\<rparr>) = Ready"
proof -
  let ?m = "''=== exit 0 ===''"
  have out: "concat [as_bytes ''=== ex'', as_bytes ''it 0 ==='' @ [10]] = as_bytes ?m @ 10 # []"
    by (simp add: as_bytes_def)
  have "10 \<notin> set (as_bytes ?m)" by (simp add: as_bytes_def)
  then have ls: "split_nl (as_bytes ?m @ 10 # []) = [as_bytes ?m, []]" by (simp add: split_nl_line)
  have lossy: "from_utf8_lossy (as_bytes ?m) = ?m"
    by (rule from_utf8_lossy_string, rule valid_utf8_ascii) (simp add: is_ascii_def)
  have "str_contains ?m ''=== exit ''" "str_contains ?m ''=== exit 0 ===''"
    by (simp_all add: str_contains_def match_indices_def starts_with_def)
  then show ?thesis
    using build_outcome [of "\<lparr>tb_template_id = ''t1'', tb_build_id = ''b1'', tb_name = ''x'', tb_status = Building, tb_logs = []\<rparr>"
        "[as_bytes ''=== ex'', as_bytes ''it 0 ==='' @ [10]]" demo_host 200]
    by (simp only: Let_def out ls butlast.simps last.simps list.map exit_marks_def) (simp add: lossy)
qed

section \<open>Builds that cannot succeed\<close>

text \<open>
  The controller has no route \<open>/admin/build\<close>: its router answers 404, and then no output can make
  the build ready.
\<close>

lemma failed_post_never_ready:
  "tb_status tb = Building \<Longrightarrow> \<not> is_success status \<Longrightarrow> tb_status (follow_build h status chunks tb) = BuildError"
  by (auto simp: follow_build_def feed_chunks_eq fold_log_line finish_build_def verdict_def Let_def)

text \<open>A stream that breaks off before any exit marker counts as a successful build.\<close>

lemma broken_stream_is_ready:
  "tb_status tb = Building \<Longrightarrow> tb_status (follow_build h 200 [] tb) = Ready"
  by (simp add: follow_build_def finish_build_def)

text \<open>The template id handed out on creation is not one the template routes know.\<close>

lemma pad20_digit: "\<exists>c s. pad20 n = c # s \<and> c \<noteq> CHR ''-''"
proof -
  have hd_digit: "\<exists>c s. show_nat m = c # s \<and> c \<noteq> CHR ''-''" for m
  proof (induction m rule: show_nat.induct)
    case (1 m)
    have "m < 10 \<Longrightarrow> char_of (48 + m) \<noteq> CHR ''-''"
      by (auto simp: char_of_eq_iff take_bit_nat_eq_self)
    then show ?case using 1 by (cases "m < 10") (auto simp: show_nat.simps [of m])
  qed
  then show ?thesis
    by (cases "20 - length (show_nat n)") (use hd_digit [of n] in \<open>auto simp: pad20_def Let_def\<close>)
qed

lemma created_template_id_unknown:
  assumes "map_of (template_builds st) (new_template_id h st0) = None" "check_api_key st hs = Inr u"
    and "\<not> fs_exists (host_fs st) (components (template_dir (new_template_id h st0)))"
  shows "template_get hs (new_template_id h st0) st =
    (Inl (NOT_FOUND, ''template '' @ new_template_id h st0 @ '' not found''), st)"
proof -
  obtain c s where "pad20 (unix_nanos (now h (outside st0))) = c # s" "c \<noteq> CHR ''-''"
    using pad20_digit by blast
  then have "strip_prefix (new_template_id h st0) ''t-'' = None"
    by (simp add: new_template_id_def strip_prefix_def starts_with_def)
  then show ?thesis using assms by (simp add: template_get_def authorized_def)
qed

text \<open>Deleting the template \<open>t-\<close>, whose name is empty, removes the directory of all templates.\<close>

lemma template_delete_empty_name: "components (template_dir (bare_name ''t-'')) = components TEMPLATES_ROOT"
  by (simp add: template_dir_def bare_name_def strip_prefix_def starts_with_def TEMPLATES_ROOT_def
      components_def is_absolute_def inner_components_def inner_component_def)

end
