(* ===== verification/Shim_Access.thy ===== *)
theory Shim_Access
  imports Shim_Demo
begin

text \<open>
  Who may do what at \<open>e2b-shim\<close>: the control routes want the API key, the volume content routes the
  token of the volume, and the routes of the envd protocol want nothing.
\<close>

section \<open>Credentials\<close>

definition presented_key :: "headers \<Rightarrow> string option" where
  "presented_key hs = or_else (header_str hs ''x-api-key'')
     (Option.bind (header_str hs ''authorization'') (\<lambda>s. strip_prefix s ''Bearer ''))"

definition presented_token :: "headers \<Rightarrow> string option" where
  "presented_token hs = or_else (Option.bind (header_str hs ''authorization'') (\<lambda>s. strip_prefix s ''Bearer ''))
     (header_str hs ''x-api-key'')"

fun needs_key :: "shim_request \<Rightarrow> bool" where
  "needs_key QHealth = False"
| "needs_key (QFilePut _ _ _) = False"
| "needs_key (QFileGet _ _) = False"
| "needs_key (QDirPost _ _) = False"
| "needs_key (QDirGet _ _) = False"
| "needs_key (QPathGet _ _) = False"
| "needs_key (QPathDelete _ _) = False"
| "needs_key (QPathPatch _ _ _) = False"
| "needs_key (QProcessStart _) = False"
| "needs_key QProcessList = False"
| "needs_key QStat = False"
| "needs_key QMakeDir = False"
| "needs_key QListDir = False"
| "needs_key (QRemove _) = False"
| "needs_key QMove = False"
| "needs_key (QFilesGet _) = False"
| "needs_key (QFilesPost _ _) = False"
| "needs_key _ = True"

fun content_volume :: "shim_request \<Rightarrow> string option" where
  "content_volume (QFilePut v _ _) = Some v"
| "content_volume (QFileGet v _) = Some v"
| "content_volume (QDirPost v _) = Some v"
| "content_volume (QDirGet v _) = Some v"
| "content_volume (QPathGet v _) = Some v"
| "content_volume (QPathDelete v _) = Some v"
| "content_volume (QPathPatch v _ _) = Some v"
| "content_volume _ = None"

section \<open>The guards\<close>

lemma check_api_key_denied:
  assumes "api_key st = Some want" "presented_key hs \<noteq> Some want"
  shows "check_api_key st hs = Inl (UNAUTHORIZED, err_json ''unauthenticated'' ''invalid X-API-KEY'')"
  using assms by (simp add: check_api_key_def presented_key_def)

lemma authorized_denied:
  "check_api_key st hs = Inl e \<Longrightarrow> authorized hs f st = (Inl e, st)"
  by (simp add: authorized_def)

lemma authorized_granted:
  "check_api_key st hs = Inr u \<Longrightarrow> authorized hs f st = f st"
  by (simp add: authorized_def)

lemma with_volume_denied:
  assumes "map_of (volumes st) vid = Some v" "vol_token v \<noteq> []" "presented_token hs \<noteq> Some (vol_token v)"
  shows "with_volume hs vid f st = (Inl (UNAUTHORIZED, err_json ''unauthenticated'' ''invalid volume token''), st)"
  using assms by (simp add: with_volume_def volume_rec_of_def check_volume_auth_def presented_token_def io_try_def io_lift_def)

lemma with_volume_unknown:
  assumes "map_of (volumes st) vid = None"
  shows "with_volume hs vid f st = (Inl (NOT_FOUND, err_json ''not_found'' (''volume '' @ vid @ '' not found'')), st)"
  using assms by (simp add: with_volume_def volume_rec_of_def io_try_def io_lift_def)

lemma reply_denied: "f st = (Inl e, st) \<Longrightarrow> reply enc f st = (Some (error_response e), st)"
  by (simp add: reply_def into_response_def)

lemma reply_opt_denied: "f st = (Some (Inl e), st) \<Longrightarrow> reply_opt enc f st = (Some (error_response e), st)"
  by (simp add: reply_opt_def into_response_def)

lemmas keyed_routes =
  sandboxes_list_def get_sandbox_def delete_sandbox_def sandboxes_metrics_def sandbox_metrics_one_def
  sandbox_logs_def sandbox_pause_def sandbox_connect_def sandbox_snapshot_def snapshots_list_def
  templates_create_v3_def templates_files_hash_def files_upload_def templates_build_start_def
  templates_build_status_def templates_build_logs_def templates_list_def template_get_def
  template_delete_def template_update_def template_get_by_alias_def tags_assign_def tags_remove_def
  tags_get_def volumes_create_def volumes_list_def volume_get_def volume_delete_def

lemmas content_routes =
  volume_file_put_def volume_file_get_def volume_dir_post_def volume_dir_get_def volume_path_get_def
  volume_path_delete_def volume_path_patch_def

lemma create_sandbox_denied: "check_api_key st hs = Inl e \<Longrightarrow> create_sandbox h env hs b st = (Some (Inl e), st)"
  by (simp add: create_sandbox_def)

lemma extend_lease_denied:
  "check_api_key st hs = Inl e \<Longrightarrow> extend_lease h missing hs sid secs upd ans st = (Some (Inl e), st)"
  by (simp add: extend_lease_def)

lemma snapshots_denied:
  "check_api_key st hs = Inl e \<Longrightarrow> sandbox_snapshots_e2b h hs sid st = (Inl e, st)"
  by (simp add: sandbox_snapshots_e2b_def io_try_def sandbox_snapshot_def authorized_denied)

text \<open>C19: With an API key configured, a control request without it is answered with 401 and
  changes nothing, neither in the tables nor on disk nor outside; the content of a volume is
  refused in the same way without the token of the volume, and an unknown volume with 404.\<close>

theorem unauthorized_refused:
  "(\<forall>want. api_key st = Some want \<and> presented_key hs \<noteq> Some want \<and> needs_key rq \<longrightarrow>
        shim_handle h pb env hs rq st =
          (Some (error_response (UNAUTHORIZED, err_json ''unauthenticated'' ''invalid X-API-KEY'')), st))
    \<and> (\<forall>vid v. content_volume rq = Some vid \<and> map_of (volumes st) vid = Some v \<and> vol_token v \<noteq> []
          \<and> presented_token hs \<noteq> Some (vol_token v) \<longrightarrow>
          shim_handle h pb env hs rq st =
            (Some (error_response (UNAUTHORIZED, err_json ''unauthenticated'' ''invalid volume token'')), st))
    \<and> (\<forall>vid. content_volume rq = Some vid \<and> map_of (volumes st) vid = None \<longrightarrow>
          shim_handle h pb env hs rq st =
            (Some (error_response (NOT_FOUND, err_json ''not_found'' (''volume '' @ vid @ '' not found''))), st))"
proof (intro conjI allI impI)
  fix want
  assume k: "api_key st = Some want \<and> presented_key hs \<noteq> Some want \<and> needs_key rq"
  then have no: "check_api_key st hs = Inl (UNAUTHORIZED, err_json ''unauthenticated'' ''invalid X-API-KEY'')"
    using check_api_key_denied by blast
  from k have "needs_key rq" by blast
  then show "shim_handle h pb env hs rq st =
      (Some (error_response (UNAUTHORIZED, err_json ''unauthenticated'' ''invalid X-API-KEY'')), st)"
    by (cases rq) (simp_all add: reply_denied reply_opt_denied keyed_routes authorized_denied [OF no]
        create_sandbox_denied [OF no] extend_lease_denied [OF no] snapshots_denied [OF no]
        set_sandbox_timeout_def sandbox_resume_def sandbox_refreshes_def)
next
  fix vid v
  assume "content_volume rq = Some vid \<and> map_of (volumes st) vid = Some v \<and> vol_token v \<noteq> []
      \<and> presented_token hs \<noteq> Some (vol_token v)"
  then show "shim_handle h pb env hs rq st =
      (Some (error_response (UNAUTHORIZED, err_json ''unauthenticated'' ''invalid volume token'')), st)"
    by (cases rq) (simp_all add: reply_denied content_routes with_volume_denied)
next
  fix vid
  assume "content_volume rq = Some vid \<and> map_of (volumes st) vid = None"
  then show "shim_handle h pb env hs rq st =
      (Some (error_response (NOT_FOUND, err_json ''not_found'' (''volume '' @ vid @ '' not found''))), st)"
    by (cases rq) (simp_all add: reply_denied content_routes with_volume_unknown)
qed

theorem unauthorized_refused_witness:
  "shim_handle demo_host demo_pb demo_env [(''x-api-key'', ''guess'')] (QDelete ''s1'') demo_shim =
     (Some (error_response (UNAUTHORIZED, err_json ''unauthenticated'' ''invalid X-API-KEY'')), demo_shim)
   \<and> shim_handle demo_host demo_pb demo_env [(''x-api-key'', ''guess'')] (QFileGet ''vol1'' (demo_query ''a'')) demo_shim =
     (Some (error_response (UNAUTHORIZED, err_json ''unauthenticated'' ''invalid volume token'')), demo_shim)"
  using unauthorized_refused [of demo_shim "[(''x-api-key'', ''guess'')]" "QDelete ''s1''" demo_host demo_pb demo_env]
    unauthorized_refused [of demo_shim "[(''x-api-key'', ''guess'')]" "QFileGet ''vol1'' (demo_query ''a'')" demo_host demo_pb demo_env]
  by (simp add: demo_shim_def presented_key_def presented_token_def header_str_def visible_ascii_def)

text \<open>The envd routes look at no credential: the answer does not depend on the configured key.\<close>

lemma files_get_needs_no_key:
  "fst (files_get h env hs p (st\<lparr>api_key := k\<rparr>)) = fst (files_get h env hs p st)"
proof -
  have "pick_sandbox_id env hs (st\<lparr>api_key := k\<rparr>) = pick_sandbox_id env hs st"
    by (simp add: pick_sandbox_id_def split: option.split)
  moreover have "fst (forward_tools_tool h sid t b (st\<lparr>api_key := k\<rparr>)) = fst (forward_tools_tool h sid t b st)" for sid t b
    by (simp add: forward_tools_tool_def tools_url_def split: prod.splits sum.splits option.splits)
  ultimately show ?thesis
    by (auto simp: files_get_def resolve_path_def Let_def split: prod.splits sum.splits)
      (metis Inl_Inr_False Pair_inject fst_conv sum.inject)+
qed

end
