(* ===== verification/Fs_Facts.thy ===== *)
theory Fs_Facts
  imports Fs_Model
begin

text \<open>
  Paths without symbolic links: when every directory on the way is a real one, a path leads to its
  own names, and the operations act on exactly that entry.
\<close>

section \<open>Where link-free paths lead\<close>

lemma dirs_upto_take: "dirs_upto fs (a @ b) \<Longrightarrow> dirs_upto fs a"
proof (induction b rule: rev_induct)
  case (snoc s b)
  then show ?case using dirs_upto_snoc [of fs "a @ b" s] by simp
qed simp

lemma walk_dirs: "dirs_upto fs (cur @ ns) \<Longrightarrow> walk fs n cur (map Normal ns @ cs) = walk fs n (cur @ ns) cs"
proof (induction ns arbitrary: cur)
  case (Cons s ns)
  then have "dirs_upto fs ((cur @ [s]) @ ns)" by simp
  moreover from this have "node_at fs (cur @ [s]) = Some Dir"
    using dirs_upto_take dirs_upto_node by blast
  ultimately show ?case using Cons.IH [of "cur @ [s]"] by simp
qed simp

lemma canon_dirs: "dirs_upto fs k \<Longrightarrow> canon fs (RootDir # map Normal k) = Inr k"
  using walk_dirs [of fs "[]" k max_links "[]"] by (simp add: canon_def)

lemma canon_child:
  assumes "dirs_upto fs k" "\<And>t. node_at fs (k @ [s]) \<noteq> Some (Symlink t)"
  shows "canon fs (RootDir # map Normal (k @ [s])) = Inr (k @ [s])"
proof -
  have "canon fs (RootDir # map Normal (k @ [s])) = walk fs max_links k [Normal s]"
    using walk_dirs [of fs "[]" k max_links "[Normal s]"] assms(1) by (simp add: canon_def)
  then show ?thesis using assms(2) by (auto split: option.split node.split)
qed

lemma entry_pos_dirs: "dirs_upto fs k \<Longrightarrow> entry_pos fs (RootDir # map Normal (k @ [s])) = Inr (k @ [s])"
  using canon_dirs [of fs k] dirs_upto_node [of fs k]
  by (simp add: entry_pos_def path_parent_def butlast_append)

section \<open>Nodes after an operation\<close>

lemma node_at_delete: "k \<noteq> [] \<Longrightarrow> node_at (AList.delete k fs) q = (if q = k then None else node_at fs q)"
  by (auto simp: node_at_def lookup_delete)

lemma map_of_filter_keys: "map_of (filter (\<lambda>(k, _). P k) t) k = (if P k then map_of t k else None)"
  by (induction t) auto

lemma node_at_filter: "P [] \<Longrightarrow> node_at (filter (\<lambda>(k, _). P k) fs) q = (if P q then node_at fs q else None)"
  by (auto simp: node_at_def map_of_filter_keys)

lemma dirs_upto_same: "(\<And>i. node_at fs' (take i k) = node_at fs (take i k)) \<Longrightarrow> dirs_upto fs' k = dirs_upto fs k"
  by (simp add: dirs_upto_def)

lemma dirs_upto_only_below:
  assumes "only_below q fs fs'" "\<not> prefix q k" "dirs_upto fs k"
  shows "dirs_upto fs' k"
proof -
  have "\<not> prefix q (take i k)" for i
    using assms(2) prefix_order.trans take_is_prefix by blast
  then show ?thesis using assms(1,3) by (simp add: only_below_def dirs_upto_def)
qed

lemma fs_write_child:
  assumes "dirs_upto fs k" "node_at fs (k @ [s]) = None \<or> (\<exists>b0. node_at fs (k @ [s]) = Some (File b0))"
  shows "fs_write fs (RootDir # map Normal (k @ [s])) b = Inr (AList.update (k @ [s]) (File b) fs)"
proof -
  have "canon fs (RootDir # map Normal (k @ [s])) = Inr (k @ [s])"
    using assms by (intro canon_child) auto
  then show ?thesis using assms(2) by (auto simp: fs_write_def)
qed

lemma fs_read_child:
  assumes "dirs_upto fs k" "node_at fs (k @ [s]) = Some (File b)"
  shows "fs_read fs (RootDir # map Normal (k @ [s])) = Inr b"
proof -
  have "canon fs (RootDir # map Normal (k @ [s])) = Inr (k @ [s])"
    using assms by (intro canon_child) auto
  then show ?thesis using assms(2) by (simp add: fs_read_def)
qed

lemma create_dir_all_dirs: "dirs_upto fs k \<Longrightarrow> create_dir_all fs (RootDir # map Normal k) = (Inr (), fs)"
  by (rule create_dir_all_exists [OF canon_dirs dirs_upto_node])

lemma fs_remove_file_child:
  assumes "dirs_upto fs k"
  shows "fs_remove_file fs (RootDir # map Normal (k @ [s])) =
    (case node_at fs (k @ [s]) of None \<Rightarrow> Inl ENOENT | Some Dir \<Rightarrow> Inl EISDIR
       | Some _ \<Rightarrow> Inr (AList.delete (k @ [s]) fs))"
  using entry_pos_dirs [OF assms] by (simp add: fs_remove_file_def)

lemma only_below_refl [simp]: "only_below k fs fs"
  by (simp add: only_below_def)

lemma only_below_trans: "only_below k fs fs1 \<Longrightarrow> only_below k fs1 fs2 \<Longrightarrow> only_below k fs fs2"
  by (simp add: only_below_def)

lemma only_below_delete: "k \<noteq> [] \<Longrightarrow> prefix q k \<Longrightarrow> only_below q fs (AList.delete k fs)"
  by (auto simp: only_below_def node_at_delete)

lemma only_below_filter:
  assumes "k \<noteq> []" "prefix q k"
  shows "only_below q fs (filter (\<lambda>(k', _). \<not> prefix k k') fs)"
proof -
  have "\<not> prefix k k'" if "\<not> prefix q k'" for k'
    using that assms(2) prefix_order.trans by blast
  then show ?thesis using assms(1) by (auto simp: only_below_def node_at_filter)
qed

text \<open>Removing an entry takes away nodes at and below it only.\<close>

lemma fs_remove_dir_all_below:
  assumes "entry_pos fs p = Inr k" "prefix q k" "fs_remove_dir_all fs p = Inr fs'"
  shows "only_below q fs fs'"
proof (cases "k = []")
  case True
  then show ?thesis using assms(2) by (simp add: only_below_def)
next
  case False
  then show ?thesis
    using assms by (auto simp: fs_remove_dir_all_def only_below_filter only_below_delete
        split: option.splits node.splits)
qed

lemma fs_remove_file_below:
  assumes "entry_pos fs p = Inr k" "prefix q k" "fs_remove_file fs p = Inr fs'"
  shows "only_below q fs fs'"
proof -
  have "k \<noteq> []" using assms by (auto simp: fs_remove_file_def node_at_def)
  then show ?thesis
    using assms by (auto simp: fs_remove_file_def only_below_delete split: option.splits node.splits)
qed

end
