(* ===== verification/Shim_Lifecycle.thy ===== *)
theory Shim_Lifecycle
  imports Shim_Demo Fs_Facts
begin

text \<open>
  The life of sandbox records: the registry files follow the table through every operation, so
  that a restart finds the same sandboxes, and the sweep removes exactly the expired ones.
\<close>

section \<open>Keys of the registry\<close>

definition regk :: "string list" where
  "regk = [''var'', ''lib'', ''e2b-shim'', ''registry'']"

definition boxk :: "string list" where
  "boxk = [''var'', ''lib'', ''e2b-shim'', ''sandboxes'']"

definition rec_key :: "string \<Rightarrow> string list" where
  "rec_key sid = regk @ [sid @ ''.json'']"

lemma SANDBOX_REGISTRY_DIR_eq: "SANDBOX_REGISTRY_DIR = RootDir # map Normal regk"
  by (simp add: SANDBOX_REGISTRY_DIR_def components_def is_absolute_def starts_with_def
      inner_components_def inner_component_def regk_def)

lemma SANDBOX_FS_ROOT_eq: "SANDBOX_FS_ROOT = RootDir # map Normal boxk"
  by (simp add: SANDBOX_FS_ROOT_def components_def is_absolute_def starts_with_def
      inner_components_def inner_component_def boxk_def)

text \<open>An id that is one name: what the daemon hands out.\<close>

definition plain_id :: "string \<Rightarrow> bool" where
  "plain_id sid \<longleftrightarrow> sid \<noteq> [] \<and> sid \<noteq> ''.'' \<and> sid \<noteq> ''..'' \<and> CHR ''/'' \<notin> set sid"

lemma path_join_name:
  "CHR ''/'' \<notin> set n \<Longrightarrow> n \<noteq> [] \<Longrightarrow> n \<noteq> ''.'' \<Longrightarrow> n \<noteq> ''..'' \<Longrightarrow> p \<noteq> [] \<Longrightarrow> path_join p n = p @ [Normal n]"
  by (auto simp: path_join_def is_absolute_def starts_with_def inner_components_def split_slash_one
      inner_component_def) (metis list.set_intros(1) take_Suc list.exhaust take_eq_Nil hd_Cons_tl list.sel(1))

lemma registry_path_eq: "plain_id sid \<Longrightarrow> registry_path sid = RootDir # map Normal (rec_key sid)"
  by (auto simp: registry_path_def plain_id_def path_join_name SANDBOX_REGISTRY_DIR_eq rec_key_def)

lemma sandbox_fs_dir_eq: "plain_id sid \<Longrightarrow> sandbox_fs_dir sid = RootDir # map Normal (boxk @ [sid])"
  by (auto simp: sandbox_fs_dir_def plain_id_def path_join_name SANDBOX_FS_ROOT_eq)

section \<open>Steps that touch only the outside world\<close>

definition only_outside :: "'s shim \<Rightarrow> 's shim \<Rightarrow> bool" where
  "only_outside st st' \<longleftrightarrow> (\<exists>s. st' = st\<lparr>outside := s\<rparr>)"

lemma only_outside_refl [simp]: "only_outside st st"
  unfolding only_outside_def by (rule exI [of _ "outside st"]) simp

lemma only_outside_update [simp]: "only_outside st (st\<lparr>outside := s\<rparr>)"
  by (auto simp: only_outside_def)

lemma only_outside_trans: "only_outside st st1 \<Longrightarrow> only_outside st1 st2 \<Longrightarrow> only_outside st st2"
  by (auto simp: only_outside_def)

lemma only_outside_same:
  "only_outside st st' \<Longrightarrow> host_fs st' = host_fs st \<and> sandboxes st' = sandboxes st \<and> volumes st' = volumes st
     \<and> s3_creds st' = s3_creds st \<and> upstream st' = upstream st"
  by (auto simp: only_outside_def)

text \<open>Actions all of whose runs are such steps, and the rules that compose them.\<close>

named_theorems outside_rules \<open>actions that touch only the outside world\<close>

definition outside_act :: "('s shim \<Rightarrow> 'a \<times> 's shim) \<Rightarrow> bool" where
  "outside_act f \<longleftrightarrow> (\<forall>st. only_outside st (snd (f st)))"

lemma outside_actD: "outside_act f \<Longrightarrow> f st = (r, st') \<Longrightarrow> only_outside st st'"
  unfolding outside_act_def by (metis snd_conv)

lemma outside_snd: "outside_act f \<Longrightarrow> only_outside st (snd (f st))"
  by (simp add: outside_act_def)

lemma outside_io_lift [outside_rules]: "outside_act (io_lift x)"
  by (simp add: outside_act_def io_lift_def)

lemma outside_io_try [outside_rules]:
  assumes "outside_act m" "\<And>x. outside_act (f x)"
  shows "outside_act (io_try m f)"
  unfolding outside_act_def
proof
  fix st
  obtain r st1 where m: "m st = (r, st1)" by fastforce
  then have "only_outside st st1" using assms(1) by (rule outside_actD [rotated])
  then show "only_outside st (snd (io_try m f st))"
    using m assms(2) by (cases r) (auto simp: io_try_def intro: only_outside_trans outside_snd)
qed

lemma outside_run_tools_bash [outside_rules]: "outside_act (run_tools_bash h sid c t)"
  by (auto simp: outside_act_def run_tools_bash_def split: prod.splits sum.splits option.splits)

lemma outside_forward_tools_tool [outside_rules]: "outside_act (forward_tools_tool h sid t b)"
  by (auto simp: outside_act_def forward_tools_tool_def split: prod.splits sum.splits option.splits)

lemma outside_write_tools_file [outside_rules]: "outside_act (write_tools_file h sid rel bs)"
  unfolding write_tools_file_def by (intro outside_rules)

lemma outside_copy_entries [outside_rules]: "outside_act (copy_entries h sid dir rel es stack)"
proof (induction es arbitrary: stack)
  case Nil
  then show ?case by (simp add: outside_act_def)
next
  case (Cons e es)
  obtain n nd where e: "e = (n, nd)" by (cases e)
  show ?case
    unfolding outside_act_def
  proof
    fix st
    show "only_outside st (snd (copy_entries h sid dir rel (e # es) stack st))"
    proof (cases nd)
      case (File b)
      show ?thesis
        unfolding e File copy_entries.simps Let_def node.case
        by (rule outside_snd) (intro outside_rules Cons.IH)
    qed (use Cons.IH in \<open>auto simp: e Let_def intro: outside_snd\<close>)
  qed
qed

lemma outside_copy_round [outside_rules]: "outside_act (copy_round h sid dir rel stack)"
proof -
  have "outside_act (\<lambda>st. case fs_read_dir (host_fs st) dir of
         Inl e \<Rightarrow> (Inl (INTERNAL_SERVER_ERROR, err_json ''internal'' (''read volume dir: '' @ io_msg e)), st)
       | Inr ents \<Rightarrow> copy_entries h sid dir rel ents stack st)"
    unfolding outside_act_def by (auto split: sum.splits intro: outside_snd outside_rules)
  then show ?thesis unfolding copy_round_def by (intro outside_rules)
qed

lemma outside_copy_dir_loop [outside_rules]: "outside_act (copy_dir_loop h sid fuel stack)"
  unfolding outside_act_def
proof
  fix st
  show "only_outside st (snd (copy_dir_loop h sid fuel stack st))"
  proof (induction h sid fuel stack st rule: copy_dir_loop.induct)
    case (3 h sid fuel dir rel stack st)
    obtain r st1 where r: "copy_round h sid dir rel stack st = (r, st1)" by fastforce
    then have "only_outside st st1" by (rule outside_actD [OF outside_copy_round])
    then show ?case using 3 r by (cases r) (auto intro: only_outside_trans)
  qed simp_all
qed

lemma outside_copy_dir_to_tools [outside_rules]: "outside_act (copy_dir_to_tools h sid src dst)"
  unfolding outside_act_def copy_dir_to_tools_def by (intro allI outside_snd outside_rules)

lemma outside_copy_volume:
  assumes "\<forall>v \<in> snd ` set (volumes st). vol_backend v = Local"
  shows "only_outside st (snd (copy_volume_to_tools_session h env sid vid mp st))"
proof (cases "volume_rec_of vid st")
  case (Inr v)
  then have v: "vol_backend v = Local"
    using assms by (force simp: volume_rec_of_def ok_or_Inr_iff dest: map_of_SomeD)
  obtain r st1 where r: "run_tools_bash h sid (''rm -rf -- '' @ shell_quote (tools_relative_path mp) @ '' && ''
      @ mkdir_command (tools_relative_path mp)) 30 st = (r, st1)" by fastforce
  then have st1: "only_outside st st1" by (rule outside_actD [OF outside_run_tools_bash])
  show ?thesis
  proof (cases r)
    case (Inr x)
    have "only_outside st (snd (copy_dir_to_tools h sid src dst st1))" for src dst
      by (rule only_outside_trans [OF st1 outside_snd [OF outside_copy_dir_to_tools]])
    then show ?thesis
      using st1 r v Inr \<open>volume_rec_of vid st = Inr v\<close> by (simp add: copy_volume_to_tools_session_def Let_def)
  qed (use st1 r \<open>volume_rec_of vid st = Inr v\<close> in \<open>simp add: copy_volume_to_tools_session_def Let_def\<close>)
qed (simp add: copy_volume_to_tools_session_def)

lemma outside_materialize:
  assumes "\<forall>v \<in> snd ` set (volumes st). vol_backend v = Local"
  shows "only_outside st (snd (materialize_volume_mounts h env sid ms st))"
  using assms
proof (induction h env sid ms st rule: materialize_volume_mounts.induct)
  case (2 h env sid m v ms st)
  obtain r st1 where r: "copy_volume_to_tools_session h env sid (vol_id v) (mnt_path m) st = (r, st1)" by fastforce
  then have st1: "only_outside st st1" using outside_copy_volume [OF "2.prems"] by (metis snd_conv)
  then have "\<forall>v \<in> snd ` set (volumes st1). vol_backend v = Local"
    using "2.prems" only_outside_same by metis
  then have rest: "only_outside st (snd (materialize_volume_mounts h env sid ms st1))" if "r = Some (Inr u)" for u
    using "2.IH" [OF r [symmetric] that refl] st1 only_outside_trans by blast
  show ?case
  proof (cases r)
    case (Some x)
    then show ?thesis using r st1 rest by (cases x) simp_all
  qed (use r st1 in simp)
qed simp

section \<open>The registry follows the table\<close>

text \<open>What survives JSON: numbers of 32 bits, and no metadata \<open>null\<close>, which reads back as none.\<close>

definition storable :: "sandbox_rec \<Rightarrow> bool" where
  "storable r \<longleftrightarrow> sb_metadata r \<noteq> Some JNull \<and> 0 \<le> sb_cpu_count r \<and> sb_cpu_count r < 2 ^ 32
     \<and> 0 \<le> sb_memory_mb r \<and> sb_memory_mb r < 2 ^ 32 \<and> 0 \<le> sb_disk_size_mb r \<and> sb_disk_size_mb r < 2 ^ 32"

definition saved :: "'s host \<Rightarrow> (string, sandbox_rec) table \<Rightarrow> fs \<Rightarrow> bool" where
  "saved h t fs \<longleftrightarrow>
     dirs_upto fs regk \<and> (\<forall>l. node_at fs boxk \<noteq> Some (Symlink l))
     \<and> (\<forall>sid r. map_of t sid = Some r \<longrightarrow> plain_id sid \<and> sb_id r = sid \<and> storable r
           \<and> node_at fs (rec_key sid) = Some (File (json_pretty h (sandbox_json r))))
     \<and> (\<forall>n. node_at fs (regk @ [n]) \<noteq> None \<longrightarrow> (\<exists>sid. n = sid @ ''.json'' \<and> map_of t sid \<noteq> None))"

lemma savedD:
  assumes "saved h t fs"
  shows "dirs_upto fs regk" "\<And>l. node_at fs boxk \<noteq> Some (Symlink l)"
    "\<And>sid r. map_of t sid = Some r \<Longrightarrow> plain_id sid \<and> sb_id r = sid \<and> storable r
           \<and> node_at fs (rec_key sid) = Some (File (json_pretty h (sandbox_json r)))"
    "\<And>n. node_at fs (regk @ [n]) \<noteq> None \<Longrightarrow> \<exists>sid. n = sid @ ''.json'' \<and> map_of t sid \<noteq> None"
  using assms unfolding saved_def by blast+

lemma savedI:
  assumes "dirs_upto fs regk" "\<And>l. node_at fs boxk \<noteq> Some (Symlink l)"
    "\<And>sid r. map_of t sid = Some r \<Longrightarrow> plain_id sid \<and> sb_id r = sid \<and> storable r
           \<and> node_at fs (rec_key sid) = Some (File (json_pretty h (sandbox_json r)))"
    "\<And>n. node_at fs (regk @ [n]) \<noteq> None \<Longrightarrow> \<exists>sid. n = sid @ ''.json'' \<and> map_of t sid \<noteq> None"
  shows "saved h t fs"
  using assms unfolding saved_def by blast

lemma rec_key_ne [simp]: "rec_key sid \<noteq> []"
  by (simp add: rec_key_def)

lemma rec_key_eq_iff [simp]: "rec_key a = rec_key b \<longleftrightarrow> a = b"
  by (simp add: rec_key_def)

lemma rec_key_not_above: "\<not> prefix (rec_key sid) regk" "rec_key sid \<noteq> boxk" "\<not> prefix (rec_key sid) boxk"
  by (simp_all add: rec_key_def regk_def boxk_def)

lemma box_not_above: "\<not> prefix (boxk @ [sid]) regk" "\<not> prefix (boxk @ [sid]) (regk @ n)" "\<not> prefix (boxk @ [sid]) boxk"
  by (simp_all add: regk_def boxk_def)

lemma record_slot:
  assumes "saved h t fs"
  shows "node_at fs (rec_key sid) = None \<or> (\<exists>b. node_at fs (rec_key sid) = Some (File b))"
proof (cases "node_at fs (rec_key sid)")
  case (Some nd)
  then obtain sid' where "sid @ ''.json'' = sid' @ ''.json''" "map_of t sid' \<noteq> None"
    using savedD(4) [OF assms, of "sid @ ''.json''"] by (auto simp: rec_key_def)
  then show ?thesis using savedD(3) [OF assms, of sid'] by auto
qed simp

lemma persist_eq:
  assumes "saved h t fs" "plain_id (sb_id r)"
  shows "persist_sandbox h' r fs = AList.update (rec_key (sb_id r)) (File (json_pretty h' (sandbox_json r))) fs"
proof -
  have "create_dir_all fs SANDBOX_REGISTRY_DIR = (Inr (), fs)"
    using savedD(1) [OF assms(1)] by (simp only: SANDBOX_REGISTRY_DIR_eq create_dir_all_dirs)
  moreover have "fs_write fs (registry_path (sb_id r)) b = Inr (AList.update (rec_key (sb_id r)) (File b) fs)" for b
    using fs_write_child [OF savedD(1) [OF assms(1)], of "sb_id r @ ''.json''" b] record_slot [OF assms(1), of "sb_id r"]
      registry_path_eq [OF assms(2)] by (simp add: rec_key_def)
  ultimately show ?thesis by (simp add: persist_sandbox_def best_effort_def)
qed

lemma saved_persist:
  assumes "saved h t fs" "plain_id (sb_id r)" "storable r"
  shows "saved h (AList.update (sb_id r) r t) (persist_sandbox h r fs)"
  unfolding persist_eq [OF assms(1,2)]
proof (rule savedI, goal_cases)
  case 1
  show ?case
    by (rule dirs_upto_only_below [OF _ rec_key_not_above(1) savedD(1) [OF assms(1)]])
      (auto simp: only_below_def)
next
  case (2 l)
  then show ?case using savedD(2) [OF assms(1)] rec_key_not_above(2) by auto
next
  case (3 sid r')
  then show ?case using savedD(3) [OF assms(1), of sid r'] assms(2,3) by (auto simp: lookup_update split: if_splits)
next
  case (4 n)
  then show ?case
    using savedD(4) [OF assms(1), of n] by (cases "regk @ [n] = rec_key (sb_id r)") (auto simp: lookup_update rec_key_def)
qed

lemma forget_node:
  assumes "saved h t fs" "plain_id sid"
  shows "node_at (forget_sandbox sid fs) q = (if q = rec_key sid then None else node_at fs q)"
proof -
  have "fs_remove_file fs (registry_path sid) =
    (case node_at fs (rec_key sid) of None \<Rightarrow> Inl ENOENT | Some Dir \<Rightarrow> Inl EISDIR
       | Some _ \<Rightarrow> Inr (AList.delete (rec_key sid) fs))"
    unfolding registry_path_eq [OF assms(2)] rec_key_def
    by (rule fs_remove_file_child [OF savedD(1) [OF assms(1)]])
  then show ?thesis
    using record_slot [OF assms(1), of sid] by (auto simp: forget_sandbox_def best_effort_def node_at_delete)
qed

lemma remove_box_below:
  assumes "dirs_upto fs (butlast boxk)" "\<And>l. node_at fs boxk \<noteq> Some (Symlink l)" "plain_id sid"
  shows "only_below (boxk @ [sid]) fs (best_effort (\<lambda>fs. fs_remove_dir_all fs (sandbox_fs_dir sid)) fs)"
proof (cases "fs_remove_dir_all fs (sandbox_fs_dir sid)")
  case (Inr fs')
  have "canon fs (RootDir # map Normal boxk) = Inr boxk"
    using canon_child [OF assms(1), of "last boxk"] assms(2) by (simp add: boxk_def)
  then have "entry_pos fs (sandbox_fs_dir sid) =
      (case node_at fs boxk of Some Dir \<Rightarrow> Inr (boxk @ [sid]) | None \<Rightarrow> Inl ENOENT | _ \<Rightarrow> Inl ENOTDIR)"
    using sandbox_fs_dir_eq [OF assms(3)] by (simp add: entry_pos_def path_parent_def butlast_append)
  moreover obtain k where "entry_pos fs (sandbox_fs_dir sid) = Inr k"
    using Inr by (auto simp: fs_remove_dir_all_def rtry_Inr_iff)
  ultimately have "entry_pos fs (sandbox_fs_dir sid) = Inr (boxk @ [sid])"
    by (auto split: option.splits node.splits)
  then show ?thesis using fs_remove_dir_all_below [OF _ _ Inr] Inr by (simp add: best_effort_def)
qed (simp add: best_effort_def)

lemma saved_remove:
  assumes "saved h t fs" "plain_id sid"
  shows "saved h (AList.delete sid t)
    (best_effort (\<lambda>fs. fs_remove_dir_all fs (sandbox_fs_dir sid)) (forget_sandbox sid fs))"
proof -
  let ?fs1 = "forget_sandbox sid fs"
  let ?fs2 = "best_effort (\<lambda>fs. fs_remove_dir_all fs (sandbox_fs_dir sid)) ?fs1"
  note n1 = forget_node [OF assms]
  have d1: "dirs_upto ?fs1 regk"
    by (rule dirs_upto_only_below [OF _ rec_key_not_above(1) savedD(1) [OF assms(1)]]) (auto simp: only_below_def n1)
  have "butlast boxk = butlast regk" by (simp add: boxk_def regk_def)
  then have d1': "dirs_upto ?fs1 (butlast boxk)" using dirs_upto_butlast [OF d1] by simp
  have l1: "node_at ?fs1 boxk \<noteq> Some (Symlink l)" for l
    using savedD(2) [OF assms(1)] rec_key_not_above(2) by (auto simp: n1)
  have ob: "only_below (boxk @ [sid]) ?fs1 ?fs2" by (rule remove_box_below [OF d1' l1 assms(2)])
  then have n2: "node_at ?fs2 (regk @ q) = node_at ?fs1 (regk @ q)" "node_at ?fs2 boxk = node_at ?fs1 boxk" for q
    using box_not_above by (auto simp: only_below_def)
  have n2': "node_at ?fs2 (rec_key s) = node_at ?fs1 (rec_key s)" for s
    using n2(1) [of "[s @ ''.json'']"] by (simp add: rec_key_def)
  show ?thesis
  proof (rule savedI, goal_cases)
    case 1
    show ?case by (rule dirs_upto_only_below [OF ob box_not_above(1) d1])
  next
    case (2 l)
    then show ?case using l1 n2(2) by simp
  next
    case (3 s r)
    then show ?case using savedD(3) [OF assms(1), of s r] by (auto simp: lookup_delete n1 n2' split: if_splits)
  next
    case (4 n)
    then have n: "node_at fs (regk @ [n]) \<noteq> None" "regk @ [n] \<noteq> rec_key sid" by (auto simp: n1 n2 split: if_splits)
    from savedD(4) [OF assms(1) n(1)] n(2) show ?case by (auto simp: lookup_delete rec_key_def)
  qed
qed

section \<open>Requests and the registry\<close>

text \<open>
  The requests that leave the registry directory to the sandbox operations: all but those that
  write to other parts of the disk on behalf of volumes, templates and uploads. Ids in a deletion
  must be one name, metadata is never an explicit \<open>null\<close> after decoding.
\<close>

fun lifecycle_request :: "shim_request \<Rightarrow> bool" where
  "lifecycle_request (QCreate b) \<longleftrightarrow> ns_metadata b \<noteq> Some JNull"
| "lifecycle_request (QDelete sid) \<longleftrightarrow> plain_id sid"
| "lifecycle_request (QUpload _ _) = False"
| "lifecycle_request (QTemplateCreate _) = False"
| "lifecycle_request (QBuildStart _ _ _) = False"
| "lifecycle_request (QTemplateDelete _) = False"
| "lifecycle_request (QVolumeCreate _) = False"
| "lifecycle_request (QVolumeDelete _) = False"
| "lifecycle_request (QFilePut _ _ _) = False"
| "lifecycle_request (QFileGet _ _) = False"
| "lifecycle_request (QDirPost _ _) = False"
| "lifecycle_request (QDirGet _ _) = False"
| "lifecycle_request (QPathGet _ _) = False"
| "lifecycle_request (QPathDelete _ _) = False"
| "lifecycle_request (QPathPatch _ _ _) = False"
| "lifecycle_request (QRemove _) = False"
| "lifecycle_request (QFilesGet _) = False"
| "lifecycle_request (QFilesPost _ _) = False"
| "lifecycle_request _ = True"

abbreviation saved_state :: "'s host \<Rightarrow> 's shim \<Rightarrow> bool" where
  "saved_state h st \<equiv> saved h (sandboxes st) (host_fs st)"

definition same_disk :: "'s shim \<Rightarrow> 's shim \<Rightarrow> bool" where
  "same_disk st st' \<longleftrightarrow> sandboxes st' = sandboxes st \<and> host_fs st' = host_fs st \<and> volumes st' = volumes st"

lemma same_disk_outside: "only_outside st st' \<Longrightarrow> same_disk st st'"
  using only_outside_same [of st st'] by (simp add: same_disk_def)

lemma same_disk_refl [simp]: "same_disk st st"
  by (simp add: same_disk_def)

lemma same_disk_saved: "same_disk st st' \<Longrightarrow> saved_state h st \<Longrightarrow> saved_state h st'"
  by (simp add: same_disk_def)

lemma saved_put:
  assumes "saved_state h st" "plain_id (sb_id r)" "storable r" "sid = sb_id r"
  shows "saved_state h (put_sandbox h sid r st)"
  using saved_persist [OF assms(1-3)] assms(4) by (simp add: put_sandbox_def)

lemma saved_remove_sandbox:
  assumes "saved_state h st" "plain_id sid"
  shows "saved_state h (remove_sandbox sid st)"
  using saved_remove [OF assms] by (simp add: remove_sandbox_def)

lemma drop_session_outside: "only_outside st (drop_session h sid st)"
  by (simp add: drop_session_def)

definition plain_sessions :: "'s host \<Rightarrow> bool" where
  "plain_sessions h \<longleftrightarrow> (\<forall>t st sid st'. upstream_session h t st = (Inr sid, st') \<longrightarrow> plain_id sid)"

lemma outside_upstream_session: "outside_act (upstream_session h t)"
  by (auto simp: outside_act_def upstream_session_def split: prod.splits sum.splits option.splits)

lemma saved_create:
  assumes "saved_state h st" "plain_sessions h" "ns_metadata b \<noteq> Some JNull"
    and "\<forall>v \<in> snd ` set (volumes st). vol_backend v = Local"
  shows "saved_state h (snd (create_sandbox h env hs b st))"
proof (cases "rtry (check_api_key st hs) (\<lambda>_. validate_volume_mounts (ns_volume_mounts b) st)")
  case (Inr mounts)
  define t where "t = effective_template_id env (ns_template_id b)"
  obtain r st1 where r: "upstream_session h t st = (r, st1)" by fastforce
  then have st1: "only_outside st st1" by (rule outside_actD [OF outside_upstream_session])
  show ?thesis
  proof (cases r)
    case (Inl e)
    then show ?thesis
      using \<open>rtry _ _ = Inr mounts\<close> r st1 assms(1) same_disk_saved [OF same_disk_outside]
      by (simp add: create_sandbox_def Let_def t_def)
  next
    case (Inr sid)
    then have sid: "plain_id sid" using assms(2) r by (auto simp: plain_sessions_def)
    obtain m st2 where m: "materialize_volume_mounts h env sid mounts st1 = (m, st2)" by fastforce
    have "only_outside st1 st2"
      using outside_materialize [of st1 h env sid mounts] assms(4) only_outside_same [OF st1] m by simp
    then have st2: "saved_state h st2"
      using assms(1) same_disk_saved [OF same_disk_outside] only_outside_trans [OF st1] by blast
    have put: "saved_state h (put_sandbox h sid (new_record h sid t b a c tok st2) (st2\<lparr>outside := s\<rparr>))" for a c tok s
      using st2 sid assms(3) by (intro saved_put) (simp_all add: new_record_def storable_def)
    show ?thesis
      using \<open>rtry _ _ = Inr mounts\<close> r Inr m st2 put same_disk_saved [OF same_disk_outside [OF drop_session_outside]]
      by (auto simp: create_sandbox_def Let_def t_def [symmetric] split: option.splits sum.splits prod.splits)
  qed
qed (simp add: create_sandbox_def assms(1))

lemma storable_simps [simp]:
  "storable (r\<lparr>sb_end_at := e\<rparr>) = storable r" "storable (r\<lparr>sb_state := s\<rparr>) = storable r"
  by (simp_all add: storable_def)

lemma saved_extend:
  assumes "saved_state h st" "\<And>r. sb_id (upd r) = sb_id r \<and> storable (upd r) = storable r"
  shows "saved_state h (snd (extend_lease h missing hs sid secs upd ans st))"
proof (cases "rtry (check_api_key st hs) (\<lambda>_. ok_or (missing sid) (map_of (sandboxes st) sid))")
  case (Inr r)
  then have "map_of (sandboxes st) sid = Some r" by (auto simp: result_simps)
  then have "plain_id sid" "sb_id r = sid" "storable r" using savedD(3) [OF assms(1)] by blast+
  then have "saved_state h (put_sandbox h sid ((upd r)\<lparr>sb_end_at := e\<rparr>) st)" for e
    using assms(2) by (intro saved_put [OF assms(1)]) simp_all
  then show ?thesis using Inr assms(1) by (simp add: extend_lease_def Let_def split: option.split)
qed (simp add: extend_lease_def assms(1))

lemma saved_pause:
  assumes "saved_state h st"
  shows "saved_state h (snd (sandbox_pause h hs sid st))"
proof -
  have "saved_state h (put_sandbox h sid (r\<lparr>sb_state := s\<rparr>) st)" if "map_of (sandboxes st) sid = Some r" for r s
    using savedD(3) [OF assms that] by (intro saved_put [OF assms]) simp_all
  then show ?thesis
    using assms by (auto simp: sandbox_pause_def authorized_def split: sum.splits option.splits)
qed

lemma saved_delete:
  assumes "saved_state h st" "plain_id sid"
  shows "saved_state h (snd (delete_sandbox h hs sid st))"
  using assms saved_remove_sandbox [OF assms] same_disk_saved [OF same_disk_outside [OF drop_session_outside]]
  by (auto simp: delete_sandbox_def authorized_def split: sum.splits)

lemma saved_fold_remove:
  "saved_state h st \<Longrightarrow> \<forall>sid \<in> set sids. plain_id sid \<Longrightarrow> saved_state h (fold remove_sandbox sids st)"
  by (induction sids arbitrary: st) (simp_all add: saved_remove_sandbox)

lemma saved_sweep:
  assumes "saved_state h st"
  shows "saved_state h (sweep_expired h st)"
  unfolding sweep_expired_def
proof (rule saved_fold_remove [OF assms], rule ballI)
  fix sid
  assume "sid \<in> set (map fst (filter (\<lambda>(_, r). expired h (now h (outside st)) r) (sandboxes st)))"
  then have "sid \<in> set (keys (sandboxes st))" by auto
  then obtain r where "map_of (sandboxes st) sid = Some r"
    using keys_lookup [of sid "sandboxes st"] by blast
  then show "plain_id sid" using savedD(3) [OF assms] by simp
qed

lemma snd_reply [simp]: "snd (reply enc f st) = snd (f st)"
  by (simp add: reply_def split: prod.split)

lemma snd_reply_opt [simp]: "snd (reply_opt enc f st) = snd (f st)"
  by (simp add: reply_opt_def split: prod.split)

lemma snd_raw [simp]: "snd (raw f st) = snd (f st)"
  by (simp split: prod.split)

lemma same_disk_authorized:
  "same_disk st (snd (f st)) \<Longrightarrow> same_disk st (snd (authorized hs f st))"
  by (simp add: authorized_def split: sum.split)

lemma same_disk_snapshot: "same_disk st (snd (sandbox_snapshot h hs sid st))"
  unfolding sandbox_snapshot_def
  by (rule same_disk_authorized)
    (auto simp: Let_def same_disk_def split: option.split sum.split prod.split)

lemma same_disk_snapshots: "same_disk st (snd (sandbox_snapshots_e2b h hs sid st))"
proof -
  obtain r st1 where "sandbox_snapshot h hs sid st = (r, st1)" by fastforce
  moreover from this have "same_disk st st1" using same_disk_snapshot by (metis snd_conv)
  ultimately show ?thesis
    by (cases r) (simp_all add: sandbox_snapshots_e2b_def io_try_def same_disk_def Let_def)
qed

lemma same_disk_process_start: "same_disk st (snd (process_start h pb env hs body st))"
  by (auto simp: process_start_def process_start_tools_def same_disk_def Let_def
      split: option.split sum.split prod.split)

lemma saved_request:
  assumes "saved_state h st" "plain_sessions h" "\<forall>v \<in> snd ` set (volumes st). vol_backend v = Local"
    and "lifecycle_request rq"
  shows "saved_state h (snd (shim_handle h pb env hs rq st))"
proof -
  have same: "same_disk st st' \<Longrightarrow> saved_state h st'" for st'
    using same_disk_saved assms(1) by blast
  show ?thesis
  proof (cases rq)
    case (QCreate b)
    then show ?thesis using saved_create [OF assms(1,2) _ assms(3)] assms(4) by simp
  next
    case (QDelete sid)
    then show ?thesis using saved_delete [OF assms(1)] assms(4) by simp
  next
    case (QPause sid)
    then show ?thesis using saved_pause [OF assms(1)] by simp
  next
    case (QTimeout sid t)
    then show ?thesis by (auto simp: set_sandbox_timeout_def intro!: saved_extend [OF assms(1)])
  next
    case (QResume sid)
    then show ?thesis by (auto simp: sandbox_resume_def intro!: saved_extend [OF assms(1)])
  next
    case (QRefreshes sid)
    then show ?thesis by (auto simp: sandbox_refreshes_def intro!: saved_extend [OF assms(1)])
  next
    case (QSnapshot sid)
    then show ?thesis using same [OF same_disk_snapshot] by simp
  next
    case (QSnapshots sid)
    then show ?thesis using same [OF same_disk_snapshots] by simp
  next
    case (QProcessStart body)
    then show ?thesis using same [OF same_disk_process_start] by simp
  next
    case (QTagsAssign b)
    show ?thesis unfolding QTagsAssign
      by (simp, rule same) (auto simp: tags_assign_def authorized_def same_disk_def split: sum.split)
  next
    case (QTagsRemove b)
    show ?thesis unfolding QTagsRemove
      by (simp, rule same) (auto simp: tags_remove_def authorized_def same_disk_def split: sum.split option.split)
  qed (use assms(4) in \<open>auto intro!: same same_disk_authorized simp: get_sandbox_def sandboxes_list_def sandboxes_metrics_def sandbox_metrics_one_def
      sandbox_logs_def sandbox_connect_def snapshots_list_def templates_files_hash_def templates_build_status_def
      templates_build_logs_def templates_list_def template_get_def template_update_def template_get_by_alias_def
      tags_get_def volumes_list_def volume_get_def Let_def\<close>)
qed

section \<open>Reading the registry back\<close>

lemma mount_json_back: "mount_of_json (mount_json m) = Some m"
  by (simp add: mount_of_json_def mount_json_def as_struct_def field_def)

lemma mounts_json_back: "j_list mount_of_json (JArr (map mount_json ms)) = Some ms"
proof -
  have "map (mount_of_json \<circ> mount_json) ms = map Some ms" by (simp add: mount_json_back)
  then show ?thesis by (simp add: j_list_def all_some_eq_Some)
qed

lemma field_opt_json: "field_opt k j_str ((k, opt_json v) # fs) = Some v"
  by (cases v) (simp_all add: field_opt_def)

lemma field_meta_json: "v \<noteq> Some JNull \<Longrightarrow> field_opt k Some ((k, or_default v JNull) # fs) = Some v"
  by (cases v) (auto simp: field_opt_def split: json.split)

lemma field_opt_skip: "k' \<noteq> k \<Longrightarrow> field_opt k d ((k', v) # fs) = field_opt k d fs"
  by (simp add: field_opt_def)

lemma sandbox_json_back: "storable r \<Longrightarrow> sandbox_of_json (sandbox_json r) = Some r"
proof -
  assume s: "storable r"
  have st: "as_struct sandbox_fields (sandbox_json r) = (case sandbox_json r of JObj fs \<Rightarrow> Some fs)"
    by (simp add: as_struct_def sandbox_json_def sandbox_fields_def)
  show ?thesis
    unfolding sandbox_of_json_def st
    using s by (simp add: sandbox_json_def field_def field_or_def field_opt_skip field_opt_json field_meta_json
        mounts_json_back storable_def)
qed

lemma file_extension_json: "sid \<noteq> [] \<Longrightarrow> file_extension (sid @ ''.json'') = Some ''json''"
  by (simp add: file_extension_def Let_def)

lemma read_registry:
  assumes "saved h t fs" "(n, nd) \<in> set ents" "fs_read_dir fs SANDBOX_REGISTRY_DIR = Inr ents"
  obtains sid r where "n = sid @ ''.json''" "map_of t sid = Some r"
proof -
  have "(regk @ [n], nd) \<in> set fs"
    using assms(2,3) canon_dirs [OF savedD(1) [OF assms(1)]] dirs_upto_node [OF savedD(1) [OF assms(1)]]
    by (auto simp: fs_read_dir_def SANDBOX_REGISTRY_DIR_eq List.map_filter_def split: if_splits)
      (metis append_butlast_last_id)
  then have "node_at fs (regk @ [n]) \<noteq> None" by (auto simp: node_at_def dest: weak_map_of_SomeI)
  then show thesis using savedD(4) [OF assms(1), of n] that by blast
qed

lemma read_registry_entry:
  assumes "saved h t fs" "map_of t sid = Some r"
    and "of_json_text h (json_pretty h (sandbox_json r)) = Some (sandbox_json r)"
  shows "file_extension (sid @ ''.json'') = Some ''json''"
    "(case fs_read fs (path_join SANDBOX_REGISTRY_DIR (sid @ ''.json'')) of Inl _ \<Rightarrow> None
        | Inr bs \<Rightarrow> Option.bind (of_json_text h bs) sandbox_of_json) = Some r"
proof -
  note r = savedD(3) [OF assms(1,2)]
  then show "file_extension (sid @ ''.json'') = Some ''json''"
    by (intro file_extension_json) (auto simp: plain_id_def)
  have "path_join SANDBOX_REGISTRY_DIR (sid @ ''.json'') = RootDir # map Normal (regk @ [sid @ ''.json''])"
    using registry_path_eq [of sid] r by (simp add: registry_path_def rec_key_def)
  then have "fs_read fs (path_join SANDBOX_REGISTRY_DIR (sid @ ''.json'')) = Inr (json_pretty h (sandbox_json r))"
    using fs_read_child [OF savedD(1) [OF assms(1)], of "sid @ ''.json''"] r by (simp add: rec_key_def)
  then show "(case fs_read fs (path_join SANDBOX_REGISTRY_DIR (sid @ ''.json'')) of Inl _ \<Rightarrow> None
        | Inr bs \<Rightarrow> Option.bind (of_json_text h bs) sandbox_of_json) = Some r"
    using assms(3) sandbox_json_back r by simp
qed

lemma load_registry_records:
  assumes "saved h t fs" "\<forall>r \<in> ran (map_of t). of_json_text h (json_pretty h (sandbox_json r)) = Some (sandbox_json r)"
  shows "set (load_registry h fs) = ran (map_of t)"
proof -
  obtain ents where ents: "fs_read_dir fs SANDBOX_REGISTRY_DIR = Inr ents"
    using canon_dirs [OF savedD(1) [OF assms(1)]] dirs_upto_node [OF savedD(1) [OF assms(1)]]
    by (simp add: fs_read_dir_def SANDBOX_REGISTRY_DIR_eq)
  define dec where "dec = (\<lambda>(n, _ :: node). if file_extension n \<noteq> Some ''json'' then None
     else (case fs_read fs (path_join SANDBOX_REGISTRY_DIR n) of Inl _ \<Rightarrow> None
                   | Inr bs \<Rightarrow> Option.bind (of_json_text h bs) sandbox_of_json))"
  have load: "load_registry h fs = List.map_filter dec ents"
    by (simp add: load_registry_def ents dec_def)
  have dec: "dec (sid @ ''.json'', nd) = Some r" if "map_of t sid = Some r" for sid r nd
  proof -
    have "r \<in> ran (map_of t)" using that by (rule ranI)
    then have "of_json_text h (json_pretty h (sandbox_json r)) = Some (sandbox_json r)" using assms(2) by blast
    then show ?thesis using read_registry_entry [OF assms(1) that] by (simp add: dec_def)
  qed
  have "\<exists>nd. (sid @ ''.json'', nd) \<in> set ents" if "map_of t sid = Some r" for sid r
  proof -
    have "node_at fs (rec_key sid) \<noteq> None" using savedD(3) [OF assms(1) that] by simp
    then obtain nd where "(regk @ [sid @ ''.json''], nd) \<in> set fs"
      by (auto simp: node_at_def rec_key_def dest: map_of_SomeD)
    then have "(sid @ ''.json'', nd) \<in> set (List.map_filter
        (\<lambda>(k', nd). if k' \<noteq> [] \<and> butlast k' = regk then Some (last k', nd) else None) fs)"
      by (force simp: List.map_filter_def)
    then show ?thesis
      using ents canon_dirs [OF savedD(1) [OF assms(1)]] dirs_upto_node [OF savedD(1) [OF assms(1)]]
      by (auto simp: fs_read_dir_def SANDBOX_REGISTRY_DIR_eq)
  qed
  then have "ran (map_of t) \<subseteq> set (load_registry h fs)"
    using dec by (force simp: load List.map_filter_def ran_def)
  moreover have "set (load_registry h fs) \<subseteq> ran (map_of t)"
  proof
    fix r
    assume "r \<in> set (load_registry h fs)"
    then obtain n nd where n: "(n, nd) \<in> set ents" "dec (n, nd) = Some r"
      by (auto simp: load List.map_filter_def)
    obtain sid r' where "n = sid @ ''.json''" "map_of t sid = Some r'"
      by (rule read_registry [OF assms(1) n(1) ents])
    then show "r \<in> ran (map_of t)" using n(2) dec by (auto intro: ranI)
  qed
  ultimately show ?thesis by blast
qed

lemma fold_update_records:
  "map_of (fold (\<lambda>r. AList.update (sb_id r) r) rs t0) k =
     (case find (\<lambda>r. sb_id r = k) (rev rs) of Some r \<Rightarrow> Some r | None \<Rightarrow> map_of t0 k)"
  by (induction rs rule: rev_induct) (auto simp: lookup_update)

lemma boot_table:
  assumes "saved h t fs" "\<forall>r \<in> ran (map_of t). of_json_text h (json_pretty h (sandbox_json r)) = Some (sandbox_json r)"
  shows "map_of (sandboxes (shim_boot h env fs s)) = map_of t"
proof
  fix k
  have id: "map_of t (sb_id r) = Some r" if "r \<in> set (load_registry h fs)" for r
    using that savedD(3) [OF assms(1)] unfolding load_registry_records [OF assms] ran_def by auto
  show "map_of (sandboxes (shim_boot h env fs s)) k = map_of t k"
  proof (cases "find (\<lambda>r. sb_id r = k) (rev (load_registry h fs))")
    case None
    then have "\<forall>r \<in> ran (map_of t). sb_id r \<noteq> k"
      using load_registry_records [OF assms] by (auto simp: find_None_iff)
    then have "map_of t k = None"
      using savedD(3) [OF assms(1), of k] by (cases "map_of t k") (auto intro: ranI)
    then show ?thesis using None by (simp add: shim_boot_def fold_update_records)
  next
    case (Some r)
    then have "r \<in> set (load_registry h fs)" and k: "sb_id r = k"
      by (auto simp: find_Some_iff) (metis length_rev nth_mem set_rev)
    then have "map_of t k = Some r" using id [of r] by simp
    then show ?thesis using Some by (simp add: shim_boot_def fold_update_records)
  qed
qed

section \<open>Restarts\<close>

text \<open>
  What happens between two starts of the shim: requests that leave the registry to the sandbox
  operations (mounting only local volumes), the sweep, and anything in the outside world.
\<close>

inductive lifecycle :: "'s host \<Rightarrow> pb \<Rightarrow> env \<Rightarrow> 's shim \<Rightarrow> 's shim \<Rightarrow> bool" for h pb env where
  request: "lifecycle_request rq \<Longrightarrow> \<forall>v \<in> snd ` set (volumes st). vol_backend v = Local \<Longrightarrow>
    lifecycle h pb env st (snd (shim_handle h pb env hs rq st))"
| sweep: "lifecycle h pb env st (sweep_expired h st)"
| world: "lifecycle h pb env st (st\<lparr>outside := s\<rparr>)"

inductive_cases lifecycleE: "lifecycle h pb env st st'"

lemma saved_step:
  "lifecycle h pb env st st' \<Longrightarrow> plain_sessions h \<Longrightarrow> saved_state h st \<Longrightarrow> saved_state h st'"
  by (erule lifecycleE) (simp_all add: saved_request saved_sweep)

lemma saved_run:
  "(lifecycle h pb env)\<^sup>*\<^sup>* st st' \<Longrightarrow> plain_sessions h \<Longrightarrow> saved_state h st \<Longrightarrow> saved_state h st'"
  by (induction rule: rtranclp_induct) (auto intro: saved_step)


definition demo_start :: "unit shim" where
  "demo_start = \<lparr>sandboxes = [], upstream = ''http://api:8000'', api_key = None, tos = None,
     template_builds = [], template_id_to_build = [], template_tags = [], volumes = [], snapshots = [],
     s3_creds = [], host_fs = map (\<lambda>i. (take i regk, Dir)) [1, 2, 3, 4], outside = ()\<rparr>"

definition demo_request :: shim_request where
  "demo_request = QCreate \<lparr>ns_template_id = [], ns_metadata = None, ns_alias = None, ns_timeout = None,
     ns_volume_mounts = []\<rparr>"

lemma demo_saved: "saved_state demo_host demo_start"
proof (rule savedI, goal_cases)
  case 1
  have r: "regk = ((([] @ [''var'']) @ [''lib'']) @ [''e2b-shim'']) @ [''registry'']" by (simp add: regk_def)
  show ?case
    by (subst r, simp only: dirs_upto_snoc dirs_upto_Nil) (simp add: demo_start_def node_at_def regk_def)
qed (simp_all add: demo_start_def regk_def boxk_def node_at_def split: if_splits)

lemma demo_plain: "plain_sessions demo_host"
  by (auto simp: plain_sessions_def upstream_session_def demo_host_def body_json_def plain_id_def)

lemma demo_created: "sandboxes (snd (shim_handle demo_host pb Map.empty [] demo_request demo_start)) = [(''s1'', demo_rec)]"
  by (simp add: demo_request_def create_sandbox_def demo_start_def check_api_key_def upstream_session_def
      demo_host_def body_json_def put_sandbox_def new_record_def demo_rec_def effective_template_id_def
      as_i64_def starts_with_def Let_def)


text \<open>
  Deleting the sandbox \<open>..\<close> is accepted by the route, and what it removes is the directory that
  holds the registry of all sandboxes.
\<close>

lemma delete_dotdot_removes_registry:
  "sandbox_fs_dir ''..'' = SANDBOX_FS_ROOT @ [ParentDir]"
  by (simp add: sandbox_fs_dir_def path_join_def is_absolute_def starts_with_def SANDBOX_FS_ROOT_eq
      inner_components_def inner_component_def)

section \<open>The sweep\<close>

lemma sandboxes_fold_remove:
  "map_of (sandboxes (fold remove_sandbox sids st)) k = (if k \<in> set sids then None else map_of (sandboxes st) k)"
  by (induction sids arbitrary: st) (auto simp: remove_sandbox_def lookup_delete)

text \<open>The sweep removes exactly the sandboxes whose end lies in the past; a date that does not parse
  never expires.\<close>

lemma sweep_removes_expired:
  assumes "distinct (keys (sandboxes st))"
  shows "map_of (sandboxes (sweep_expired h st)) sid =
    (case map_of (sandboxes st) sid of
       None \<Rightarrow> None
     | Some r \<Rightarrow> if expired h (now h (outside st)) r then None else Some r)"
proof -
  have "sid \<in> set (map fst (filter (\<lambda>(_, r). expired h (now h (outside st)) r) (sandboxes st))) \<longleftrightarrow>
      (\<exists>r. map_of (sandboxes st) sid = Some r \<and> expired h (now h (outside st)) r)"
    using assms by (force dest: map_of_SomeD)
  then show ?thesis
    unfolding sweep_expired_def sandboxes_fold_remove by (auto split: option.split)
qed

text \<open>Only the machine of the shim is swept: the daemon is not told, and keeps the session and its
  processes until its own reaper comes for them. \<open>delete_sandbox\<close> does tell it.\<close>

lemma outside_fold_remove: "outside (fold remove_sandbox sids st) = outside st"
  by (induction sids arbitrary: st) (simp_all add: remove_sandbox_def)

lemma sweep_keeps_upstream: "outside (sweep_expired h st) = outside st"
  by (simp add: sweep_expired_def outside_fold_remove)

end
