(* ===== verification/Fs_Create.thy ===== *)
theory Fs_Create
  imports Fs_Facts
begin

text \<open>
  What survives the creation of directories and the writing of a file: every file that could be read
  is still read with the same bytes.
\<close>

section \<open>Creating directories keeps what is there\<close>

lemma create_dir_all_steps:
  assumes "\<And>g g' p. fs_mkdir g p = Inr g' \<Longrightarrow> R g g'" "\<And>g. R g g" "\<And>a b c. R a b \<Longrightarrow> R b c \<Longrightarrow> R a c"
  shows "R fs (snd (create_dir_all fs p))"
proof (induction fs p rule: create_dir_all.induct)
  case (1 fs p)
  show ?case
  proof (cases "fs_mkdir fs p = Inl ENOENT \<and> p \<noteq> [] \<and> last p \<noteq> RootDir")
    case True
    obtain r g where rg: "create_dir_all fs (butlast p) = (r, g)" by fastforce
    then have "R fs g" using "1.IH" [of ENOENT] True by simp
    moreover have "R g (case fs_mkdir g p of Inr g' \<Rightarrow> g' | Inl e \<Rightarrow> g)"
      using assms(1,2) by (auto split: sum.split)
    ultimately have "R fs (case fs_mkdir g p of Inr g' \<Rightarrow> g' | Inl e \<Rightarrow> g)" by (rule assms(3))
    then show ?thesis
      using True rg \<open>R fs g\<close> by (auto simp: create_dir_all.simps [of fs p] split: sum.splits)
  next
    case False
    then show ?thesis using assms(1,2) by (auto simp: create_dir_all.simps [of fs p] split: sum.splits)
  qed
qed

lemma fs_read_Inr_iff: "fs_read fs p = Inr b \<longleftrightarrow> (\<exists>k. canon fs p = Inr k \<and> node_at fs k = Some (File b))"
proof (cases "canon fs p")
  case (Inr k)
  then show ?thesis
  proof (cases "node_at fs k")
    case (Some nd)
    then show ?thesis using Inr by (cases nd) (auto simp: fs_read_def)
  qed (simp add: fs_read_def)
qed (simp add: fs_read_def)

lemma fs_mkdir_read:
  assumes "fs_mkdir g p = Inr g'" "fs_read g q = Inr b"
  shows "fs_read g' q = Inr b"
proof -
  obtain k where k: "node_at g k = None" "g' = AList.update k Dir g"
    using assms(1) by (auto simp: fs_mkdir_def rtry_Inr_iff split: if_splits)
  then have ne: "k \<noteq> []" by (auto simp: node_at_def)
  obtain kq where kq: "canon g q = Inr kq" "node_at g kq = Some (File b)"
    using assms(2) by (auto simp: fs_read_Inr_iff)
  then have "canon g' q = Inr kq"
    using walk_update [OF ne, of g Dir] k by (auto simp: canon_def)
  moreover have "node_at g' kq = Some (File b)" using k kq(2) ne by (auto simp: node_at_def update_conv')
  ultimately show ?thesis by (simp add: fs_read_def)
qed

lemma create_dir_all_read:
  "fs_read fs q = Inr b \<Longrightarrow> fs_read (snd (create_dir_all fs p)) q = Inr b"
  using create_dir_all_steps [of "\<lambda>g g'. fs_read g q = Inr b \<longrightarrow> fs_read g' q = Inr b" fs p] fs_mkdir_read by blast

text \<open>Writing a file leaves every other readable file below a directory without links as it was.\<close>

lemma fs_write_read_other:
  assumes "real_dir fs (RootDir # map Normal k) k" "fs_write fs (RootDir # map Normal (k @ ns)) b = Inr fs'"
    and "ns' \<noteq> ns" "fs_read fs (RootDir # map Normal (k @ ns')) = Inr b'"
  shows "fs_read fs' (RootDir # map Normal (k @ ns')) = Inr b'"
proof -
  have below: "q = k @ ms" if "canon fs (RootDir # map Normal (k @ ms)) = Inr q" for ms q
    using canon_below [of fs k "RootDir # map Normal k" ms q] assms(1) that by (simp add: real_dir_def)
  obtain k1 where "canon fs (RootDir # map Normal (k @ ns)) = Inr k1"
    using host_fs.write_located [OF assms(2)] by blast
  moreover obtain k2 where "canon fs (RootDir # map Normal (k @ ns')) = Inr k2"
    using assms(4) by (auto simp: fs_read_def rtry_Inr_iff)
  ultimately show ?thesis
    using host_fs.read_other [OF assms(2), of k1 "RootDir # map Normal (k @ ns')" k2] below [of ns k1] below [of ns' k2]
      assms(3,4) by simp
qed

section \<open>Creating a directory path succeeds\<close>

text \<open>A path whose components are missing or directories.\<close>

definition can_make :: "fs \<Rightarrow> string list \<Rightarrow> string list \<Rightarrow> bool" where
  "can_make fs k ns \<longleftrightarrow> (\<forall>i \<le> length ns. node_at fs (k @ take i ns) = None \<or> node_at fs (k @ take i ns) = Some Dir)"

lemma can_makeD:
  "can_make fs k ns \<Longrightarrow> i \<le> length ns \<Longrightarrow> node_at fs (k @ take i ns) = None \<or> node_at fs (k @ take i ns) = Some Dir"
  by (simp add: can_make_def)

lemma can_make_snoc:
  assumes "can_make fs k (ns @ [s])"
  shows "can_make fs k ns"
  unfolding can_make_def
proof (intro allI impI)
  fix i assume "i \<le> length ns"
  then show "node_at fs (k @ take i ns) = None \<or> node_at fs (k @ take i ns) = Some Dir"
    using can_makeD [OF assms, of i] by simp
qed

lemma walk_makeable:
  assumes "dirs_upto fs cur" "can_make fs cur ns"
  shows "dirs_upto fs (cur @ ns) \<or> walk fs n cur (map Normal ns) = Inl ENOENT
     \<or> (walk fs n cur (map Normal ns) = Inr (cur @ ns) \<and> node_at fs (cur @ ns) = None)"
  using assms
proof (induction ns arbitrary: cur)
  case (Cons s ns)
  have s: "node_at fs (cur @ [s]) = None \<or> node_at fs (cur @ [s]) = Some Dir"
    using can_makeD [OF Cons.prems(2), of 1] by simp
  show ?case
  proof (cases "node_at fs (cur @ [s])")
    case None
    then show ?thesis by (cases ns) simp_all
  next
    case (Some nd)
    then have nd: "nd = Dir" using s by simp
    have "can_make fs (cur @ [s]) ns"
      unfolding can_make_def
    proof (intro allI impI)
      fix i assume "i \<le> length ns"
      then show "node_at fs ((cur @ [s]) @ take i ns) = None \<or> node_at fs ((cur @ [s]) @ take i ns) = Some Dir"
        using can_makeD [OF Cons.prems(2), of "Suc i"] by simp
    qed
    moreover have "dirs_upto fs (cur @ [s])" using Cons.prems(1) Some nd by (simp add: dirs_upto_snoc)
    ultimately show ?thesis using Cons.IH [of "cur @ [s]"] Some nd by simp
  qed
qed simp

lemma mkdir_missing_parent:
  assumes "dirs_upto fs k" "can_make fs k ns" "\<not> dirs_upto fs (k @ ns)"
  shows "fs_mkdir fs (RootDir # map Normal (k @ ns @ [s])) = Inl ENOENT"
proof -
  have "canon fs (RootDir # map Normal (k @ ns)) = walk fs max_links k (map Normal ns)"
    using walk_dirs [of fs "[]" k max_links "map Normal ns"] assms(1) by (simp add: canon_def)
  then have "entry_pos fs (RootDir # map Normal (k @ ns @ [s])) = Inl ENOENT"
    using walk_makeable [OF assms(1,2), of max_links] assms(3)
    by (auto simp: entry_pos_def path_parent_def butlast_append)
  then show ?thesis by (simp add: fs_mkdir_def)
qed

lemma mkdir_in_dir:
  assumes "dirs_upto fs k" "node_at fs (k @ [s]) = None"
  shows "fs_mkdir fs (RootDir # map Normal (k @ [s])) = Inr (AList.update (k @ [s]) Dir fs)"
  using entry_pos_dirs [OF assms(1), of s] assms(2) by (simp add: fs_mkdir_def)

lemma dirs_upto_update:
  assumes "dirs_upto fs k"
  shows "dirs_upto (AList.update (k @ [s]) Dir fs) (k @ [s])"
proof -
  have "dirs_upto (AList.update (k @ [s]) Dir fs) k"
  proof (rule dirs_upto_only_below [of "k @ [s]", OF _ _ assms])
    show "only_below (k @ [s]) fs (AList.update (k @ [s]) Dir fs)" by (auto simp: only_below_def)
  qed (use prefix_length_le in fastforce)
  then show ?thesis by (simp add: dirs_upto_snoc)
qed

text \<open>The last name, once its parents have been made.\<close>

lemma create_dir_all_last:
  assumes fs: "dirs_upto fs k" "can_make fs k (ns @ [s])" "\<not> dirs_upto fs (k @ ns)"
    and g: "create_dir_all fs (RootDir # map Normal (k @ ns)) = (Inr (), g)" "dirs_upto g (k @ ns)"
      "\<And>q. (\<forall>i. q \<noteq> k @ take i ns) \<Longrightarrow> node_at g q = node_at fs q"
  shows "\<exists>fs'. create_dir_all fs (RootDir # map Normal (k @ ns @ [s])) = (Inr (), fs') \<and> dirs_upto fs' (k @ ns @ [s])
     \<and> (fs' = g \<or> fs' = AList.update (k @ ns @ [s]) Dir g)"
proof -
  let ?p = "RootDir # map Normal (k @ ns @ [s])"
  have bl: "butlast ?p = RootDir # map Normal (k @ ns)" "?p \<noteq> []" "last ?p \<noteq> RootDir"
    by (simp_all add: butlast_append)
  have enoent: "fs_mkdir fs ?p = Inl ENOENT" by (rule mkdir_missing_parent [OF fs(1) can_make_snoc [OF fs(2)] fs(3)])
  have step: "create_dir_all fs ?p = (case fs_mkdir g ?p of Inr g' \<Rightarrow> (Inr (), g')
      | Inl e' \<Rightarrow> if fs_is_dir g ?p then (Inr (), g) else (Inl e', g))"
    using enoent bl g(1) by (simp add: create_dir_all.simps [of fs ?p] del: map_append)
  have "k @ ns @ [s] \<noteq> k @ take i ns" for i
    using length_take [of i ns] by (auto dest: arg_cong [where f = length])
  then have gs: "node_at g (k @ ns @ [s]) = node_at fs (k @ ns @ [s])" using g(3) by blast
  show ?thesis
  proof (cases "node_at fs (k @ ns @ [s])")
    case None
    then have "fs_mkdir g ?p = Inr (AList.update (k @ ns @ [s]) Dir g)" using mkdir_in_dir [OF g(2), of s] gs by simp
    then show ?thesis using step dirs_upto_update [OF g(2), of s] by auto
  next
    case (Some nd)
    then have "node_at g (k @ ns @ [s]) = Some Dir"
      using can_makeD [OF fs(2), of "Suc (length ns)"] gs by auto
    then have d: "dirs_upto g (k @ ns @ [s])" using g(2) dirs_upto_snoc [of g "k @ ns" s] by simp
    have "fs_is_dir g ?p" using canon_dirs [OF d] dirs_upto_node [OF d] by (simp add: fs_is_dir_def)
    moreover have "\<exists>e. fs_mkdir g ?p = Inl e"
      using entry_pos_dirs [OF g(2), of s] dirs_upto_node [OF d] by (simp add: fs_mkdir_def)
    ultimately show ?thesis using step d by auto
  qed
qed

lemma create_dir_all_makes:
  assumes "dirs_upto fs k" "can_make fs k ns"
  shows "\<exists>fs'. create_dir_all fs (RootDir # map Normal (k @ ns)) = (Inr (), fs') \<and> dirs_upto fs' (k @ ns)
     \<and> (\<forall>q. (\<forall>i. q \<noteq> k @ take i ns) \<longrightarrow> node_at fs' q = node_at fs q)"
  using assms(2)
proof (induction ns rule: rev_induct)
  case Nil
  then show ?case using create_dir_all_dirs [OF assms(1)] assms(1) by simp
next
  case (snoc s ns)
  let ?p = "RootDir # map Normal (k @ ns @ [s])"
  have no_link: "node_at fs (k @ ns @ [s]) = None \<or> node_at fs (k @ ns @ [s]) = Some Dir"
    using can_makeD [OF snoc.prems, of "Suc (length ns)"] by simp
  have new: "node_at (AList.update (k @ ns @ [s]) Dir g) q = node_at g q" if "\<forall>i. q \<noteq> k @ take i (ns @ [s])" for g q
    using that [rule_format, of "Suc (length ns)"] by auto
  show ?case
  proof (cases "dirs_upto fs (k @ ns)")
    case True
    show ?thesis
    proof (cases "dirs_upto fs (k @ ns @ [s])")
      case full: True
      then show ?thesis using create_dir_all_dirs [OF full] by auto
    next
      case False
      then have "node_at fs (k @ ns @ [s]) = None" using True no_link dirs_upto_snoc [of fs "k @ ns" s] by auto
      then have "fs_mkdir fs ?p = Inr (AList.update (k @ ns @ [s]) Dir fs)"
        using mkdir_in_dir [OF True, of s] by simp
      then have "create_dir_all fs ?p = (Inr (), AList.update (k @ ns @ [s]) Dir fs)"
        by (simp add: create_dir_all.simps [of fs ?p] del: map_append)
      then show ?thesis using dirs_upto_update [OF True, of s] new by auto
    qed
  next
    case False
    obtain g where g: "create_dir_all fs (RootDir # map Normal (k @ ns)) = (Inr (), g)" "dirs_upto g (k @ ns)"
      "\<forall>q. (\<forall>i. q \<noteq> k @ take i ns) \<longrightarrow> node_at g q = node_at fs q"
      using snoc.IH [OF can_make_snoc [OF snoc.prems]] by blast
    have outside: "node_at g q = node_at fs q" if "\<forall>i. q \<noteq> k @ take i (ns @ [s])" for q
    proof -
      have "q \<noteq> k @ take i ns" for i
        using that [rule_format, of "min i (length ns)"] by (cases "i \<le> length ns") simp_all
      then show ?thesis using g(3) by blast
    qed
    show ?thesis
      using create_dir_all_last [OF assms(1) snoc.prems False g(1,2)] g(3) outside new by auto
  qed
qed

end
