(* ===== verification/Volume_Props.thy ===== *)
theory Volume_Props
  imports Fs_Create Codec_Props Shim_Access Shim_Lifecycle
begin

text \<open>
  Volumes: their content routes change nothing outside the directory of the volume, what is put is
  what is got, and a write in a session goes back to the volume of the innermost mount.
\<close>

section \<open>Confinement\<close>

text \<open>The directory of a volume, reached without symbolic links and holding none.\<close>

definition volume_at :: "env \<Rightarrow> string \<Rightarrow> string list \<Rightarrow> bool" where
  "volume_at env vid k \<longleftrightarrow> volume_fs_dir env vid = RootDir # map Normal k"

definition vol_ok :: "string list \<Rightarrow> fs \<Rightarrow> bool" where
  "vol_ok k fs \<longleftrightarrow> dirs_upto fs k \<and> no_links_below fs k"

lemma vol_ok_real: "vol_ok k fs \<Longrightarrow> real_dir fs (RootDir # map Normal k) k"
  by (simp add: vol_ok_def real_dir_def canon_dirs dirs_upto_node)

lemma clean_abs_Normal: "clean_abs (RootDir # map Normal k)"
  by (auto simp: clean_abs_def)

lemma vol_ok_after:
  assumes "vol_ok k fs" "only_below k fs fs'" "real_dir fs' (RootDir # map Normal k) k"
  shows "vol_ok k fs'"
proof -
  have "node_at fs' (take i k) = Some Dir" for i
  proof (cases "prefix k (take i k)")
    case True
    then have "take i k = k" using take_is_prefix prefix_order.antisym by blast
    then show ?thesis using assms(3) by (simp add: real_dir_def)
  next
    case False
    then have "node_at fs' (take i k) = node_at fs (take i k)" using assms(2) by (simp add: only_below_def)
    then show ?thesis using assms(1) by (simp add: vol_ok_def dirs_upto_def)
  qed
  then show ?thesis using assms(3) by (simp add: vol_ok_def dirs_upto_def real_dir_def)
qed

lemma volume_path_eq:
  assumes "volume_at env vid k"
  obtains ns where "clean_rel_path p = map Normal ns" "volume_path env vid p = RootDir # map Normal (k @ ns)"
  using assms clean_rel_path_Normal [of p] by (auto simp: volume_path_def volume_at_def)

text \<open>Actions that stay below the volume, and those that keep it in place as well.\<close>

text \<open>Nothing but the disk below the volume and the outside world changes.\<close>

definition vol_step :: "string list \<Rightarrow> 's shim \<Rightarrow> 's shim \<Rightarrow> bool" where
  "vol_step k st st' \<longleftrightarrow> only_below k (host_fs st) (host_fs st')
     \<and> st' = st\<lparr>host_fs := host_fs st', outside := outside st'\<rparr>"

lemma vol_step_refl [simp]: "vol_step k st st"
  by (simp add: vol_step_def)

lemma vol_step_trans:
  assumes "vol_step k st st1" "vol_step k st1 st2"
  shows "vol_step k st st2"
proof -
  have "only_below k (host_fs st) (host_fs st2)"
    using assms by (simp add: vol_step_def only_below_def)
  moreover have "st2 = st\<lparr>host_fs := host_fs st2, outside := outside st2\<rparr>"
  proof -
    have "st2 = (st\<lparr>host_fs := host_fs st1, outside := outside st1\<rparr>)\<lparr>host_fs := host_fs st2, outside := outside st2\<rparr>"
      using assms unfolding vol_step_def by argo
    then show ?thesis by simp
  qed
  ultimately show ?thesis by (simp add: vol_step_def)
qed

lemma vol_step_outside: "only_outside st st' \<Longrightarrow> vol_step k st st'"
  by (auto simp: only_outside_def vol_step_def)

lemma vol_step_disk: "only_below k (host_fs st) fs \<Longrightarrow> vol_step k st (st\<lparr>host_fs := fs\<rparr>)"
  by (simp add: vol_step_def)

definition within :: "string list \<Rightarrow> ('s shim \<Rightarrow> 'a \<times> 's shim) \<Rightarrow> bool" where
  "within k f \<longleftrightarrow> (\<forall>st. vol_ok k (host_fs st) \<longrightarrow> vol_step k st (snd (f st)))"

definition keeps :: "string list \<Rightarrow> ('s shim \<Rightarrow> 'a \<times> 's shim) \<Rightarrow> bool" where
  "keeps k f \<longleftrightarrow> (\<forall>st. vol_ok k (host_fs st) \<longrightarrow> vol_step k st (snd (f st)) \<and> vol_ok k (host_fs (snd (f st))))"

named_theorems volume_rules \<open>actions that stay below a volume\<close>

lemma keepsD:
  assumes "keeps k f" "vol_ok k (host_fs st)"
  shows "vol_step k st (snd (f st))" "vol_ok k (host_fs (snd (f st)))"
  using assms by (simp_all add: keeps_def)

lemma withinD: "within k f \<Longrightarrow> vol_ok k (host_fs st) \<Longrightarrow> vol_step k st (snd (f st))"
  by (simp add: within_def)

lemma keeps_within: "keeps k f \<Longrightarrow> within k f"
  by (simp add: keeps_def within_def)

lemma keeps_outside: "outside_act f \<Longrightarrow> keeps k f"
  using only_outside_same [OF outside_snd [of f]] vol_step_outside [OF outside_snd [of f]] by (simp add: keeps_def)

lemma keeps_io_lift [volume_rules]: "keeps k (io_lift x)"
  by (rule keeps_outside) (rule outside_io_lift)

lemma keeps_io_try [volume_rules]:
  fixes m :: "'s shim \<Rightarrow> ('e + 'a) \<times> 's shim"
  assumes "keeps k m" "\<And>x. keeps k (f x)"
  shows "keeps k (io_try m f)"
  unfolding keeps_def
proof (intro allI impI)
  fix st :: "'s shim"
  assume v: "vol_ok k (host_fs st)"
  obtain r st1 where m: "m st = (r, st1)" by fastforce
  then have 1: "vol_step k st st1" "vol_ok k (host_fs st1)"
    using keepsD [OF assms(1) v] by simp_all
  show "vol_step k st (snd (io_try m f st)) \<and> vol_ok k (host_fs (snd (io_try m f st)))"
  proof (cases r)
    case (Inr x)
    have "vol_step k st1 (snd (f x st1)) \<and> vol_ok k (host_fs (snd (f x st1)))"
      using keepsD [OF assms(2) 1(2)] by simp
    then show ?thesis using m Inr vol_step_trans [OF 1(1)] by (simp add: io_try_def)
  qed (use m 1 in \<open>simp add: io_try_def\<close>)
qed

lemma within_io_try:
  fixes m :: "'s shim \<Rightarrow> ('e + 'a) \<times> 's shim"
  assumes "keeps k m" "\<And>x. within k (f x)"
  shows "within k (io_try m f)"
  unfolding within_def
proof (intro allI impI)
  fix st :: "'s shim"
  assume v: "vol_ok k (host_fs st)"
  obtain r st1 where m: "m st = (r, st1)" by fastforce
  then have 1: "vol_step k st st1" "vol_ok k (host_fs st1)"
    using keepsD [OF assms(1) v] by simp_all
  show "vol_step k st (snd (io_try m f st))"
  proof (cases r)
    case (Inr x)
    then show ?thesis
      using m withinD [OF assms(2) 1(2)] vol_step_trans [OF 1(1)] by (simp add: io_try_def)
  qed (use m 1 in \<open>simp add: io_try_def\<close>)
qed

lemma keeps_dirs_step [volume_rules]: "keeps k (dirs_step g (RootDir # map Normal (k @ ns)))"
proof -
  have "only_below k fs fs' \<and> vol_ok k fs'"
    if "vol_ok k fs" "create_dir_all fs (RootDir # map Normal (k @ ns)) = (r, fs')" for fs r fs'
  proof -
    have "only_below k fs fs' \<and> real_dir fs' (RootDir # map Normal k) k"
      using create_dir_all_below [OF vol_ok_real [OF that(1)] clean_abs_Normal, of ns] that(2) by simp
    then show ?thesis using vol_ok_after [OF that(1)] by blast
  qed
  then show ?thesis by (auto simp: keeps_def dirs_step_def vol_step_disk split: prod.splits)
qed

lemma keeps_dirs_parent: "keeps k (dirs_step g (RootDir # map Normal (butlast k)))"
proof -
  have "create_dir_all fs (RootDir # map Normal (butlast k)) = (Inr (), fs)" if "vol_ok k fs" for fs
    using that by (intro create_dir_all_dirs dirs_upto_butlast) (simp add: vol_ok_def)
  then show ?thesis by (simp add: keeps_def dirs_step_def vol_step_disk)
qed

lemma keeps_write [volume_rules]: "keeps k (fs_step g (\<lambda>fs. fs_write fs (RootDir # map Normal (k @ ns)) b))"
proof -
  have "only_below k fs fs' \<and> vol_ok k fs'"
    if "vol_ok k fs" "fs_write fs (RootDir # map Normal (k @ ns)) b = Inr fs'" for fs fs'
    using fs_write_below [OF vol_ok_real [OF that(1)], of ns b fs'] that vol_ok_after [OF that(1), of fs'] by simp
  then show ?thesis by (auto simp: keeps_def fs_step_def vol_step_disk vol_step_outside split: sum.splits)
qed

lemma keeps_mkdir [volume_rules]: "keeps k (fs_step g (\<lambda>fs. fs_mkdir fs (RootDir # map Normal (k @ ns))))"
proof -
  have "only_below k fs fs' \<and> vol_ok k fs'"
    if "vol_ok k fs" "fs_mkdir fs (RootDir # map Normal (k @ ns)) = Inr fs'" for fs fs'
  proof (cases "ns = []")
    case True
    have "canon fs (RootDir # map Normal k) = Inr k" "node_at fs k = Some Dir"
      using that(1) by (auto simp: vol_ok_def canon_dirs dirs_upto_node)
    then have "fs_mkdir fs (RootDir # map Normal k) = Inl EEXIST"
      using entry_pos_exists [of fs k k] by (auto simp: fs_mkdir_def)
    then show ?thesis using that(2) True by simp
  next
    case False
    then show ?thesis
      using fs_mkdir_below [OF vol_ok_real [OF that(1)], of ns fs'] that vol_ok_after [OF that(1), of fs'] by simp
  qed
  then show ?thesis by (auto simp: keeps_def fs_step_def vol_step_disk vol_step_outside split: sum.splits)
qed

lemma remove_path_below:
  assumes "vol_ok k fs" "remove_path (RootDir # map Normal (k @ ns)) fs = Inr fs'"
  shows "only_below k fs fs'"
proof -
  obtain q where q: "entry_pos fs (RootDir # map Normal (k @ ns)) = Inr q"
    using assms(2) by (auto simp: remove_path_def fs_remove_dir_all_def fs_remove_file_def rtry_Inr_iff split: if_splits)
  have "prefix k q"
  proof (cases "ns = []")
    case True
    show ?thesis
    proof (cases k rule: rev_cases)
      case (snoc k' s)
      then have "dirs_upto fs k'" using assms(1) by (simp add: vol_ok_def dirs_upto_snoc)
      then have "entry_pos fs (RootDir # map Normal (k' @ [s])) = Inr (k' @ [s])" by (rule entry_pos_dirs)
      then show ?thesis using q True snoc by simp
    qed simp
  next
    case False
    then show ?thesis
      using entry_pos_below [of fs k "RootDir # map Normal k" ns q] vol_ok_real [OF assms(1)] assms(1) q
      by (simp add: real_dir_def vol_ok_def)
  qed
  then show ?thesis
    using assms(2) fs_remove_dir_all_below [OF q] fs_remove_file_below [OF q] by (auto simp: remove_path_def split: if_splits)
qed

lemma outside_s3_call [outside_rules]: "outside_act (s3_call g f)"
  by (auto simp: outside_act_def s3_call_def io_err_def split: prod.splits)

lemma outside_s3_put [outside_rules]: "outside_act (s3_put_file h env vid cfg rel bs)"
  by (auto simp: outside_act_def s3_put_file_def split: sum.split intro!: outside_snd outside_rules)

lemma outside_s3_get [outside_rules]: "outside_act (s3_get_file h env vid cfg rel)"
  by (auto simp: outside_act_def s3_get_file_def split: sum.split intro!: outside_snd outside_rules)

lemma outside_s3_delete [outside_rules]: "outside_act (s3_delete_object h env vid cfg rel)"
  by (auto simp: outside_act_def s3_delete_object_def split: sum.split intro!: outside_snd outside_rules)

lemma outside_s3_list [outside_rules]: "outside_act (s3_list_prefix h env vid cfg rel)"
  by (auto simp: outside_act_def s3_list_prefix_def split: sum.split intro!: outside_snd outside_rules)

lemma outside_each [outside_rules]: "(\<And>x. outside_act (f x)) \<Longrightarrow> outside_act (each f xs)"
proof (induction xs)
  case (Cons x xs)
  then have "outside_act (io_try (f x) (\<lambda>_. each f xs))" by (intro outside_rules) auto
  then show ?case by (simp add: outside_act_def)
qed (simp add: outside_act_def)

lemma outside_s3_delete_prefix [outside_rules]: "outside_act (s3_delete_prefix h env vid cfg rel)"
  unfolding s3_delete_prefix_def by (intro outside_rules)

lemma outside_s3_delete_entry: "only_outside st (s3_delete_entry h env vid be d rel st)"
  by (auto simp: s3_delete_entry_def intro: outside_snd outside_rules split: volume_backend.split)

lemma outside_stat_step [outside_rules]: "outside_act (stat_step h s g p logical)"
  by (simp add: outside_act_def stat_step_def)

section \<open>The content routes\<close>

lemma within_with_volume: "(\<And>v. within k (f v)) \<Longrightarrow> within k (with_volume hs vid f)"
proof -
  assume f: "\<And>v. within k (f v)"
  have "within k (io_try (io_lift r) (\<lambda>v. io_try (io_lift (check_volume_auth hs v)) (\<lambda>_. f v)))" for r
    by (intro within_io_try volume_rules f)
  then show ?thesis by (simp add: within_def with_volume_def)
qed

lemma within_reply: "within k f \<Longrightarrow> within k (reply enc f)"
  by (simp add: within_def reply_def case_prod_beta)

lemma keeps_stat [volume_rules]: "keeps k (stat_step h s g p logical)"
  by (rule keeps_outside) (rule outside_stat_step)

lemma keeps_s3_put [volume_rules]: "keeps k (s3_put_file h env vid cfg rel b)"
  by (rule keeps_outside) (rule outside_s3_put)

lemma keeps_guarded: "keeps k f \<Longrightarrow> keeps k (\<lambda>st. if c st then (Inl e, st) else f st)"
  by (simp add: keeps_def)

lemma keeps_parent:
  assumes "path_parent (RootDir # map Normal (k @ ns)) = Some par"
  shows "keeps k (dirs_step g par)"
proof (cases ns rule: rev_cases)
  case Nil
  with assms have "par = RootDir # map Normal (butlast k)"
    by (auto simp: path_parent_def map_butlast split: if_splits)
  then show ?thesis by (simp add: keeps_dirs_parent)
next
  case (snoc ms s)
  with assms have "par = RootDir # map Normal (k @ ms)"
    by (auto simp: path_parent_def butlast_append)
  then show ?thesis using keeps_dirs_step [of k g ms] by simp
qed

lemma within_put_file:
  assumes "volume_at env vid k"
  shows "within k (volume_file_put h env hs vid q b)"
proof -
  obtain ns where p: "volume_path env vid (vq_path q) = RootDir # map Normal (k @ ns)"
    using volume_path_eq [OF assms] by metis
  have "keeps k (case path_parent (RootDir # map Normal (k @ ns)) of None \<Rightarrow> io_lift (Inr ()) | Some par \<Rightarrow> dirs_step g par)" for g
    by (auto split: option.split intro: keeps_parent volume_rules)
  moreover have "keeps k (case be of Local \<Rightarrow> io_lift (Inr ()) | S3 cfg \<Rightarrow> s3_put_file h env vid cfg (vq_path q) b)" for be
    by (auto split: volume_backend.split intro: volume_rules)
  ultimately have "keeps k (\<lambda>st. if fs_exists (host_fs st) (RootDir # map Normal (k @ ns)) \<and> vq_force q = Some False then
       (Inl (CONFLICT, err_json ''already_exists'' ''path already exists''), st)
     else
       io_try (case path_parent (RootDir # map Normal (k @ ns)) of None \<Rightarrow> io_lift (Inr ()) | Some par \<Rightarrow> dirs_step g par) (\<lambda>_.
       io_try (fs_step g' (\<lambda>fs. fs_write fs (RootDir # map Normal (k @ ns)) b)) (\<lambda>_.
       io_try (case be of Local \<Rightarrow> io_lift (Inr ()) | S3 cfg \<Rightarrow> s3_put_file h env vid cfg (vq_path q) b) (\<lambda>_.
       stat_step h CREATED g'' (RootDir # map Normal (k @ ns)) (vq_path q)))) st)" for g g' g'' be
    by (intro keeps_guarded volume_rules)
  then show ?thesis
    unfolding volume_file_put_def p Let_def by (intro within_with_volume keeps_within)
qed

lemma within_get_file: "within k (volume_file_get h env hs vid q)"
proof -
  have "outside_act (\<lambda>st. case be of
        Local \<Rightarrow> (f (host_fs st), st)
      | S3 cfg \<Rightarrow> (case s3_get_file h env vid cfg (vq_path q) st of
             (Inr b, st1) \<Rightarrow> (Inr (octets b), st1)
           | (Inl (code, _), st1) \<Rightarrow> if code = NOT_FOUND then (Inl (code, ''not found''), st1) else (f (host_fs st1), st1)))" for be f
    using outside_snd [OF outside_s3_get]
    by (auto simp: outside_act_def case_prod_beta split: volume_backend.split sum.split)
  then show ?thesis
    unfolding volume_file_get_def Let_def by (intro within_with_volume keeps_within keeps_outside)
qed

lemma within_dir_post:
  assumes "volume_at env vid k"
  shows "within k (volume_dir_post h env hs vid q)"
proof -
  obtain ns where p: "volume_path env vid (vq_path q) = RootDir # map Normal (k @ ns)"
    using volume_path_eq [OF assms] by metis
  have "keeps k (if c then dirs_step g (RootDir # map Normal (k @ ns))
      else fs_step g (\<lambda>fs. fs_mkdir fs (RootDir # map Normal (k @ ns))))" for c g
    by (cases c) (simp_all only: if_True if_False keeps_dirs_step keeps_mkdir)
  then show ?thesis
    unfolding volume_dir_post_def p Let_def
    by (intro within_with_volume keeps_within keeps_io_try volume_rules)
qed

lemma within_reads: "within k (volume_dir_get h env hs vid q)" "within k (volume_path_get h env hs vid q)"
    "within k (volume_path_patch h env hs vid q b)"
proof -
  show "within k (volume_dir_get h env hs vid q)"
    unfolding volume_dir_get_def Let_def
    by (intro within_with_volume) (auto simp: within_def split: sum.split)
qed (auto simp: volume_path_get_def volume_path_patch_def intro: within_with_volume keeps_within keeps_stat)

lemma within_path_delete:
  assumes "volume_at env vid k"
  shows "within k (volume_path_delete (h :: 's host) env hs vid q)"
proof -
  obtain ns where p: "volume_path env vid (vq_path q) = RootDir # map Normal (k @ ns)"
    using volume_path_eq [OF assms] by metis
  have "vol_step k st (snd (fs_step g (remove_path (RootDir # map Normal (k @ ns))) st))" if "vol_ok k (host_fs st)" for st :: "'s shim" and g
    using remove_path_below [OF that, of ns] by (auto simp: fs_step_def vol_step_disk split: sum.split)
  then have "vol_step k st (s3_delete_entry h env vid be d rel (snd (fs_step g (remove_path (RootDir # map Normal (k @ ns))) st)))"
    if "vol_ok k (host_fs st)" for st :: "'s shim" and g h be d rel
    using that vol_step_trans vol_step_outside [OF outside_s3_delete_entry] by blast
  then show ?thesis
    unfolding volume_path_delete_def p Let_def
    by (intro within_with_volume) (simp add: within_def case_prod_beta)
qed

lemmas within_content =
  within_put_file within_get_file within_dir_post within_reads within_path_delete

text \<open>C6: A request for the content of a volume, whatever path it names, changes nothing on the disk
  outside the directory of that volume, and nothing in the tables of the shim: no sandbox, no
  volume record and no credential.\<close>

theorem volume_confined:
  assumes "content_volume rq = Some vid" "volume_at env vid k" "vol_ok k (host_fs st)"
    and "shim_handle h pb env hs rq st = (res, st')"
  shows "(\<forall>q. \<not> prefix k q \<longrightarrow> node_at (host_fs st') q = node_at (host_fs st) q)
    \<and> st' = st\<lparr>host_fs := host_fs st', outside := outside st'\<rparr>"
proof -
  have "vol_step k st (snd (shim_handle h pb env hs rq st))"
    using assms(1-3) by (cases rq) (simp_all add: within_content [THEN withinD])
  then show ?thesis using assms(4) by (simp add: vol_step_def only_below_def)
qed

lemma demo_volume: "volume_at demo_env ''vol1'' [''v'', ''vol1'']" "vol_ok [''v'', ''vol1''] (host_fs demo_shim)"
proof -
  have "dirs_upto (host_fs demo_shim) (([] @ [''v'']) @ [''vol1''])"
    by (simp only: dirs_upto_snoc dirs_upto_Nil) (simp add: demo_shim_def node_at_def)
  then show "vol_ok [''v'', ''vol1''] (host_fs demo_shim)"
    by (auto simp: vol_ok_def no_links_below_def demo_shim_def node_at_def)
  show "volume_at demo_env ''vol1'' [''v'', ''vol1'']"
    by (simp add: volume_at_def volume_fs_dir_def volumes_root_def demo_env_def components_def path_join_def
        is_absolute_def starts_with_def inner_components_def inner_component_def)
qed

theorem volume_confined_witness:
  "node_at (host_fs (snd (shim_handle demo_host demo_pb demo_env demo_token
     (QFilePut ''vol1'' (demo_query ''../../etc/passwd'') [1]) demo_shim))) [''etc'', ''passwd''] = None"
proof -
  let ?rq = "QFilePut ''vol1'' (demo_query ''../../etc/passwd'') [1]"
  have "\<not> prefix [''v'', ''vol1''] [''etc'', ''passwd'']" by simp
  moreover have "node_at (host_fs demo_shim) [''etc'', ''passwd''] = None" by (simp add: demo_shim_def node_at_def)
  moreover have "content_volume ?rq = Some ''vol1''" by simp
  ultimately show ?thesis
    using volume_confined [of ?rq "''vol1''" demo_env "[''v'', ''vol1'']" demo_shim demo_host demo_pb demo_token,
        OF _ demo_volume surjective_pairing] by metis
qed

section \<open>What is put is what is got\<close>

definition parent_step :: "(io_error \<Rightarrow> http_err) \<Rightarrow> path \<Rightarrow> ('s, unit) act" where
  "parent_step g p = (case path_parent p of None \<Rightarrow> io_lift (Inr ()) | Some par \<Rightarrow> dirs_step g par)"

lemma parent_step_eq:
  "\<exists>r fs. parent_step g p st = (r, st\<lparr>host_fs := fs\<rparr>) \<and> (\<forall>q b. fs_read (host_fs st) q = Inr b \<longrightarrow> fs_read fs q = Inr b)"
proof (cases "path_parent p")
  case None
  then show ?thesis
    by (intro exI [of _ "Inr ()"] exI [of _ "host_fs st"]) (simp add: parent_step_def io_lift_def)
next
  case (Some par)
  then show ?thesis
    using create_dir_all_read [of "host_fs st" _ _ par]
    by (cases "create_dir_all (host_fs st) par") (auto simp: parent_step_def dirs_step_def)
qed

lemma parent_step_err:
  assumes "parent_step (\<lambda>e. (c, f e)) p st = (Inl e, st1)"
  shows "fst e = c"
proof (cases "path_parent p")
  case (Some par)
  obtain r fs where "create_dir_all (host_fs st) par = (r, fs)" by fastforce
  then show ?thesis using assms Some by (cases r) (auto simp: parent_step_def dirs_step_def)
qed (use assms in \<open>simp add: parent_step_def io_lift_def\<close>)

lemma parent_step_keeps: "keeps k (parent_step g (RootDir # map Normal (k @ ns)))"
  unfolding parent_step_def by (auto split: option.split intro: keeps_parent volume_rules)

abbreviation mkdir_err :: "io_error \<Rightarrow> http_err" where
  "mkdir_err \<equiv> \<lambda>e. (INTERNAL_SERVER_ERROR, ''mkdir: '' @ io_msg e)"

lemma rtry_Inr_id: "rtry r Inr = r"
  by (cases r) simp_all

lemma with_volume_granted:
  assumes "map_of (volumes st) vid = Some v" "check_volume_auth hs v = Inr ()"
  shows "with_volume hs vid f st = f v st"
  using assms by (simp add: with_volume_def volume_rec_of_def io_try_def io_lift_def)

lemma file_put_created:
  assumes "volume_file_put h env hs vid q b st = (r, st')" "map_of (volumes st) vid = Some v" "vol_backend v = Local"
    and "rs_status (into_response r) = CREATED" "p = volume_path env vid (vq_path q)"
  shows "check_volume_auth hs v = Inr () \<and> fs_write (host_fs (snd (parent_step mkdir_err p st))) p b = Inr (host_fs st')
    \<and> st' = snd (parent_step mkdir_err p st)\<lparr>host_fs := host_fs st'\<rparr>"
proof -
  have auth: "check_volume_auth hs v = Inr ()"
    using assms by (auto simp: volume_file_put_def with_volume_def volume_rec_of_def io_try_def io_lift_def
        check_volume_auth_def into_response_def error_response_def Let_def split: if_splits)
  obtain r1 st1 where 1: "parent_step mkdir_err p st = (r1, st1)" by fastforce
  have put: "(if fs_exists (host_fs st) p \<and> vq_force q = Some False then
       (Inl (CONFLICT, err_json ''already_exists'' ''path already exists''), st)
     else io_try (parent_step mkdir_err p) (\<lambda>_.
       io_try (fs_step (\<lambda>e. (INTERNAL_SERVER_ERROR, ''write: '' @ io_msg e)) (\<lambda>fs. fs_write fs p b)) (\<lambda>_.
       io_try (io_lift (Inr ())) (\<lambda>_.
       stat_step h CREATED (\<lambda>e. (INTERNAL_SERVER_ERROR, ''stat: '' @ io_msg e)) p (vq_path q)))) st) = (r, st')"
    using assms(1)
    unfolding volume_file_put_def with_volume_granted [OF assms(2) auth] Let_def assms(3) volume_backend.case
      assms(5) [symmetric] parent_step_def [symmetric] .
  have free: "\<not> (fs_exists (host_fs st) p \<and> vq_force q = Some False)"
    using put assms(4) by (auto simp: into_response_def error_response_def)
  have err: "fst e = INTERNAL_SERVER_ERROR" if "r1 = Inl e" for e
    using 1 that parent_step_err [of INTERNAL_SERVER_ERROR "\<lambda>e. ''mkdir: '' @ io_msg e" p st e st1] by simp
  have ok: "r1 = Inr ()"
    using put free 1 assms(4) err by (cases r1) (auto simp: io_try_def into_response_def error_response_def)
  show ?thesis
  proof (cases "fs_write (host_fs st1) p b")
    case (Inl e)
    then show ?thesis
      using put free 1 ok assms(4) by (auto simp: io_try_def io_lift_def fs_step_def into_response_def error_response_def)
  next
    case (Inr fs)
    then show ?thesis
      using put free 1 ok auth by (simp add: io_try_def io_lift_def fs_step_def stat_step_def) (auto)
  qed
qed

lemma file_get_local:
  assumes "map_of (volumes st) vid = Some v" "vol_backend v = Local" "check_volume_auth hs v = Inr ()"
  shows "shim_handle h pb env hs (QFileGet vid q) st =
    (Some (case fs_read (host_fs st) (volume_path env vid (vq_path q)) of
        Inr c \<Rightarrow> octets c
      | Inl e \<Rightarrow> error_response (NOT_FOUND, ''not found: '' @ io_msg e)), st)"
  using assms by (auto simp: reply_def volume_file_get_def with_volume_def volume_rec_of_def io_try_def io_lift_def
      into_response_def split: sum.split)

text \<open>C32: A file put into a local volume is got back exactly, under every spelling of its path, and
  every other file of the volume that could be got before is still got with the same bytes.\<close>

theorem volume_put_get:
  assumes "volume_at env vid k" "vol_ok k (host_fs st)" "map_of (volumes st) vid = Some v" "vol_backend v = Local"
    and "shim_handle h pb env hs (QFilePut vid q b) st = (Some res, st')" "rs_status res = CREATED"
  shows "(\<forall>q'. clean_rel_path (vq_path q') = clean_rel_path (vq_path q) \<longrightarrow>
        shim_handle h pb env hs (QFileGet vid q') st' = (Some (octets b), st'))
    \<and> (\<forall>q' c. clean_rel_path (vq_path q') \<noteq> clean_rel_path (vq_path q)
        \<and> shim_handle h pb env hs (QFileGet vid q') st = (Some (octets c), st) \<longrightarrow>
        shim_handle h pb env hs (QFileGet vid q') st' = (Some (octets c), st'))"
proof -
  obtain r where r: "volume_file_put h env hs vid q b st = (r, st')" "res = into_response r"
    using assms(5) by (auto simp: reply_def rtry_Inr_id split: prod.splits)
  obtain ns where p: "clean_rel_path (vq_path q) = map Normal ns" "volume_path env vid (vq_path q) = RootDir # map Normal (k @ ns)"
    using volume_path_eq [OF assms(1)] by metis
  let ?p = "RootDir # map Normal (k @ ns)"
  have "rs_status (into_response r) = CREATED" using r(2) assms(6) by simp
  note put = file_put_created [OF r(1) assms(3,4) this p(2) [symmetric]]
  obtain r1 fs1 where 1: "parent_step mkdir_err ?p st = (r1, st\<lparr>host_fs := fs1\<rparr>)"
    and keep: "\<And>q b. fs_read (host_fs st) q = Inr b \<Longrightarrow> fs_read fs1 q = Inr b"
    using parent_step_eq [of mkdir_err ?p st] by blast
  have auth: "check_volume_auth hs v = Inr ()" and w: "fs_write fs1 ?p b = Inr (host_fs st')"
    and st': "volumes st' = volumes st"
    using put 1 by (auto dest: arg_cong [where f = volumes])
  have "vol_ok k fs1" using keepsD(2) [OF parent_step_keeps assms(2), of mkdir_err ns] 1 by simp
  note real = vol_ok_real [OF this]
  have v': "map_of (volumes st') vid = Some v" using assms(3) st' by simp
  note get = file_get_local [OF assms(3,4) auth] file_get_local [OF v' assms(4) auth]
  show ?thesis
  proof (intro conjI allI impI)
    fix q' :: volume_query
    assume "clean_rel_path (vq_path q') = clean_rel_path (vq_path q)"
    then have "volume_path env vid (vq_path q') = ?p" using p(2) by (simp add: volume_path_def)
    then show "shim_handle h pb env hs (QFileGet vid q') st' = (Some (octets b), st')"
      using host_fs.read_written [OF w] by (simp only: get) simp
  next
    fix q' :: volume_query and c
    assume q': "clean_rel_path (vq_path q') \<noteq> clean_rel_path (vq_path q)
      \<and> shim_handle h pb env hs (QFileGet vid q') st = (Some (octets c), st)"
    obtain ns' where p': "clean_rel_path (vq_path q') = map Normal ns'"
      "volume_path env vid (vq_path q') = RootDir # map Normal (k @ ns')"
      using volume_path_eq [OF assms(1)] by metis
    have "ns' \<noteq> ns" using q' p(1) p'(1) by auto
    moreover have "fs_read (host_fs st) (RootDir # map Normal (k @ ns')) = Inr c"
      using q' unfolding get p'(2) by (auto simp: octets_def error_response_def split: sum.splits)
    ultimately have "fs_read (host_fs st') (RootDir # map Normal (k @ ns')) = Inr c"
      using fs_write_read_other [OF real w] keep by blast
    then show "shim_handle h pb env hs (QFileGet vid q') st' = (Some (octets c), st')"
      unfolding get p'(2) by simp
  qed
qed

text \<open>A put of a new name in an existing directory succeeds.\<close>

lemma file_put_child:
  assumes "map_of (volumes st) vid = Some v" "vol_backend v = Local" "check_volume_auth hs v = Inr ()"
    and "volume_path env vid (vq_path q) = RootDir # map Normal (k @ [s])" "dirs_upto (host_fs st) k"
    and "node_at (host_fs st) (k @ [s]) = None" "vq_force q \<noteq> Some False"
  shows "\<exists>j. volume_file_put h env hs vid q b st =
    (Inr (json_response h CREATED j), st\<lparr>host_fs := AList.update (k @ [s]) (File b) (host_fs st)\<rparr>)"
proof -
  let ?p = "RootDir # map Normal (k @ [s])" and ?fs = "AList.update (k @ [s]) (File b) (host_fs st)"
  have parent: "parent_step g ?p st = (Inr (), st)" for g
    using create_dir_all_dirs [OF assms(5)] by (simp add: parent_step_def path_parent_def butlast_append dirs_step_def)
  have wr: "fs_write (host_fs st) ?p b = Inr ?fs" by (rule fs_write_child [OF assms(5)]) (simp add: assms(6))
  have "dirs_upto ?fs k"
  proof (rule dirs_upto_only_below [of "k @ [s]", OF _ _ assms(5)])
    show "only_below (k @ [s]) (host_fs st) ?fs" by (auto simp: only_below_def)
  qed (use prefix_length_le in fastforce)
  then have "entry_pos ?fs ?p = Inr (k @ [s])" by (rule entry_pos_dirs)
  then obtain j where "entry_stat_json h ?fs ?p (vq_path q) = Inr j"
    by (simp add: entry_stat_json_def Let_def)
  then have stat: "stat_step h CREATED g ?p (vq_path q) (st\<lparr>host_fs := ?fs\<rparr>) =
      (Inr (json_response h CREATED j), st\<lparr>host_fs := ?fs\<rparr>)" for g
    by (simp add: stat_step_def)
  have "volume_file_put h env hs vid q b st =
      io_try (parent_step mkdir_err ?p) (\<lambda>_.
       io_try (fs_step (\<lambda>e. (INTERNAL_SERVER_ERROR, ''write: '' @ io_msg e)) (\<lambda>fs. fs_write fs ?p b)) (\<lambda>_.
       io_try (io_lift (Inr ())) (\<lambda>_.
       stat_step h CREATED (\<lambda>e. (INTERNAL_SERVER_ERROR, ''stat: '' @ io_msg e)) ?p (vq_path q)))) st"
    unfolding volume_file_put_def with_volume_granted [OF assms(1,3)] Let_def assms(2) volume_backend.case
      assms(4) parent_step_def [symmetric] by (simp only: assms(7) simp_thms if_False)
  then show ?thesis by (intro exI [of _ j]) (simp add: io_try_def parent fs_step_def wr io_lift_def stat del: map_append)
qed

theorem volume_put_get_witness:
  "shim_handle demo_host demo_pb demo_env demo_token (QFileGet ''vol1'' (demo_query ''/a''))
     (snd (shim_handle demo_host demo_pb demo_env demo_token (QFilePut ''vol1'' (demo_query ''a'') [1]) demo_shim)) =
   (Some (octets [1]),
    snd (shim_handle demo_host demo_pb demo_env demo_token (QFilePut ''vol1'' (demo_query ''a'') [1]) demo_shim))"
proof -
  let ?v = "the (map_of (volumes demo_shim) ''vol1'')"
  have clean: "clean_rel_path ''a'' = [Normal ''a'']" "clean_rel_path ''/a'' = [Normal ''a'']"
    by (simp_all add: clean_rel_path_def components_def is_absolute_def starts_with_def inner_components_def
        inner_component_def trim_start_matches_def)
  have p: "volume_path demo_env ''vol1'' (vq_path (demo_query ''a'')) = RootDir # map Normal ([''v'', ''vol1''] @ [''a''])"
    using demo_volume(1) clean by (simp add: volume_path_def volume_at_def demo_query_def)
  have v: "map_of (volumes demo_shim) ''vol1'' = Some ?v" "vol_backend ?v = Local"
    by (simp_all add: demo_shim_def)
  have auth: "check_volume_auth demo_token ?v = Inr ()"
    by (simp add: check_volume_auth_def demo_token_def demo_shim_def header_str_def visible_ascii_def
        strip_prefix_def starts_with_def)
  have k: "dirs_upto (host_fs demo_shim) [''v'', ''vol1'']" using demo_volume(2) by (simp add: vol_ok_def)
  have free: "node_at (host_fs demo_shim) ([''v'', ''vol1''] @ [''a'']) = None" "vq_force (demo_query ''a'') \<noteq> Some False"
    by (simp_all add: demo_shim_def node_at_def demo_query_def)
  obtain j st' where j: "volume_file_put demo_host demo_env demo_token ''vol1'' (demo_query ''a'') [1] demo_shim =
      (Inr (json_response demo_host CREATED j), st')"
    using file_put_child [OF v auth p k free] by blast
  then have put: "shim_handle demo_host demo_pb demo_env demo_token (QFilePut ''vol1'' (demo_query ''a'') [1]) demo_shim =
      (Some (json_response demo_host CREATED j), st')"
    by (simp add: reply_def into_response_def)
  have created: "rs_status (json_response demo_host CREATED j) = CREATED" by (simp add: json_response_def)
  have "clean_rel_path (vq_path (demo_query ''/a'')) = clean_rel_path (vq_path (demo_query ''a''))"
    by (simp add: demo_query_def clean)
  then show ?thesis
    using conjunct1 [OF volume_put_get [OF demo_volume v put created]] put by (metis snd_conv)
qed

end
