(* ===== verification/Mount_Props.thy ===== *)
theory Mount_Props
  imports Volume_Props
begin

text \<open>
  Mounted volumes: which mount a path of a session belongs to, and that what is written in the session
  below a mount can be got from the volume.
\<close>

section \<open>The mount of a path\<close>

definition covers :: "string \<Rightarrow> sandbox_volume_mount \<Rightarrow> bool" where
  "covers norm m \<longleftrightarrow> mount_root m \<noteq> [] \<and> (norm = mount_root m \<or> starts_with norm (mount_root m @ ''/''))"

lemma first_mount_find:
  "first_mount norm ms = map_option (\<lambda>m. (mnt_name m, trim_start_matches CHR ''/'' (drop (length (mount_root m)) norm)))
     (find (covers norm) ms)"
  by (induction ms) (auto simp: covers_def Let_def)

lemma find_sorted_min:
  assumes "find P (sort_key f xs) = Some x"
  shows "x \<in> set xs \<and> P x \<and> (\<forall>y \<in> set xs. P y \<longrightarrow> f x \<le> f y)"
proof -
  obtain i where i: "i < length xs" "P (sort_key f xs ! i)" "x = sort_key f xs ! i" "\<forall>j < i. \<not> P (sort_key f xs ! j)"
    using assms by (auto simp: find_Some_iff)
  have "x \<in> set (sort_key f xs)" using i by (metis length_sort nth_mem)
  moreover have "f x \<le> f y" if y: "y \<in> set xs" "P y" for y
  proof -
    obtain j where j: "j < length xs" "y = sort_key f xs ! j"
      using y(1) by (metis in_set_conv_nth length_sort set_sort)
    then have "i \<le> j" using i(4) y(2) not_less by blast
    then have "map f (sort_key f xs) ! i \<le> map f (sort_key f xs) ! j"
      using j(1) by (intro sorted_nth_mono) simp_all
    then show ?thesis using i(1,3) j by simp
  qed
  ultimately show ?thesis using i(2,3) by simp
qed

lemma find_sorted_None: "find P (sort_key f xs) = None \<longleftrightarrow> (\<forall>y \<in> set xs. \<not> P y)"
  by (auto simp: find_None_iff)

lemma trim_start_split: "\<exists>n. s = replicate n c @ trim_start_matches c s \<and> \<not> starts_with (trim_start_matches c s) [c]"
proof (induction s)
  case (Cons x s)
  then obtain n where n: "s = replicate n c @ trim_start_matches c s" "\<not> starts_with (trim_start_matches c s) [c]" by blast
  show ?case
  proof (cases "x = c")
    case True
    then have "x # s = replicate (Suc n) c @ trim_start_matches c (x # s)" using n(1) by (simp add: trim_start_matches_def)
    then show ?thesis using True n(2) by (intro exI [of _ "Suc n"]) (simp add: trim_start_matches_def)
  next
    case False
    then show ?thesis by (intro exI [of _ 0]) (simp add: trim_start_matches_def starts_with_def)
  qed
qed (simp add: trim_start_matches_def starts_with_def)

lemma covers_root: "covers norm m \<Longrightarrow> norm = mount_root m @ drop (length (mount_root m)) norm"
  by (auto simp: covers_def starts_with_prefix prefix_def)

text \<open>C37: A path of a session is mirrored exactly when it lies at or below a mount; the mount is one
  with the longest mount path among those, so that without trailing slashes the innermost mount
  wins, and the path in the volume is what follows the mount point.\<close>

theorem mirror_innermost_mount:
  "(volume_mirror_for r p = None \<longleftrightarrow> (\<forall>m \<in> set (sb_volume_mounts r). \<not> covers (with_slash p) m))
   \<and> (\<forall>nm rel. volume_mirror_for r p = Some (nm, rel) \<longrightarrow>
        (\<exists>m \<in> set (sb_volume_mounts r). covers (with_slash p) m \<and> mnt_name m = nm
           \<and> (\<exists>n. with_slash p = mount_root m @ replicate n CHR ''/'' @ rel) \<and> \<not> starts_with rel ''/''
           \<and> (\<forall>m' \<in> set (sb_volume_mounts r). covers (with_slash p) m' \<longrightarrow> length (mnt_path m') \<le> length (mnt_path m))
           \<and> ((\<forall>m' \<in> set (sb_volume_mounts r). mount_root m' = mnt_path m') \<longrightarrow>
                (\<forall>m' \<in> set (sb_volume_mounts r). covers (with_slash p) m' \<longrightarrow> prefix (mount_root m') (mount_root m)))))"
proof (intro conjI allI impI)
  show "volume_mirror_for r p = None \<longleftrightarrow> (\<forall>m \<in> set (sb_volume_mounts r). \<not> covers (with_slash p) m)"
    by (simp add: volume_mirror_for_def first_mount_find longest_first_def find_sorted_None)
next
  fix nm rel
  let ?n = "with_slash p" and ?ms = "set (sb_volume_mounts r)"
  assume "volume_mirror_for r p = Some (nm, rel)"
  then obtain m where find: "find (covers ?n) (longest_first (sb_volume_mounts r)) = Some m"
    and nm: "mnt_name m = nm" "rel = trim_start_matches CHR ''/'' (drop (length (mount_root m)) ?n)"
    by (auto simp: volume_mirror_for_def first_mount_find)
  have m: "m \<in> ?ms" "covers ?n m" "\<forall>m' \<in> ?ms. covers ?n m' \<longrightarrow> length (mnt_path m') \<le> length (mnt_path m)"
    using find_sorted_min [OF find [unfolded longest_first_def]] by auto
  obtain k where "drop (length (mount_root m)) ?n = replicate k CHR ''/'' @ rel" "\<not> starts_with rel ''/''"
    using trim_start_split [of "drop (length (mount_root m)) ?n" "CHR ''/''"] nm(2) by blast
  then have rel: "?n = mount_root m @ replicate k CHR ''/'' @ rel" "\<not> starts_with rel ''/''"
    using covers_root [OF m(2)] by simp_all
  have "prefix (mount_root m') (mount_root m)"
    if "\<forall>m' \<in> ?ms. mount_root m' = mnt_path m'" "m' \<in> ?ms" "covers ?n m'" for m'
  proof -
    have "prefix (mount_root m') ?n" "prefix (mount_root m) ?n"
      using covers_root [OF that(3)] covers_root [OF m(2)] by (metis prefixI)+
    moreover have "length (mount_root m') \<le> length (mount_root m)" using m that by metis
    ultimately show ?thesis by (rule prefix_length_prefix)
  qed
  then show "\<exists>m \<in> ?ms. covers ?n m \<and> mnt_name m = nm
           \<and> (\<exists>n. ?n = mount_root m @ replicate n CHR ''/'' @ rel) \<and> \<not> starts_with rel ''/''
           \<and> (\<forall>m' \<in> ?ms. covers ?n m' \<longrightarrow> length (mnt_path m') \<le> length (mnt_path m))
           \<and> ((\<forall>m' \<in> ?ms. mount_root m' = mnt_path m') \<longrightarrow>
                (\<forall>m' \<in> ?ms. covers ?n m' \<longrightarrow> prefix (mount_root m') (mount_root m)))"
    using m nm(1) rel by (intro bexI [of _ m]) auto
qed

definition demo_mounts :: sandbox_rec where
  "demo_mounts = demo_rec\<lparr>sb_volume_mounts :=
     [\<lparr>mnt_name = ''a'', mnt_path = ''/d''\<rparr>, \<lparr>mnt_name = ''b'', mnt_path = ''/d/e''\<rparr>]\<rparr>"

theorem mirror_innermost_mount_witness:
  "volume_mirror_for demo_mounts ''/d/e/f'' = Some (''b'', ''f'') \<and> volume_mirror_for demo_mounts ''/dx'' = None"
proof -
  have "\<forall>m \<in> set (sb_volume_mounts demo_mounts). \<not> covers (with_slash ''/dx'') m"
    by (simp add: demo_mounts_def covers_def mount_root_def trim_end_matches_def with_slash_def starts_with_def)
  then have "volume_mirror_for demo_mounts ''/dx'' = None"
    using mirror_innermost_mount [of demo_mounts "''/dx''"] by blast
  then show ?thesis
    by (simp add: volume_mirror_for_def longest_first_def demo_mounts_def mount_root_def trim_end_matches_def
        with_slash_def starts_with_def trim_start_matches_def)
qed

text \<open>A trailing slash counts as length: the outer mount shadows the inner one.\<close>

lemma trailing_slash_shadows:
  "volume_mirror_for (demo_rec\<lparr>sb_volume_mounts :=
     [\<lparr>mnt_name = ''a'', mnt_path = ''/d///''\<rparr>, \<lparr>mnt_name = ''b'', mnt_path = ''/d/e''\<rparr>]\<rparr>) ''/d/e/f'' = Some (''a'', ''e/f'')"
  by (simp add: volume_mirror_for_def longest_first_def mount_root_def trim_end_matches_def
        with_slash_def starts_with_def trim_start_matches_def)

section \<open>An upload reaches the volume\<close>

lemma mirror_write_local:
  assumes "volume_mirror_for r p = Some (nm, rel)" "find_volume nm st = Some v" "vol_backend v = Local"
    and "volume_path env (vol_id v) rel = RootDir # map Normal (k @ ns @ [s])"
    and "dirs_upto (host_fs st) k" "can_make (host_fs st) k ns"
    and "node_at (host_fs st) (k @ ns @ [s]) = None \<or> (\<exists>b0. node_at (host_fs st) (k @ ns @ [s]) = Some (File b0))"
  shows "\<exists>fs. mirror_write_to_volume h env r p bs st = st\<lparr>host_fs := fs\<rparr>
    \<and> fs_read fs (RootDir # map Normal (k @ ns @ [s])) = Inr bs"
proof -
  let ?p = "RootDir # map Normal (k @ ns @ [s])"
  obtain fs1 where fs1: "create_dir_all (host_fs st) (RootDir # map Normal (k @ ns)) = (Inr (), fs1)"
    "dirs_upto fs1 (k @ ns)" "\<forall>q. (\<forall>i. q \<noteq> k @ take i ns) \<longrightarrow> node_at fs1 q = node_at (host_fs st) q"
    using create_dir_all_makes [OF assms(5,6)] by blast
  have "k @ ns @ [s] \<noteq> k @ take i ns" for i
    using length_take [of i ns] by (auto dest: arg_cong [where f = length])
  then have "node_at fs1 ((k @ ns) @ [s]) = node_at (host_fs st) (k @ ns @ [s])" using fs1(3) by simp
  then have w: "fs_write fs1 ?p bs = Inr (AList.update (k @ ns @ [s]) (File bs) fs1)"
    using fs_write_child [OF fs1(2), of s bs] assms(7) by simp
  have par: "path_parent ?p = Some (RootDir # map Normal (k @ ns))"
    by (simp add: path_parent_def butlast_append)
  have "mirror_write_to_volume h env r p bs st = st\<lparr>host_fs := AList.update (k @ ns @ [s]) (File bs) fs1\<rparr>"
    using assms(1-4) by (simp add: mirror_write_to_volume_def Let_def par fs1(1) best_effort_def w del: map_append)
  then show ?thesis using host_fs.read_written [OF w] by blast
qed

text \<open>C12: What is uploaded into a sandbox below the mount point of a local volume is then got from the
  volume itself, byte for byte: the session accepted the write, the directories missing in the
  volume are made, and the mirrored file is the one the content route serves.\<close>

theorem upload_reaches_volume:
  assumes "pick_sandbox_id env hs st = Inr sid" "upload_payload hs body = Some bs" "valid_utf8 bs"
    and "forward_tools_tool h sid ''write''
       (JObj [(''path'', JStr (tools_relative_path p)), (''content'', JStr (of_bytes bs))]) st = (Inr x, st1)"
    and "map_of (sandboxes st) sid = Some r" "volume_mirror_for r p = Some (nm, rel)"
    and "find_volume nm st = Some v" "map_of (volumes st) (vol_id v) = Some v" "vol_backend v = Local"
    and "volume_at env (vol_id v) k" "clean_rel_path rel = map Normal (ns @ [s])"
    and "dirs_upto (host_fs st) k" "can_make (host_fs st) k ns"
    and "node_at (host_fs st) (k @ ns @ [s]) = None \<or> (\<exists>b0. node_at (host_fs st) (k @ ns @ [s]) = Some (File b0))"
    and "presented_token hs' = Some (vol_token v)" "clean_rel_path (vq_path q) = clean_rel_path rel"
  shows "fst (shim_handle h pb env hs' (QFileGet (vol_id v) q) (snd (shim_handle h pb env hs (QFilesPost p body) st))) =
    Some (octets bs)"
proof -
  have fwd: "host_fs st1 = host_fs st" "sandboxes st1 = sandboxes st" "volumes st1 = volumes st"
    using only_outside_same [OF outside_actD [OF outside_forward_tools_tool assms(4)]] by simp_all
  have find1: "find_volume nm st1 = Some v" using assms(7) fwd(3) by (simp add: find_volume_def)
  have p: "volume_path env (vol_id v) (vq_path q) = RootDir # map Normal (k @ ns @ [s])"
      "volume_path env (vol_id v) rel = RootDir # map Normal (k @ ns @ [s])"
    using assms(10,11,16) by (simp_all add: volume_path_def volume_at_def)
  obtain fs where fs: "mirror_write_to_volume h env r p bs st1 = st1\<lparr>host_fs := fs\<rparr>"
    "fs_read fs (RootDir # map Normal (k @ ns @ [s])) = Inr bs"
    using mirror_write_local [OF assms(6) find1 assms(9) p(2), of h] assms(12-14) fwd(1) by auto
  have "snd (shim_handle h pb env hs (QFilesPost p body) st) = st1\<lparr>host_fs := fs\<rparr>"
    using assms(1-5) fs(1) fwd(2) by (simp add: files_post_def Let_def)
  moreover have "check_volume_auth hs' v = Inr ()"
    using assms(15) by (simp add: check_volume_auth_def presented_token_def)
  ultimately show ?thesis
    using file_get_local [of "st1\<lparr>host_fs := fs\<rparr>" "vol_id v" v hs' h pb env q] assms(8,9) fwd(3) p(1) fs(2)
    by (simp del: map_append shim_handle.simps)
qed

definition demo_session :: "unit shim" where
  "demo_session = demo_shim\<lparr>sandboxes := [(''s1'', demo_rec\<lparr>sb_volume_mounts :=
     [\<lparr>mnt_name = ''data'', mnt_path = ''/data''\<rparr>]\<rparr>)]\<rparr>"

theorem upload_reaches_volume_witness:
  "fst (shim_handle demo_host demo_pb demo_env demo_token (QFileGet ''vol1'' (demo_query ''x/a''))
     (snd (shim_handle demo_host demo_pb demo_env [(''x-sandbox-id'', ''s1'')] (QFilesPost ''/data/x/a'' [65]) demo_session))) =
   Some (octets [65])"
proof -
  let ?hs = "[(''x-sandbox-id'', ''s1'')] :: headers"
  let ?r = "demo_rec\<lparr>sb_volume_mounts := [\<lparr>mnt_name = ''data'', mnt_path = ''/data''\<rparr>]\<rparr>"
  let ?v = "the (map_of (volumes demo_session) ''vol1'')"
  have pick: "pick_sandbox_id demo_env ?hs demo_session = Inr ''s1''"
    by (simp add: pick_sandbox_id_def visible_ascii_def)
  have payload: "upload_payload ?hs [65] = Some [65]"
    by (simp add: upload_payload_def content_type_or_def header_str_def str_contains_def match_indices_def)
  have utf8: "valid_utf8 [65]" by (simp add: utf8_seq_def utf8_width_def)
  obtain x st1 where fwd: "forward_tools_tool demo_host ''s1'' ''write''
      (JObj [(''path'', JStr (tools_relative_path ''/data/x/a'')), (''content'', JStr (of_bytes [65]))]) demo_session = (Inr x, st1)"
    by (simp add: forward_tools_tool_def body_json_def demo_host_def demo_session_def demo_shim_def)
  have tables: "map_of (sandboxes demo_session) ''s1'' = Some ?r" "find_volume ''data'' demo_session = Some ?v"
    "map_of (volumes demo_session) (vol_id ?v) = Some ?v" "vol_backend ?v = Local" "vol_id ?v = ''vol1''" "vol_token ?v = ''t''"
    by (simp_all add: demo_session_def demo_shim_def find_volume_def)
  have mirror: "volume_mirror_for ?r ''/data/x/a'' = Some (''data'', ''x/a'')"
    by (simp add: volume_mirror_for_def longest_first_def mount_root_def trim_end_matches_def
        with_slash_def starts_with_def trim_start_matches_def)
  have clean: "clean_rel_path ''x/a'' = map Normal ([''x''] @ [''a''])"
    by (simp add: clean_rel_path_def components_def is_absolute_def starts_with_def inner_components_def
        inner_component_def trim_start_matches_def)
  have disk: "dirs_upto (host_fs demo_session) [''v'', ''vol1'']"
    using demo_volume(2) by (simp add: vol_ok_def demo_session_def)
  have free: "can_make (host_fs demo_session) [''v'', ''vol1''] [''x'']"
    "node_at (host_fs demo_session) ([''v'', ''vol1''] @ [''x''] @ [''a'']) = None"
    by (auto simp: can_make_def demo_session_def demo_shim_def node_at_def le_Suc_eq)
  have token: "presented_token demo_token = Some (vol_token ?v)"
    by (simp add: tables presented_token_def demo_token_def header_str_def visible_ascii_def strip_prefix_def starts_with_def)
  have vol: "volume_at demo_env (vol_id ?v) [''v'', ''vol1'']" using demo_volume(1) tables(5) by simp
  show ?thesis
    using upload_reaches_volume [OF pick payload utf8 fwd tables(1) mirror tables(2-4) vol clean disk free(1)
        disjI1 [OF free(2)] token, of "demo_query ''x/a''"] tables(5)
    by (simp add: demo_query_def del: shim_handle.simps)
qed

end
