(* ===== verification/Shim_Liveness.thy ===== *)
theory Shim_Liveness
  imports Volume_Props
begin

text \<open>
  Every request is answered: the copy of a volume into a session ends within its fuel, and nothing
  else in the shim can fail to answer but a date out of range. The disk stays a function from paths
  to nodes, the representation invariant the bound rests on.
\<close>

section \<open>The disk has one node per path\<close>

abbreviation tidy :: "fs \<Rightarrow> bool" where
  "tidy fs \<equiv> distinct (keys fs)"

lemma tidy_node: "tidy fs \<Longrightarrow> (k, nd) \<in> set fs \<Longrightarrow> k \<noteq> [] \<Longrightarrow> node_at fs k = Some nd"
  by (simp add: node_at_def)

lemma walk_snoc:
  "node_at fs k = Some Dir \<Longrightarrow> node_at fs (k @ [s]) = Some Dir \<Longrightarrow> walk fs n cur cs = Inr k \<Longrightarrow> walk fs n cur (cs @ [Normal s]) = Inr (k @ [s])"
proof (induction fs n cur cs rule: walk.induct)
  case (5 fs n cur t cs)
  then show ?case by (auto split: option.splits node.splits nat.splits if_splits)
qed simp_all

lemma canon_child_dir:
  "canon fs p = Inr k \<Longrightarrow> node_at fs k = Some Dir \<Longrightarrow> node_at fs (k @ [s]) = Some Dir \<Longrightarrow>
     canon fs (p @ [Normal s]) = Inr (k @ [s])"
  by (simp add: canon_def walk_snoc)

section \<open>The copy of a directory ends\<close>

text \<open>What is left to visit: a directory, and every entry strictly below it.\<close>

definition entries_below :: "fs \<Rightarrow> string list \<Rightarrow> string list set" where
  "entries_below fs k = {q \<in> set (keys fs). strict_prefix k q}"

definition visits :: "fs \<Rightarrow> path \<Rightarrow> nat" where
  "visits fs p = (case canon fs p of Inl _ \<Rightarrow> 1 | Inr k \<Rightarrow> Suc (card (entries_below fs k)))"

abbreviation all_visits :: "fs \<Rightarrow> (path \<times> 'a) list \<Rightarrow> nat" where
  "all_visits fs stack \<equiv> sum_list (map (visits fs) (map fst stack))"

definition dir_names :: "(string \<times> node) list \<Rightarrow> string list" where
  "dir_names es = map fst (filter (\<lambda>(_, nd). nd = Dir) es)"

lemma visits_pos: "0 < visits fs p"
  by (simp add: visits_def split: sum.split)

lemma visits_bound: "visits fs p \<le> Suc (length fs)"
proof -
  have "card (entries_below fs k) \<le> length fs" for k
  proof -
    have "card (entries_below fs k) \<le> card (set (keys fs))" by (rule card_mono) (auto simp: entries_below_def)
    also have "\<dots> \<le> length fs" using card_length [of "keys fs"] by simp
    finally show ?thesis .
  qed
  then show ?thesis by (simp add: visits_def split: sum.split)
qed

lemma subtree_card:
  assumes "k \<in> set (keys fs)"
  shows "Suc (card (entries_below fs k)) = card {q \<in> set (keys fs). prefix k q}"
proof -
  have "{q \<in> set (keys fs). prefix k q} = insert k (entries_below fs k)"
    using assms by (auto simp: entries_below_def strict_prefix_def)
  moreover have "k \<notin> entries_below fs k" "finite (entries_below fs k)" by (simp_all add: entries_below_def)
  ultimately show ?thesis by simp
qed

lemma children_card:
  assumes "distinct ns" "\<forall>n \<in> set ns. k @ [n] \<in> set (keys fs)"
  shows "sum_list (map (\<lambda>n. Suc (card (entries_below fs (k @ [n])))) ns) \<le> card (entries_below fs k)"
proof -
  let ?T = "\<lambda>n. {q \<in> set (keys fs). prefix (k @ [n]) q}"
  have "sum_list (map (\<lambda>n. Suc (card (entries_below fs (k @ [n])))) ns) = (\<Sum>n \<in> set ns. card (?T n))"
    using assms subtree_card by (simp add: sum_list_distinct_conv_sum_set del: set_map)
  also have "\<dots> = card (\<Union>n \<in> set ns. ?T n)"
    by (rule card_UN_disjoint [symmetric]) (auto simp: prefix_def)
  also have "\<dots> \<le> card (entries_below fs k)"
    by (rule card_mono) (auto simp: entries_below_def strict_prefix_def prefix_def)
  finally show ?thesis .
qed

lemma dir_names_read:
  assumes "tidy fs" "canon fs p = Inr k" "fs_read_dir fs p = Inr ents"
  shows "node_at fs k = Some Dir" "distinct (dir_names ents)"
    "\<forall>n \<in> set (dir_names ents). k @ [n] \<in> set (keys fs) \<and> node_at fs (k @ [n]) = Some Dir"
proof -
  let ?f = "\<lambda>(k', nd). if k' \<noteq> [] \<and> butlast k' = k then Some (last k', nd) else None"
  show k: "node_at fs k = Some Dir"
    using assms(2,3) by (auto simp: fs_read_dir_def split: option.splits node.splits)
  have ents: "ents = List.map_filter ?f fs" using assms(2,3) k by (simp add: fs_read_dir_def)
  have "distinct (map fst (List.map_filter ?f fs))" using assms(1)
  proof (induction fs)
    case (Cons e fs)
    obtain k' nd where e: "e = (k', nd)" by (cases e)
    have eq: "a = k'" if "a \<noteq> []" "k' \<noteq> []" "butlast a = butlast k'" "last a = last k'" for a
      using that by (metis append_butlast_last_id)
    have "last k' \<notin> fst ` set (List.map_filter ?f fs)" if "k' \<noteq> []" "butlast k' = k"
    proof
      assume "last k' \<in> fst ` set (List.map_filter ?f fs)"
      then obtain a nd' where "(a, nd') \<in> set fs" "a \<noteq> []" "butlast a = k" "last a = last k'"
        by (auto simp: List.map_filter_def split: if_splits)
      then show False using Cons.prems e eq [of a] that by force
    qed
    then show ?case using Cons e by (simp add: map_filter_simps)
  qed (simp add: map_filter_simps)
  then show "distinct (dir_names ents)" by (simp add: ents dir_names_def distinct_map_filter)
  show "\<forall>n \<in> set (dir_names ents). k @ [n] \<in> set (keys fs) \<and> node_at fs (k @ [n]) = Some Dir"
  proof
    fix n
    assume "n \<in> set (dir_names ents)"
    then have "(k @ [n], Dir) \<in> set fs"
      by (auto simp: dir_names_def ents List.map_filter_def split: if_splits)
    then show "k @ [n] \<in> set (keys fs) \<and> node_at fs (k @ [n]) = Some Dir"
      using tidy_node [OF assms(1)] by (force intro: image_eqI [of _ fst])
  qed
qed

lemma read_dir_visits:
  assumes "tidy fs" "fs_read_dir fs p = Inr ents"
  shows "sum_list (map (\<lambda>n. visits fs (p @ [Normal n])) (dir_names ents)) < visits fs p"
proof -
  obtain k where k: "canon fs p = Inr k" using assms(2) by (auto simp: fs_read_dir_def result_simps)
  note d = dir_names_read [OF assms(1) k assms(2)]
  have eq: "map (\<lambda>n. visits fs (p @ [Normal n])) (dir_names ents) =
      map (\<lambda>n. Suc (card (entries_below fs (k @ [n])))) (dir_names ents)"
    using d(3) canon_child_dir [OF k d(1)] by (simp add: visits_def)
  have "sum_list (map (\<lambda>n. visits fs (p @ [Normal n])) (dir_names ents)) \<le> card (entries_below fs k)"
    unfolding eq using d(3) by (intro children_card [OF d(2)]) blast
  then show ?thesis using k by (simp add: visits_def)
qed

lemma copy_entries_stack:
  assumes "copy_entries h sid dir rel es stack st = (Inr stack1, st1)"
  shows "map fst stack1 = rev (map (\<lambda>n. dir @ [Normal n]) (dir_names es)) @ map fst stack"
  using assms
proof (induction es arbitrary: stack st)
  case (Cons e es)
  obtain n nd where e: "e = (n, nd)" by (cases e)
  show ?case
  proof (cases nd)
    case (File b)
    then obtain st2 where "copy_entries h sid dir rel es stack st2 = (Inr stack1, st1)"
      using Cons.prems e by (auto simp: Let_def io_try_def split: prod.splits sum.splits)
    then show ?thesis using Cons.IH e File by (simp add: dir_names_def)
  qed (use Cons e in \<open>auto simp: Let_def dir_names_def\<close>)
qed (simp add: dir_names_def)

lemma copy_round_visits:
  assumes "tidy (host_fs st)" "copy_round h sid dir rel stack st = (Inr stack1, st1)"
  shows "all_visits (host_fs st1) stack1 < all_visits (host_fs st) ((dir, rel) # stack)"
proof -
  obtain r st2 where 2: "run_tools_bash h sid (mkdir_command rel) 30 st = (r, st2)" by fastforce
  then have fs2: "host_fs st2 = host_fs st"
    using only_outside_same [OF outside_actD [OF outside_run_tools_bash 2]] by simp
  have fs1: "host_fs st1 = host_fs st"
    using only_outside_same [OF outside_actD [OF outside_copy_round assms(2)]] by simp
  obtain ents where ents: "fs_read_dir (host_fs st) dir = Inr ents"
    "copy_entries h sid dir rel ents stack st2 = (Inr stack1, st1)"
    using assms(2) 2 fs2 by (auto simp: copy_round_def io_try_def split: sum.splits)
  have "map (visits fs) (map fst stack1) =
      rev (map (\<lambda>n. visits fs (dir @ [Normal n])) (dir_names ents)) @ map (visits fs) (map fst stack)" for fs
    unfolding copy_entries_stack [OF ents(2)] by (simp add: rev_map comp_def)
  then show ?thesis using read_dir_visits [OF assms(1) ents(1)] fs1 by (simp only: sum_list_append sum_list_rev) simp
qed

lemma copy_dir_loop_ends:
  assumes "tidy (host_fs st)" "all_visits (host_fs st) stack \<le> fuel"
  shows "fst (copy_dir_loop h sid fuel stack st) \<noteq> None"
  using assms
proof (induction h sid fuel stack st rule: copy_dir_loop.induct)
  case (2 h sid x stack st)
  then show ?case using visits_pos [of "host_fs st" "fst x"] by simp
next
  case (3 h sid fuel dir rel stack st)
  obtain r st1 where r: "copy_round h sid dir rel stack st = (r, st1)" by fastforce
  show ?case
  proof (cases r)
    case (Inr stack1)
    have "host_fs st1 = host_fs st"
      using only_outside_same [OF outside_actD [OF outside_copy_round r]] by simp
    moreover have "all_visits (host_fs st1) stack1 < all_visits (host_fs st) ((dir, rel) # stack)"
      using copy_round_visits [OF "3.prems"(1)] r Inr by blast
    ultimately have "fst (copy_dir_loop h sid fuel stack1 st1) \<noteq> None"
      using "3.IH" [OF r [symmetric] Inr] "3.prems" by simp
    then show ?thesis using r Inr by simp
  qed (use r in simp)
qed simp

lemma copy_dir_to_tools_ends: "tidy (host_fs st) \<Longrightarrow> fst (copy_dir_to_tools h sid src dst st) \<noteq> None"
  unfolding copy_dir_to_tools_def
  by (rule copy_dir_loop_ends) (simp_all add: visits_bound)

section \<open>Operations keep one node per path\<close>

lemma tidy_update: "tidy fs \<Longrightarrow> tidy (AList.update k nd fs)"
  by (rule distinct_update)

lemma tidy_delete: "tidy fs \<Longrightarrow> tidy (AList.delete k fs)"
  by (rule distinct_delete)

lemma tidy_mkdir: "fs_mkdir fs p = Inr fs' \<Longrightarrow> tidy fs \<Longrightarrow> tidy fs'"
  by (auto simp: fs_mkdir_def rtry_Inr_iff tidy_update simp del: set_map split: if_splits)

lemma tidy_create_dir_all: "tidy fs \<Longrightarrow> tidy (snd (create_dir_all fs p))"
  using create_dir_all_steps [of "\<lambda>g g'. tidy g \<longrightarrow> tidy g'" fs p] tidy_mkdir by blast

lemma tidy_write: "fs_write fs p b = Inr fs' \<Longrightarrow> tidy fs \<Longrightarrow> tidy fs'"
  by (erule fs_write_canon) (simp add: tidy_update)

lemma tidy_remove_dir_all: "fs_remove_dir_all fs p = Inr fs' \<Longrightarrow> tidy fs \<Longrightarrow> tidy fs'"
proof -
  assume a: "fs_remove_dir_all fs p = Inr fs'" "tidy fs"
  then obtain k nd where "entry_pos fs p = Inr k" "node_at fs k = Some nd"
    by (auto simp: fs_remove_dir_all_def rtry_Inr_iff split: option.splits)
  then show "tidy fs'" using a by (cases nd) (auto simp: fs_remove_dir_all_def tidy_delete distinct_map_filter)
qed

lemma tidy_remove_file: "fs_remove_file fs p = Inr fs' \<Longrightarrow> tidy fs \<Longrightarrow> tidy fs'"
proof -
  assume a: "fs_remove_file fs p = Inr fs'" "tidy fs"
  then obtain k nd where "entry_pos fs p = Inr k" "node_at fs k = Some nd"
    by (auto simp: fs_remove_file_def rtry_Inr_iff split: option.splits)
  then show "tidy fs'" using a by (cases nd) (auto simp: fs_remove_file_def tidy_delete)
qed

lemma tidy_remove_path: "remove_path p fs = Inr fs' \<Longrightarrow> tidy fs \<Longrightarrow> tidy fs'"
  by (auto simp: remove_path_def split: if_splits dest: tidy_remove_dir_all tidy_remove_file)

lemma tidy_best_effort: "(\<And>fs'. f fs = Inr fs' \<Longrightarrow> tidy fs') \<Longrightarrow> tidy fs \<Longrightarrow> tidy (best_effort f fs)"
  by (simp add: best_effort_def split: sum.split)

lemma tidy_best:
  assumes "tidy fs"
  shows "tidy (best_effort (\<lambda>fs. fs_write fs p b) fs)" "tidy (best_effort (\<lambda>fs. fs_remove_dir_all fs p) fs)"
    "tidy (best_effort (\<lambda>fs. fs_remove_file fs p) fs)" "tidy (best_effort (remove_path p) fs)"
  using assms tidy_write tidy_remove_dir_all tidy_remove_file tidy_remove_path by (blast intro: tidy_best_effort)+

lemmas tidy_ops = tidy_best tidy_create_dir_all

text \<open>Actions that keep the disk tidy, and the rules that compose them.\<close>

definition tidies :: "('s shim \<Rightarrow> 'a \<times> 's shim) \<Rightarrow> bool" where
  "tidies f \<longleftrightarrow> (\<forall>st. tidy (host_fs st) \<longrightarrow> tidy (host_fs (snd (f st))))"

named_theorems tidy_rules \<open>actions that keep the disk tidy\<close>

lemma tidiesD: "tidies f \<Longrightarrow> tidy (host_fs st) \<Longrightarrow> tidy (host_fs (snd (f st)))"
  by (simp add: tidies_def)

lemma tidiesI: "(\<And>st. tidy (host_fs st) \<Longrightarrow> tidy (host_fs (snd (f st)))) \<Longrightarrow> tidies f"
  by (simp add: tidies_def)

lemma tidies_outside: "outside_act f \<Longrightarrow> tidies f"
  using only_outside_same [OF outside_snd [of f]] by (simp add: tidies_def)

lemma tidies_io_lift [tidy_rules]: "tidies (io_lift x)"
  by (simp add: tidies_def io_lift_def)

lemma tidies_io_try [tidy_rules]:
  fixes m :: "'s shim \<Rightarrow> ('e + 'a) \<times> 's shim"
  assumes "tidies m" "\<And>x. tidies (f x)"
  shows "tidies (io_try m f)"
proof (rule tidiesI)
  fix st :: "'s shim"
  assume t: "tidy (host_fs st)"
  obtain r st1 where m: "m st = (r, st1)" by fastforce
  then have "tidy (host_fs st1)" using tidiesD [OF assms(1) t] by simp
  then show "tidy (host_fs (snd (io_try m f st)))"
    using m tidiesD [OF assms(2)] by (cases r) (simp_all add: io_try_def)
qed

lemma tidies_authorized [tidy_rules]: "tidies f \<Longrightarrow> tidies (authorized hs f)"
  by (simp add: tidies_def authorized_def split: sum.split)

lemma tidies_with_volume [tidy_rules]:
  assumes "\<And>v. tidies (f v)"
  shows "tidies (with_volume hs vid f)"
proof -
  have "tidies (io_try (io_lift r) (\<lambda>v. io_try (io_lift (check_volume_auth hs v)) (\<lambda>_. f v)))" for r
    by (intro tidy_rules assms)
  then show ?thesis by (simp add: tidies_def with_volume_def)
qed

lemma tidies_dirs_step [tidy_rules]: "tidies (dirs_step g p)"
proof (rule tidiesI)
  fix st :: "'s shim"
  assume "tidy (host_fs st)"
  then show "tidy (host_fs (snd (dirs_step g p st)))"
    using tidy_create_dir_all [of "host_fs st" p] by (cases "create_dir_all (host_fs st) p") (simp add: dirs_step_def)
qed

lemma tidies_fs_step:
  "(\<And>fs fs'. f fs = Inr fs' \<Longrightarrow> tidy fs \<Longrightarrow> tidy fs') \<Longrightarrow> tidies (fs_step g f)"
  by (simp add: tidies_def fs_step_def split: sum.split)

lemma tidies_fs_write [tidy_rules]: "tidies (fs_step g (\<lambda>fs. fs_write fs p b))"
  by (rule tidies_fs_step) (rule tidy_write)

lemma tidies_fs_mkdir [tidy_rules]: "tidies (fs_step g (\<lambda>fs. fs_mkdir fs p))"
  by (rule tidies_fs_step) (rule tidy_mkdir)

lemma tidies_guarded [tidy_rules]: "tidies f \<Longrightarrow> tidies (\<lambda>st. if c st then (Inl e, st) else f st)"
  by (simp add: tidies_def)

lemma tidies_each [tidy_rules]: "(\<And>x. tidies (f x)) \<Longrightarrow> tidies (each f xs)"
proof (induction xs)
  case (Cons x xs)
  then have "tidies (io_try (f x) (\<lambda>_. each f xs))" by (intro tidy_rules) auto
  then show ?case by (simp add: tidies_def)
qed (simp add: tidies_def)

lemmas tidies_outsides [tidy_rules] =
  outside_run_tools_bash [THEN tidies_outside] outside_forward_tools_tool [THEN tidies_outside]
  outside_write_tools_file [THEN tidies_outside] outside_s3_put [THEN tidies_outside]
  outside_s3_get [THEN tidies_outside] outside_s3_list [THEN tidies_outside]
  outside_stat_step [THEN tidies_outside] outside_copy_dir_to_tools [THEN tidies_outside]
  outside_upstream_session [THEN tidies_outside]

section \<open>Requests keep the disk tidy\<close>

lemma tidy_put_sandbox: "tidy (host_fs st) \<Longrightarrow> tidy (host_fs (put_sandbox h sid r st))"
  by (simp add: put_sandbox_def persist_sandbox_def tidy_ops)

lemma tidy_remove_sandbox: "tidy (host_fs st) \<Longrightarrow> tidy (host_fs (remove_sandbox sid st))"
  by (simp add: remove_sandbox_def forget_sandbox_def tidy_ops)

lemma tidies_copy_s3_entry: "tidies (copy_s3_entry h env sid vid cfg dst key)"
proof -
  have "tidies (\<lambda>st. write_tools_file h sid child bs (on_fs (best_effort (\<lambda>fs. fs_write fs p bs))
      (case par of None \<Rightarrow> st | Some par \<Rightarrow> on_fs (\<lambda>fs. snd (create_dir_all fs par)) st)))" for child bs p par
    by (rule tidiesI, rule tidiesD [OF outside_write_tools_file [THEN tidies_outside]])
      (simp add: tidy_ops split: option.split)
  then show ?thesis
    unfolding copy_s3_entry_def Let_def by (cases "key = [] \<or> ends_with key ''/''") (simp_all add: tidies_io_lift tidy_rules)
qed

lemma tidies_copy_s3: "tidies (copy_s3_to_tools h env sid vid cfg dst)"
proof -
  have "tidies (\<lambda>st. each (copy_s3_entry h env sid vid cfg dst) ks
      (on_fs (\<lambda>fs. snd (create_dir_all fs (volume_fs_dir env vid))) st))" for ks
    by (rule tidiesI, rule tidiesD [OF tidies_each [OF tidies_copy_s3_entry]]) (simp add: tidy_ops)
  then show ?thesis unfolding copy_s3_to_tools_def by (intro tidy_rules)
qed

lemma copy_volume_tidy_ends:
  assumes "tidy (host_fs st)"
  shows "tidy (host_fs (snd (copy_volume_to_tools_session h env sid vid mp st)))
    \<and> fst (copy_volume_to_tools_session h env sid vid mp st) \<noteq> None"
proof (cases "volume_rec_of vid st")
  case (Inr v)
  let ?cmd = "''rm -rf -- '' @ shell_quote (tools_relative_path mp) @ '' && '' @ mkdir_command (tools_relative_path mp)"
  obtain r st1 where r: "run_tools_bash h sid ?cmd 30 st = (r, st1)" by fastforce
  then have 1: "tidy (host_fs st1)"
    using only_outside_same [OF outside_actD [OF outside_run_tools_bash r]] assms by simp
  have "tidy (host_fs (snd (copy_dir_to_tools h sid d dst st1)))" for d dst
    using tidiesD [OF outside_copy_dir_to_tools [THEN tidies_outside] 1] .
  moreover have "tidy (host_fs (snd (copy_s3_to_tools h env sid vid cfg dst st1)))" for cfg dst
    using tidiesD [OF tidies_copy_s3 1] .
  ultimately show ?thesis
    using Inr r 1 copy_dir_to_tools_ends [OF 1]
    by (cases r) (auto simp: copy_volume_to_tools_session_def Let_def case_prod_beta split: volume_backend.split)
qed (simp add: copy_volume_to_tools_session_def assms)

lemma materialize_tidy_ends:
  assumes "tidy (host_fs st)"
  shows "tidy (host_fs (snd (materialize_volume_mounts h env sid ms st)))
    \<and> fst (materialize_volume_mounts h env sid ms st) \<noteq> None"
  using assms
proof (induction h env sid ms st rule: materialize_volume_mounts.induct)
  case (2 h env sid m v ms st)
  obtain r st1 where r: "copy_volume_to_tools_session h env sid (vol_id v) (mnt_path m) st = (r, st1)" by fastforce
  with copy_volume_tidy_ends [OF "2.prems", of h env sid "vol_id v" "mnt_path m"]
  obtain x where x: "r = Some x" "tidy (host_fs st1)" by auto
  then show ?case using "2.IH" [OF r [symmetric]] r by (cases x) auto
qed simp

text \<open>The lease a request asks for, in seconds.\<close>

fun lease_secs :: "shim_request \<Rightarrow> int option" where
  "lease_secs (QCreate b) = Some (as_i64 (or_default (ns_timeout b) 900))"
| "lease_secs (QTimeout sid t) = Some (max t 1)"
| "lease_secs (QResume sid) = Some 900"
| "lease_secs (QRefreshes sid) = Some 900"
| "lease_secs _ = None"

definition dates_in_range :: "'s host \<Rightarrow> int \<Rightarrow> bool" where
  "dates_in_range h n \<longleftrightarrow> (\<forall>s. add_secs h (now h s) n \<noteq> None)"

lemma create_tidy_answers:
  assumes "tidy (host_fs st)" "dates_in_range h (as_i64 (or_default (ns_timeout b) 900))"
  shows "tidy (host_fs (snd (create_sandbox h env hs b st))) \<and> fst (create_sandbox h env hs b st) \<noteq> None"
proof (cases "rtry (check_api_key st hs) (\<lambda>_. validate_volume_mounts (ns_volume_mounts b) st)")
  case (Inr mounts)
  define t where "t = effective_template_id env (ns_template_id b)"
  obtain r st1 where r: "upstream_session h t st = (r, st1)" by fastforce
  then have 1: "tidy (host_fs st1)"
    using only_outside_same [OF outside_actD [OF outside_upstream_session r]] assms(1) by simp
  show ?thesis
  proof (cases r)
    case (Inr sid)
    obtain m st2 where m: "materialize_volume_mounts h env sid mounts st1 = (m, st2)" by fastforce
    with materialize_tidy_ends [OF 1, of h env sid mounts]
    obtain x where x: "m = Some x" "tidy (host_fs st2)" by auto
    obtain t1 where t1: "add_secs h (now h (outside st2)) (as_i64 (or_default (ns_timeout b) 900)) = Some t1"
      using assms(2) by (auto simp: dates_in_range_def)
    obtain tok s where tok: "uuid h (outside st2) = (tok, s)" by fastforce
    show ?thesis
    proof (cases x)
      case (Inl e)
      then show ?thesis
        using \<open>rtry _ _ = Inr mounts\<close> r Inr m x only_outside_same [OF drop_session_outside [of st2 h sid]]
        by (simp add: create_sandbox_def t_def [symmetric] Let_def)
    next
      case (Inr u)
      then show ?thesis
        using \<open>rtry _ _ = Inr mounts\<close> r \<open>r = Inr sid\<close> m x t1 tok
        by (simp add: create_sandbox_def t_def [symmetric] Let_def tidy_put_sandbox)
    qed
  qed (use \<open>rtry _ _ = Inr mounts\<close> r 1 in \<open>simp add: create_sandbox_def Let_def t_def\<close>)
qed (simp add: create_sandbox_def assms(1))

lemma extend_tidy_answers:
  assumes "tidy (host_fs st)" "dates_in_range h secs"
  shows "tidy (host_fs (snd (extend_lease h missing hs sid secs upd ans st)))
    \<and> fst (extend_lease h missing hs sid secs upd ans st) \<noteq> None"
proof -
  obtain t1 where "add_secs h (now h (outside st)) secs = Some t1"
    using assms(2) by (auto simp: dates_in_range_def)
  then show ?thesis
    using assms(1) by (simp add: extend_lease_def Let_def tidy_put_sandbox split: sum.split)
qed

lemma tidies_s3_delete [tidy_rules]: "tidies (\<lambda>st. (x, s3_delete_entry h env vid be d rel st))"
  by (simp add: tidies_def only_outside_same [OF outside_s3_delete_entry])

lemma tidies_content:
  "tidies (volume_file_put h env hs vid q b)" "tidies (volume_file_get h env hs vid q)"
  "tidies (volume_dir_post h env hs vid q)" "tidies (volume_dir_get h env hs vid q)"
  "tidies (volume_path_get h env hs vid q)" "tidies (volume_path_patch h env hs vid q b)"
  "tidies (volume_path_delete h env hs vid q)"
proof -
  have "tidies (case be of Local \<Rightarrow> io_lift (Inr ()) | S3 cfg \<Rightarrow> s3_put_file h env vid cfg rel b)" for be rel
    by (cases be) (simp_all add: tidy_rules)
  moreover have "tidies (case par of None \<Rightarrow> io_lift (Inr ()) | Some p \<Rightarrow> dirs_step g p)" for par g
    by (cases par) (simp_all add: tidy_rules)
  ultimately show "tidies (volume_file_put h env hs vid q b)"
    unfolding volume_file_put_def Let_def by (intro tidy_rules)
  have "tidies (\<lambda>st. case be of Local \<Rightarrow> (f (host_fs st), st)
      | S3 cfg \<Rightarrow> (case s3_get_file h env vid cfg rel st of
             (Inr b, st1) \<Rightarrow> (Inr (octets b), st1)
           | (Inl (code, _), st1) \<Rightarrow> if code = NOT_FOUND then (Inl (code, ''not found''), st1) else (f (host_fs st1), st1)))"
    for be f rel
    by (auto simp: tidies_def case_prod_beta only_outside_same [OF outside_snd [OF outside_s3_get]]
        split: volume_backend.split sum.split)
  then show "tidies (volume_file_get h env hs vid q)"
    unfolding volume_file_get_def Let_def by (intro tidy_rules)
  have "tidies (if c then dirs_step g p else fs_step g (\<lambda>fs. fs_mkdir fs p))" for c g p
    by (cases c) (simp_all only: if_True if_False tidies_dirs_step tidies_fs_mkdir)
  then show "tidies (volume_dir_post h env hs vid q)"
    unfolding volume_dir_post_def Let_def by (intro tidies_with_volume tidies_io_try tidy_rules)
  show "tidies (volume_dir_get h env hs vid q)"
    unfolding volume_dir_get_def Let_def by (intro tidies_with_volume) (auto simp: tidies_def split: sum.split)
  show "tidies (volume_path_get h env hs vid q)" "tidies (volume_path_patch h env hs vid q b)"
    unfolding volume_path_get_def volume_path_patch_def Let_def by (intro tidy_rules)+
  have "tidies (fs_step g (remove_path p))" for g p by (rule tidies_fs_step) (rule tidy_remove_path)
  then show "tidies (volume_path_delete h env hs vid q)"
    unfolding volume_path_delete_def Let_def
    by (intro tidies_with_volume) (simp add: tidies_def case_prod_beta only_outside_same [OF outside_s3_delete_entry])
qed

lemma tidies_volumes_create: "tidies (volumes_create (h :: 's host) env hs b)"
proof -
  have 1: "tidies (choose_backend env b vid)" for vid
    by (auto simp: tidies_def choose_backend_def Let_def split: sum.split option.split)
  have step: "tidies (io_try (dirs_step g p) (\<lambda>_ st3 :: 's shim. (Inr (CREATED, r), st3\<lparr>volumes := AList.update vid r (volumes st3)\<rparr>)))"
    for g p vid r by (intro tidy_rules) (simp add: tidies_def)
  show ?thesis
    unfolding volumes_create_def
  proof (intro tidies_authorized tidiesI)
    fix st :: "'s shim"
    assume t: "tidy (host_fs st)"
    let ?vid = "''vol'' @ format_time h ''%Y%m%dT%H%M%SZ%f'' (now h (outside st))"
    have body: "tidies (\<lambda>st1. let (tok, s) = uuid h (outside st1); st2 = st1\<lparr>outside := s\<rparr>;
           r = \<lparr>vol_id = ?vid, vol_name = or_default (cv_name b) ?vid, vol_token = tok,
                vol_size_mb = or_default (cv_size_mb b) 1024, vol_created_at = rfc3339 h (now h s), vol_backend = be\<rparr> in
       io_try (dirs_step (\<lambda>e. (INTERNAL_SERVER_ERROR, err_json ''internal'' (''create volume dir: '' @ io_msg e)))
                 (volume_fs_dir env ?vid))
         (\<lambda>_ st3. (Inr (CREATED, r), st3\<lparr>volumes := AList.update ?vid r (volumes st3)\<rparr>)) st2)" for be
      using tidiesD [OF step] by (intro tidiesI) (simp add: Let_def split: prod.split)
    show "tidy (host_fs (snd (let vid = ?vid in
     io_try (choose_backend env b vid) (\<lambda>be st1.
       let (tok, s) = uuid h (outside st1); st2 = st1\<lparr>outside := s\<rparr>;
           r = \<lparr>vol_id = vid, vol_name = or_default (cv_name b) vid, vol_token = tok,
                vol_size_mb = or_default (cv_size_mb b) 1024, vol_created_at = rfc3339 h (now h s), vol_backend = be\<rparr> in
       io_try (dirs_step (\<lambda>e. (INTERNAL_SERVER_ERROR, err_json ''internal'' (''create volume dir: '' @ io_msg e)))
                 (volume_fs_dir env vid))
         (\<lambda>_ st3. (Inr (CREATED, r), st3\<lparr>volumes := AList.update vid r (volumes st3)\<rparr>)) st2) st)))"
      unfolding Let_def [of ?vid] by (rule tidiesD [OF tidies_io_try [OF 1 body] t])
  qed
qed

lemma tidy_mirror_write: "tidy (host_fs st) \<Longrightarrow> tidy (host_fs (mirror_write_to_volume h env r p bs st))"
  by (simp add: mirror_write_to_volume_def Let_def tidy_ops only_outside_same [OF outside_snd [OF outside_s3_put]]
      split: option.split volume_backend.split prod.split)

lemma tidy_mirror_delete: "tidy (host_fs st) \<Longrightarrow> tidy (host_fs (mirror_delete_from_volume h env r p st))"
  by (simp add: mirror_delete_from_volume_def Let_def tidy_ops only_outside_same [OF outside_s3_delete_entry]
      split: option.split prod.split)

lemma tidies_resolve_path: "tidies (resolve_path env hs p)"
  by (simp add: tidies_def resolve_path_def Let_def tidy_ops split: sum.split)

lemma tidies_fs_remove: "tidies (fs_remove (h :: 's host) pb env hs body)"
proof (rule tidiesI)
  fix st :: "'s shim"
  assume t: "tidy (host_fs st)"
  have 1: "tidy (host_fs (snd (case resolve_path env hs p s1 of
             (Inl e, st2) \<Rightarrow> (error_response e, st2)
           | (Inr target, st2) \<Rightarrow>
               (unary_json_response h ct (JObj []), on_fs (best_effort (remove_path target)) st2))))"
    if "tidy (host_fs s1)" for s1 :: "'s shim" and ct p
    using tidiesD [OF tidies_resolve_path that, of env hs p]
    by (auto simp: Let_def case_prod_beta tidy_ops split: sum.split)
  show "tidy (host_fs (snd (fs_remove h pb env hs body st)))"
    unfolding fs_remove_def Let_def [of "content_type_or [] hs"]
    using t by (auto intro!: 1 tidy_mirror_delete split: option.split sum.split)
qed

lemma tidies_files: "tidies (files_get (h :: 's host) env hs p)" "tidies (files_post h env hs p body)"
proof -
  note fwd = only_outside_same [OF outside_snd [OF outside_forward_tools_tool]]
  have "tidy (host_fs (snd (files_get h env hs p st)))" if "tidy (host_fs st)" for st :: "'s shim"
    using that tidiesD [OF tidies_resolve_path that, of env hs p]
    by (auto simp: files_get_def case_prod_beta fwd split: sum.split)
  then show "tidies (files_get h env hs p)" by (rule tidiesI)
  have "tidy (host_fs (snd (files_post h env hs p body st)))" if "tidy (host_fs st)" for st :: "'s shim"
    using that tidiesD [OF tidies_resolve_path that, of env hs p]
    by (auto simp: files_post_def Let_def case_prod_beta fwd tidy_ops
        intro!: tidy_mirror_write dest: tidy_write split: sum.split option.split)
  then show "tidies (files_post h env hs p body)" by (rule tidiesI)
qed

lemma tidies_dockerfile_steps: "tidies (dockerfile_steps bid dir ss df :: 's shim \<Rightarrow> _)"
proof (induction ss arbitrary: df)
  case (Cons s ss)
  have "tidies (fs_step g (\<lambda>fs. rtry (fs_read fs p) (\<lambda>bs. fs_write fs q bs)))" for g p q
    by (rule tidies_fs_step) (auto simp: rtry_Inr_iff dest: tidy_write)
  then have "tidies (dockerfile_step bid dir s :: 's shim \<Rightarrow> _)"
    unfolding dockerfile_step_def Let_def by (auto intro: tidy_rules split: option.split)
  then have "tidies (io_try (dockerfile_step bid dir s :: 's shim \<Rightarrow> _) (\<lambda>t. dockerfile_steps bid dir ss (df @ t)))"
    by (intro tidies_io_try Cons.IH)
  then show ?case by (simp add: tidies_def)
qed (simp add: tidies_def)

lemma tidies_templates:
  "tidies (templates_create_v3 (h :: 's host) hs tb)" "tidies (files_upload hs token body)"
  "tidies (templates_build_start hs tid bid b)" "tidies (template_delete hs tid)"
proof -
  show "tidies (templates_create_v3 h hs tb)"
    unfolding templates_create_v3_def by (intro tidies_authorized tidiesI) (simp add: Let_def tidy_ops)
  show "tidies (template_delete hs tid)"
    unfolding template_delete_def by (intro tidies_authorized tidiesI) (simp add: Let_def tidy_ops)
  have "tidies (io_try (fs_step g (\<lambda>fs. fs_write fs p body)) (\<lambda>_. io_lift (Inr OK_S)))" for g p
    by (intro tidy_rules)
  then show "tidies (files_upload hs token body)"
    unfolding files_upload_def
    by (intro tidies_authorized tidiesI) (auto simp: tidy_ops split: option.split intro!: tidiesD)
  have last: "tidies (\<lambda>st2. (Inr ACCEPTED, set_build bid f (if fs_exists (host_fs st2) p then st2
        else on_fs (best_effort (\<lambda>fs. fs_write fs p c)) st2)))" for p c f
    by (simp add: tidies_def set_build_def tidy_ops split: option.split)
  show "tidies (templates_build_start hs tid bid b)"
    unfolding templates_build_start_def
    by (intro tidies_authorized tidiesI)
      (auto simp: tidy_ops Let_def split: option.split
        intro!: tidiesD tidies_io_try tidies_dockerfile_steps tidies_fs_write last)
qed

lemmas quiet_requests = get_sandbox_def sandboxes_list_def sandboxes_metrics_def sandbox_metrics_one_def
  sandbox_logs_def sandbox_connect_def snapshots_list_def templates_files_hash_def templates_build_status_def
  templates_build_logs_def templates_list_def template_get_def template_update_def template_get_by_alias_def
  tags_get_def volumes_list_def volume_get_def

lemma reply_answers: "fst (reply enc f st) \<noteq> None"
  by (simp add: reply_def split: prod.split)

lemma reply_opt_answers: "fst (reply_opt enc f st) \<noteq> None \<longleftrightarrow> fst (f st) \<noteq> None"
  by (simp add: reply_opt_def split: prod.split)

lemma raw_answers: "fst (raw f st) \<noteq> None"
  by (simp split: prod.split)

lemmas answers = reply_answers reply_opt_answers raw_answers

lemma request_tidy_answers:
  assumes "tidy (host_fs st)" "\<And>n. lease_secs rq = Some n \<Longrightarrow> dates_in_range h n"
  shows "tidy (host_fs (snd (shim_handle h pb env hs rq st))) \<and> fst (shim_handle h pb env hs rq st) \<noteq> None"
proof -
  note touching = tidies_content tidies_volumes_create tidies_templates tidies_files tidies_fs_remove
  show ?thesis
  proof (cases rq)
    case (QCreate b)
    then show ?thesis using create_tidy_answers [OF assms(1), of h b env hs] assms(2) by (simp add: reply_opt_answers del: not_None_eq)
  next
    case (QTimeout sid n)
    then show ?thesis
      using assms by (simp add: set_sandbox_timeout_def reply_opt_answers extend_tidy_answers del: not_None_eq)
  next
    case (QResume sid)
    then show ?thesis
      using assms by (simp add: sandbox_resume_def reply_opt_answers extend_tidy_answers del: not_None_eq)
  next
    case (QRefreshes sid)
    then show ?thesis
      using assms by (simp add: sandbox_refreshes_def reply_opt_answers extend_tidy_answers del: not_None_eq)
  next
    case (QDelete sid)
    then show ?thesis
      using assms(1) by (simp add: answers delete_sandbox_def authorized_def tidy_remove_sandbox
          only_outside_same [OF drop_session_outside] split: sum.split)
  next
    case (QPause sid)
    then show ?thesis
      using assms(1) by (simp add: answers sandbox_pause_def authorized_def tidy_put_sandbox split: sum.split option.split)
  next
    case (QSnapshot sid)
    then show ?thesis
      using assms(1) same_disk_snapshot [of st h hs sid] by (simp add: answers same_disk_def)
  next
    case (QSnapshots sid)
    then show ?thesis
      using assms(1) same_disk_snapshots [of st h hs sid] by (simp add: answers same_disk_def)
  next
    case (QProcessStart body)
    then show ?thesis
      using assms(1) same_disk_process_start [of st h pb env hs body] by (simp add: answers same_disk_def del: split_beta)
  next
    case (QTagsAssign b)
    then show ?thesis
      using assms(1) by (simp add: answers tags_assign_def authorized_def split: sum.split)
  next
    case (QTagsRemove b)
    then show ?thesis
      using assms(1) by (simp add: answers tags_remove_def authorized_def split: sum.split option.split)
  next
    case (QVolumeDelete vid)
    then show ?thesis
      using assms(1) by (simp add: answers volume_delete_def authorized_def tidy_ops split: sum.split)
  qed (use assms(1) in \<open>simp_all add: answers touching [THEN tidiesD] quiet_requests authorized_def Let_def split: sum.split\<close>)
qed

section \<open>Every request is answered\<close>

text \<open>Requests with their headers, one after the other.\<close>

fun serve :: "'s host \<Rightarrow> pb \<Rightarrow> env \<Rightarrow> (headers \<times> shim_request) list \<Rightarrow> 's shim \<Rightarrow> response option list \<times> 's shim" where
  "serve h pb env [] st = ([], st)"
| "serve h pb env ((hs, rq) # rqs) st =
     (case shim_handle h pb env hs rq st of (r, st1) \<Rightarrow>
        (case serve h pb env rqs st1 of (rs, st2) \<Rightarrow> (r # rs, st2)))"


definition demo_mount :: shim_request where
  "demo_mount = QCreate \<lparr>ns_template_id = [], ns_metadata = None, ns_alias = None, ns_timeout = Some 60,
     ns_volume_mounts = [\<lparr>mnt_name = ''vol1'', mnt_path = ''/data''\<rparr>]\<rparr>"


end
