(* ===== verification/Template_Builder.thy ===== *)
theory Template_Builder
  imports Fs_Model
begin

text \<open>
  The command-line tool \<open>template-builder\<close>: it reads \<open>templates/<name>/template.toml\<close>, writes the
  Dockerfile of a tool container (or takes the one in the template directory), builds the image in
  a temporary context that holds the daemon binary, and pushes it when asked to. The TOML parser
  and the \<open>docker\<close> command are parameters; of an error the outermost message is kept.
\<close>

section \<open>Configuration\<close>

record builder_cfg =
  bc_name :: string
  bc_base_image :: string
  bc_extra_pip :: "string list"
  bc_extra_apt :: "string list"

record builder_toml =
  bt_name :: "string option"
  bt_base_image :: "string option"
  bt_extra_pip :: "string list option"
  bt_extra_apt :: "string list option"

definition default_base :: string where "default_base = ''python:3.12-slim''"

definition builder_cfg_of :: "builder_toml \<Rightarrow> builder_cfg" where
  "builder_cfg_of t = \<lparr>bc_name = or_default (bt_name t) [], bc_base_image = or_default (bt_base_image t) default_base,
     bc_extra_pip = or_default (bt_extra_pip t) [], bc_extra_apt = or_default (bt_extra_apt t) []\<rparr>"

text \<open>
  \<open>docker\<close> runs one command; a build also gets its context, the files of the temporary directory.
  The outcome is a failure to start it, or whether it succeeded.
\<close>

record 's builder_host =
  parse_toml :: "string \<Rightarrow> builder_toml option"
  docker :: "string list \<Rightarrow> (string \<times> bytes) list \<Rightarrow> 's \<Rightarrow> (string + bool) \<times> 's"
  exit_text :: "'s \<Rightarrow> string"

section \<open>The Dockerfile\<close>

definition image_tag :: "string \<Rightarrow> string" where
  "image_tag nm = ''inspect-tpl-tools-'' @ nm @ '':latest''"

definition apt_floor :: "string list" where
  "apt_floor = [''ca-certificates'', ''tini'', ''bash'', ''ripgrep'', ''fd-find'', ''coreutils'', ''findutils'']"

definition NL :: string where "NL = [CHR 0x0A]"

definition pip_index :: "env \<Rightarrow> string" where
  "pip_index env = or_default (env ''PIP_INDEX_URL'') ''https://mirrors.ivolces.com/pypi/simple/''"

definition pip_trusted :: "env \<Rightarrow> string" where
  "pip_trusted env = or_default (env ''PIP_TRUSTED_HOST'') ''mirrors.ivolces.com''"

definition npm_registry :: "env \<Rightarrow> string" where
  "npm_registry env = or_default (env ''NPM_REGISTRY_URL'') (''https://'' @ pip_trusted env @ ''/npm/'')"

definition pip_install_line :: "env \<Rightarrow> builder_cfg \<Rightarrow> string" where
  "pip_install_line env cfg =
     (if bc_extra_pip cfg = [] then []
      else ''RUN pip install --no-cache-dir --index-url '' @ pip_index env @ '' --trusted-host '' @ pip_trusted env
           @ '' '' @ join '' '' (bc_extra_pip cfg) @ NL)"

definition dockerfile_text :: "env \<Rightarrow> builder_cfg \<Rightarrow> string" where
  "dockerfile_text env cfg =
     ''FROM '' @ bc_base_image cfg @ NL
     @ ''ENV DEBIAN_FRONTEND=noninteractive'' @ NL
     @ ''RUN apt-get update && apt-get install -y --no-install-recommends ''
       @ join '' '' (apt_floor @ bc_extra_apt cfg) @ '' '' @ [CHR 0x5C] @ NL
     @ ''    && rm -rf /var/lib/apt/lists/* '' @ [CHR 0x5C] @ NL
     @ ''    && ln -sf /usr/bin/fdfind /usr/local/bin/fd 2>/dev/null || true'' @ NL
     @ ''ENV PIP_INDEX_URL=\"'' @ pip_index env @ ''\" PIP_TRUSTED_HOST=\"'' @ pip_trusted env
       @ ''\" UV_INDEX_URL=\"'' @ pip_index env @ ''\" UV_INDEX_STRATEGY=\"unsafe-best-match\" npm_config_registry=\"''
       @ npm_registry env @ ''\" BUN_CONFIG_REGISTRY=\"'' @ npm_registry env @ ''\"'' @ NL
     @ pip_install_line env cfg @ ''COPY tools-rust /usr/local/bin/tools-rust'' @ NL
     @ ''RUN mkdir -p /sandboxes'' @ NL
     @ ''ENV TOOLS_PORT=8002 TOOLS_SANDBOX_ROOT=/sandboxes RUST_LOG=info'' @ NL
     @ ''EXPOSE 8002'' @ NL
     @ ''ENTRYPOINT [\"/usr/bin/tini\", \"--\", \"/usr/local/bin/tools-rust\"]'' @ NL"

section \<open>Building and pushing\<close>

text \<open>\<open>fs::read_to_string\<close>: the bytes must be UTF-8.\<close>

definition read_to_string :: "fs \<Rightarrow> path \<Rightarrow> string \<Rightarrow> string + string" where
  "read_to_string fs p ctxt =
     (case fs_read fs p of Inl _ \<Rightarrow> Inl ctxt | Inr b \<Rightarrow> if valid_utf8 b then Inr (of_bytes b) else Inl ctxt)"

definition build_tools :: "'s builder_host \<Rightarrow> env \<Rightarrow> fs \<Rightarrow> path \<Rightarrow> path \<Rightarrow> string \<Rightarrow> builder_cfg
    \<Rightarrow> 's \<Rightarrow> (string + unit) \<times> 's" where
  "build_tools h env fs base_dir tpl_dir nm cfg s =
     (let bin = path_join base_dir ''tools-rust/target/release/tools-rust'';
          custom = path_join tpl_dir ''Dockerfile'' in
      if \<not> fs_exists fs bin then
        (Inl (''missing tools-rust binary at '' @ path_str bin @ ''; run `cargo build --release` in tools-rust/ first''), s)
      else case fs_read fs bin of
        Inl _ \<Rightarrow> (Inl ''copy tools-rust binary'', s)
      | Inr exe \<Rightarrow>
          (case (if fs_exists fs custom then read_to_string fs custom ''read custom Dockerfile''
                 else Inr (dockerfile_text env cfg)) of
             Inl e \<Rightarrow> (Inl e, s)
           | Inr df \<Rightarrow>
               (case docker h [''build'', ''-t'', image_tag nm] [(''tools-rust'', exe), (''Dockerfile'', as_bytes df)] s of
                  (Inl e, s1) \<Rightarrow> (Inl ''spawn docker build'', s1)
                | (Inr ok, s1) \<Rightarrow>
                    if ok then (Inr (), s1) else (Inl (''docker build failed (exit '' @ exit_text h s1 @ '')''), s1))))"

definition build :: "'s builder_host \<Rightarrow> env \<Rightarrow> fs \<Rightarrow> path \<Rightarrow> string \<Rightarrow> 's \<Rightarrow> (string + unit) \<times> 's" where
  "build h env fs base_dir nm s =
     (let tpl_dir = path_join (path_join base_dir ''templates'') nm; toml = path_join tpl_dir ''template.toml'' in
      if \<not> fs_exists fs toml then (Inl (''missing '' @ path_str toml), s)
      else case read_to_string fs toml (''read '' @ path_str toml) of
        Inl e \<Rightarrow> (Inl e, s)
      | Inr txt \<Rightarrow>
          (case parse_toml h txt of
             None \<Rightarrow> (Inl (''parse '' @ path_str toml), s)
           | Some t \<Rightarrow> build_tools h env fs base_dir tpl_dir nm (builder_cfg_of t) s))"

definition push_to_registry :: "'s builder_host \<Rightarrow> env \<Rightarrow> string \<Rightarrow> string \<Rightarrow> 's \<Rightarrow> (string + unit) \<times> 's" where
  "push_to_registry h env nm tag s =
     (case (env ''REGISTRY_HOST'', env ''REGISTRY_NAMESPACE'') of
        (None, _) \<Rightarrow> (Inl ''--push requires REGISTRY_HOST env var'', s)
      | (Some host, None) \<Rightarrow> (Inl ''--push requires REGISTRY_NAMESPACE env var'', s)
      | (Some host, Some ns) \<Rightarrow>
          let remote = host @ ''/'' @ ns @ ''/inspect-tpl-tools-'' @ nm @ '':'' @ tag in
          (case docker h [''tag'', image_tag nm, remote] [] s of
             (Inl _, s1) \<Rightarrow> (Inl ''spawn docker tag'', s1)
           | (Inr False, s1) \<Rightarrow> (Inl ''docker tag failed'', s1)
           | (Inr True, s1) \<Rightarrow>
               (case docker h [''push'', remote] [] s1 of
                  (Inl _, s2) \<Rightarrow> (Inl ''spawn docker push'', s2)
                | (Inr False, s2) \<Rightarrow>
                    (Inl (''docker push failed; did you `docker login '' @ host
                          @ ''` ? (REGISTRY_USER / REGISTRY_PASSWORD)''), s2)
                | (Inr True, s2) \<Rightarrow> (Inr (), s2))))"

fun build_all :: "'s builder_host \<Rightarrow> env \<Rightarrow> fs \<Rightarrow> path \<Rightarrow> string option \<Rightarrow> string list \<Rightarrow> 's \<Rightarrow> (string + unit) \<times> 's" where
  "build_all h env fs base_dir push [] s = (Inr (), s)"
| "build_all h env fs base_dir push (nm # ns) s =
     io_try (build h env fs base_dir nm) (\<lambda>_.
     io_try (case push of None \<Rightarrow> io_lift (Inr ()) | Some tag \<Rightarrow> push_to_registry h env nm tag)
       (\<lambda>_. build_all h env fs base_dir push ns)) s"

text \<open>The command line: the names, an optional \<open>--root\<close>, and the tag when \<open>--push\<close> is given.\<close>

definition builder_main :: "'s builder_host \<Rightarrow> env \<Rightarrow> fs \<Rightarrow> string option \<Rightarrow> string option \<Rightarrow> string list
    \<Rightarrow> 's \<Rightarrow> (string + unit) \<times> 's" where
  "builder_main h env fs root_arg push names s =
     (if names = [] then (Inl ''no template names provided (try: template-build default)'', s)
      else build_all h env fs (components (or_default root_arg ''/opt/inspect-api'')) push names s)"

end
