(* ===== verification/Tools_Wire.thy ===== *)
theory Tools_Wire
  imports "HOL-Library.Monad_Syntax" Tools_Daemon Tools_Search Http_Model
begin

text \<open>
  The wire of the tools daemon: the JSON bodies of its requests and answers (the structs of
  \<open>tools-rust/src/main.rs\<close> and \<open>process.rs\<close> with their serde attributes) and its routes.
\<close>

section \<open>Requests\<close>

record read_req =
  rd_path :: string
  rd_offset :: "nat option"
  rd_limit :: "nat option"

definition read_req_of_json :: "json \<Rightarrow> read_req option" where
  "read_req_of_json j = do {
     fs \<leftarrow> as_struct [''path'', ''offset'', ''limit''] j;
     p \<leftarrow> field ''path'' j_str fs;
     off \<leftarrow> field_opt ''offset'' j_usize fs;
     lm \<leftarrow> field_opt ''limit'' j_usize fs;
     Some \<lparr>rd_path = p, rd_offset = off, rd_limit = lm\<rparr> }"

definition write_req_of_json :: "json \<Rightarrow> (string \<times> string) option" where
  "write_req_of_json j = do {
     fs \<leftarrow> as_struct [''path'', ''content''] j;
     p \<leftarrow> field ''path'' j_str fs;
     c \<leftarrow> field ''content'' j_str fs;
     Some (p, c) }"

text \<open>The command, under either name, and the timeout in seconds.\<close>

definition default_bash_timeout :: nat where
  "default_bash_timeout = 30"

definition bash_req_of_json :: "json \<Rightarrow> (string \<times> nat) option" where
  "bash_req_of_json j = do {
     fs \<leftarrow> as_struct [''command'', ''timeout''] (with_alias ''cmd'' ''command'' j);
     c \<leftarrow> field ''command'' j_str fs;
     t \<leftarrow> field_or default_bash_timeout ''timeout'' j_usize fs;
     Some (c, t) }"

definition edit_replacement_of_json :: "json \<Rightarrow> edit_replacement option" where
  "edit_replacement_of_json j = do {
     fs \<leftarrow> as_struct [''oldText'', ''newText''] j;
     a \<leftarrow> field ''oldText'' j_str fs;
     b \<leftarrow> field ''newText'' j_str fs;
     Some \<lparr>old_text = a, new_text = b\<rparr> }"

definition edit_req_of_json :: "json \<Rightarrow> edit_req option" where
  "edit_req_of_json j = do {
     fs \<leftarrow> as_struct [''path'', ''edits'', ''old_string'', ''new_string'', ''replace_all''] j;
     p \<leftarrow> field ''path'' j_str fs;
     es \<leftarrow> field_or [] ''edits'' (j_list edit_replacement_of_json) fs;
     a \<leftarrow> field_opt ''old_string'' j_str fs;
     b \<leftarrow> field_opt ''new_string'' j_str fs;
     r \<leftarrow> field_or False ''replace_all'' j_bool fs;
     Some \<lparr>edit_path = p, edits = es, old_string = a, new_string = b, replace_all = r\<rparr> }"

definition ls_req_of_json :: "json \<Rightarrow> (string \<times> nat option) option" where
  "ls_req_of_json j = do {
     fs \<leftarrow> as_struct [''path'', ''limit''] j;
     p \<leftarrow> field_or ''.'' ''path'' j_str fs;
     lm \<leftarrow> field_opt ''limit'' j_usize fs;
     Some (p, lm) }"

definition grep_req_of_json :: "json \<Rightarrow> grep_req option" where
  "grep_req_of_json j = do {
     fs \<leftarrow> as_struct [''pattern'', ''path'', ''glob'', ''ignoreCase'', ''literal'', ''context'', ''limit'',
             ''output_mode'', ''max_files''] j;
     pat \<leftarrow> field ''pattern'' j_str fs;
     p \<leftarrow> field_or ''.'' ''path'' j_str fs;
     g \<leftarrow> field_opt ''glob'' j_str fs;
     ic \<leftarrow> field_or False ''ignoreCase'' j_bool fs;
     lit \<leftarrow> field_or False ''literal'' j_bool fs;
     cx \<leftarrow> field_or 0 ''context'' j_usize fs;
     lm \<leftarrow> field_or 100 ''limit'' j_usize fs;
     md \<leftarrow> field_or ''content'' ''output_mode'' j_str fs;
     mf \<leftarrow> field_or 5000 ''max_files'' j_usize fs;
     Some \<lparr>gr_pattern = pat, gr_path = p, gr_glob = g, gr_ignore_case = ic, gr_literal = lit, gr_context = cx,
       gr_limit = lm, gr_output_mode = md, gr_max_files = mf\<rparr> }"

definition find_req_of_json :: "json \<Rightarrow> (string \<times> string \<times> nat) option" where
  "find_req_of_json j = do {
     fs \<leftarrow> as_struct [''pattern'', ''path'', ''limit''] (with_alias ''max_results'' ''limit'' j);
     pat \<leftarrow> field ''pattern'' j_str fs;
     p \<leftarrow> field_or ''.'' ''path'' j_str fs;
     lm \<leftarrow> field_or 1000 ''limit'' j_usize fs;
     Some (pat, p, lm) }"

text \<open>A number as \<open>f64\<close>, here without rounding.\<close>

fun j_rat :: "json \<Rightarrow> rat option" where
  "j_rat (JNum i) = Some (of_int i)"
| "j_rat (JDec m e) = Some (of_int m * (if 0 \<le> e then 10 ^ nat e else 1 / 10 ^ nat (- e)))"
| "j_rat _ = None"

definition action_names :: "(string \<times> process_action) list" where
  "action_names = [(''start'', Start), (''write'', Write), (''read'', Read), (''signal'', Signal), (''wait'', Wait),
     (''stop'', Stop), (''list'', List)]"

definition encoding_names :: "(string \<times> process_encoding) list" where
  "encoding_names = [(''utf-8'', Utf8), (''base64'', Base64)]"

definition process_req_of_json :: "json \<Rightarrow> process_req option" where
  "process_req_of_json j = do {
     fs \<leftarrow> as_struct [''action'', ''process_id'', ''command'', ''args'', ''cwd'', ''env'', ''input'', ''encoding'',
             ''eof'', ''signal'', ''timeout_sec'', ''max_bytes''] j;
     act \<leftarrow> field ''action'' (j_variant action_names) fs;
     pr \<leftarrow> field_opt ''process_id'' j_str fs;
     cmd \<leftarrow> field_opt ''command'' j_str fs;
     args \<leftarrow> field_opt ''args'' (j_list j_str) fs;
     cwd \<leftarrow> field_opt ''cwd'' j_str fs;
     envs \<leftarrow> field_opt ''env'' (j_entries j_str) fs;
     inp \<leftarrow> field_opt ''input'' j_str fs;
     enc \<leftarrow> field_or Utf8 ''encoding'' (j_variant encoding_names) fs;
     eof \<leftarrow> field_or False ''eof'' j_bool fs;
     sig \<leftarrow> field_opt ''signal'' j_str fs;
     tmo \<leftarrow> field_opt ''timeout_sec'' j_rat fs;
     mx \<leftarrow> field_opt ''max_bytes'' j_usize fs;
     Some \<lparr>rq_action = act, rq_process_id = pr, rq_command = cmd, rq_args = args, rq_cwd = cwd, rq_env = envs,
       rq_input = inp, rq_encoding = enc, rq_eof = eof, rq_signal = sig, rq_timeout_sec = tmo, rq_max_bytes = mx\<rparr> }"

section \<open>Answers\<close>

definition create_session_json :: "create_session_resp \<Rightarrow> json" where
  "create_session_json r = JObj [(''session_id'', JStr (cr_session_id r)), (''cwd'', JStr (cr_cwd r))]"

definition read_json :: "string \<times> nat \<Rightarrow> json" where
  "read_json r = JObj [(''content'', JStr (fst r)), (''bytes'', JNum (int (snd r)))]"

definition write_json :: "nat \<Rightarrow> json" where
  "write_json n = JObj [(''bytes'', JNum (int n))]"

definition bash_json :: "bash_resp \<Rightarrow> json" where
  "bash_json r = JObj [(''stdout'', JStr (br_stdout r)), (''stderr'', JStr (br_stderr r)),
     (''exit_code'', JNum (br_exit_code r)), (''timed_out'', JBool (br_timed_out r))]"

definition edit_json :: "nat \<Rightarrow> json" where
  "edit_json n = JObj [(''replacements'', JNum (int n))]"

definition ls_json :: "ls_entry list \<Rightarrow> json" where
  "ls_json es = JObj [(''entries'', JArr (map (\<lambda>e. JObj
     [(''name'', JStr (ls_name e)), (''kind'', JStr (ls_kind e)), (''size'', JNum (int (ls_size e)))]) es))]"

definition grep_json :: "string \<Rightarrow> ripgrep_result \<Rightarrow> json" where
  "grep_json mode r = JObj
     [(''mode'', JStr mode),
      (''matches'', JArr (map (\<lambda>m. JObj
         [(''path'', JStr (gm_path m)), (''line'', JNum (int (gm_line m))), (''text'', JStr (gm_text m))]) (rr_matches r))),
      (''files'', JArr (map JStr (rr_files r))),
      (''counts'', JArr (map (\<lambda>(p, n). JArr [JStr p, JNum (int n)]) (rr_counts r))),
      (''walked'', JNum (int (rr_walked r))), (''truncated'', JBool (rr_truncated r))]"

definition find_json :: "find_resp \<Rightarrow> json" where
  "find_json r = JObj [(''paths'', JArr (map JStr (fd_paths r))), (''walked'', JNum (int (fd_walked r))),
     (''truncated'', JBool (fd_truncated r))]"

fun encoding_name :: "process_encoding \<Rightarrow> string" where
  "encoding_name Utf8 = ''utf-8''"
| "encoding_name Base64 = ''base64''"

text \<open>Members that are \<open>None\<close> are left out.\<close>

definition present :: "(string \<times> json option) list \<Rightarrow> json" where
  "present fs = JObj (List.map_filter (\<lambda>(k, v). map_option (Pair k) v) fs)"

definition summary_json :: "process_summary \<Rightarrow> json" where
  "summary_json p = present
     [(''process_id'', Some (JStr (ps_process_id p))), (''command'', Some (JStr (ps_command p))),
      (''running'', Some (JBool (ps_running p))), (''exit_code'', map_option JNum (ps_exit_code p)),
      (''started_at_secs_ago'', Some (JNum (int (ps_started_at_secs_ago p))))]"

definition process_json :: "process_result \<Rightarrow> json" where
  "process_json r = present
     [(''process_id'', map_option JStr (rs_process_id r)), (''running'', map_option JBool (rs_running r)),
      (''exit_code'', map_option JNum (rs_exit_code r)), (''signal'', map_option JNum (rs_signal r)),
      (''stdout'', map_option JStr (rs_stdout r)), (''stderr'', map_option JStr (rs_stderr r)),
      (''encoding'', map_option (JStr \<circ> encoding_name) (rs_encoding r)),
      (''eof_stdout'', map_option JBool (rs_eof_stdout r)), (''eof_stderr'', map_option JBool (rs_eof_stderr r)),
      (''truncated'', map_option JBool (rs_truncated r)),
      (''processes'', map_option (JArr \<circ> map summary_json) (rs_processes r))]"

section \<open>Routes\<close>

text \<open>
  What the daemon calls besides its own code: the operating system, the search crates, the writer
  and the parser of JSON, fresh ids; \<open>tc_reject\<close> is the answer of the framework when the body of a request is not
  JSON (\<open>None\<close>) or not of the expected shape.
\<close>

record tools_crates =
  tc_os :: os
  tc_il :: interlude
  tc_regex :: regex_crate
  tc_glob :: glob_crate
  tc_walker :: "fs \<Rightarrow> path \<Rightarrow> (path \<times> bool) list"
  tc_dir_size :: nat
  tc_uuid :: "world \<Rightarrow> string"
  tc_json :: "json \<Rightarrow> bytes"
  tc_parse :: "bytes \<Rightarrow> json option"
  tc_reject :: "json option \<Rightarrow> response"

datatype tools_request =
    THealth | TCreate | TDelete string | TTool string string "json option"

definition json_ok :: "tools_crates \<Rightarrow> json \<Rightarrow> response" where
  "json_ok tc v = \<lparr>rs_status = OK_S, rs_type = Some ''application/json'', rs_body = tc_json tc v\<rparr>"

definition answer :: "('a \<Rightarrow> response) \<Rightarrow> 'a result \<Rightarrow> response" where
  "answer enc r = into_response (rtry r (\<lambda>x. Inr (enc x)))"

text \<open>The \<open>Json\<close> extractor: a body that does not decode is refused before the handler runs.\<close>

definition with_body :: "tools_crates \<Rightarrow> (json \<Rightarrow> 'a option) \<Rightarrow> json option \<Rightarrow> ('a \<Rightarrow> world \<Rightarrow> response \<times> world)
    \<Rightarrow> world \<Rightarrow> response \<times> world" where
  "with_body tc dec body f w =
     (case Option.bind body dec of None \<Rightarrow> (tc_reject tc body, w) | Some x \<Rightarrow> f x w)"

definition not_routed :: response where
  "not_routed = \<lparr>rs_status = NOT_FOUND, rs_type = None, rs_body = []\<rparr>"

definition tool_route :: "tools_crates \<Rightarrow> string \<Rightarrow> string \<Rightarrow> json option \<Rightarrow> world \<Rightarrow> response \<times> world" where
  "tool_route tc sid tool body =
     (if tool = ''read'' then
        with_body tc read_req_of_json body (\<lambda>q w.
          (answer (json_ok tc \<circ> read_json) (tool_read sid (rd_path q) (rd_offset q) (rd_limit q) w), w))
      else if tool = ''write'' then
        with_body tc write_req_of_json body (\<lambda>(p, c) w.
          apfst (answer (json_ok tc \<circ> write_json)) (tool_write sid p c w))
      else if tool = ''edit'' then
        with_body tc edit_req_of_json body (\<lambda>q w. apfst (answer (json_ok tc \<circ> edit_json)) (tool_edit sid q w))
      else if tool = ''ls'' then
        with_body tc ls_req_of_json body (\<lambda>(p, lm) w.
          (answer (json_ok tc \<circ> ls_json) (tool_ls (tc_dir_size tc) sid p lm w), w))
      else if tool = ''grep'' then
        with_body tc grep_req_of_json body (\<lambda>q w.
          (answer (json_ok tc \<circ> grep_json (gr_output_mode q))
             (tool_grep (tc_regex tc) (tc_glob tc) (tc_walker tc) sid q w), w))
      else if tool = ''find'' then
        with_body tc find_req_of_json body (\<lambda>(pat, p, lm) w.
          (answer (json_ok tc \<circ> find_json) (tool_find (tc_glob tc) (tc_walker tc) sid pat p lm w), w))
      else if tool = ''bash'' then
        with_body tc bash_req_of_json body (\<lambda>(c, t) w.
          apfst (answer (json_ok tc \<circ> bash_json)) (tool_bash (tc_os tc) (tc_il tc) sid c t w))
      else if tool = ''process'' then
        with_body tc process_req_of_json body (\<lambda>q w.
          apfst (answer (json_ok tc \<circ> process_json)) (tool_process (tc_os tc) (tc_il tc) (tc_uuid tc w) sid q w))
      else Pair not_routed)"

fun tools_handle :: "tools_crates \<Rightarrow> tools_request \<Rightarrow> world \<Rightarrow> response \<times> world" where
  "tools_handle tc THealth w = (json_ok tc (JObj [(''ok'', JBool True)]), w)"
| "tools_handle tc TCreate w =
     apfst (answer (json_ok tc \<circ> create_session_json)) (create_session (tc_os tc) (tc_uuid tc w) w)"
| "tools_handle tc (TDelete sid) w = apfst (answer bare_status) (delete_session (tc_os tc) (tc_il tc) sid w)"
| "tools_handle tc (TTool sid tool body) w = tool_route tc sid tool body w"

text \<open>
  The router on raw requests. The framework refuses the body of a tool call above two mebibytes.
  A path segment is taken as it is: the ids the daemon makes contain nothing to unescape.
\<close>

definition body_limit :: nat where
  "body_limit = 2 * 1024 * 1024"

definition json_body :: "tools_crates \<Rightarrow> bytes \<Rightarrow> json option" where
  "json_body tc bs = (if length bs \<le> body_limit then tc_parse tc bs else None)"

definition tool_names :: "string list" where
  "tool_names = [''read'', ''write'', ''edit'', ''ls'', ''grep'', ''find'', ''bash'', ''process'']"

definition build_router :: "tools_crates \<Rightarrow> http_method \<Rightarrow> string \<Rightarrow> bytes \<Rightarrow> world \<Rightarrow> response \<times> world" where
  "build_router tc m p bs w =
     (let on = (\<lambda>m' q. if m = m' then tools_handle tc q w else (bare_status 405, w)) in
      case split_slash p of
        [[], s] \<Rightarrow> if s = ''health'' then on HGET THealth
                   else if s = ''sessions'' then on HPOST TCreate
                   else (not_routed, w)
      | [[], s, sid] \<Rightarrow> if s = ''sessions'' \<and> sid \<noteq> [] then on HDELETE (TDelete sid) else (not_routed, w)
      | [[], s, sid, t, tool] \<Rightarrow>
          if s = ''sessions'' \<and> sid \<noteq> [] \<and> t = ''tools'' \<and> tool \<in> set tool_names
          then on HPOST (TTool sid tool (json_body tc bs)) else (not_routed, w)
      | _ \<Rightarrow> (not_routed, w))"

lemma tools_path_segments:
  assumes "CHR ''/'' \<notin> set sid" "CHR ''/'' \<notin> set tool"
  shows "split_slash (''/sessions/'' @ sid @ ''/tools/'' @ tool) = [[], ''sessions'', sid, ''tools'', tool]"
  using split_slash_cons [of "[]" "''sessions/'' @ sid @ ''/tools/'' @ tool"]
    split_slash_cons [of "''sessions''" "sid @ ''/tools/'' @ tool"] split_slash_cons [OF assms(1), of "''tools/'' @ tool"]
    split_slash_cons [of "''tools''" tool] split_slash_one [OF assms(2)]
  by simp

lemma tool_names_segment: "t \<in> set tool_names \<Longrightarrow> CHR ''/'' \<notin> set t"
  by (auto simp: tool_names_def)

lemma route_tool:
  assumes "sid \<noteq> []" "CHR ''/'' \<notin> set sid" "tool \<in> set tool_names"
  shows "build_router tc HPOST (''/sessions/'' @ sid @ ''/tools/'' @ tool) bs w = tool_route tc sid tool (json_body tc bs) w"
  using assms tools_path_segments [OF assms(2) tool_names_segment [OF assms(3)]] by (simp add: build_router_def)

end
