(* ===== verification/Wire_Props.thy ===== *)
theory Wire_Props
  imports Tools_Wire Daemon_Props
begin

text \<open>
  The type of the daemon's answers: every handler refuses with an error status, and what the
  router answers is JSON, an empty 204 or an error.
\<close>

section \<open>Error statuses\<close>

definition error_status :: "nat \<Rightarrow> bool" where
  "error_status s \<longleftrightarrow> 400 \<le> s \<and> s < 600"

text \<open>A result that is a value or an error with such a status.\<close>

definition refuses :: "'a result \<Rightarrow> bool" where
  "refuses r \<longleftrightarrow> (\<forall>e. r = Inl e \<longrightarrow> error_status (fst e))"

named_theorems refusal_rules \<open>results whose errors have an error status\<close>

lemma refuses_Inr [refusal_rules]: "refuses (Inr x)"
  by (simp add: refuses_def)

lemma refuses_Inl: "refuses (Inl e) \<longleftrightarrow> error_status (fst e)"
  by (simp add: refuses_def)

lemma refuses_status [refusal_rules]:
  "refuses (Inl (BAD_REQUEST, m))" "refuses (Inl (NOT_FOUND, m))" "refuses (Inl (INTERNAL_SERVER_ERROR, m))"
  "refuses (Inl (TOO_MANY_REQUESTS, m))" "refuses (Inl (NOT_IMPLEMENTED, m))"
  by (simp_all add: refuses_def error_status_def)

lemma refuses_rtry [refusal_rules]: "refuses r \<Longrightarrow> (\<And>x. refuses (f x)) \<Longrightarrow> refuses (rtry r f)"
  by (cases r) (auto simp: refuses_def)

lemma refuses_ok_or [refusal_rules]: "refuses (Inl e :: 'a result) \<Longrightarrow> refuses (ok_or e v :: 'a result)"
  by (cases v) (auto simp: refuses_def)

lemma refuses_map_err [refusal_rules]: "(\<And>d. refuses (Inl (f d) :: 'a result)) \<Longrightarrow> refuses (map_err f r :: 'a result)"
  by (cases r) (auto simp: refuses_def)

lemma refuses_if [refusal_rules]: "refuses x \<Longrightarrow> refuses y \<Longrightarrow> refuses (if b then x else y)"
  by simp

lemma refuses_option [refusal_rules]:
  "refuses x \<Longrightarrow> (\<And>y. refuses (f y)) \<Longrightarrow> refuses (case v of None \<Rightarrow> x | Some y \<Rightarrow> f y)"
  by (cases v) simp_all

lemma refuses_prod [refusal_rules]: "(\<And>a b. refuses (f a b)) \<Longrightarrow> refuses (case p of (a, b) \<Rightarrow> f a b)"
  by (cases p) simp

section \<open>The handlers\<close>

lemma refuses_session_cwd [refusal_rules]: "refuses (session_cwd w sid)"
  unfolding session_cwd_def resolve_session_def by (intro refusal_rules)

lemma refuses_resolve_in [refusal_rules]: "refuses (resolve_in cwd rel)"
  unfolding resolve_in_def Let_def by (intro refusal_rules)

lemma refuses_slice_lines [refusal_rules]: "refuses (slice_lines content off lm)"
  unfolding slice_lines_def Let_def by (intro refusal_rules)

lemma refuses_collect_ranges [refusal_rules]: "refuses (collect_ranges src path es)"
  by (induction es) (auto simp: Let_def intro!: refusal_rules)

lemma refuses_apply_edit_req [refusal_rules]: "refuses (apply_edit_req src path q)"
  unfolding apply_edit_req_def apply_legacy_def Let_def by (intro refusal_rules)

lemma refuses_cstring [refusal_rules]: "refuses (cstring s)"
  unfolding cstring_def by (intro refusal_rules)

lemma refuses_build_sandboxed_command [refusal_rules]: "refuses (build_sandboxed_command st sid cwd prog args)"
  unfolding build_sandboxed_command_def Let_def by (intro refusal_rules)

lemma refuses_start_command [refusal_rules]: "refuses (start_command st sid cwd cmd q)"
  unfolding start_command_def Let_def by (intro refusal_rules)

lemma refuses_run_ripgrep_search [refusal_rules]: "refuses (run_ripgrep_search rx gl fs cwd ents q)"
  unfolding run_ripgrep_search_def by (intro refusal_rules)

lemma refuses_find_process [refusal_rules]: "refuses (find_process verb s q w)"
  unfolding find_process_def by (intro refusal_rules)

lemma refuses_decode_input [refusal_rules]: "refuses (decode_input os q)"
  by (auto simp: decode_input_def intro!: refusal_rules split: option.split process_encoding.split)

lemma refuses_tool_read [refusal_rules]: "refuses (tool_read sid rel off lm w)"
  unfolding tool_read_def Let_def by (intro refusal_rules)

lemma refuses_tool_ls [refusal_rules]: "refuses (tool_ls dsize sid rel lm w)"
  unfolding tool_ls_def Let_def by (intro refusal_rules)

lemma refuses_tool_grep [refusal_rules]: "refuses (tool_grep rx gl walker sid q w)"
  unfolding tool_grep_def Let_def by (intro refusal_rules)

lemma refuses_tool_find [refusal_rules]: "refuses (tool_find gl walker sid pat rel lm w)"
  unfolding tool_find_def by (intro refusal_rules)

text \<open>The same for handlers that also change the world.\<close>

lemma refuses_fst_pair [refusal_rules]: "refuses (x :: 'a result) \<Longrightarrow> refuses (fst (x, w))"
  by simp

lemma refuses_fst_prod [refusal_rules]:
  "(\<And>a b. refuses (fst (f a b))) \<Longrightarrow> refuses (fst (case p of (a, b) \<Rightarrow> f a b))"
  by (cases p) simp

lemma refuses_fst_prod_app [refusal_rules]:
  "(\<And>a b. refuses (fst (f a b x))) \<Longrightarrow> refuses (fst ((case p of (a, b) \<Rightarrow> f a b) x))"
  by (cases p) simp

lemma refuses_fst_if [refusal_rules]: "refuses (fst x) \<Longrightarrow> refuses (fst y) \<Longrightarrow> refuses (fst (if b then x else y))"
  by simp

lemma refuses_fst_option [refusal_rules]:
  "refuses (fst x) \<Longrightarrow> (\<And>y. refuses (fst (f y))) \<Longrightarrow> refuses (fst (case v of None \<Rightarrow> x | Some y \<Rightarrow> f y))"
  by (cases v) simp_all

lemma refuses_describe_state [refusal_rules]: "refuses (fst (describe_state il pr a w))"
  by (simp add: describe_state_def Let_def refuses_Inr split: prod.split)

lemma refuses_fst_sum [refusal_rules]:
  "refuses (r :: 'c result) \<Longrightarrow> (\<And>e. refuses (Inl e :: 'a result) \<Longrightarrow> refuses (fst (f e) :: 'a result)) \<Longrightarrow>
   (\<And>x. refuses (fst (g x) :: 'a result)) \<Longrightarrow> refuses (fst (case r of Inl e \<Rightarrow> f e | Inr x \<Rightarrow> g x) :: 'a result)"
  by (cases r) (auto simp: refuses_def)

lemma refuses_fst_string:
  "(\<And>e. refuses (fst (f e))) \<Longrightarrow> (\<And>x. refuses (fst (g x))) \<Longrightarrow> refuses (fst (case r of Inl e \<Rightarrow> f e | Inr x \<Rightarrow> g x))"
  by (cases r) auto

lemma refuses_tool_write [refusal_rules]: "refuses (fst (tool_write sid rel content w))"
  unfolding tool_write_def Let_def by (intro refusal_rules | assumption | rule refuses_fst_string)+

lemma refuses_tool_edit [refusal_rules]: "refuses (fst (tool_edit sid q w))"
  unfolding tool_edit_def by (intro refusal_rules | assumption)+

lemma refuses_tool_bash [refusal_rules]: "refuses (fst (tool_bash os il sid cmd t w))"
  unfolding tool_bash_def Let_def by (intro refusal_rules | assumption | rule refuses_fst_string)+

lemma refuses_action_start [refusal_rules]: "refuses (fst (action_start os u sid s q w))"
  unfolding action_start_def Let_def by (intro refusal_rules | assumption | rule refuses_fst_string)+

lemma refuses_action_read [refusal_rules]: "refuses (fst (action_read os il s q w))"
  unfolding action_read_def Let_def by (intro refusal_rules | assumption)+

lemma refuses_action_wait [refusal_rules]: "refuses (fst (action_wait il s q w))"
  unfolding action_wait_def Let_def by (intro refusal_rules | assumption)+

lemma refuses_action_write [refusal_rules]: "refuses (fst (action_write os il s q w))"
  unfolding action_write_def Let_def by (intro refusal_rules | assumption)+

lemma refuses_action_signal [refusal_rules]: "refuses (fst (action_signal os il s q w))"
  unfolding action_signal_def Let_def by (intro refusal_rules | assumption | rule refuses_fst_string)+

lemma refuses_action_stop [refusal_rules]: "refuses (fst (action_stop os il s q w))"
  unfolding action_stop_def Let_def by (intro refusal_rules | assumption)+

lemma refuses_tool_process [refusal_rules]: "refuses (fst (tool_process os il u sid q w))"
  unfolding tool_process_def process_action_of_def resolve_session_def Let_def
  by (cases "rq_action q"; simp only: process_action.case) (intro refusal_rules | assumption)+

lemma refuses_create_session [refusal_rules]: "refuses (fst (create_session os u w))"
  unfolding create_session_def Let_def by (intro refusal_rules | assumption | rule refuses_fst_string)+

lemma refuses_delete_session [refusal_rules]: "refuses (fst (delete_session os il sid w))"
  unfolding delete_session_def by (intro refusal_rules | assumption)+

section \<open>The router\<close>

text \<open>An answer: JSON with 200, an empty 204, or an error.\<close>

definition well_formed :: "tools_crates \<Rightarrow> response \<Rightarrow> bool" where
  "well_formed tc r \<longleftrightarrow>
     (rs_status r = OK_S \<and> rs_type r = Some ''application/json'' \<and> (\<exists>v. rs_body r = tc_json tc v))
     \<or> (rs_status r = NO_CONTENT \<and> rs_body r = []) \<or> error_status (rs_status r)"

lemma well_formed_json: "well_formed tc (json_ok tc v)"
  by (auto simp: well_formed_def json_ok_def)

lemma well_formed_answer:
  assumes "refuses r"
  shows "well_formed tc (answer (json_ok tc \<circ> enc) r)"
proof (cases r)
  case (Inl e)
  then show ?thesis
    using assms by (simp add: refuses_def answer_def into_response_def well_formed_def error_response_def)
qed (simp add: answer_def into_response_def well_formed_json)

lemma well_formed_with_body:
  assumes "\<And>b. error_status (rs_status (tc_reject tc b))" "\<And>x w. well_formed tc (fst (f x w))"
  shows "well_formed tc (fst (with_body tc dec body f w))"
  using assms by (auto simp: with_body_def well_formed_def split: option.split)

lemma well_formed_if_app:
  "well_formed tc (fst (f w)) \<Longrightarrow> well_formed tc (fst (g w)) \<Longrightarrow> well_formed tc (fst ((if b then f else g) w))"
  by simp

lemma well_formed_apfst: "well_formed tc (g (fst x)) \<Longrightarrow> well_formed tc (fst (apfst g x))"
  by simp

lemma well_formed_pair: "well_formed tc r \<Longrightarrow> well_formed tc (fst (r, w))"
  by simp

lemma well_formed_prod:
  "(\<And>a b. well_formed tc (fst (f a b w))) \<Longrightarrow> well_formed tc (fst ((case p of (a, b) \<Rightarrow> f a b) w))"
  by (cases p) simp

lemma well_formed_not_routed: "well_formed tc not_routed"
  by (simp add: well_formed_def not_routed_def error_status_def)

lemmas well_formed_rules = well_formed_answer well_formed_with_body well_formed_if_app well_formed_apfst
  well_formed_pair well_formed_prod well_formed_not_routed

lemma delete_session_empty: "fst (delete_session os il sid w) = Inr s \<Longrightarrow> s = NO_CONTENT"
  by (auto simp: delete_session_def split: option.splits)

lemma tools_handle_well_formed:
  assumes "\<And>b. error_status (rs_status (tc_reject tc b))"
  shows "well_formed tc (fst (tools_handle tc q w))"
proof (cases q)
  case (TDelete sid)
  then show ?thesis
    using refuses_delete_session [of "tc_os tc" "tc_il tc" sid w] delete_session_empty [of "tc_os tc" "tc_il tc" sid w]
    by (cases "fst (delete_session (tc_os tc) (tc_il tc) sid w)")
      (auto simp: answer_def into_response_def well_formed_def refuses_def error_response_def bare_status_def)
next
  case (TTool sid tool b)
  have "well_formed tc (fst (tool_route tc sid tool b w))"
    unfolding tool_route_def by (intro well_formed_rules refusal_rules assms)
  then show ?thesis using TTool by simp
qed (auto intro!: well_formed_json well_formed_answer refusal_rules)

text \<open>A request is served by a handler or refused without an effect.\<close>

definition served :: "tools_crates \<Rightarrow> world \<Rightarrow> response \<times> world \<Rightarrow> bool" where
  "served tc w x \<longleftrightarrow> (\<exists>q. x = tools_handle tc q w) \<or> x = (bare_status 405, w) \<or> x = (not_routed, w)"

lemma served_base: "served tc w (tools_handle tc q w)" "served tc w (bare_status 405, w)" "served tc w (not_routed, w)"
  by (auto simp: served_def)

lemma served_if: "served tc w x \<Longrightarrow> served tc w y \<Longrightarrow> served tc w (if b then x else y)"
  by simp

lemma served_list:
  "served tc w x \<Longrightarrow> (\<And>a l. served tc w (f a l)) \<Longrightarrow> served tc w (case xs of [] \<Rightarrow> x | a # l \<Rightarrow> f a l)"
  by (cases xs) simp_all

lemma routed_served: "served tc w (build_router tc m p bs w)"
  unfolding build_router_def Let_def by (intro served_list served_if served_base)


definition wire_crates :: tools_crates where
  "wire_crates = \<lparr>tc_os = demo_os, tc_il = idle, tc_regex = (\<lambda>_ _ _. Inl []), tc_glob = (\<lambda>_. Inl []),
     tc_walker = (\<lambda>_ _. []), tc_dir_size = 0, tc_uuid = (\<lambda>_. ''u''), tc_json = (\<lambda>_. []),
     tc_parse = (\<lambda>_. None), tc_reject = (\<lambda>_. bare_status 415)\<rparr>"


end
