(* ===== verification/Deployment.thy ===== *)
theory Deployment
  imports Wire_Props Forward_Props Shim_Lifecycle
begin

text \<open>
  The three programs together: a call of the shim (\<open>e2b-shim\<close>) goes through the \<open>/v2\<close> routes of
  the controller (\<open>api-rust\<close>) to the router of the daemon (\<open>tools-rust\<close>) that holds the session.
  The state of the shim's outside world is the state of the controller, and that of the
  controller's is the world of the daemon.
\<close>

section \<open>The network\<close>

text \<open>
  The daemon answers at the URL \<open>u\<close>, and the controller at the URL \<open>url\<close>; no exchange is lost.
\<close>

definition daemon_at :: "tools_crates \<Rightarrow> world docker \<Rightarrow> string \<Rightarrow> bool" where
  "daemon_at tc dk u \<longleftrightarrow> (\<forall>m p bs w. http_forward dk m (u @ p) bs w =
     (case build_router tc m p bs w of (r, w') \<Rightarrow> (Inr (rs_status r, rs_type r, Some (rs_body r)), w')))"

definition controller_at :: "world docker \<Rightarrow> env \<Rightarrow> world forward host \<Rightarrow> string \<Rightarrow> bool" where
  "controller_at dk cenv h url \<longleftrightarrow> (\<forall>sid tool v c. CHR ''/'' \<notin> set sid \<and> tool \<in> set tool_names \<longrightarrow>
     post_json h (url @ ''/v2/sessions/'' @ sid @ ''/tools/'' @ tool) (Some v) c =
       (case v2_tool_call dk cenv sid tool (Inr (as_bytes (json_text h v))) c of
          (r, c') \<Rightarrow> (Inr (rs_status r, Some (rs_body r)), c')))"

definition deployed :: "tools_crates \<Rightarrow> world docker \<Rightarrow> env \<Rightarrow> world forward host \<Rightarrow> string \<Rightarrow> world forward shim \<Rightarrow> bool" where
  "deployed tc dk cenv h sid st \<longleftrightarrow>
     plain_id sid \<and> controller_at dk cenv h (upstream st)
     \<and> (\<exists>u. upstream_of (outside st) sid = Some u \<and> daemon_at tc dk u)
     \<and> (\<forall>b. \<not> is_success (rs_status (tc_reject tc b)))"

text \<open>Both ends read a JSON value the other end wrote as the same value.\<close>

definition understood :: "tools_crates \<Rightarrow> world forward host \<Rightarrow> json \<Rightarrow> bool" where
  "understood tc h v \<longleftrightarrow> tc_parse tc (as_bytes (json_text h v)) = Some v"

definition understood_back :: "tools_crates \<Rightarrow> world forward host \<Rightarrow> json \<Rightarrow> bool" where
  "understood_back tc h v \<longleftrightarrow> of_json_text h (tc_json tc v) = Some v"

section \<open>One call\<close>

abbreviation daemon_world :: "world forward shim \<Rightarrow> world" where
  "daemon_world st \<equiv> engine_st (registry (outside st))"

definition with_daemon_world :: "world \<Rightarrow> world forward shim \<Rightarrow> world forward shim" where
  "with_daemon_world w st =
     st\<lparr>outside := (outside st)\<lparr>registry := (registry (outside st))\<lparr>engine_st := w\<rparr>\<rparr>\<rparr>"

lemma with_daemon_world_same [simp]:
  "daemon_world (with_daemon_world w st) = w"
  "sandboxes (with_daemon_world w st) = sandboxes st" "upstream (with_daemon_world w st) = upstream st"
  "upstream_of (outside (with_daemon_world w st)) = upstream_of (outside st)"
  by (simp_all add: with_daemon_world_def upstream_of_def fun_eq_iff)

text \<open>The daemon sees the call as the request the shim meant, unless the body is too long.\<close>

lemma call_daemon:
  assumes "deployed tc dk cenv h sid st" "tool \<in> set tool_names" "tool \<noteq> ''process''"
    and "understood tc h v" "tool_route tc sid tool (Some v) (daemon_world st) = (r, w)"
    and "post_json h (tools_url st sid tool) (Some v) (outside st) = (Inr (status, body), c)"
  shows "if length (json_text h v) \<le> body_limit
    then (is_success status \<longleftrightarrow> is_success (rs_status r)) \<and> body = Some (rs_body r)
         \<and> c = outside (with_daemon_world w st)
    else \<not> is_success status"
proof -
  let ?bs = "as_bytes (json_text h v)" and ?path = "''/sessions/'' @ sid @ ''/tools/'' @ tool"
  obtain u where u: "upstream_of (outside st) sid = Some u" "daemon_at tc dk u"
    using assms(1) by (auto simp: deployed_def)
  have sid: "sid \<noteq> []" "CHR ''/'' \<notin> set sid" using assms(1) by (auto simp: deployed_def plain_id_def)
  have ctl: "controller_at dk cenv h (upstream st)" using assms(1) by (simp add: deployed_def)
  define q where "q = json_body tc ?bs"
  obtain r' w' where rw: "tool_route tc sid tool q (daemon_world st) = (r', w')" by fastforce
  have hop: "http_forward dk HPOST (u @ ?path) ?bs (daemon_world st) = (Inr (rs_status r', rs_type r', Some (rs_body r')), w')"
    using u(2) route_tool [OF sid assms(2), of tc ?bs "daemon_world st"] rw by (simp add: daemon_at_def q_def)
  have post: "(Inr (status, body) :: http_result, c) =
      (case v2_tool_call dk cenv sid tool (Inr ?bs) (outside st) of (r, c') \<Rightarrow> (Inr (rs_status r, Some (rs_body r)), c'))"
    using ctl [unfolded controller_at_def, rule_format, OF conjI, OF sid(2) assms(2), of v "outside st"] assms(6)
    unfolding tools_url_def by simp
  have limits: "body_limit \<le> 8 * 1024 * 1024" by (simp add: body_limit_def)
  show ?thesis
  proof (cases "length (json_text h v) \<le> body_limit")
    case True
    then have "q = Some v" using assms(4) by (simp add: q_def json_body_def understood_def as_bytes_def)
    then have "r' = r" "w' = w" using rw assms(5) by simp_all
    then show ?thesis
      using True post limits hop assms(3) u(1)
      by (auto simp: v2_tool_call_def forward_to_url_def to_bytes_def as_bytes_def into_response_def
          with_daemon_world_def)
  next
    case False
    then have none: "q = None" by (simp add: q_def json_body_def as_bytes_def)
    then have "r' = tc_reject tc None" using rw assms(2) by (auto simp: tool_route_def with_body_def tool_names_def)
    then have "\<not> is_success (rs_status r')" using assms(1) by (simp add: deployed_def)
    then show ?thesis
      using False post hop assms(3) u(1)
      by (auto simp: v2_tool_call_def forward_to_url_def to_bytes_def into_response_def
          error_response_def split: if_splits)
  qed
qed

lemma call_answered:
  assumes "deployed tc dk cenv h sid st" "tool \<in> set tool_names"
  shows "\<exists>status body c. post_json h (tools_url st sid tool) (Some v) (outside st) = (Inr (status, body), c)"
proof -
  have ctl: "controller_at dk cenv h (upstream st)" and sid: "CHR ''/'' \<notin> set sid"
    using assms(1) by (auto simp: deployed_def plain_id_def)
  show ?thesis
    using ctl [unfolded controller_at_def, rule_format, OF conjI, OF sid assms(2), of v "outside st"]
    unfolding tools_url_def by (simp split: prod.split)
qed

lemma forward_deployed:
  assumes "deployed tc dk cenv h sid st" "tool \<in> set tool_names" "tool \<noteq> ''process''"
    and "understood tc h v" "tool_route tc sid tool (Some v) (daemon_world st) = (r, w)"
  shows "forward_tools_tool h sid tool v st = (Inr x, st1) \<longleftrightarrow>
    length (json_text h v) \<le> body_limit \<and> is_success (rs_status r) \<and> of_json_text h (rs_body r) = Some x
    \<and> st1 = with_daemon_world w st"
proof -
  obtain status body c where post: "post_json h (tools_url st sid tool) (Some v) (outside st) = (Inr (status, body), c)"
    using call_answered [OF assms(1,2)] by blast
  have st1: "st\<lparr>outside := outside (with_daemon_world w st)\<rparr> = with_daemon_world w st"
    by (simp add: with_daemon_world_def)
  show ?thesis
    using call_daemon [OF assms post] st1 post
    by (cases "length (json_text h v) \<le> body_limit")
      (auto simp: forward_tools_tool_def body_json_def split: option.splits)
qed

section \<open>Making a session\<close>

text \<open>The controller's route that makes a session; \<open>None\<close> would be a crash of its handler.\<close>

definition controller_creates :: "world docker \<Rightarrow> env \<Rightarrow> world forward host \<Rightarrow> string \<Rightarrow> bool" where
  "controller_creates dk cenv h url \<longleftrightarrow> (\<forall>v c r c'.
     v2_create_session dk cenv (Inr (as_bytes (json_text h v))) c = (Some r, c') \<longrightarrow>
     post_json h (url @ ''/v2/sessions'') (Some v) c = (Inr (rs_status r, Some (rs_body r)), c'))"

definition template_body :: "string \<Rightarrow> json" where
  "template_body t = JObj [(''template'', JStr t)]"

text \<open>The controller reads what the shim and the daemon wrote.\<close>

definition controller_reads :: "world docker \<Rightarrow> bytes \<Rightarrow> json \<Rightarrow> bool" where
  "controller_reads dk bs v \<longleftrightarrow> parse_json dk bs = Some v \<and> length bs \<le> 64 * 1024"

lemma route_create: "build_router tc HPOST ''/sessions'' bs w = tools_handle tc TCreate w"
  by (simp add: build_router_def)

text \<open>C3: The session a new sandbox gets is in a daemon, and from then on the calls of the shim reach it:
  when a daemon is chosen for the template and makes the session, the shim gets its id, which the
  daemon has in its table, the controller has entered the daemon as the one of the session, and
  nothing else of the shim changes; so the premise \<open>deployed\<close> of the other properties holds.\<close>

theorem creation_deploys:
  assumes "controller_at dk cenv h (upstream st)" "controller_creates dk cenv h (upstream st)"
    and "t \<noteq> []" "controller_reads dk (as_bytes (json_text h (template_body t))) (template_body t)"
    and "daemon_for dk cenv t (outside st) = (Some (Inr u), c)" "daemon_at tc dk u"
    and "\<forall>b. \<not> is_success (rs_status (tc_reject tc b))"
    and "create_session (tc_os tc) (tc_uuid tc (engine_st (registry c))) (engine_st (registry c)) = (Inr r, w)"
    and "plain_id (cr_session_id r)"
    and "controller_reads dk (tc_json tc (create_session_json r)) (create_session_json r)"
    and "understood_back tc h (create_session_json r)"
  shows "\<exists>st'. upstream_session h t st = (Inr (cr_session_id r), st')
    \<and> deployed tc dk cenv h (cr_session_id r) st'
    \<and> daemon_world st' = w \<and> map_of (sessions (app w)) (cr_session_id r) \<noteq> None \<and> only_outside st st'"
proof -
  let ?bs = "as_bytes (json_text h (template_body t))" and ?sid = "cr_session_id r"
  let ?resp = "json_ok tc (create_session_json r)"
  have hop: "http_forward dk HPOST (u @ ''/sessions'') ?bs (engine_st (registry c)) =
      (Inr (rs_status ?resp, rs_type ?resp, Some (rs_body ?resp)), w)"
    using assms(6) assms(8) route_create [of tc ?bs "engine_st (registry c)"]
    by (simp add: daemon_at_def answer_def into_response_def)
  have req: "create_session_req dk ?bs = t"
    using assms(4) by (simp add: create_session_req_def controller_reads_def template_body_def as_struct_def field_or_def)
  have sid: "session_id_of dk (rs_body ?resp) = Some ?sid"
    using assms(10) by (simp add: session_id_of_def controller_reads_def json_ok_def create_session_json_def)
  define c' where "c' = c\<lparr>registry := (registry c)\<lparr>engine_st := w\<rparr>,
    sticky := AList.update ?sid (t, u) (sticky c)\<rparr>"
  have fwd: "forward_to_url dk u HPOST ''/sessions'' (Inr ?bs) (engine_st (registry c)) = (Inr ?resp, w)"
    using hop assms(4) by (simp add: forward_to_url_def to_bytes_def controller_reads_def json_ok_def visible_ascii_def)
  have "v2_create_session dk cenv (Inr ?bs) (outside st) = (Some ?resp, c')"
    using assms(3,4,5,10) fwd sid
    by (simp add: v2_create_session_def to_bytes_def controller_reads_def req json_ok_def c'_def Let_def)
  then have post: "post_json h (upstream st @ ''/v2/sessions'') (Some (template_body t)) (outside st) =
      (Inr (rs_status ?resp, Some (rs_body ?resp)), c')"
    using assms(2) by (simp add: controller_creates_def)
  let ?st = "st\<lparr>outside := c'\<rparr>"
  have "upstream_session h t st = (Inr ?sid, ?st)"
    using post assms(11)
    by (simp add: upstream_session_def template_body_def json_ok_def body_json_def understood_back_def create_session_json_def)
  moreover have "deployed tc dk cenv h ?sid ?st"
    using assms(1,6,7,9) by (simp add: deployed_def c'_def upstream_of_def lookup_update)
  moreover have "map_of (sessions (app w)) ?sid \<noteq> None"
    using assms(8) by (auto simp: create_session_def set_sessions_def Let_def lookup_update split: prod.splits sum.splits)
  ultimately show ?thesis by (intro exI [of _ ?st]) (simp add: c'_def)
qed

section \<open>Files through all three programs\<close>

definition write_body :: "string \<Rightarrow> bytes \<Rightarrow> json" where
  "write_body p bs = JObj [(''path'', JStr (tools_relative_path p)), (''content'', JStr (of_bytes bs))]"

definition read_body :: "string \<Rightarrow> json" where
  "read_body p = JObj [(''path'', JStr (tools_relative_path p))]"

lemma write_body_decodes: "write_req_of_json (write_body p bs) = Some (tools_relative_path p, of_bytes bs)"
  by (simp add: write_body_def write_req_of_json_def as_struct_def field_def)

lemma read_body_decodes:
  "read_req_of_json (read_body p) = Some \<lparr>rd_path = tools_relative_path p, rd_offset = None, rd_limit = None\<rparr>"
  by (simp add: read_body_def read_req_of_json_def as_struct_def field_def field_opt_def)

lemma tool_write_error: "tool_write sid rel content w = (Inl e, w') \<Longrightarrow> \<not> is_success (fst e)"
  using refuses_tool_write [of sid rel content w] by (simp add: refuses_def error_status_def)

lemma s3_put_file_same:
  assumes "\<forall>b k bs s. snd (s3_put h b k bs s) = s"
  shows "snd (s3_put_file h env vid cfg rel bs st) = st"
proof (cases "s3_bucket_for h env vid cfg st")
  case (Inr b)
  obtain r where "s3_put h b (s3_key (s3_prefix cfg) rel) bs (outside st) = (r, outside st)"
    using assms by (metis prod.collapse)
  then show ?thesis
    using Inr by (cases r) (simp_all add: s3_put_file_def s3_call_def io_try_def io_err_def io_lift_def)
qed (simp add: s3_put_file_def)

lemma mirror_write_host:
  assumes "\<forall>b k bs s. snd (s3_put h b k bs s) = s"
  shows "\<exists>fs. mirror_write_to_volume h env r p bs st = st\<lparr>host_fs := fs\<rparr>"
proof -
  have same: "\<exists>fs. st = st\<lparr>host_fs := fs\<rparr>" by (rule exI [of _ "host_fs st"]) simp
  show ?thesis
  proof (cases "Option.bind (volume_mirror_for r p) (\<lambda>(nm, rel). find_volume nm st)")
    case None
    then have "mirror_write_to_volume h env r p bs st = st"
      by (cases "volume_mirror_for r p") (auto simp: mirror_write_to_volume_def)
    then show ?thesis using same by simp
  next
    case (Some v)
    then obtain nm rel where "volume_mirror_for r p = Some (nm, rel)" "find_volume nm st = Some v"
      by (auto simp: bind_eq_Some_conv)
    moreover define t where "t = volume_path env (vol_id v) rel"
    moreover define fs where "fs = (case path_parent t of None \<Rightarrow> host_fs st | Some par \<Rightarrow> snd (create_dir_all (host_fs st) par))"
    ultimately have "mirror_write_to_volume h env r p bs st = st\<lparr>host_fs := best_effort (\<lambda>fs. fs_write fs t bs) fs\<rparr>"
      using s3_put_file_same [OF assms]
      by (cases "path_parent t"; cases "vol_backend v") (simp_all add: mirror_write_to_volume_def Let_def)
    then show ?thesis by (rule exI)
  qed
qed

text \<open>What an accepted upload leaves behind: the daemon has made the write.\<close>

lemma upload_deployed:
  assumes "deployed tc dk cenv h sid st" "\<forall>b k bs s. snd (s3_put h b k bs s) = s"
    and "pick_sandbox_id env hs st = Inr sid" "upload_payload hs body = Some bs"
    and "understood tc h (write_body p bs)"
    and "files_post h env hs p body st = (resp, st1)" "is_success (rs_status resp)"
  shows "valid_utf8 bs \<and> (\<exists>n w fs. tool_write sid (tools_relative_path p) (of_bytes bs) (daemon_world st) = (Inr n, w)
    \<and> st1 = (with_daemon_world w st)\<lparr>host_fs := fs\<rparr>)"
proof -
  have utf8: "valid_utf8 bs"
    using assms(3,4,6,7) by (auto simp: files_post_def error_response_def split: if_splits)
  obtain res w where wr: "tool_write sid (tools_relative_path p) (of_bytes bs) (daemon_world st) = (res, w)" by fastforce
  have route: "tool_route tc sid ''write'' (Some (write_body p bs)) (daemon_world st) = (answer (json_ok tc \<circ> write_json) res, w)"
    by (simp add: tool_route_def with_body_def write_body_decodes wr)
  obtain y st2 where fwd: "forward_tools_tool h sid ''write'' (write_body p bs) st = (y, st2)" by fastforce
  note D = forward_deployed [OF assms(1) _ _ assms(5) route, unfolded tool_names_def, simplified]
  show ?thesis
  proof (cases y)
    case (Inl e)
    then have "resp = error_response e"
      using assms(3,4,6) utf8 fwd by (simp add: files_post_def Let_def write_body_def)
    moreover have "\<not> is_success (fst e)"
      using fwd Inl by (auto simp: forward_tools_tool_def split: prod.splits sum.splits option.splits if_splits)
    ultimately show ?thesis using assms(7) by (simp add: error_response_def)
  next
    case (Inr x)
    then have ok: "is_success (rs_status (answer (json_ok tc \<circ> write_json) res))" "st2 = with_daemon_world w st"
      using D fwd by auto
    then obtain n where n: "res = Inr n"
      using tool_write_error [of sid "tools_relative_path p" "of_bytes bs" "daemon_world st"] wr
      by (cases res) (auto simp: answer_def result_simps into_response_def error_response_def)
    have "\<exists>fs. st1 = st2\<lparr>host_fs := fs\<rparr>"
    proof (cases "map_of (sandboxes st2) sid")
      case None
      then have "st1 = st2\<lparr>host_fs := host_fs st2\<rparr>"
        using assms(3,4,6) utf8 fwd Inr by (simp add: files_post_def Let_def write_body_def)
      then show ?thesis ..
    next
      case (Some r)
      then have "st1 = mirror_write_to_volume h env r p bs st2"
        using assms(3,4,6) utf8 fwd Inr by (simp add: files_post_def Let_def write_body_def)
      then show ?thesis using mirror_write_host [OF assms(2)] by metis
    qed
    then show ?thesis using utf8 n wr ok(2) by blast
  qed
qed

text \<open>C2: An upload is what a download gives: when the shim answers an upload with 200, the daemon
  that holds the session has written the file, and the next download of the same path through
  shim, controller and daemon answers exactly the uploaded bytes.\<close>

theorem download_after_upload:
  assumes "deployed tc dk cenv h sid st" "\<forall>b k bs s. snd (s3_put h b k bs s) = s"
    and "pick_sandbox_id env hs st = Inr sid" "upload_payload hs body = Some bs"
    and "understood tc h (write_body p bs)" "understood tc h (read_body p)"
    and "understood_back tc h (read_json (of_bytes bs, length bs))"
    and "length (json_text h (read_body p)) \<le> body_limit"
    and "shim_handle h pb env hs (QFilesPost p body) st = (Some resp, st1)" "rs_status resp = OK_S"
  shows "fst (shim_handle h pb env hs (QFilesGet p) st1) = Some (octets bs)
    \<and> sandboxes st1 = sandboxes st \<and> outside (snd (shim_handle h pb env hs (QFilesGet p) st1)) = outside st1"
proof -
  have "files_post h env hs p body st = (resp, st1)" using assms(9) by (simp split: prod.splits)
  from upload_deployed [OF assms(1-5) this] assms(10)
  obtain n w fs where utf8: "valid_utf8 bs"
    and wr: "tool_write sid (tools_relative_path p) (of_bytes bs) (daemon_world st) = (Inr n, w)"
    and st1: "st1 = (with_daemon_world w st)\<lparr>host_fs := fs\<rparr>" by auto
  have same: "daemon_world st1 = w" "sandboxes st1 = sandboxes st" "upstream st1 = upstream st"
    "upstream_of (outside st1) = upstream_of (outside st)" "with_daemon_world w st1 = st1"
    by (simp_all add: st1 with_daemon_world_def upstream_of_def fun_eq_iff)
  have dep: "deployed tc dk cenv h sid st1" using assms(1) same by (simp add: deployed_def)
  have "tool_read sid (tools_relative_path p) None None w = Inr (of_bytes bs, length bs)"
    using written_is_read [OF wr] utf8 by simp
  then have route: "tool_route tc sid ''read'' (Some (read_body p)) (daemon_world st1) =
      (json_ok tc (read_json (of_bytes bs, length bs)), w)"
    by (simp add: tool_route_def with_body_def read_body_decodes same answer_def into_response_def)
  have "forward_tools_tool h sid ''read'' (read_body p) st1 = (Inr (read_json (of_bytes bs, length bs)), st1)"
    using forward_deployed [OF dep _ _ assms(6) route, unfolded tool_names_def, simplified] assms(7,8)
    by (simp add: json_ok_def understood_back_def same)
  moreover have "pick_sandbox_id env hs st1 = pick_sandbox_id env hs st"
    unfolding pick_sandbox_id_def same(2) ..
  ultimately have "files_get h env hs p st1 = (octets bs, st1)"
    using assms(3) by (simp add: files_get_def read_body_def read_json_def)
  then show ?thesis using same(2) by simp
qed

section \<open>Commands through all three programs\<close>

definition bash_body :: "string \<Rightarrow> nat \<Rightarrow> json" where
  "bash_body cmd secs = JObj [(''command'', JStr cmd), (''timeout'', JNum (int secs))]"

lemma bash_body_decodes: "secs < 2 ^ 64 \<Longrightarrow> bash_req_of_json (bash_body cmd secs) = Some (cmd, secs)"
  by (simp add: bash_body_def bash_req_of_json_def with_alias_def as_struct_def field_def field_or_def j_usize_def)

definition bash_result :: "bash_resp \<Rightarrow> tools_bash_resp" where
  "bash_result r = \<lparr>tbr_stdout = br_stdout r, tbr_stderr = br_stderr r, tbr_exit_code = br_exit_code r,
     tbr_timed_out = br_timed_out r\<rparr>"

lemma bash_json_decodes:
  "- (2 ^ 31) \<le> br_exit_code r \<Longrightarrow> br_exit_code r \<le> 2 ^ 31 - 1 \<Longrightarrow> tools_bash_of_json (bash_json r) = Some (bash_result r)"
  by (simp add: bash_json_def tools_bash_of_json_def as_struct_def field_def field_or_def bash_result_def)

lemma tool_bash_error: "tool_bash os il sid cmd t w = (Inl e, w') \<Longrightarrow> \<not> is_success (fst e)"
  using refuses_tool_bash [of os il sid cmd t w] by (simp add: refuses_def error_status_def)

text \<open>C23: A command the shim runs in a session runs exactly once in the daemon that holds the
  session, with its timeout, and nothing else of the state changes; the shim takes it as done
  exactly when it ended with exit code 0 before the timeout, and then has its whole output.\<close>

theorem commands_run_in_daemon:
  assumes "deployed tc dk cenv h sid st" "secs < 2 ^ 64"
    and "understood tc h (bash_body cmd secs)" "length (json_text h (bash_body cmd secs)) \<le> body_limit"
    and "tool_bash (tc_os tc) (tc_il tc) sid cmd secs (daemon_world st) = (res, w)"
    and "\<forall>r. res = Inr r \<longrightarrow> understood_back tc h (bash_json r) \<and> - (2 ^ 31) \<le> br_exit_code r \<and> br_exit_code r \<le> 2 ^ 31 - 1"
  shows "\<exists>y. run_tools_bash h sid cmd secs st = (y, with_daemon_world w st)
    \<and> (\<forall>x. y = Inr x \<longleftrightarrow> (\<exists>r. res = Inr r \<and> br_exit_code r = 0 \<and> \<not> br_timed_out r \<and> x = bash_result r))"
proof -
  have route: "tool_route tc sid ''bash'' (Some (bash_body cmd secs)) (daemon_world st) = (answer (json_ok tc \<circ> bash_json) res, w)"
    using assms(5) by (simp add: tool_route_def with_body_def bash_body_decodes [OF assms(2)])
  obtain status body c where post: "post_json h (tools_url st sid ''bash'') (Some (bash_body cmd secs)) (outside st) =
      (Inr (status, body), c)"
    using call_answered [OF assms(1), of "''bash''" "bash_body cmd secs"] by (auto simp: tool_names_def)
  have st1: "st\<lparr>outside := outside (with_daemon_world w st)\<rparr> = with_daemon_world w st"
    by (simp add: with_daemon_world_def)
  have hop: "is_success status \<longleftrightarrow> is_success (rs_status (answer (json_ok tc \<circ> bash_json) res))"
    "body = Some (rs_body (answer (json_ok tc \<circ> bash_json) res))" "c = outside (with_daemon_world w st)"
    using call_daemon [OF assms(1) _ _ assms(3) route post] assms(4) by (simp_all add: tool_names_def)
  obtain y st2 where run: "run_tools_bash h sid cmd secs st = (y, st2)" by fastforce
  have st2: "st2 = with_daemon_world w st"
    using run post hop(3) st1
    by (auto simp: run_tools_bash_def bash_body_def split: option.splits if_splits)
  show ?thesis
  proof (cases res)
    case (Inl e)
    then have "\<not> is_success status"
      using hop(1) tool_bash_error [of "tc_os tc" "tc_il tc" sid cmd secs "daemon_world st"] assms(5)
      by (auto simp: answer_def result_simps into_response_def error_response_def)
    then have "\<forall>x. y \<noteq> Inr x"
      using run post by (auto simp: run_tools_bash_def bash_body_def split: option.splits if_splits)
    then show ?thesis using run st2 Inl by auto
  next
    case (Inr r)
    then have ok: "is_success status" "body_json h body = Some (bash_json r)" "tools_bash_of_json (bash_json r) = Some (bash_result r)"
      using hop(1,2) assms(6) bash_json_decodes [of r]
      by (simp_all add: answer_def into_response_def json_ok_def body_json_def understood_back_def)
    then show ?thesis
      using run st2 post Inr
      by (auto simp: run_tools_bash_def bash_body_def bash_result_def split: if_splits)
  qed
qed

section \<open>Deleting a sandbox\<close>

text \<open>The DELETE of the shim is the controller's route that forgets a session.\<close>

definition controller_deletes :: "world docker \<Rightarrow> world forward host \<Rightarrow> string \<Rightarrow> bool" where
  "controller_deletes dk h url \<longleftrightarrow> (\<forall>sid c. CHR ''/'' \<notin> set sid \<longrightarrow>
     delete_url h (url @ ''/v2/sessions/'' @ sid) c = snd (v2_delete_session dk sid c))"

lemma route_delete:
  assumes "sid \<noteq> []" "CHR ''/'' \<notin> set sid"
  shows "build_router tc HDELETE (''/sessions/'' @ sid) bs w = tools_handle tc (TDelete sid) w"
proof -
  have "split_slash (''/sessions/'' @ sid) = [[], ''sessions'', sid]"
    using split_slash_cons [of "[]" "''sessions/'' @ sid"] split_slash_cons [of "''sessions''" sid]
      split_slash_one [OF assms(2)] by simp
  then show ?thesis using assms(1) by (simp add: build_router_def)
qed

lemma drop_session_daemon:
  assumes "deployed tc dk cenv h sid st" "controller_deletes dk h (upstream st)"
    and "delete_session (tc_os tc) (tc_il tc) sid (daemon_world st) = (r, w)"
  shows "daemon_world (drop_session h sid st) = w" "map_of (sticky (outside (drop_session h sid st))) sid = None"
proof -
  obtain u where u: "upstream_of (outside st) sid = Some u" "daemon_at tc dk u"
    using assms(1) by (auto simp: deployed_def)
  have sid: "sid \<noteq> []" "CHR ''/'' \<notin> set sid" using assms(1) by (auto simp: deployed_def plain_id_def)
  obtain r' where hop: "http_forward dk HDELETE (u @ ''/sessions/'' @ sid) [] (daemon_world st) = (r', w)"
    using u(2) route_delete [OF sid, of tc "[]" "daemon_world st"] assms(3)
    by (simp add: daemon_at_def answer_def apfst_def)
  have "outside (drop_session h sid st) = snd (v2_delete_session dk sid (outside st))"
    using assms(2) sid(2) by (simp add: controller_deletes_def drop_session_def session_url_def)
  then show "daemon_world (drop_session h sid st) = w" "map_of (sticky (outside (drop_session h sid st))) sid = None"
    using u(1) hop
    by (auto simp: v2_delete_session_def forward_to_url_def to_bytes_def Let_def lookup_delete
        split: prod.splits sum.splits option.splits if_splits)
qed

text \<open>C9: Deleting a sandbox at the shim ends it in all three programs: the shim answers 204 and has
  no record of it, the controller has forgotten the daemon of the session, and in the daemon exactly this
  session is gone from the table, its process table is empty, every process it held has ended or was
  sent SIGKILL, and its directory is gone with everything below it.\<close>

theorem deletion_reaches_daemon:
  assumes "deployed tc dk cenv h sid st" "controller_deletes dk h (upstream st)" "check_api_key st hs = Inr u"
    and "legal (tc_il tc)" "daemon_ok (daemon_world st)" "map_of (sessions (app (daemon_world st))) sid = Some s"
    and "shim_handle h pb env hs (QDelete sid) st = (r, st')"
  shows "r = Some (bare_status NO_CONTENT) \<and> map_of (sandboxes st') sid = None
    \<and> map_of (sticky (outside st')) sid = None
    \<and> map_of (sessions (app (daemon_world st'))) = (map_of (sessions (app (daemon_world st))))(sid := None)
    \<and> processes (sess_heap (daemon_world st') s) = []
    \<and> (\<forall>a \<in> session_procs (daemon_world st) s. h_state (proc_heap (daemon_world st') a) \<noteq> Running
         \<or> Kill (signal_target (pid (proc_heap (daemon_world st) a)) (kill_group (process_cfg (app (daemon_world st)))))
             SIGKILL \<in> set (trace (daemon_world st')))
    \<and> (\<forall>k ns. entry_pos (files (daemon_world st)) (s_cwd (sess_heap (daemon_world st) s)) = Inr k \<and> k \<noteq> []
         \<and> node_at (files (daemon_world st)) k = Some Dir \<longrightarrow> node_at (files (daemon_world st')) (k @ ns) = None)"
proof -
  let ?st = "remove_sandbox sid st"
  obtain q w where del: "delete_session (tc_os tc) (tc_il tc) sid (daemon_world st) = (q, w)" by fastforce
  have same: "outside ?st = outside st" "upstream ?st = upstream st" "map_of (sandboxes ?st) sid = None"
    by (simp_all add: remove_sandbox_def lookup_delete)
  have st': "r = Some (bare_status NO_CONTENT)" "st' = drop_session h sid ?st"
    using assms(3,7) by (auto simp: delete_sandbox_def authorized_def reply_def into_response_def split: prod.splits)
  have "deployed tc dk cenv h sid ?st" "controller_deletes dk h (upstream ?st)"
    using assms(1,2) same by (simp_all add: deployed_def)
  from drop_session_daemon [OF this, of q w] del same(1)
  have w: "daemon_world st' = w" "map_of (sticky (outside st')) sid = None" by (simp_all add: st'(2))
  have "sandboxes st' = sandboxes ?st" by (simp add: st'(2) drop_session_def)
  then show ?thesis
    using st'(1) same(3) w delete_session_effect(2-5) [OF assms(4-6) del] by simp
qed

section \<open>A concrete deployment\<close>

text \<open>
  One session \<open>s\<close> on one daemon, with tables in the place of the JSON crate that know the bodies
  of the witnesses.
\<close>

definition net_session :: create_session_resp where
  "net_session = \<lparr>cr_session_id = ''u'', cr_cwd = path_str (path_join [RootDir, Normal ''sandboxes''] ''u'')\<rparr>"

definition net_texts :: "(string \<times> json) list" where
  "net_texts =
     [(''t'', template_body ''base''), (''s'', create_session_json net_session),
      (''w'', write_body ''/a/b.txt'' (as_bytes ''hi'')), (''r'', read_body ''/a/b.txt''),
      (''c'', read_json (''hi'', 2)), (''n'', write_json 2), (''b'', bash_body ''ls'' 5),
      (''o'', bash_json \<lparr>br_stdout = [], br_stderr = [], br_exit_code = 0, br_timed_out = False\<rparr>)]"

definition net_text :: "json \<Rightarrow> string" where
  "net_text v = (case find (\<lambda>(_, x). x = v) net_texts of None \<Rightarrow> [] | Some (t, _) \<Rightarrow> t)"

definition net_parse :: "bytes \<Rightarrow> json option" where
  "net_parse bs = map_of net_texts (of_bytes bs)"

definition net_crates :: tools_crates where
  "net_crates = wire_crates\<lparr>tc_json := as_bytes \<circ> net_text, tc_parse := net_parse\<rparr>"

definition net_docker :: "world docker" where
  "net_docker =
     \<lparr>inspect_image = \<lambda>_ s. (Inr (), s), inspect_network = \<lambda>_ s. (Inr (), s), create_network = \<lambda>_ _ s. (Inr (), s),
      connect_network = \<lambda>_ _ s. (Inr (), s), list_containers = \<lambda>_ s. (Inr [], s),
      create_container = \<lambda>_ _ s. (Inr [], s), start_container = \<lambda>_ s. (Inr (), s),
      inspect_addresses = \<lambda>_ s. (Inr [], s), pause_container = \<lambda>_ s. (Inr (), s),
      unpause_container = \<lambda>_ s. (Inr (), s), remove_container = \<lambda>_ s. (Inr (), s),
      http = \<lambda>_ _ _ _ s. (Inr (200, None), s),
      http_forward = \<lambda>m u bs w. (case build_router net_crates m (drop (length ''http://d'') u) bs w of
        (r, w') \<Rightarrow> (Inr (rs_status r, rs_type r, Some (rs_body r)), w')),
      clock_ms = \<lambda>_. 0, clock_ns = \<lambda>_. 0, sleep_ms = \<lambda>_ s. s, parse_json = net_parse, err_msg = \<lambda>_. [],
      status_msg = show_nat, int_msg = id, lower_table = id\<rparr>"

definition net_host :: "world forward host" where
  "net_host = \<lparr>post_json = (\<lambda>url v c.
       case (split_slash (drop (length ''http://c'') url), v) of
         ([_, _, _, sid, _, tool], Some x) \<Rightarrow>
           (case v2_tool_call net_docker no_env sid tool (Inr (as_bytes (net_text x))) c of
              (r, c') \<Rightarrow> (Inr (rs_status r, Some (rs_body r)), c'))
       | ([_, _, _], Some x) \<Rightarrow>
           (case v2_create_session net_docker no_env (Inr (as_bytes (net_text x))) c of
              (Some r, c') \<Rightarrow> (Inr (rs_status r, Some (rs_body r)), c')
            | (None, c') \<Rightarrow> (Inl [], c'))
       | _ \<Rightarrow> (Inl [], c)),
     post_stream = (\<lambda>_ s. (Inr (200, []), s)),
     delete_url = (\<lambda>url c. case split_slash (drop (length ''http://c'') url) of
         [_, _, _, sid] \<Rightarrow> snd (v2_delete_session net_docker sid c) | _ \<Rightarrow> c),
     now = (\<lambda>_. 0), uuid = (\<lambda>s. (''u'', s)), add_secs = (\<lambda>t s. Some (t + s)),
     rfc3339 = (\<lambda>_. ''2026''), of_rfc3339 = (\<lambda>_. Some 0), format_time = (\<lambda>_ _. []), json_text = net_text,
     json_pretty = (\<lambda>_. []), of_json_text = net_parse,
     json_err = (\<lambda>_. []), debug_str = id, status_text = show_nat, creds_err = (\<lambda>_. None), bucket_err = (\<lambda>_. None),
     s3_put = (\<lambda>_ _ _ s. (Inr 200, s)), s3_get = (\<lambda>_ _ s. (Inr (200, []), s)), s3_del = (\<lambda>_ _ s. (Inr 200, s)),
     s3_list = (\<lambda>_ _ s. (Inr [], s)), tar_gz = (\<lambda>_ _. Inr []),
     stat_of = (\<lambda>_ _. \<lparr>fst_size = 0, fst_mode = 0, fst_uid = 0, fst_gid = 0, fst_mtime = 0\<rparr>)\<rparr>"

definition net_pb :: pb where
  "net_pb = \<lparr>pb_start_request = (\<lambda>_. None), pb_start_response = (\<lambda>_. []), pb_list_response = [],
     pb_varint_ok = (\<lambda>_. True)\<rparr>"

definition net_shim :: "world forward shim" where
  "net_shim = \<lparr>sandboxes = [], upstream = ''http://c'', api_key = None, tos = None,
     template_builds = [], template_id_to_build = [], template_tags = [], volumes = [],
     snapshots = [], s3_creds = [], host_fs = [],
     outside = \<lparr>registry = registry_new demo_fs_world [] 1 1, fallback_daemon = Some ''http://d'',
       sticky = [(''s'', (''t'', ''http://d''))]\<rparr>\<rparr>"

definition net_headers :: headers where
  "net_headers = [(''x-sandbox-id'', ''s'')]"

lemma net_daemon: "daemon_at net_crates net_docker ''http://d''"
  by (simp add: daemon_at_def net_docker_def)

lemma v2_path_segments:
  assumes "CHR ''/'' \<notin> set sid" "CHR ''/'' \<notin> set tool"
  shows "split_slash (''/v2/sessions/'' @ sid @ ''/tools/'' @ tool) = [[], ''v2'', ''sessions'', sid, ''tools'', tool]"
  using split_slash_cons [of "[]" "''v2/sessions/'' @ sid @ ''/tools/'' @ tool"]
    split_slash_cons [of "''v2''" "''sessions/'' @ sid @ ''/tools/'' @ tool"]
    tools_path_segments [OF assms] split_slash_cons [of "[]" "''sessions/'' @ sid @ ''/tools/'' @ tool"]
  by simp

lemma net_controller: "controller_at net_docker no_env net_host ''http://c''"
  unfolding controller_at_def
proof (intro allI impI, elim conjE)
  fix sid tool v c
  assume "CHR ''/'' \<notin> set sid" "tool \<in> set tool_names"
  then have "split_slash (drop (length ''http://c'') (''http://c'' @ ''/v2/sessions/'' @ sid @ ''/tools/'' @ tool)) =
      [[], ''v2'', ''sessions'', sid, ''tools'', tool]"
    using v2_path_segments [OF _ tool_names_segment] by simp
  then show "post_json net_host (''http://c'' @ ''/v2/sessions/'' @ sid @ ''/tools/'' @ tool) (Some v) c =
      (case v2_tool_call net_docker no_env sid tool (Inr (as_bytes (json_text net_host v))) c of
         (r, c') \<Rightarrow> (Inr (rs_status r, Some (rs_body r)), c'))"
    by (simp add: net_host_def)
qed

lemma net_deployed: "deployed net_crates net_docker no_env net_host ''s'' net_shim"
  using net_daemon net_controller
  by (simp add: deployed_def plain_id_def net_shim_def upstream_of_def net_crates_def wire_crates_def bare_status_def)

lemma net_tables:
  "understood net_crates net_host (write_body ''/a/b.txt'' (as_bytes ''hi''))"
  "understood net_crates net_host (read_body ''/a/b.txt'')"
  "understood_back net_crates net_host (read_json (of_bytes (as_bytes ''hi''), length (as_bytes ''hi'')))"
  "understood net_crates net_host (bash_body ''ls'' 5)"
  "understood_back net_crates net_host (bash_json \<lparr>br_stdout = [], br_stderr = [], br_exit_code = 0, br_timed_out = False\<rparr>)"
  "understood_back net_crates net_host (write_json 2)"
  by (simp_all add: understood_def understood_back_def net_crates_def wire_crates_def net_host_def net_text_def
      net_parse_def net_texts_def write_body_def read_body_def bash_body_def read_json_def bash_json_def write_json_def
      template_body_def create_session_json_def)

lemma net_creation_tables:
  "controller_reads net_docker (as_bytes (json_text net_host (template_body ''base''))) (template_body ''base'')"
  "controller_reads net_docker (tc_json net_crates (create_session_json net_session)) (create_session_json net_session)"
  "understood_back net_crates net_host (create_session_json net_session)"
  by (simp_all add: controller_reads_def understood_back_def net_docker_def net_crates_def wire_crates_def net_host_def
      net_text_def net_parse_def net_texts_def template_body_def create_session_json_def)

lemma net_texts_short: "length (json_text net_host v) \<le> body_limit"
  by (auto simp: net_host_def net_text_def net_texts_def body_limit_def split: option.split if_splits)

lemma net_creates: "controller_creates net_docker no_env net_host ''http://c''"
proof -
  have "split_slash (drop (length ''http://c'') (''http://c'' @ ''/v2/sessions'')) = [[], ''v2'', ''sessions'']" by simp
  then show ?thesis by (simp add: controller_creates_def net_host_def)
qed

theorem creation_deploys_witness:
  "\<exists>st'. upstream_session net_host ''base'' net_shim = (Inr ''u'', st')
     \<and> deployed net_crates net_docker no_env net_host ''u'' st'"
proof -
  have choose: "daemon_for net_docker no_env ''base'' (outside net_shim) = (Some (Inr ''http://d''), outside net_shim)"
    by (simp add: daemon_for_def net_shim_def registry_new_def acquire_def acquire_slow_def FALLBACK_TEMPLATE_def Let_def)
  obtain w where made: "create_session (tc_os net_crates) (tc_uuid net_crates (daemon_world net_shim)) (daemon_world net_shim) =
      (Inr net_session, w)"
    by (simp add: create_session_def net_crates_def wire_crates_def net_shim_def registry_new_def demo_fs_world_def demo_defs
        path_join_def is_absolute_def starts_with_def inner_components_def inner_component_def create_dir_all.simps
        fs_mkdir_def entry_pos_def path_parent_def canon_def node_at_def max_links_def net_session_def Let_def)
  have url: "controller_at net_docker no_env net_host (upstream net_shim)"
    "controller_creates net_docker no_env net_host (upstream net_shim)"
    using net_controller net_creates by (simp_all add: net_shim_def)
  have refuse: "\<forall>b. \<not> is_success (rs_status (tc_reject net_crates b))"
    by (simp add: net_crates_def wire_crates_def bare_status_def)
  have "plain_id (cr_session_id net_session)" by (simp add: net_session_def plain_id_def)
  from creation_deploys [OF url _ net_creation_tables(1) choose net_daemon refuse made this net_creation_tables(2,3)]
  show ?thesis by (auto simp: net_session_def)
qed

theorem download_after_upload_witness:
  "fst (shim_handle net_host net_pb no_env net_headers (QFilesGet ''/a/b.txt'')
     (snd (shim_handle net_host net_pb no_env net_headers (QFilesPost ''/a/b.txt'' (as_bytes ''hi'')) net_shim))) =
   Some (octets (as_bytes ''hi''))"
proof -
  let ?bs = "as_bytes ''hi''"
  have s3: "\<forall>b k bs s. snd (s3_put net_host b k bs s) = s" by (simp add: net_host_def)
  have pick: "pick_sandbox_id no_env net_headers net_shim = Inr ''s''"
    by (simp add: pick_sandbox_id_def net_headers_def visible_ascii_def)
  have payload: "upload_payload net_headers ?bs = Some ?bs"
    by (simp add: upload_payload_def net_headers_def content_type_or_def header_str_def str_contains_def match_indices_def)
  have rel: "tools_relative_path ''/a/b.txt'' = ''a/b.txt''"
    by (simp add: tools_relative_path_def trim_start_matches_def)
  have world: "daemon_world net_shim = demo_fs_world" by (simp add: net_shim_def registry_new_def)
  obtain w where w: "tool_write ''s'' ''a/b.txt'' ''hi'' demo_fs_world = (Inr 2, w)" using demo_write by blast
  have route: "tool_route net_crates ''s'' ''write'' (Some (write_body ''/a/b.txt'' ?bs)) (daemon_world net_shim) =
      (json_ok net_crates (write_json 2), w)"
    by (simp add: tool_route_def with_body_def write_body_decodes rel world w answer_def into_response_def)
  have "forward_tools_tool net_host ''s'' ''write'' (write_body ''/a/b.txt'' ?bs) net_shim =
      (Inr (write_json 2), with_daemon_world w net_shim)"
    using forward_deployed [OF net_deployed _ _ net_tables(1) route, unfolded tool_names_def, simplified]
      net_tables(6) net_texts_short by (simp add: json_ok_def understood_back_def)
  moreover have "valid_utf8 ?bs" by (simp add: as_bytes_def utf8_seq_def utf8_width_def)
  moreover have "sandboxes (with_daemon_world w net_shim) = []" by (simp add: net_shim_def)
  ultimately have post: "shim_handle net_host net_pb no_env net_headers (QFilesPost ''/a/b.txt'' ?bs) net_shim =
      (Some (json_response net_host OK_S (written_entry ''b.txt'' ''/a/b.txt'')), with_daemon_world w net_shim)"
    using pick payload
    by (simp add: files_post_def Let_def write_body_def rel after_last_slash_def)
  then show ?thesis
    using download_after_upload [OF net_deployed s3 pick payload net_tables(1,2,3) net_texts_short post]
    by (simp add: json_response_def)
qed

theorem commands_run_in_daemon_witness:
  "\<exists>y. run_tools_bash net_host ''s'' ''ls'' 5 net_shim = (Inr y, snd (run_tools_bash net_host ''s'' ''ls'' 5 net_shim))
     \<and> tbr_exit_code y = 0"
proof -
  obtain res w where run: "tool_bash (tc_os net_crates) (tc_il net_crates) ''s'' ''ls'' 5 (daemon_world net_shim) = (res, w)"
    by fastforce
  have res: "res = Inr \<lparr>br_stdout = [], br_stderr = [], br_exit_code = 0, br_timed_out = False\<rparr>"
    using run by (simp add: tool_bash_def net_crates_def wire_crates_def net_shim_def registry_new_def demo_fs_world_def
        demo_defs session_cwd_def resolve_session_def build_sandboxed_command_def Let_def from_utf8_lossy_def
        of_bytes_def)
  have "\<forall>r. res = Inr r \<longrightarrow> understood_back net_crates net_host (bash_json r) \<and> - (2 ^ 31) \<le> br_exit_code r \<and> br_exit_code r \<le> 2 ^ 31 - 1"
    using net_tables(5) res by simp
  from commands_run_in_daemon [OF net_deployed _ net_tables(4) net_texts_short run this] res
  show ?thesis by (auto simp: bash_result_def)
qed

lemma net_deletes: "controller_deletes net_docker net_host ''http://c''"
  unfolding controller_deletes_def
proof (intro allI impI)
  fix sid :: string and c assume s: "CHR ''/'' \<notin> set sid"
  have "split_slash (''/v2/sessions/'' @ sid) = [[], ''v2'', ''sessions'', sid]"
    using split_slash_cons [of "[]" "''v2/sessions/'' @ sid"] split_slash_cons [of "''v2''" "''sessions/'' @ sid"]
      split_slash_cons [of "''sessions''" sid] split_slash_one [OF s] by simp
  then show "delete_url net_host (''http://c'' @ ''/v2/sessions/'' @ sid) c = snd (v2_delete_session net_docker sid c)"
    by (simp add: net_host_def)
qed

theorem deletion_reaches_daemon_witness:
  "\<exists>st'. shim_handle net_host net_pb no_env net_headers (QDelete ''s'') net_shim = (Some (bare_status NO_CONTENT), st')
     \<and> map_of (sessions (app (daemon_world net_shim))) ''s'' = Some 0
     \<and> sessions (app (daemon_world st')) = []
     \<and> (h_state (proc_heap (daemon_world st') 0) \<noteq> Running \<or> Kill (- 100) SIGKILL \<in> set (trace (daemon_world st')))"
proof -
  have world: "daemon_world net_shim = demo_fs_world" by (simp add: net_shim_def registry_new_def)
  have ok: "daemon_ok (daemon_world net_shim)" "legal (tc_il net_crates)"
    unfolding world by (auto simp: net_crates_def wire_crates_def legal_idle
        daemon_ok_def demo_fs_world_def demo_world_def demo_app_def procs_ok_def session_ok_def session_procs_def)
  have m: "map_of (sessions (app (daemon_world net_shim))) ''s'' = Some 0"
    unfolding world by (simp add: demo_fs_world_def demo_world_def demo_app_def)
  have key: "check_api_key net_shim net_headers = Inr ()" by (simp add: check_api_key_def net_shim_def)
  have del: "controller_deletes net_docker net_host (upstream net_shim)" using net_deletes by (simp add: net_shim_def)
  obtain r st' where run: "shim_handle net_host net_pb no_env net_headers (QDelete ''s'') net_shim = (r, st')" by fastforce
  note d = deletion_reaches_daemon [OF net_deployed del key ok(2,1) m run]
  have "map_of (sessions (app (daemon_world st'))) = (\<lambda>_. None)"
    using d unfolding world by (auto simp: demo_fs_world_def demo_world_def demo_app_def fun_eq_iff)
  then have "sessions (app (daemon_world st')) = []" by (cases "sessions (app (daemon_world st'))") (auto simp: fun_eq_iff split: if_splits)
  moreover have "h_state (proc_heap (daemon_world st') 0) \<noteq> Running \<or> Kill (- 100) SIGKILL \<in> set (trace (daemon_world st'))"
    using d unfolding world by (auto simp: demo_fs_world_def demo_world_def demo_app_def session_procs_def demo_running_def
        new_handle_def signal_target_def)
  ultimately show ?thesis using d m run by blast
qed

end
