(* ===== verification/Registry_Tasks.thy ===== *)
theory Registry_Tasks
  imports Registry_Props
begin

text \<open>
  Concurrent requests for templates. \<open>acquire\<close> is an \<open>async\<close> function: a request holds the lock
  of the registry state only inside short critical sections, a lock of the template's name during a
  transition of that template, and other requests run at every \<open>.await\<close>. Here a request is a
  control point \<open>pc\<close> of that function and one step runs it to the next \<open>.await\<close>: one critical
  section, one call of the Docker engine, or the start of one replica (which does not touch the
  registry). The pool of requests is the list \<open>slots\<close>; the number of a slot identifies its task.
\<close>

section \<open>State\<close>

text \<open>Why a request makes room among the hot templates.\<close>

datatype goal = Promote template_runtime | Start_Cold template_config

datatype pc =
    Idle
  | Enter
  | Ask_Lock
  | Waiting
  | Recheck
  | Found_Hot template_runtime
  | Unpausing template_runtime "string list"
  | Hot_Check goal
  | Hot_Read goal string
  | Pausing goal string template_runtime "string list"
  | Warm_Check goal
  | Warm_Take goal string
  | Dropping goal "string list"
  | Removing goal string "string list"
  | Commit_Warm template_runtime
  | Replicas template_config "nat list" "string list" "string list"
  | Undoing fault "string list"
  | Finished "fault + template_runtime"

text \<open>
  A lock of a name is the queue of the tasks that asked for it, the head is the holder
  (\<open>tokio::sync::Mutex\<close> serves in order). \<open>name_locks\<close> is the table of the locks made so far.
\<close>

type_synonym lock_table = "(string, nat list) table"

record 'd service =
  reg :: "'d registry"
  name_locks :: lock_table
  slots :: "(string \<times> pc) list"

definition service_new :: "'d registry \<Rightarrow> nat \<Rightarrow> 'd service" where
  "service_new r k = \<lparr>reg = r, name_locks = [], slots = replicate k ([], Idle)\<rparr>"

section \<open>The lock of a name\<close>

definition name_lock :: "string \<Rightarrow> lock_table \<Rightarrow> nat list \<times> lock_table" where
  "name_lock n l = (case map_of l n of Some q \<Rightarrow> (q, l) | None \<Rightarrow> ([], AList.update n [] l))"

definition lock_queue :: "lock_table \<Rightarrow> string \<Rightarrow> nat list" where
  "lock_queue l n = fst (name_lock n l)"

definition ask_lock :: "nat \<Rightarrow> string \<Rightarrow> lock_table \<Rightarrow> lock_table" where
  "ask_lock i n l = (case name_lock n l of (q, l') \<Rightarrow> AList.update n (q @ [i]) l')"

text \<open>The guard is dropped, or the task gives up waiting.\<close>

definition leave_lock :: "nat \<Rightarrow> string \<Rightarrow> lock_table \<Rightarrow> lock_table" where
  "leave_lock i n l = (case map_of l n of Some q \<Rightarrow> AList.update n (remove1 i q) l | None \<Rightarrow> l)"

section \<open>Steps of a request\<close>

fun after_room :: "goal \<Rightarrow> pc" where
  "after_room (Promote rt) = Commit_Warm rt"
| "after_room (Start_Cold cfg) = Replicas cfg [0..<max 1 (n_containers cfg)] [] []"

text \<open>
  \<open>evict_hot_to_warm_if_needed_excluding\<close> (\<open>Hot_Check\<close>, \<open>Hot_Read\<close>, \<open>Pausing\<close>) and the
  \<open>evict_warm_to_cold_if_needed\<close> inside it (\<open>Warm_Check\<close>, \<open>Warm_Take\<close>, \<open>Dropping\<close>, \<open>Removing\<close>).
\<close>

definition hot_check :: "string \<Rightarrow> goal \<Rightarrow> 'd registry \<Rightarrow> pc" where
  "hot_check n g r =
     (if count_by_tier r Hot < hot_limit r then after_room g
      else case hot_victim n r of None \<Rightarrow> after_room g | Some v \<Rightarrow> Hot_Read g v)"

definition hot_read :: "goal \<Rightarrow> string \<Rightarrow> 'd registry \<Rightarrow> pc" where
  "hot_read g v r =
     (case map_of (runtimes r) v of
        None \<Rightarrow> Hot_Check g
      | Some (rt, _) \<Rightarrow> Pausing g v rt (container_ids rt))"

definition mark_warm :: "string \<Rightarrow> template_runtime \<Rightarrow> 'd registry \<Rightarrow> 'd registry" where
  "mark_warm v rt r = r\<lparr>runtimes := AList.update v (rt, Warm) (runtimes r)\<rparr>"

definition warm_check :: "goal \<Rightarrow> 'd registry \<Rightarrow> pc" where
  "warm_check g r =
     (if count_by_tier r Warm \<le> warm_limit r then Hot_Check g
      else case warm_victim r of None \<Rightarrow> Hot_Check g | Some v \<Rightarrow> Warm_Take g v)"

definition warm_take :: "goal \<Rightarrow> string \<Rightarrow> 'd registry \<Rightarrow> pc" where
  "warm_take g v r =
     (case map_of (runtimes r) v of
        None \<Rightarrow> Warm_Check g
      | Some (rt, _) \<Rightarrow> Dropping g (container_ids rt))"

definition forget :: "string \<Rightarrow> 'd registry \<Rightarrow> 'd registry" where
  "forget v r = r\<lparr>lru := filter (\<lambda>m. m \<noteq> v) (lru r), runtimes := AList.delete v (runtimes r)\<rparr>"

definition on_engine :: "('d \<Rightarrow> 'd) \<Rightarrow> 'd registry \<Rightarrow> 'd registry" where
  "on_engine f r = r\<lparr>engine_st := f (engine_st r)\<rparr>"

text \<open>The lookup under the name's lock, and the start of one replica.\<close>

definition recheck :: "string \<Rightarrow> 'd registry \<Rightarrow> pc" where
  "recheck n r =
     (case map_of (runtimes r) n of
        Some (rt, Hot) \<Rightarrow> Found_Hot rt
      | Some (rt, Warm) \<Rightarrow> Unpausing rt (container_ids rt)
      | None \<Rightarrow> (case map_of (configs r) n of
                    None \<Rightarrow> Finished (Inl (Failed (''unknown template: '' @ n)))
                  | Some cfg \<Rightarrow> Hot_Check (Start_Cold cfg)))"

definition replica_step :: "'d docker \<Rightarrow> env \<Rightarrow> template_config \<Rightarrow> nat \<Rightarrow> nat list \<Rightarrow> string list \<Rightarrow> string list
    \<Rightarrow> 'd registry \<Rightarrow> pc \<times> 'd registry" where
  "replica_step dk env cfg i is cids urls r =
     (case start_tools_container dk env cfg i (engine_st r) of (res, d) \<Rightarrow>
       (case res of
          Inr (cid, url) \<Rightarrow> Replicas cfg is (cids @ [cid]) (urls @ [url])
        | Inl Panicked \<Rightarrow> Finished (Inl Panicked)
        | Inl e \<Rightarrow> Undoing e cids,
        r\<lparr>engine_st := d\<rparr>))"

text \<open>One step of a request that neither waits for the lock of its name nor is over.\<close>

fun acquire_step :: "'d docker \<Rightarrow> env \<Rightarrow> string \<Rightarrow> pc \<Rightarrow> 'd registry \<Rightarrow> pc \<times> 'd registry" where
  "acquire_step dk env n Enter r =
     (case map_of (runtimes r) n of
        Some (rt, Hot) \<Rightarrow> (Finished (Inr rt), set_hot n rt r)
      | _ \<Rightarrow> (Ask_Lock, r))"
| "acquire_step dk env n Recheck r = (recheck n r, r)"
| "acquire_step dk env n (Found_Hot rt) r = (Finished (Inr rt), set_hot n rt r)"
| "acquire_step dk env n (Unpausing rt []) r = (Hot_Check (Promote rt), r)"
| "acquire_step dk env n (Unpausing rt (c # cs)) r =
     (Unpausing rt cs, on_engine (\<lambda>d. snd (unpause_container dk c d)) r)"
| "acquire_step dk env n (Hot_Check g) r = (hot_check n g r, r)"
| "acquire_step dk env n (Hot_Read g v) r = (hot_read g v r, r)"
| "acquire_step dk env n (Pausing g v rt []) r = (Warm_Check g, mark_warm v rt r)"
| "acquire_step dk env n (Pausing g v rt (c # cs)) r =
     (Pausing g v rt cs, on_engine (\<lambda>d. snd (pause_container dk c d)) r)"
| "acquire_step dk env n (Warm_Check g) r = (warm_check g r, r)"
| "acquire_step dk env n (Warm_Take g v) r = (warm_take g v r, forget v r)"
| "acquire_step dk env n (Dropping g []) r = (Warm_Check g, r)"
| "acquire_step dk env n (Dropping g (c # cs)) r =
     (Removing g c cs, on_engine (\<lambda>d. snd (unpause_container dk c d)) r)"
| "acquire_step dk env n (Removing g c cs) r =
     (Dropping g cs, on_engine (\<lambda>d. snd (remove_container dk c d)) r)"
| "acquire_step dk env n (Commit_Warm rt) r = (Finished (Inr rt), set_hot n rt r)"
| "acquire_step dk env n (Replicas cfg [] cids urls) r =
     (case cold_commit n (cids, urls) r of (rt, r') \<Rightarrow> (Finished (Inr rt), r'))"
| "acquire_step dk env n (Replicas cfg (i # is) cids urls) r = replica_step dk env cfg i is cids urls r"
| "acquire_step dk env n (Undoing e []) r = (Finished (Inl e), r)"
| "acquire_step dk env n (Undoing e (c # cs)) r =
     (Undoing e cs, on_engine (remove_container_best_effort dk c) r)"
| "acquire_step dk env n p r = (p, r)"

section \<open>Steps of the pool\<close>

fun over :: "pc \<Rightarrow> bool" where
  "over (Finished res) = True"
| "over Idle = True"
| "over p = False"

text \<open>The control points that hold the guard of the name's lock.\<close>

fun inside :: "pc \<Rightarrow> bool" where
  "inside Idle = False"
| "inside Enter = False"
| "inside Ask_Lock = False"
| "inside Waiting = False"
| "inside (Finished res) = False"
| "inside p = True"

definition move :: "nat \<Rightarrow> pc \<Rightarrow> 'd service \<Rightarrow> 'd service" where
  "move i p s = s\<lparr>slots := (slots s)[i := (fst (slots s ! i), p)]\<rparr>"

text \<open>
  \<open>advance\<close> runs task \<open>i\<close> to its next \<open>.await\<close>; \<open>None\<close>: there is no such task, it is over, or it
  waits for the lock. A task that returns drops its guard.
\<close>

definition advance :: "'d docker \<Rightarrow> env \<Rightarrow> nat \<Rightarrow> 'd service \<Rightarrow> 'd service option" where
  "advance dk env i s =
     (if length (slots s) \<le> i then None
      else case slots s ! i of (n, p) \<Rightarrow>
        if over p then None
        else if p = Ask_Lock then Some (move i Waiting (s\<lparr>name_locks := ask_lock i n (name_locks s)\<rparr>))
        else if p = Waiting then
          (if hd (lock_queue (name_locks s) n) = i then Some (move i Recheck s) else None)
        else case acquire_step dk env n p (reg s) of (p', r') \<Rightarrow>
          Some (move i p' (s\<lparr>reg := r',
            name_locks := if inside p \<and> over p' then leave_lock i n (name_locks s) else name_locks s\<rparr>)))"

text \<open>The client goes away: the future is dropped at its \<open>.await\<close>.\<close>

definition cancel :: "nat \<Rightarrow> 'd service \<Rightarrow> 'd service option" where
  "cancel i s =
     (if length (slots s) \<le> i then None
      else case slots s ! i of (n, p) \<Rightarrow>
        if over p then None
        else Some (move i Idle (s\<lparr>name_locks :=
          if p = Waiting \<or> inside p then leave_lock i n (name_locks s) else name_locks s\<rparr>)))"

text \<open>A new request in a free slot.\<close>

definition arrive :: "nat \<Rightarrow> string \<Rightarrow> 'd service \<Rightarrow> 'd service option" where
  "arrive i n s =
     (if length (slots s) \<le> i \<or> \<not> over (snd (slots s ! i)) then None
      else Some (s\<lparr>slots := (slots s)[i := (n, Enter)]\<rparr>))"

inductive service_step :: "'d docker \<Rightarrow> env \<Rightarrow> 'd service \<Rightarrow> 'd service \<Rightarrow> bool" for dk env where
  step_run: "advance dk env i s = Some s' \<Longrightarrow> service_step dk env s s'"
| step_cancel: "cancel i s = Some s' \<Longrightarrow> service_step dk env s s'"
| step_arrive: "arrive i n s = Some s' \<Longrightarrow> service_step dk env s s'"
| step_choose: "pick_daemon_url rt (reg s) = (u, r') \<Longrightarrow> service_step dk env s (s\<lparr>reg := r'\<rparr>)"
| step_outside: "service_step dk env s (s\<lparr>reg := on_engine f (reg s)\<rparr>)"

text \<open>A schedule names the task that runs next.\<close>

fun run_schedule :: "'d docker \<Rightarrow> env \<Rightarrow> nat list \<Rightarrow> 'd service \<Rightarrow> 'd service option" where
  "run_schedule dk env [] s = Some s"
| "run_schedule dk env (i # is) s = Option.bind (advance dk env i s) (run_schedule dk env is)"

end
