(* ===== verification/Registry_Locks.thy ===== *)
theory Registry_Locks
  imports Registry_Tasks
begin

text \<open>
  The locks of the template names. A request relies on a fair lock: whoever asks goes to the end
  of the queue, whoever leaves goes out of it, and the queues of other names stay. What the tasks make of
  it (who waits is queued, who is inside heads the queue) is proved once over that interface, and the
  table of locks provides it.
\<close>

section \<open>Tasks and queues\<close>

definition wants :: "pc \<Rightarrow> bool" where
  "wants p \<longleftrightarrow> p = Waiting \<or> inside p"

lemma wants_simps [simp]:
  "wants Waiting" "\<not> wants Idle" "\<not> wants Enter" "\<not> wants Ask_Lock" "\<not> wants (Finished res)"
  "inside p \<Longrightarrow> wants p"
  by (simp_all add: wants_def)

lemma over_not_wants: "over p \<Longrightarrow> \<not> wants p"
  by (cases p) auto

definition queue_ok :: "nat list \<Rightarrow> string \<Rightarrow> (string \<times> pc) list \<Rightarrow> bool" where
  "queue_ok q n sl \<longleftrightarrow> distinct q
     \<and> (\<forall>i. i \<in> set q \<longleftrightarrow> i < length sl \<and> fst (sl ! i) = n \<and> wants (snd (sl ! i)))
     \<and> (\<forall>i < length sl. fst (sl ! i) = n \<longrightarrow> inside (snd (sl ! i)) \<longrightarrow> hd q = i)"

text \<open>Of a whole table of queues.\<close>

definition queues_ok :: "(string \<Rightarrow> nat list) \<Rightarrow> (string \<times> pc) list \<Rightarrow> bool" where
  "queues_ok q sl \<longleftrightarrow> (\<forall>n. queue_ok (q n) n sl)"

lemma queue_okI:
  assumes "distinct q" "\<And>i. i \<in> set q \<longleftrightarrow> i < length sl \<and> fst (sl ! i) = n \<and> wants (snd (sl ! i))"
    "\<And>i. i < length sl \<Longrightarrow> fst (sl ! i) = n \<Longrightarrow> inside (snd (sl ! i)) \<Longrightarrow> hd q = i"
  shows "queue_ok q n sl"
  using assms unfolding queue_ok_def by blast

lemma queue_okD:
  assumes "queue_ok q n sl"
  shows "distinct q" "i \<in> set q \<longleftrightarrow> i < length sl \<and> fst (sl ! i) = n \<and> wants (snd (sl ! i))"
    "i < length sl \<Longrightarrow> fst (sl ! i) = n \<Longrightarrow> inside (snd (sl ! i)) \<Longrightarrow> hd q = i"
  using assms unfolding queue_ok_def by blast+

lemma queues_okD: "queues_ok q sl \<Longrightarrow> queue_ok (q n) n sl"
  by (simp add: queues_ok_def)

lemma queue_ok_update:
  assumes "queue_ok q n sl" "i < length sl" "distinct q'"
    and "\<And>j. j \<noteq> i \<Longrightarrow> j \<in> set q' \<longleftrightarrow> j \<in> set q" "i \<in> set q' \<longleftrightarrow> fst x = n \<and> wants (snd x)"
    and "\<And>j. j \<noteq> i \<Longrightarrow> j \<in> set q \<Longrightarrow> hd q = j \<Longrightarrow> hd q' = j" "fst x = n \<Longrightarrow> inside (snd x) \<Longrightarrow> hd q' = i"
  shows "queue_ok q' n (sl[i := x])"
proof (rule queue_okI [OF assms(3)])
  note q = queue_okD [OF assms(1)]
  have at: "sl[i := x] ! j = (if j = i then x else sl ! j)" for j
    using assms(2) by (simp add: nth_list_update)
  show "j \<in> set q' \<longleftrightarrow> j < length (sl[i := x]) \<and> fst (sl[i := x] ! j) = n \<and> wants (snd (sl[i := x] ! j))" for j
    unfolding at using q(2) [of j] assms(2,4,5) by (cases "j = i") simp_all
  show "hd q' = j" if "j < length (sl[i := x])" "fst (sl[i := x] ! j) = n" "inside (snd (sl[i := x] ! j))" for j
  proof (cases "j = i")
    case True
    then show ?thesis using that assms(7) unfolding at by simp
  next
    case False
    then have j: "j < length sl" "fst (sl ! j) = n" "inside (snd (sl ! j))" using that unfolding at by simp_all
    then have "j \<in> set q" unfolding q(2) by simp
    then show ?thesis using assms(6) [OF False] q(3) [OF j] by blast
  qed
qed

section \<open>The interface of a fair lock\<close>

locale fair_locks =
  fixes queue :: "'l \<Rightarrow> string \<Rightarrow> nat list"
    and ask :: "nat \<Rightarrow> string \<Rightarrow> 'l \<Rightarrow> 'l"
    and leave :: "nat \<Rightarrow> string \<Rightarrow> 'l \<Rightarrow> 'l"
  assumes queue_ask: "queue (ask i n l) m = (if m = n then queue l n @ [i] else queue l m)"
    and queue_leave: "queue (leave i n l) m = (if m = n then remove1 i (queue l n) else queue l m)"
begin

text \<open>Two tasks are never in a transition of the same template.\<close>

lemma mutual_exclusion:
  assumes "queues_ok (queue l) sl" "i < length sl" "j < length sl" "fst (sl ! i) = fst (sl ! j)"
    "inside (snd (sl ! i))" "inside (snd (sl ! j))"
  shows "i = j"
  using queue_okD(3) [OF queues_okD [OF assms(1)]] assms(2-) by metis

lemma place:
  assumes "queues_ok (queue l) sl" "i < length sl"
  shows "distinct (queue l m)" "i \<in> set (queue l m) \<longleftrightarrow> fst (sl ! i) = m \<and> wants (snd (sl ! i))"
    "inside (snd (sl ! i)) \<Longrightarrow> hd (queue l (fst (sl ! i))) = i"
  using queue_okD(1,2) [OF queues_okD [OF assms(1), of m]]
    queue_okD(3) [OF queues_okD [OF assms(1), of "fst (sl ! i)"] assms(2)] assms(2)
  by simp_all

lemma stay:
  assumes "queues_ok (queue l) sl" "i < length sl" "sl ! i = (n, p)" "wants p' = wants p"
    "inside p' \<Longrightarrow> inside p \<or> hd (queue l n) = i"
  shows "queues_ok (queue l) (sl[i := (n, p')])"
  unfolding queues_ok_def
  using place [OF assms(1,2)] assms
  by (intro allI queue_ok_update [OF queues_okD [OF assms(1)] assms(2)]) auto

lemma ask:
  assumes "queues_ok (queue l) sl" "i < length sl" "sl ! i = (n, p)" "\<not> wants p"
  shows "queues_ok (queue (ask i n l)) (sl[i := (n, Waiting)])"
  unfolding queues_ok_def
  using place [OF assms(1,2)] assms(2-)
  by (intro allI queue_ok_update [OF queues_okD [OF assms(1)] assms(2)]) (auto simp: hd_append queue_ask)

lemma leave:
  assumes "queues_ok (queue l) sl" "i < length sl" "sl ! i = (n, p)" "\<not> wants p'"
  shows "queues_ok (queue (leave i n l)) (sl[i := (n, p')])"
  unfolding queues_ok_def
proof
  fix m
  note q = place(1,2) [OF assms(1,2), of m] place(3) [OF assms(1,2)]
  have hd: "hd (remove1 i q) = j" if "j \<noteq> i" "j \<in> set q" "hd q = j" for j q
    using that by (cases q) auto
  have "\<not> inside p'" using assms(4) by auto
  then show "queue_ok (queue (leave i n l) m) m (sl[i := (n, p')])"
    using q assms(2-)
    by (intro queue_ok_update [OF queues_okD [OF assms(1)] assms(2)]) (auto simp: hd queue_leave split: if_splits)
qed

lemma outside:
  assumes "queues_ok (queue l) sl" "i < length sl" "\<not> wants (snd (sl ! i))" "\<not> wants p'"
  shows "queues_ok (queue l) (sl[i := (m, p')])"
  unfolding queues_ok_def
proof
  fix k
  have "\<not> inside p'" using assms(4) by auto
  then show "queue_ok (queue l k) k (sl[i := (m, p')])"
    using place(1,2) [OF assms(1,2), of k] place(3) [OF assms(1,2)] assms(2-)
    by (intro queue_ok_update [OF queues_okD [OF assms(1)] assms(2)]) auto
qed

end

section \<open>The table of locks\<close>

lemma lock_queue_ask [simp]:
  "lock_queue (ask_lock i n l) m = (if m = n then lock_queue l n @ [i] else lock_queue l m)"
  by (simp add: lock_queue_def ask_lock_def name_lock_def lookup_update split: option.split)

lemma lock_queue_leave [simp]:
  "lock_queue (leave_lock i n l) m = (if m = n then remove1 i (lock_queue l n) else lock_queue l m)"
  by (simp add: lock_queue_def leave_lock_def name_lock_def lookup_update split: option.split)

interpretation names: fair_locks lock_queue ask_lock leave_lock
  by unfold_locales simp_all

abbreviation locks_ok :: "lock_table \<Rightarrow> (string \<times> pc) list \<Rightarrow> bool" where
  "locks_ok l \<equiv> queues_ok (lock_queue l)"

end
