(* ===== verification/Registry_Concurrent.thy ===== *)
theory Registry_Concurrent
  imports Registry_Locks
begin

text \<open>
  Correctness of concurrent requests: what holds of the tables, the locks and the limits in
  every state that any interleaving reaches, and that every request is answered.
\<close>

section \<open>The shared tables\<close>

definition shared_ok :: "'d registry \<Rightarrow> bool" where
  "shared_ok r \<longleftrightarrow> distinct (keys (runtimes r)) \<and> distinct (lru r) \<and> set (lru r) \<subseteq> set (keys (runtimes r))
     \<and> set (keys (runtimes r)) \<subseteq> set (keys (configs r))
     \<and> (\<forall>n rt t. map_of (runtimes r) n = Some (rt, t) \<longrightarrow> runtime_ok r rt)
     \<and> (\<forall>n. tier_of r n = Some Hot \<longrightarrow> n \<in> set (lru r))"

lemma shared_okI:
  assumes "distinct (keys (runtimes r))" "distinct (lru r)" "set (lru r) \<subseteq> set (keys (runtimes r))"
    "set (keys (runtimes r)) \<subseteq> set (keys (configs r))"
    "\<And>n rt t. map_of (runtimes r) n = Some (rt, t) \<Longrightarrow> runtime_ok r rt"
    "\<And>n. tier_of r n = Some Hot \<Longrightarrow> n \<in> set (lru r)"
  shows "shared_ok r"
  using assms unfolding shared_ok_def by blast

lemma shared_okD:
  assumes "shared_ok r"
  shows "distinct (keys (runtimes r))" "distinct (lru r)" "set (lru r) \<subseteq> set (keys (runtimes r))"
    "set (keys (runtimes r)) \<subseteq> set (keys (configs r))"
    "map_of (runtimes r) n = Some (rt, t) \<Longrightarrow> runtime_ok r rt"
    "tier_of r n = Some Hot \<Longrightarrow> n \<in> set (lru r)"
  using assms unfolding shared_ok_def by blast+

lemma shared_ok_entry: "shared_ok r \<Longrightarrow> map_of (runtimes r) n = Some (rt, t) \<Longrightarrow> n \<in> set (keys (configs r))"
  using shared_okD(4) lookup_keys by fast

lemma shared_ok_lru: "shared_ok r \<Longrightarrow> n \<in> set (lru r) \<Longrightarrow> n \<in> set (keys (configs r))"
  using shared_okD(3,4) by blast

lemma tables_ok_shared:
  assumes "tables_ok r"
  shows "shared_ok r"
proof (rule shared_okI)
  note ok = tables_okD [OF assms]
  show "n \<in> set (lru r)" if "tier_of r n = Some Hot" for n
    using that lookup_keys [of "runtimes r" n] unfolding ok(3) by (auto simp: tier_of_def simp del: list.set_map)
  show "runtime_ok r rt" if "map_of (runtimes r) n = Some (rt, t)" for n rt t by (rule ok(5) [OF that])
qed (use tables_okD [OF assms] in \<open>simp_all only: order_refl\<close>)

text \<open>What the steps do to the tables.\<close>

definition hot_names :: "'d registry \<Rightarrow> string set" where
  "hot_names r = {n. tier_of r n = Some Hot}"

lemma tier_of_changes [simp]:
  "tier_of (set_hot n rt r) m = (if m = n then Some Hot else tier_of r m)"
  "tier_of (mark_warm n rt r) m = (if m = n then Some Warm else tier_of r m)"
  "tier_of (forget n r) m = (if m = n then None else tier_of r m)"
  "tier_of (on_engine f r) m = tier_of r m"
  "tier_of (r\<lparr>counters := c\<rparr>) m = tier_of r m"
  by (simp_all add: tier_of_def set_hot_def mark_warm_def forget_def on_engine_def table_simps)

lemma hot_names_changes [simp]:
  "hot_names (set_hot n rt r) = insert n (hot_names r)"
  "hot_names (mark_warm n rt r) = hot_names r - {n}"
  "hot_names (forget n r) = hot_names r - {n}"
  "hot_names (on_engine f r) = hot_names r"
  "hot_names (r\<lparr>counters := c\<rparr>) = hot_names r"
  by (auto simp: hot_names_def split: if_splits)

lemma finite_hot_names [simp]: "finite (hot_names r)"
  by (rule finite_subset [of _ "set (keys (runtimes r))"]) (auto simp: hot_names_def tier_of_def dest: lookup_keys)

lemma count_hot_card:
  assumes "distinct (keys (runtimes r))"
  shows "count_by_tier r Hot = card (hot_names r)"
proof -
  let ?t = "filter (\<lambda>(_, _, t'). t' = Hot) (runtimes r)"
  have "distinct (keys ?t)" using assms by (simp add: distinct_map_filter)
  moreover have "set (keys ?t) = hot_names r"
    using assms by (force simp: hot_names_def tier_of_def map_of_eq_Some_iff)
  ultimately show ?thesis unfolding count_by_tier_def by (metis distinct_card length_map)
qed

lemma service_fields [simp]:
  "lru (set_hot n rt r) = touch_lru n (lru r)" "lru (mark_warm n rt r) = lru r"
  "lru (forget n r) = filter (\<lambda>m. m \<noteq> n) (lru r)" "lru (on_engine f r) = lru r"
  "configs (set_hot n rt r) = configs r" "configs (mark_warm n rt r) = configs r"
  "configs (forget n r) = configs r" "configs (on_engine f r) = configs r"
  "counters (set_hot n rt r) = counters r" "counters (mark_warm n rt r) = counters r"
  "counters (forget n r) = counters r" "counters (on_engine f r) = counters r"
  "hot_limit (set_hot n rt r) = hot_limit r" "hot_limit (mark_warm n rt r) = hot_limit r"
  "hot_limit (forget n r) = hot_limit r" "hot_limit (on_engine f r) = hot_limit r"
  "runtimes (on_engine f r) = runtimes r"
  by (simp_all add: set_hot_def mark_warm_def forget_def on_engine_def)

lemma set_touch_lru [simp]: "distinct l \<Longrightarrow> set (touch_lru n l) = insert n (set l)"
  by (auto simp: touch_lru_def)

lemma runtime_ok_grow:
  "runtime_ok r rt \<Longrightarrow> length (counters r) \<le> length (counters r') \<Longrightarrow> runtime_ok r' rt"
  by (simp add: runtime_ok_def)

lemma runtime_ok_fields [simp]:
  "runtime_ok (set_hot n rt' r) rt = runtime_ok r rt" "runtime_ok (mark_warm n rt' r) rt = runtime_ok r rt"
  "runtime_ok (forget n r) rt = runtime_ok r rt" "runtime_ok (on_engine f r) rt = runtime_ok r rt"
  by (simp_all add: runtime_ok_def)

lemma shared_ok_engine [simp]: "shared_ok (on_engine f r) = shared_ok r"
  by (simp add: shared_ok_def)

lemma shared_ok_counters:
  "shared_ok r \<Longrightarrow> length (counters r) \<le> length c \<Longrightarrow> shared_ok (r\<lparr>counters := c\<rparr>)"
  using shared_okD [of r] runtime_ok_grow [of r _ "r\<lparr>counters := c\<rparr>"]
  by (intro shared_okI) simp_all

lemma shared_ok_set_hot:
  assumes "shared_ok r" "n \<in> set (keys (configs r))" "runtime_ok r rt"
  shows "shared_ok (set_hot n rt r)"
proof (rule shared_okI)
  note ok = shared_okD [OF assms(1)]
  have rts: "runtimes (set_hot n rt r) = AList.update n (rt, Hot) (runtimes r)" by (simp add: set_hot_def)
  show "distinct (keys (runtimes (set_hot n rt r)))" unfolding rts by (rule distinct_update [OF ok(1)])
  show "distinct (lru (set_hot n rt r))" using ok(2) by (simp add: touch_lru_def)
  show "set (lru (set_hot n rt r)) \<subseteq> set (keys (runtimes (set_hot n rt r)))"
    unfolding rts keys_update using ok(2,3) by auto
  show "set (keys (runtimes (set_hot n rt r))) \<subseteq> set (keys (configs (set_hot n rt r)))"
    unfolding rts keys_update using ok(4) assms(2) by simp
  show "runtime_ok (set_hot n rt r) rt'" if "map_of (runtimes (set_hot n rt r)) m = Some (rt', t)" for m rt' t
    using that ok(5) [of m rt' t] assms(3) unfolding rts lookup_update by (simp split: if_splits)
  show "m \<in> set (lru (set_hot n rt r))" if "tier_of (set_hot n rt r) m = Some Hot" for m
    using that ok(2,6) by (auto split: if_splits)
qed

lemma shared_ok_mark_warm:
  assumes "shared_ok r" "v \<in> set (keys (configs r))" "runtime_ok r rt"
  shows "shared_ok (mark_warm v rt r)"
proof (rule shared_okI)
  note ok = shared_okD [OF assms(1)]
  have rts: "runtimes (mark_warm v rt r) = AList.update v (rt, Warm) (runtimes r)" by (simp add: mark_warm_def)
  show "distinct (keys (runtimes (mark_warm v rt r)))" unfolding rts by (rule distinct_update [OF ok(1)])
  show "distinct (lru (mark_warm v rt r))" using ok(2) by simp
  show "set (lru (mark_warm v rt r)) \<subseteq> set (keys (runtimes (mark_warm v rt r)))"
    unfolding rts keys_update using ok(3) by auto
  show "set (keys (runtimes (mark_warm v rt r))) \<subseteq> set (keys (configs (mark_warm v rt r)))"
    unfolding rts keys_update using ok(4) assms(2) by simp
  show "runtime_ok (mark_warm v rt r) rt'" if "map_of (runtimes (mark_warm v rt r)) m = Some (rt', t)" for m rt' t
    using that ok(5) [of m rt' t] assms(3) unfolding rts lookup_update by (simp split: if_splits)
  show "m \<in> set (lru (mark_warm v rt r))" if "tier_of (mark_warm v rt r) m = Some Hot" for m
    using that ok(6) by (auto split: if_splits)
qed

lemma shared_ok_forget:
  assumes "shared_ok r"
  shows "shared_ok (forget v r)"
proof (rule shared_okI)
  note ok = shared_okD [OF assms]
  have rts: "runtimes (forget v r) = AList.delete v (runtimes r)" by (simp add: forget_def)
  show "distinct (keys (runtimes (forget v r)))" unfolding rts by (rule distinct_delete [OF ok(1)])
  show "distinct (lru (forget v r))" using ok(2) by simp
  show "set (lru (forget v r)) \<subseteq> set (keys (runtimes (forget v r)))"
    unfolding rts keys_delete using ok(3) by auto
  show "set (keys (runtimes (forget v r))) \<subseteq> set (keys (configs (forget v r)))"
    unfolding rts keys_delete using ok(4) by auto
  show "runtime_ok (forget v r) rt" if "map_of (runtimes (forget v r)) m = Some (rt, t)" for m rt t
    using that ok(5) [of m rt t] unfolding rts lookup_delete by (simp split: if_splits)
  show "m \<in> set (lru (forget v r))" if "tier_of (forget v r) m = Some Hot" for m
    using that ok(6) by (auto split: if_splits)
qed

section \<open>What a request knows\<close>

text \<open>Until it enters the template, a request in transition finds it not hot.\<close>

definition room_ok :: "'d registry \<Rightarrow> string \<Rightarrow> goal \<Rightarrow> bool" where
  "room_ok r n g \<longleftrightarrow> n \<in> set (keys (configs r)) \<and> tier_of r n \<noteq> Some Hot
     \<and> (case g of Promote rt \<Rightarrow> runtime_ok r rt | Start_Cold cfg \<Rightarrow> True)"

lemma room_ok_engine [simp]: "room_ok (on_engine f r) n g = room_ok r n g"
  by (simp add: room_ok_def split: goal.split)

lemma room_ok_demoted [simp]:
  "room_ok r n g \<Longrightarrow> room_ok (mark_warm v rt r) n g" "room_ok r n g \<Longrightarrow> room_ok (forget v r) n g"
  by (simp_all add: room_ok_def split: goal.splits)

fun pc_ok :: "'d registry \<Rightarrow> string \<Rightarrow> pc \<Rightarrow> bool" where
  "pc_ok r n (Found_Hot rt) = (n \<in> set (keys (configs r)) \<and> runtime_ok r rt)"
| "pc_ok r n (Unpausing rt cs) = room_ok r n (Promote rt)"
| "pc_ok r n (Hot_Check g) = room_ok r n g"
| "pc_ok r n (Hot_Read g v) = (room_ok r n g \<and> v \<in> set (keys (configs r)))"
| "pc_ok r n (Pausing g v rt cs) = (room_ok r n g \<and> v \<in> set (keys (configs r)) \<and> runtime_ok r rt)"
| "pc_ok r n (Warm_Check g) = room_ok r n g"
| "pc_ok r n (Warm_Take g v) = room_ok r n g"
| "pc_ok r n (Dropping g cs) = room_ok r n g"
| "pc_ok r n (Removing g c cs) = room_ok r n g"
| "pc_ok r n (Commit_Warm rt) = room_ok r n (Promote rt)"
| "pc_ok r n (Replicas cfg is cids urls) =
     (room_ok r n (Start_Cold cfg) \<and> length cids = length urls \<and> (is \<noteq> [] \<or> cids \<noteq> []))"
| "pc_ok r n p = True"

lemma pc_ok_stable:
  assumes "pc_ok r n p" "configs r' = configs r" "length (counters r) \<le> length (counters r')"
    and "inside p \<Longrightarrow> tier_of r n \<noteq> Some Hot \<Longrightarrow> tier_of r' n \<noteq> Some Hot"
  shows "pc_ok r' n p"
  using assms by (cases p) (auto simp: room_ok_def intro: runtime_ok_grow split: goal.splits)

lemma pc_ok_after_room: "room_ok r n g \<Longrightarrow> pc_ok r n (after_room g)"
  by (cases g) (auto simp: room_ok_def)

section \<open>The control flow of a request\<close>

inductive leads :: "pc \<Rightarrow> pc \<Rightarrow> bool" where
  "leads Enter Ask_Lock"
| "leads Enter (Finished (Inr rt))"
| "leads Recheck (Found_Hot rt)"
| "leads Recheck (Unpausing rt cs)"
| "leads Recheck (Hot_Check (Start_Cold cfg))"
| "leads Recheck (Finished (Inl e))"
| "leads (Found_Hot rt) (Finished (Inr rt))"
| "leads (Unpausing rt (c # cs)) (Unpausing rt cs)"
| "leads (Unpausing rt []) (Hot_Check (Promote rt))"
| "leads (Hot_Check g) (after_room g)"
| "leads (Hot_Check g) (Hot_Read g v)"
| "leads (Hot_Read g v) (Hot_Check g)"
| "leads (Hot_Read g v) (Pausing g v rt cs)"
| "leads (Pausing g v rt (c # cs)) (Pausing g v rt cs)"
| "leads (Pausing g v rt []) (Warm_Check g)"
| "leads (Warm_Check g) (Hot_Check g)"
| "leads (Warm_Check g) (Warm_Take g v)"
| "leads (Warm_Take g v) (Warm_Check g)"
| "leads (Warm_Take g v) (Dropping g cs)"
| "leads (Dropping g (c # cs)) (Removing g c cs)"
| "leads (Removing g c cs) (Dropping g cs)"
| "leads (Dropping g []) (Warm_Check g)"
| "leads (Commit_Warm rt) (Finished (Inr rt))"
| "leads (Replicas cfg (i # is) cids urls) (Replicas cfg is (cids @ [cid]) (urls @ [url]))"
| "leads (Replicas cfg (i # is) cids urls) (Undoing e cids)"
| "leads (Replicas cfg (i # is) cids urls) (Finished (Inl e))"
| "leads (Replicas cfg [] cids urls) (Finished (Inr rt))"
| "leads (Undoing e (c # cs)) (Undoing e cs)"
| "leads (Undoing e []) (Finished (Inl e))"

lemma replica_step_leads:
  "replica_step dk env cfg i is cids urls r = (p', r') \<Longrightarrow> leads (Replicas cfg (i # is) cids urls) p'"
  by (auto simp: replica_step_def intro: leads.intros split: prod.splits sum.splits fault.splits)

lemma acquire_step_leads:
  "acquire_step dk env n p r = (p', r') \<Longrightarrow> p = Enter \<or> inside p \<Longrightarrow> leads p p'"
  by (induction dk env n p r rule: acquire_step.induct)
    (auto simp: recheck_def hot_check_def hot_read_def warm_check_def warm_take_def cold_commit_def Let_def
      intro: leads.intros dest: replica_step_leads split: option.splits prod.splits tier.splits if_splits)

lemma leads_inside:
  "leads p p' \<Longrightarrow> p = Enter \<and> (p' = Ask_Lock \<or> over p') \<or> inside p \<and> (inside p' \<or> over p')"
  by (induction rule: leads.induct) (auto split: goal.split, (case_tac g; simp)+)

section \<open>One step of a request\<close>

fun committing :: "pc \<Rightarrow> bool" where
  "committing (Commit_Warm rt) = True"
| "committing (Replicas cfg is cids urls) = True"
| "committing p = False"

fun found :: "pc \<Rightarrow> bool" where
  "found (Found_Hot rt) = True"
| "found p = False"

text \<open>The changes of the tables, with what allowed them.\<close>

inductive table_change :: "string \<Rightarrow> pc \<Rightarrow> 'd registry \<Rightarrow> pc \<Rightarrow> 'd registry \<Rightarrow> bool" where
  keep_tables: "\<not> committing p' \<or> (\<exists>g. p = Hot_Check g) \<or> committing p \<Longrightarrow>
    p' = Ask_Lock \<and> p = Enter \<or> inside p \<and> (inside p' \<or> over p') \<Longrightarrow> table_change n p r p' (on_engine f r)"
| enter_hot: "n \<in> set (keys (configs r)) \<Longrightarrow> runtime_ok (r\<lparr>counters := counters r @ c\<rparr>) rt \<Longrightarrow>
    tier_of r n = Some Hot \<or> found p \<or> committing p \<Longrightarrow> p = Enter \<or> inside p \<Longrightarrow>
    table_change n p r (Finished (Inr rt)) (set_hot n rt (r\<lparr>counters := counters r @ c\<rparr>))"
| to_warm: "v \<in> set (keys (configs r)) \<Longrightarrow> runtime_ok r rt \<Longrightarrow>
    table_change n (Pausing g v rt []) r (Warm_Check g) (mark_warm v rt r)"
| to_cold: "\<not> committing p' \<Longrightarrow> inside p' \<Longrightarrow> table_change n (Warm_Take g v) r p' (forget v r)"

lemma on_engine_id: "on_engine (\<lambda>d. d) r = r"
  by (simp add: on_engine_def)

lemma keep_tables_same:
  "\<not> committing p' \<or> (\<exists>g. p = Hot_Check g) \<or> committing p \<Longrightarrow>
   p' = Ask_Lock \<and> p = Enter \<or> inside p \<and> (inside p' \<or> over p') \<Longrightarrow> table_change n p r p' r"
  using keep_tables [of p' p n r "\<lambda>d. d"] by (simp add: on_engine_id)

lemma after_room_inside [simp]: "inside (after_room g)" "\<not> over (after_room g)" "\<not> found (after_room g)"
  "committing (after_room g)"
  by (cases g; simp)+

lemma inside_control [simp]:
  "inside (hot_check n g r)" "inside (hot_read g v r)" "inside (warm_check g r)" "inside (warm_take g v r)"
  "inside (recheck n r) \<or> over (recheck n r)"
  by (auto simp: hot_check_def hot_read_def warm_check_def warm_take_def recheck_def split: option.split tier.split)

lemma committing_control [simp]:
  "\<not> committing (hot_read g v r)" "\<not> committing (warm_check g r)" "\<not> committing (warm_take g v r)"
  "\<not> committing (recheck n r)"
  by (auto simp: hot_read_def warm_check_def warm_take_def recheck_def split: option.split tier.split)

lemma enter_hot_same:
  assumes "shared_ok r" "pc_ok r n p" "p = Found_Hot rt \<or> p = Commit_Warm rt"
  shows "table_change n p r (Finished (Inr rt)) (set_hot n rt r)"
  using enter_hot [of n r "[]" rt p] assms by (auto simp: room_ok_def)

lemma replica_step_change:
  assumes "replica_step dk env cfg i is cids urls r = (p', r')"
  shows "\<exists>f. r' = on_engine f r"
    and "(\<exists>cid url. p' = Replicas cfg is (cids @ [cid]) (urls @ [url])) \<or> (\<exists>e. p' = Undoing e cids) \<or> (\<exists>e. p' = Finished e)"
  using assms by (auto simp: replica_step_def on_engine_def split: prod.splits sum.splits fault.splits)

lemma leads_committing: "leads p p' \<Longrightarrow> committing p' \<Longrightarrow> (\<exists>g. p = Hot_Check g) \<or> committing p"
  by (induction rule: leads.induct) auto

lemma leads_keep:
  assumes "leads p p'" "inside p \<or> p' = Ask_Lock"
  shows "table_change n p r p' (on_engine f r)"
  using leads_inside [OF assms(1)] leads_committing [OF assms(1)] assms(2) by (intro keep_tables) auto

lemma change_enter:
  assumes "acquire_step dk env n Enter r = (p', r')" "shared_ok r"
  shows "table_change n Enter r p' r'"
proof (cases "\<exists>rt. map_of (runtimes r) n = Some (rt, Hot)")
  case True
  then obtain rt where m: "map_of (runtimes r) n = Some (rt, Hot)" by blast
  then have "p' = Finished (Inr rt)" "r' = set_hot n rt r" using assms(1) by auto
  moreover have "tier_of r n = Some Hot" using m by (simp add: tier_of_def)
  ultimately show ?thesis
    using enter_hot [of n r "[]" rt Enter] shared_ok_entry [OF assms(2) m] shared_okD(5) [OF assms(2) m] by simp
next
  case False
  then have "p' = Ask_Lock" "r' = r" using assms(1) by (auto split: option.splits prod.splits tier.splits)
  then show ?thesis by (auto intro: keep_tables_same)
qed

lemma change_commit_cold:
  assumes "acquire_step dk env n (Replicas cfg [] cids urls) r = (p', r')" "pc_ok r n (Replicas cfg [] cids urls)"
  shows "table_change n (Replicas cfg [] cids urls) r p' r'"
proof -
  let ?rt = "\<lparr>container_ids = cids, daemon_urls = urls, rr_addr = length (counters r)\<rparr>"
  have "n \<in> set (keys (configs r))" "length cids = length urls" "cids \<noteq> []"
    using assms(2) by (auto simp: room_ok_def)
  then have "table_change n (Replicas cfg [] cids urls) r (Finished (Inr ?rt))
      (set_hot n ?rt (r\<lparr>counters := counters r @ [0]\<rparr>))"
    by (intro enter_hot) (simp_all add: runtime_ok_def)
  then show ?thesis using assms(1) by (auto simp: cold_commit_def Let_def)
qed

text \<open>All other steps at most call the engine.\<close>

fun writes :: "pc \<Rightarrow> bool" where
  "writes Enter = True"
| "writes (Found_Hot rt) = True"
| "writes (Commit_Warm rt) = True"
| "writes (Replicas cfg [] cids urls) = True"
| "writes (Pausing g v rt []) = True"
| "writes (Warm_Take g v) = True"
| "writes p = False"

lemma acquire_step_engine:
  "acquire_step dk env n p r = (p', r') \<Longrightarrow> \<not> writes p \<Longrightarrow> \<exists>f. r' = on_engine f r"
proof (induction dk env n p r rule: acquire_step.induct)
  case (17 dk env n cfg i "is" cids urls r)
  then show ?case by (simp add: replica_step_change(1))
qed (auto intro: exI [of _ "\<lambda>d. d"] simp: on_engine_id)

lemma writes_change:
  assumes st: "acquire_step dk env n p r = (p', r')" and ok: "shared_ok r" "pc_ok r n p" and w: "writes p"
  shows "table_change n p r p' r'"
proof (cases p)
  case Enter
  then show ?thesis using change_enter [OF st [unfolded Enter] ok(1)] by simp
next
  case (Replicas cfg js cids urls)
  then have p: "p = Replicas cfg [] cids urls" using w by (cases js) auto
  show ?thesis unfolding p by (rule change_commit_cold [OF st [unfolded p] ok(2) [unfolded p]])
next
  case (Pausing g v rt cs)
  then have p: "p = Pausing g v rt []" using w by (cases cs) auto
  then have "p' = Warm_Check g" "r' = mark_warm v rt r" "v \<in> set (keys (configs r))" "runtime_ok r rt"
    using st ok(2) by simp_all
  then show ?thesis unfolding p using to_warm [of v r rt n g] by simp
next
  case (Warm_Take g v)
  then have "p' = warm_take g v r" "r' = forget v r" using st by auto
  then show ?thesis unfolding Warm_Take using to_cold [of p' n g v r] by simp
qed (use st ok w enter_hot_same [OF ok] in auto)

lemma acquire_step_change:
  assumes "acquire_step dk env n p r = (p', r')" "shared_ok r" "pc_ok r n p" "p = Enter \<or> inside p"
  shows "table_change n p r p' r'"
proof (cases "writes p")
  case True
  then show ?thesis by (rule writes_change [OF assms(1-3)])
next
  case False
  then obtain f where "r' = on_engine f r" using acquire_step_engine [OF assms(1)] by blast
  moreover have "inside p" using assms(4) False by auto
  ultimately show ?thesis using leads_keep [OF acquire_step_leads [OF assms(1,4)]] by blast
qed

lemma table_change_fields:
  assumes "table_change n p r p' r'"
  shows "configs r' = configs r" "hot_limit r' = hot_limit r" "length (counters r) \<le> length (counters r')"
  using assms by (induction) auto

lemma table_change_shared: "table_change n p r p' r' \<Longrightarrow> shared_ok r \<Longrightarrow> shared_ok r'"
proof (induction rule: table_change.induct)
  case (enter_hot n r c rt p)
  then show ?case by (intro shared_ok_set_hot shared_ok_counters) simp_all
qed (simp_all add: shared_ok_mark_warm shared_ok_forget)

section \<open>How many templates are hot\<close>

text \<open>
  The room a request found is counted until it enters its template; a request that found its
  template hot enters it again even when it was demoted meanwhile, so its name counts as hot.
\<close>

definition found_names :: "(string \<times> pc) list \<Rightarrow> string set" where
  "found_names sl = fst ` {x \<in> set sl. found (snd x)}"

definition committing_count :: "(string \<times> pc) list \<Rightarrow> nat" where
  "committing_count sl = length (filter (\<lambda>x. committing (snd x)) sl)"

definition hot_bound :: "'d registry \<Rightarrow> (string \<times> pc) list \<Rightarrow> bool" where
  "hot_bound r sl \<longleftrightarrow>
     card (hot_names r \<union> found_names sl) + committing_count sl \<le> max 1 (hot_limit r) + (length sl - 1)"

lemma finite_found_names [simp]: "finite (found_names sl)"
  by (simp add: found_names_def)

lemma length_filter_update:
  "i < length xs \<Longrightarrow> length (filter P (xs[i := x])) + (if P (xs ! i) then 1 else 0)
     = length (filter P xs) + (if P x then 1 else 0)"
proof (induction xs arbitrary: i)
  case (Cons a xs)
  then show ?case by (cases i) auto
qed simp

lemma committing_update:
  "i < length sl \<Longrightarrow> committing_count (sl[i := x]) + (if committing (snd (sl ! i)) then 1 else 0)
     = committing_count sl + (if committing (snd x) then 1 else 0)"
  unfolding committing_count_def by (rule length_filter_update)

lemma found_update: "found_names (sl[i := x]) \<subseteq> found_names sl \<union> (if found (snd x) then {fst x} else {})"
  using set_update_subset_insert [of sl i x] by (auto simp: found_names_def)

lemma found_committing: "card (found_names sl) + committing_count sl \<le> length sl"
proof -
  have "card (found_names sl) \<le> length (filter (\<lambda>x. found (snd x)) sl)"
    unfolding found_names_def by (metis card_image_le card_length finite_set le_trans set_filter)
  moreover have "length (filter (\<lambda>x. found (snd x)) sl) + length (filter (\<lambda>x. committing (snd x)) sl) \<le> length sl"
  proof (induction sl)
    case (Cons a sl)
    then show ?case by (cases "snd a") auto
  qed simp
  ultimately show ?thesis by (simp add: committing_count_def)
qed

lemma hot_bound_shrink:
  assumes "hot_bound r sl" "hot_limit r' = hot_limit r" "length sl' = length sl"
    and "hot_names r' \<union> found_names sl' \<subseteq> hot_names r \<union> found_names sl" "committing_count sl' \<le> committing_count sl"
  shows "hot_bound r' sl'"
proof -
  have "card (hot_names r' \<union> found_names sl') \<le> card (hot_names r \<union> found_names sl)"
    using assms(4) by (intro card_mono) simp_all
  then show ?thesis using assms(1-3,5) unfolding hot_bound_def by linarith
qed

lemma hot_bound_commit:
  assumes "hot_bound r sl" "hot_limit r' = hot_limit r" "length sl' = length sl"
    and "hot_names r' \<union> found_names sl' \<subseteq> insert n (hot_names r \<union> found_names sl)"
    and "Suc (committing_count sl') \<le> committing_count sl"
  shows "hot_bound r' sl'"
proof -
  have "card (hot_names r' \<union> found_names sl') \<le> card (insert n (hot_names r \<union> found_names sl))"
    using assms(4) by (intro card_mono) simp_all
  also have "\<dots> \<le> Suc (card (hot_names r \<union> found_names sl))" by (simp add: card_insert_if)
  finally show ?thesis using assms(1-3,5) unfolding hot_bound_def by linarith
qed

text \<open>A request goes on only when there is room, or nothing is hot.\<close>

lemma hot_check_room:
  assumes "shared_ok r" "tier_of r n \<noteq> Some Hot" "committing (hot_check n g r)"
  shows "Suc (card (hot_names r)) \<le> max 1 (hot_limit r)"
proof (cases "count_by_tier r Hot < hot_limit r")
  case True
  then show ?thesis using count_hot_card [OF shared_okD(1) [OF assms(1)]] by simp
next
  case False
  then have "hot_victim n r = None" using assms(3) by (auto simp: hot_check_def split: option.splits)
  then have "m \<notin> hot_names r" for m
    using shared_okD(6) [OF assms(1), of m] assms(2) by (auto simp: hot_victim_def hot_names_def find_None_iff)
  then have "hot_names r = {}" by blast
  then show ?thesis by simp
qed

lemma hot_bound_check:
  assumes "Suc (card (hot_names r)) \<le> max 1 (hot_limit r)" "sl \<noteq> []"
  shows "hot_bound r sl"
proof -
  have "card (hot_names r \<union> found_names sl) \<le> card (hot_names r) + card (found_names sl)" by (rule card_Un_le)
  moreover have "0 < length sl" using assms(2) by simp
  ultimately show ?thesis
    using assms(1) found_committing [of sl] unfolding hot_bound_def by linarith
qed

lemma leads_found: "leads p p' \<Longrightarrow> found p' \<Longrightarrow> p = Recheck"
  by (induction rule: leads.induct) auto

lemma acquire_step_found:
  assumes "acquire_step dk env n p r = (p', r')" "p = Enter \<or> inside p" "found p'"
  shows "tier_of r n = Some Hot"
proof -
  have "p = Recheck" by (rule leads_found [OF acquire_step_leads [OF assms(1,2)] assms(3)])
  then have "p' = recheck n r" using assms(1) by auto
  then show ?thesis
    using assms(3) by (auto simp: recheck_def tier_of_def split: option.splits prod.splits tier.splits)
qed

lemma hot_bound_run:
  assumes st: "acquire_step dk env n p r = (p', r')" and ok: "shared_ok r" "pc_ok r n p" "p = Enter \<or> inside p"
    and i: "i < length sl" "sl ! i = (n, p)" and b: "hot_bound r sl"
  shows "hot_bound r' (sl[i := (n, p')])"
proof -
  let ?sl = "sl[i := (n, p')]"
  note tc = acquire_step_change [OF st ok]
  note lim = table_change_fields(2) [OF tc]
  have up: "committing_count ?sl + (if committing p then 1 else 0) = committing_count sl + (if committing p' then 1 else 0)"
    using committing_update [OF i(1), of "(n, p')"] i(2) by simp
  have fn: "found_names ?sl \<subseteq> hot_names r \<union> found_names sl"
    using found_update [of sl i "(n, p')"] acquire_step_found [OF st ok(3)] by (auto simp: hot_names_def split: if_splits)
  have in_found: "found p \<Longrightarrow> n \<in> found_names sl"
    unfolding found_names_def using i nth_mem [OF i(1)] by (force simp: image_iff)
  show ?thesis
  proof (cases "committing p' \<and> \<not> committing p")
    case True
    then obtain g where g: "p = Hot_Check g" using tc by (auto elim: table_change.cases)
    then have "r' = r" "committing (hot_check n g r)" "tier_of r n \<noteq> Some Hot"
      using st True ok(2) by (auto simp: room_ok_def)
    then show ?thesis using hot_check_room [OF ok(1), of n g] i(1) by (intro hot_bound_check) auto
  next
    case False
    then have le: "committing_count ?sl \<le> committing_count sl" using up by (auto split: if_splits)
    show ?thesis
    proof (cases "committing p \<and> over p'")
      case True
      have "hot_names r' \<subseteq> insert n (hot_names r)" using tc by (induction) auto
      moreover have "\<not> committing p'" using True by (cases p') auto
      ultimately show ?thesis using True up fn by (intro hot_bound_commit [OF b lim, of _ n]) auto
    next
      case f: False
      have "hot_names r' \<subseteq> hot_names r \<union> found_names sl"
        using tc in_found f by (induction) (auto simp: hot_names_def)
      then show ?thesis using fn le by (intro hot_bound_shrink [OF b lim]) auto
    qed
  qed
qed

section \<open>Every reachable state of the pool\<close>

definition pool_ok :: "'d service \<Rightarrow> bool" where
  "pool_ok s \<longleftrightarrow> shared_ok (reg s) \<and> locks_ok (name_locks s) (slots s)
     \<and> (\<forall>i < length (slots s). pc_ok (reg s) (fst (slots s ! i)) (snd (slots s ! i)))
     \<and> hot_bound (reg s) (slots s)"

lemma pool_okI:
  assumes "shared_ok (reg s)" "locks_ok (name_locks s) (slots s)"
    "\<And>i. i < length (slots s) \<Longrightarrow> pc_ok (reg s) (fst (slots s ! i)) (snd (slots s ! i))"
    "hot_bound (reg s) (slots s)"
  shows "pool_ok s"
  using assms unfolding pool_ok_def by blast

lemma pool_okD:
  assumes "pool_ok s"
  shows "shared_ok (reg s)" "locks_ok (name_locks s) (slots s)"
    "i < length (slots s) \<Longrightarrow> pc_ok (reg s) (fst (slots s ! i)) (snd (slots s ! i))"
    "hot_bound (reg s) (slots s)"
  using assms unfolding pool_ok_def by blast+

lemma move_fields [simp]:
  "reg (move i p s) = reg s" "name_locks (move i p s) = name_locks s"
  "slots (move i p s) = (slots s)[i := (fst (slots s ! i), p)]"
  by (simp_all add: move_def)

text \<open>A step of a task asks for the lock, is granted it, or runs code of the request.\<close>

lemma advance_cases:
  assumes "advance dk env i s = Some s'"
  obtains (asks) n where "i < length (slots s)" "slots s ! i = (n, Ask_Lock)"
      "s' = move i Waiting (s\<lparr>name_locks := ask_lock i n (name_locks s)\<rparr>)"
  | (granted) n where "i < length (slots s)" "slots s ! i = (n, Waiting)"
      "hd (lock_queue (name_locks s) n) = i" "s' = move i Recheck s"
  | (runs) n p p' r' where "i < length (slots s)" "slots s ! i = (n, p)" "p = Enter \<or> inside p"
      "acquire_step dk env n p (reg s) = (p', r')"
      "s' = move i p' (s\<lparr>reg := r',
         name_locks := if inside p \<and> over p' then leave_lock i n (name_locks s) else name_locks s\<rparr>)"
proof -
  obtain n p where np: "slots s ! i = (n, p)" by (cases "slots s ! i")
  have i: "i < length (slots s)" using assms by (auto simp: advance_def split: if_splits)
  have "\<not> over p" using assms np i by (auto simp: advance_def)
  then consider "p = Ask_Lock" | "p = Waiting" | "p = Enter \<or> inside p" by (cases p) auto
  then show ?thesis
  proof cases
    case 1
    then show ?thesis using asks [of n] assms np i by (simp add: advance_def)
  next
    case 2
    then show ?thesis using granted [of n] assms np i by (auto simp: advance_def split: if_splits)
  next
    case 3
    obtain p' r' where st: "acquire_step dk env n p (reg s) = (p', r')" by fastforce
    have "p \<noteq> Ask_Lock" "p \<noteq> Waiting" using 3 by auto
    then show ?thesis using runs [of n p p' r'] 3 assms np i st \<open>\<not> over p\<close> by (simp add: advance_def)
  qed
qed

lemma table_change_tier:
  "table_change n p r p' r' \<Longrightarrow> tier_of r' m = Some Hot \<Longrightarrow> tier_of r m = Some Hot \<or> m = n \<and> inside p"
  by (induction rule: table_change.induct) (auto split: if_splits elim: found.elims committing.elims)

text \<open>What a request knows after a step: most edges hand it on, three read it from the tables.\<close>

fun reads :: "pc \<Rightarrow> bool" where
  "reads Recheck = True"
| "reads (Hot_Check g) = True"
| "reads (Hot_Read g v) = True"
| "reads p = False"

lemma leads_pc_ok: "leads p p' \<Longrightarrow> \<not> reads p \<Longrightarrow> pc_ok r n p \<Longrightarrow> pc_ok r n p'"
  by (induction rule: leads.induct) simp_all

lemma hot_check_pc_ok:
  assumes "shared_ok r" "room_ok r n g"
  shows "pc_ok r n (hot_check n g r)"
  using assms shared_ok_lru [OF assms(1)] hot_victim_tier [of n r]
  by (auto simp: hot_check_def pc_ok_after_room split: option.splits simp del: list.set_map)

lemma hot_read_pc_ok:
  assumes "shared_ok r" "room_ok r n g" "v \<in> set (keys (configs r))"
  shows "pc_ok r n (hot_read g v r)"
  using assms shared_okD(5) [OF assms(1), of v] by (simp add: hot_read_def split: option.split)

lemma recheck_pc_ok:
  assumes "shared_ok r"
  shows "pc_ok r n (recheck n r)"
proof (cases "map_of (runtimes r) n")
  case None
  then show ?thesis using lookup_keys [of "configs r" n]
    by (auto simp: recheck_def room_ok_def tier_of_def split: option.splits)
next
  case (Some e)
  then obtain rt t where e: "map_of (runtimes r) n = Some (rt, t)" by (cases e) simp
  then show ?thesis using shared_ok_entry [OF assms e] shared_okD(5) [OF assms e]
    by (cases t) (simp_all add: recheck_def room_ok_def tier_of_def)
qed

lemma reads_pc_ok:
  assumes "acquire_step dk env n p r = (p', r')" "shared_ok r" "pc_ok r n p" "reads p"
  shows "pc_ok r n p'"
proof (cases p)
  case Recheck
  then have "p' = recheck n r" using assms(1) by auto
  then show ?thesis using recheck_pc_ok [OF assms(2)] by simp
next
  case (Hot_Check g)
  then have "p' = hot_check n g r" "room_ok r n g" using assms(1,3) by auto
  then show ?thesis using hot_check_pc_ok [OF assms(2)] by simp
next
  case (Hot_Read g v)
  then have "p' = hot_read g v r" using assms(1) by auto
  then show ?thesis using hot_read_pc_ok [OF assms(2), of n g v] assms(3) Hot_Read by simp
qed (use assms(4) in auto)

lemma acquire_step_pc_ok:
  assumes "acquire_step dk env n p r = (p', r')" "shared_ok r" "pc_ok r n p" "p = Enter \<or> inside p"
  shows "pc_ok r' n p'"
proof -
  note tc = acquire_step_change [OF assms]
  have "pc_ok r n p'"
  proof (cases "reads p")
    case True
    then show ?thesis by (rule reads_pc_ok [OF assms(1-3)])
  next
    case False
    then show ?thesis by (rule leads_pc_ok [OF acquire_step_leads [OF assms(1,4)] _ assms(3)])
  qed
  moreover have "inside p' \<Longrightarrow> tier_of r n \<noteq> Some Hot \<Longrightarrow> tier_of r' n \<noteq> Some Hot"
    using tc by (induction) (auto split: if_splits)
  ultimately show ?thesis by (rule pc_ok_stable [OF _ table_change_fields(1,3) [OF tc]])
qed

lemma locks_ok_run:
  assumes "locks_ok l sl" "i < length sl" "sl ! i = (n, p)" "leads p p'"
  shows "locks_ok (if inside p \<and> over p' then leave_lock i n l else l) (sl[i := (n, p')])"
proof -
  consider "p = Enter" "\<not> wants p'" | "inside p" "inside p'" | "inside p" "over p'"
    using leads_inside [OF assms(4)] over_not_wants by fastforce
  then show ?thesis
  proof cases
    case 1
    then show ?thesis using names.outside [OF assms(1,2)] assms(3) by simp
  next
    case 2
    then have "\<not> over p'" by (cases p') auto
    then show ?thesis using 2 names.stay [OF assms(1-3), of p'] by simp
  next
    case 3
    then show ?thesis using names.leave [OF assms(1-3)] over_not_wants [of p'] by simp
  qed
qed

lemma pool_ok_run:
  assumes ok: "pool_ok s" and i: "i < length (slots s)" "slots s ! i = (n, p)" and p: "p = Enter \<or> inside p"
    and st: "acquire_step dk env n p (reg s) = (p', r')"
  shows "pool_ok (move i p' (s\<lparr>reg := r',
           name_locks := if inside p \<and> over p' then leave_lock i n (name_locks s) else name_locks s\<rparr>))"
    (is "pool_ok ?s")
proof -
  note d = pool_okD [OF ok]
  have pc: "pc_ok (reg s) n p" using d(3) [OF i(1)] i(2) by simp
  note tc = acquire_step_change [OF st d(1) pc p]
  have sl: "slots ?s = (slots s)[i := (n, p')]" and r: "reg ?s = r'" using i(2) by simp_all
  show ?thesis
  proof (rule pool_okI)
    show "shared_ok (reg ?s)" unfolding r by (rule table_change_shared [OF tc d(1)])
    show "locks_ok (name_locks ?s) (slots ?s)"
      using locks_ok_run [OF d(2) i acquire_step_leads [OF st p]] i(2) by simp
    show "hot_bound (reg ?s) (slots ?s)"
      unfolding r sl by (rule hot_bound_run [OF st d(1) pc p i d(4)])
    fix j assume j: "j < length (slots ?s)"
    show "pc_ok (reg ?s) (fst (slots ?s ! j)) (snd (slots ?s ! j))"
    proof (cases "j = i")
      case True
      then show ?thesis unfolding r sl using i(1) acquire_step_pc_ok [OF st d(1) pc p] by simp
    next
      case False
      have len: "j < length (slots s)" using j by simp
      have at: "slots ?s ! j = slots s ! j" unfolding sl using False by simp
      have "tier_of r' (fst (slots s ! j)) \<noteq> Some Hot"
        if "inside (snd (slots s ! j))" "tier_of (reg s) (fst (slots s ! j)) \<noteq> Some Hot"
        using table_change_tier [OF tc, of "fst (slots s ! j)"] that False i
          names.mutual_exclusion [OF d(2) len i(1)] by auto
      then show ?thesis
        unfolding r at using table_change_fields [OF tc] by (intro pc_ok_stable [OF d(3) [OF len]])
    qed
  qed
qed

lemma pool_ok_slots:
  assumes ok: "pool_ok s" and i: "i < length (slots s)" and l: "locks_ok l ((slots s)[i := (m, p')])"
    and p': "pc_ok (reg s) m p'" "\<not> committing p'" "\<not> found p'"
  shows "pool_ok (s\<lparr>name_locks := l, slots := (slots s)[i := (m, p')]\<rparr>)"
proof (rule pool_okI)
  note d = pool_okD [OF ok]
  let ?sl = "(slots s)[i := (m, p')]"
  have "committing_count ?sl \<le> committing_count (slots s)"
    using committing_update [OF i, of "(m, p')"] p'(2) by simp
  moreover have "found_names ?sl \<subseteq> found_names (slots s)" using found_update [of "slots s" i "(m, p')"] p'(3) by simp
  ultimately show "hot_bound (reg (s\<lparr>name_locks := l, slots := ?sl\<rparr>)) (slots (s\<lparr>name_locks := l, slots := ?sl\<rparr>))"
    by (intro hot_bound_shrink [OF d(4)]) auto
  show "pc_ok (reg (s\<lparr>name_locks := l, slots := ?sl\<rparr>)) (fst (slots (s\<lparr>name_locks := l, slots := ?sl\<rparr>) ! j))
      (snd (slots (s\<lparr>name_locks := l, slots := ?sl\<rparr>) ! j))"
    if "j < length (slots (s\<lparr>name_locks := l, slots := ?sl\<rparr>))" for j
    using that d(3) [of j] p'(1) i by (cases "j = i") simp_all
qed (use pool_okD [OF ok] l in simp_all)

lemma pool_ok_advance:
  assumes "pool_ok s" "advance dk env i s = Some s'"
  shows "pool_ok s'"
  using assms(2)
proof (cases rule: advance_cases)
  case (asks n)
  then have "pool_ok (s\<lparr>name_locks := ask_lock i n (name_locks s), slots := (slots s)[i := (n, Waiting)]\<rparr>)"
    using names.ask [OF pool_okD(2) [OF assms(1)]] by (intro pool_ok_slots [OF assms(1)]) simp_all
  then show ?thesis using asks by (simp add: move_def)
next
  case (granted n)
  then have "pool_ok (s\<lparr>name_locks := name_locks s, slots := (slots s)[i := (n, Recheck)]\<rparr>)"
    using names.stay [OF pool_okD(2) [OF assms(1)]] by (intro pool_ok_slots [OF assms(1)]) simp_all
  then show ?thesis using granted by (simp add: move_def)
next
  case (runs n p p' r')
  then show ?thesis using pool_ok_run [OF assms(1)] by blast
qed

lemma pool_ok_cancel:
  assumes "pool_ok s" "cancel i s = Some s'"
  shows "pool_ok s'"
proof -
  note d = pool_okD [OF assms(1)]
  obtain n p where np: "slots s ! i = (n, p)" by (cases "slots s ! i")
  have i: "i < length (slots s)" using assms(2) by (auto simp: cancel_def split: if_splits)
  let ?l = "if p = Waiting \<or> inside p then leave_lock i n (name_locks s) else name_locks s"
  have "locks_ok ?l ((slots s)[i := (n, Idle)])"
    using names.leave [OF d(2) i np] names.outside [OF d(2) i] np by (auto simp: wants_def)
  then have "pool_ok (s\<lparr>name_locks := ?l, slots := (slots s)[i := (n, Idle)]\<rparr>)"
    by (intro pool_ok_slots [OF assms(1) i]) simp_all
  then show ?thesis using assms(2) i np by (auto simp: cancel_def move_def split: if_splits)
qed

lemma pool_ok_arrive:
  assumes "pool_ok s" "arrive i n s = Some s'"
  shows "pool_ok s'"
proof -
  note d = pool_okD [OF assms(1)]
  have i: "i < length (slots s)" "over (snd (slots s ! i))" and s': "s' = s\<lparr>slots := (slots s)[i := (n, Enter)]\<rparr>"
    using assms(2) by (auto simp: arrive_def split: if_splits)
  have "locks_ok (name_locks s) ((slots s)[i := (n, Enter)])"
    using names.outside [OF d(2) i(1)] over_not_wants [OF i(2)] by simp
  then have "pool_ok (s\<lparr>name_locks := name_locks s, slots := (slots s)[i := (n, Enter)]\<rparr>)"
    by (intro pool_ok_slots [OF assms(1) i(1)]) simp_all
  then show ?thesis by (simp add: s')
qed

text \<open>The counters of the runtimes and the world outside are free to change.\<close>

lemma pool_ok_reg:
  assumes ok: "pool_ok s" and r': "r' = on_engine f (reg s) \<or> (\<exists>c. length c = length (counters (reg s)) \<and> r' = (reg s)\<lparr>counters := c\<rparr>)"
  shows "pool_ok (s\<lparr>reg := r'\<rparr>)"
proof (rule pool_okI)
  note d = pool_okD [OF ok]
  have f: "configs r' = configs (reg s)" "hot_limit r' = hot_limit (reg s)" "hot_names r' = hot_names (reg s)"
    "length (counters (reg s)) \<le> length (counters r')" "tier_of r' m = tier_of (reg s) m" for m
    using r' by auto
  show "shared_ok (reg (s\<lparr>reg := r'\<rparr>))" using r' d(1) by (auto intro: shared_ok_counters)
  show "hot_bound (reg (s\<lparr>reg := r'\<rparr>)) (slots (s\<lparr>reg := r'\<rparr>))" using d(4) f by (simp add: hot_bound_def)
  show "pc_ok (reg (s\<lparr>reg := r'\<rparr>)) (fst (slots (s\<lparr>reg := r'\<rparr>) ! j)) (snd (slots (s\<lparr>reg := r'\<rparr>) ! j))"
    if "j < length (slots (s\<lparr>reg := r'\<rparr>))" for j
    using that f by (auto intro!: pc_ok_stable [OF d(3) [of j]])
qed (use pool_okD [OF ok] in simp_all)

lemma pool_ok_step: "service_step dk env s s' \<Longrightarrow> pool_ok s \<Longrightarrow> pool_ok s'"
proof (induction rule: service_step.induct)
  case (step_choose rt s u r')
  let ?c = "(counters (reg s))[rr_addr rt := (counters (reg s) ! rr_addr rt + 1) mod 2 ^ 64]"
  have "r' = on_engine (\<lambda>d. d) (reg s) \<or> r' = (reg s)\<lparr>counters := ?c\<rparr>"
    using step_choose(1) by (auto simp: pick_daemon_url_def Let_def on_engine_id split: if_splits)
  moreover have "length ?c = length (counters (reg s))" by simp
  ultimately show ?case using pool_ok_reg [OF step_choose(2), of r'] by blast
qed (auto intro: pool_ok_advance pool_ok_cancel pool_ok_arrive pool_ok_reg)

lemma pool_ok_new:
  assumes "registry_ok r"
  shows "pool_ok (service_new r k)"
proof (rule pool_okI)
  note d = registry_okD [OF assms]
  show "shared_ok (reg (service_new r k))" using tables_ok_shared [OF d(1)] by (simp add: service_new_def)
  show "hot_bound (reg (service_new r k)) (slots (service_new r k))"
  proof -
    have "found_names (replicate k ([], Idle)) = {}" by (auto simp: found_names_def)
    then show ?thesis using count_hot_card [OF tables_okD(1) [OF d(1)]] d(3)
      by (simp add: hot_bound_def service_new_def committing_count_def)
  qed
qed (simp_all add: service_new_def queues_ok_def queue_ok_def lock_queue_def name_lock_def)

lemma pool_reachable:
  assumes "(service_step dk env)\<^sup>*\<^sup>* (service_new r k) s" "registry_ok r"
  shows "pool_ok s"
  using assms(1) by (induction rule: rtranclp_induct) (auto intro: pool_ok_new [OF assms(2)] pool_ok_step)

lemma advance_length: "advance dk env i s = Some s' \<Longrightarrow> length (slots s') = length (slots s)"
  by (erule advance_cases) simp_all

lemma service_step_length: "service_step dk env s s' \<Longrightarrow> length (slots s') = length (slots s)"
  by (induction rule: service_step.induct)
    (auto simp: advance_length cancel_def arrive_def split: if_splits prod.splits)

lemma pool_size:
  assumes "(service_step dk env)\<^sup>*\<^sup>* (service_new r k) s"
  shows "length (slots s) = k"
  using assms by (induction rule: rtranclp_induct) (simp_all add: service_new_def service_step_length)

text \<open>C4: Whatever requests arrive, interleave at their awaits, pick daemons or are dropped by
  their clients, and whatever the Docker engine does, in every reachable state: the recency list has no
  repetition and only names of the runtime table, every hot template is in it, every runtime has one daemon
  URL per container; two requests are never in a transition of the same template; and with \<open>k\<close> slots
  at most \<open>max 1 hot_limit + (k - 1)\<close> templates are hot, since each further request may have passed the
  check for room before the others entered their templates.\<close>

theorem concurrent_registry_invariant:
  assumes "registry_ok r" "(service_step dk env)\<^sup>*\<^sup>* (service_new r k) s"
  shows "distinct (keys (runtimes (reg s))) \<and> distinct (lru (reg s))
    \<and> {n. tier_of (reg s) n = Some Hot} \<subseteq> set (lru (reg s)) \<and> set (lru (reg s)) \<subseteq> set (keys (runtimes (reg s)))
    \<and> (\<forall>n rt t. map_of (runtimes (reg s)) n = Some (rt, t) \<longrightarrow>
         container_ids rt \<noteq> [] \<and> length (daemon_urls rt) = length (container_ids rt))
    \<and> (\<forall>i j n p p'. i < k \<longrightarrow> j < k \<longrightarrow> slots s ! i = (n, p) \<longrightarrow>
         slots s ! j = (n, p') \<longrightarrow> inside p \<longrightarrow> inside p' \<longrightarrow> i = j)
    \<and> count_by_tier (reg s) Hot \<le> max 1 (hot_limit (reg s)) + (k - 1)"
proof -
  note d = pool_okD [OF pool_reachable [OF assms(2,1)]]
  note k = pool_size [OF assms(2)]
  note ok = shared_okD [OF d(1)]
  have "card (hot_names (reg s)) \<le> card (hot_names (reg s) \<union> found_names (slots s))"
    by (intro card_mono) simp_all
  then have bound: "count_by_tier (reg s) Hot \<le> max 1 (hot_limit (reg s)) + (length (slots s) - 1)"
    using d(4) count_hot_card [OF ok(1)] unfolding hot_bound_def by linarith
  have rts: "container_ids rt \<noteq> [] \<and> length (daemon_urls rt) = length (container_ids rt)"
    if "map_of (runtimes (reg s)) n = Some (rt, t)" for n rt t
    using ok(5) [OF that] by (simp add: runtime_ok_def)
  have mx: "i = j" if "i < length (slots s)" "j < length (slots s)" "slots s ! i = (n, p)" "slots s ! j = (n, p')"
      "inside p" "inside p'" for i j n p p'
    using names.mutual_exclusion [OF d(2) that(1,2)] that by simp
  show ?thesis using ok(1,2,3,6) rts mx bound unfolding k by blast
qed

end
