(* ===== verification/Registry_Progress.thy ===== *)
theory Registry_Progress
  imports Registry_Concurrent
begin

text \<open>
  Concurrent requests are answered: no task waits forever, and the eviction loops of several
  requests cannot keep each other busy.
\<close>

section \<open>No deadlock\<close>

text \<open>A step of some request; the world outside may have changed before it.\<close>

definition request_step :: "'d docker \<Rightarrow> env \<Rightarrow> 'd service \<Rightarrow> 'd service \<Rightarrow> bool" where
  "request_step dk env s s' \<longleftrightarrow> (\<exists>f i. advance dk env i (s\<lparr>reg := on_engine f (reg s)\<rparr>) = Some s')"

lemma advance_runs:
  assumes "i < length (slots s)" "slots s ! i = (n, p)" "p = Ask_Lock \<or> p = Enter \<or> inside p"
  shows "advance dk env i s \<noteq> None"
proof -
  have "\<not> over p" "p \<noteq> Waiting" using assms(3) by (cases p; simp)+
  then show ?thesis using assms(1,2) by (auto simp: advance_def split: prod.splits)
qed

text \<open>The holder of a lock can run, or it is the waiting head of the queue.\<close>

lemma no_deadlock:
  assumes "pool_ok s" "i < length (slots s)" "\<not> over (snd (slots s ! i))"
  shows "\<exists>j. advance dk env j s \<noteq> None"
proof -
  obtain n p where np: "slots s ! i = (n, p)" by (cases "slots s ! i")
  then consider "p = Waiting" | "p = Ask_Lock \<or> p = Enter \<or> inside p"
    using assms(3) by (cases p) auto
  then show ?thesis
  proof cases
    case 1
    define j where "j = hd (lock_queue (name_locks s) n)"
    note q = queue_okD [OF queues_okD [OF pool_okD(2) [OF assms(1)], of n]]
    have "i \<in> set (lock_queue (name_locks s) n)" unfolding q(2) using assms(2) np 1 by simp
    then have "j \<in> set (lock_queue (name_locks s) n)" unfolding j_def by (cases "lock_queue (name_locks s) n") auto
    then have "j < length (slots s)" "fst (slots s ! j) = n" "wants (snd (slots s ! j))" using q(2) by auto
    then obtain p' where j: "j < length (slots s)" "slots s ! j = (n, p')" "p' = Waiting \<or> inside p'"
      by (cases "slots s ! j") (auto simp: wants_def)
    then show ?thesis
    proof (cases "p' = Waiting")
      case True
      then have "advance dk env j s = Some (move j Recheck s)" using j by (simp add: advance_def j_def)
      then show ?thesis by auto
    next
      case False
      then have "advance dk env j s \<noteq> None" using j by (intro advance_runs) auto
      then show ?thesis by blast
    qed
  next
    case 2
    then show ?thesis using advance_runs [OF assms(2) np] by blast
  qed
qed

section \<open>A measure of what a request still has to do\<close>

text \<open>
  \<open>stage\<close> goes down along the function. In the eviction loops (stage 2) every round of the outer
  loop uses up a hot template and every round of the inner loop a name of the recency list; both
  are produced only by a request that returns. A request whose victim was demoted or removed by
  another one is \<open>stale\<close>: its round is paid by that change.
\<close>

fun stage :: "pc \<Rightarrow> nat" where
  "stage Idle = 0"
| "stage (Finished res) = 0"
| "stage (Found_Hot rt) = 1"
| "stage (Commit_Warm rt) = 1"
| "stage (Replicas cfg is cids urls) = 1"
| "stage (Undoing e cs) = 1"
| "stage (Unpausing rt cs) = 3"
| "stage Recheck = 4"
| "stage Waiting = 5"
| "stage Ask_Lock = 6"
| "stage Enter = 7"
| "stage p = 2"

fun inner :: "pc \<Rightarrow> nat \<times> nat" where
  "inner (Replicas cfg is cids urls) = (1, length is)"
| "inner (Undoing e cs) = (0, length cs)"
| "inner (Unpausing rt cs) = (0, length cs)"
| "inner (Dropping g cs) = (6, 2 * length cs)"
| "inner (Removing g c cs) = (6, 2 * length cs + 1)"
| "inner (Warm_Check g) = (5, 0)"
| "inner (Warm_Take g v) = (4, 0)"
| "inner (Hot_Check g) = (3, 0)"
| "inner (Hot_Read g v) = (2, 0)"
| "inner (Pausing g v rt cs) = (1, length cs)"
| "inner p = (0, 0)"

fun stale :: "'d registry \<Rightarrow> pc \<Rightarrow> nat" where
  "stale r (Hot_Read g v) = (if v \<in> hot_names r then 0 else 1)"
| "stale r (Pausing g v rt cs) = (if v \<in> hot_names r then 0 else 1)"
| "stale r (Warm_Take g v) = (if v \<in> set (lru r) then 0 else 1)"
| "stale r p = 0"

definition budget :: "'d registry \<Rightarrow> nat \<Rightarrow> nat" where
  "budget r k = card (hot_names r) + length (lru r) + 2 * k"

definition rank :: "'d registry \<Rightarrow> nat \<Rightarrow> pc \<Rightarrow> nat \<times> nat \<times> nat \<times> nat" where
  "rank r k p = (stage p, if stage p = 2 then budget r k + stale r p else 0, inner p)"

definition rank_less :: "((nat \<times> nat \<times> nat \<times> nat) \<times> (nat \<times> nat \<times> nat \<times> nat)) set" where
  "rank_less = less_than <*lex*> less_than <*lex*> less_than <*lex*> less_than"

lemma wf_rank_less: "wf rank_less"
  by (auto simp: rank_less_def)

lemma rank_stage: "stage p' < stage p \<Longrightarrow> (rank r' k' p', rank r k p) \<in> rank_less"
  by (simp add: rank_def rank_less_def)

lemma rank_room:
  assumes "stage p' = 2" "stage p = 2"
    and "budget r' k' + stale r' p' < budget r k + stale r p
      \<or> budget r' k' + stale r' p' = budget r k + stale r p \<and> (inner p', inner p) \<in> less_than <*lex*> less_than"
  shows "(rank r' k' p', rank r k p) \<in> rank_less"
  using assms by (auto simp: rank_def rank_less_def)

lemma rank_inner:
  assumes "stage p' = stage p" "stage p \<noteq> 2" "(inner p', inner p) \<in> less_than <*lex*> less_than"
  shows "(rank r' k' p', rank r k p) \<in> rank_less"
  using assms by (simp add: rank_def rank_less_def)

lemma budget_engine [simp]: "budget (on_engine f r) k = budget r k" "stale (on_engine f r) p = stale r p"
  by (simp add: budget_def, cases p) simp_all

text \<open>How the changes of the tables move the budget.\<close>

lemma length_touch_lru: "length (touch_lru n l) \<le> Suc (length l)"
  by (simp add: touch_lru_def length_remove1)

lemma budget_set_hot: "budget (set_hot n rt (r\<lparr>counters := c\<rparr>)) k \<le> budget r (Suc k)"
proof -
  have "card (insert n (hot_names r)) \<le> Suc (card (hot_names r))" by (simp add: card_insert_if)
  then show ?thesis using length_touch_lru [of n "lru r"] by (simp add: budget_def)
qed

lemma budget_mark_warm:
  "budget (mark_warm v rt r) k + (if v \<in> hot_names r then 1 else 0) = budget r k"
proof (cases "v \<in> hot_names r")
  case True
  then have "card (hot_names r) = Suc (card (hot_names r - {v}))" by (intro card.remove finite_hot_names)
  then show ?thesis using True by (simp add: budget_def)
qed (simp add: budget_def)

lemma budget_forget:
  "budget (forget v r) k + (if v \<in> hot_names r then 1 else 0) + (if v \<in> set (lru r) then 1 else 0) \<le> budget r k"
proof -
  have "card (hot_names r - {v}) + (if v \<in> hot_names r then 1 else 0) = card (hot_names r)"
    using card.remove [OF finite_hot_names, of v r] by (cases "v \<in> hot_names r") simp_all
  moreover have "length (filter (\<lambda>m. m \<noteq> v) (lru r)) + (if v \<in> set (lru r) then 1 else 0) \<le> length (lru r)"
    using length_filter_less [of v "lru r" "\<lambda>m. m \<noteq> v"] length_filter_le [of "\<lambda>m. m \<noteq> v" "lru r"] by auto
  ultimately show ?thesis by (simp add: budget_def)
qed

text \<open>The other requests do not get more to do.\<close>

lemma others_rank:
  assumes "table_change n p r p' r'" "distinct (lru r)" "over p' \<Longrightarrow> k = Suc k'" "\<not> over p' \<Longrightarrow> k = k'"
  shows "rank r' k' q = rank r k q \<or> (rank r' k' q, rank r k q) \<in> rank_less"
proof -
  have "budget r' k' + stale r' q \<le> budget r k + stale r q"
    using assms
  proof (induction rule: table_change.induct)
    case (keep_tables p' p n r f)
    then show ?case by (cases "over p'") (simp_all add: budget_def)
  next
    case (enter_hot n r c rt p)
    then have "stale (set_hot n rt (r\<lparr>counters := counters r @ c\<rparr>)) q \<le> stale r q" by (cases q) auto
    then show ?case using budget_set_hot [of n rt "counters r @ c" r k'] enter_hot by simp
  next
    case (to_warm v r rt n g)
    have "stale (mark_warm v rt r) q \<le> stale r q + (if v \<in> hot_names r then 1 else 0)" by (cases q) auto
    then show ?case using budget_mark_warm [of v rt r k'] to_warm by simp
  next
    case (to_cold p' n g v r)
    then have k: "k = k'" by (cases p') auto
    have "stale (forget v r) q \<le> stale r q + (if v \<in> hot_names r then 1 else 0) + (if v \<in> set (lru r) then 1 else 0)"
      by (cases q) auto
    then show ?case using budget_forget [of v r k'] unfolding k by linarith
  qed
  then show ?thesis by (auto simp: rank_def rank_less_def)
qed

text \<open>The request that runs gets closer to its end.\<close>

lemma leads_progress:
  "leads p p' \<Longrightarrow> stage p' < stage p \<or>
     stage p' = stage p \<and> (stage p = 2 \<or> (inner p', inner p) \<in> less_than <*lex*> less_than)"
  by (induction rule: leads.induct) (simp_all, (case_tac g; simp)?)

text \<open>Inside the eviction loops.\<close>

definition closer :: "nat \<Rightarrow> 'd registry \<Rightarrow> pc \<Rightarrow> 'd registry \<Rightarrow> pc \<Rightarrow> bool" where
  "closer k r' p' r p \<longleftrightarrow> budget r' k + stale r' p' < budget r k + stale r p
     \<or> budget r' k + stale r' p' = budget r k + stale r p \<and> (inner p', inner p) \<in> less_than <*lex*> less_than"

lemma closer_hot_check:
  assumes "stage (hot_check n g r) = 2"
  shows "closer k r (hot_check n g r) r (Hot_Check g)"
proof -
  have "stage (after_room g) \<noteq> 2" by (cases g) simp_all
  then obtain v where v: "hot_check n g r = Hot_Read g v" "hot_victim n r = Some v"
    using assms by (auto simp: hot_check_def split: if_splits option.splits)
  then have "v \<in> hot_names r" using hot_victim_tier by (fastforce simp: hot_names_def)
  then show ?thesis by (simp add: closer_def v(1))
qed

lemma closer_hot_read: "closer k r (hot_read g v r) r (Hot_Read g v)"
  by (auto simp: closer_def hot_read_def hot_names_def tier_of_def split: option.split)

lemma closer_pausing:
  assumes "acquire_step dk env n (Pausing g v rt cs) r = (p', r')"
  shows "closer k r' p' r (Pausing g v rt cs)"
proof (cases cs)
  case Nil
  then have "p' = Warm_Check g" "r' = mark_warm v rt r" using assms by auto
  then show ?thesis using Nil budget_mark_warm [of v rt r k] by (auto simp: closer_def)
qed (use assms in \<open>auto simp: closer_def\<close>)

lemma closer_warm_check: "closer k r (warm_check g r) r (Warm_Check g)"
  using warm_victim_tier [of r] by (auto simp: closer_def warm_check_def split: option.split)

lemma closer_warm_take:
  assumes "shared_ok r"
  shows "closer k (forget v r) (warm_take g v r) r (Warm_Take g v)"
proof -
  have "stale (forget v r) (warm_take g v r) = 0" by (simp add: warm_take_def split: option.split)
  moreover have "v \<notin> set (lru r) \<Longrightarrow> v \<notin> hot_names r" using shared_okD(6) [OF assms] by (auto simp: hot_names_def)
  ultimately show ?thesis using budget_forget [of v r k] by (auto simp: closer_def split: if_splits)
qed

lemma closer_step:
  assumes st: "acquire_step dk env n p r = (p', r')" and "shared_ok r" "stage p = 2" "stage p' = 2"
  shows "closer k r' p' r p"
proof (cases p)
  case (Hot_Check g)
  then have "p' = hot_check n g r" "r' = r" using st by auto
  then show ?thesis using Hot_Check assms(4) closer_hot_check by blast
next
  case (Hot_Read g v)
  then have "p' = hot_read g v r" "r' = r" using st by auto
  then show ?thesis using Hot_Read closer_hot_read by blast
next
  case (Pausing g v rt cs)
  then show ?thesis using st closer_pausing by blast
next
  case (Warm_Check g)
  then have "p' = warm_check g r" "r' = r" using st by auto
  then show ?thesis using Warm_Check closer_warm_check by blast
next
  case (Warm_Take g v)
  then have "p' = warm_take g v r" "r' = forget v r" using st by auto
  then show ?thesis using Warm_Take closer_warm_take [OF assms(2)] by blast
next
  case (Dropping g cs)
  then show ?thesis using st by (cases cs) (auto simp: closer_def)
qed (use assms in \<open>auto simp: closer_def\<close>)

lemma runner_rank:
  assumes st: "acquire_step dk env n p r = (p', r')" and ok: "shared_ok r" and p: "p = Enter \<or> inside p"
    and k: "over p' \<Longrightarrow> k = Suc k'" "\<not> over p' \<Longrightarrow> k = k'"
  shows "(rank r' k' p', rank r k p) \<in> rank_less"
proof -
  consider "stage p' < stage p" | "stage p = 2" "stage p' = 2"
    | "stage p \<noteq> 2" "stage p' = stage p" "(inner p', inner p) \<in> less_than <*lex*> less_than"
    using leads_progress [OF acquire_step_leads [OF st p]] by metis
  then show ?thesis
  proof cases
    case 2
    then have "\<not> over p'" by (cases p') auto
    then show ?thesis using 2 closer_step [OF st ok 2, of k] k(2) by (intro rank_room) (auto simp: closer_def)
  qed (auto intro: rank_stage rank_inner)
qed

section \<open>Every request is answered\<close>

lemma lex_pointwise:
  assumes "length xs = length ys" "i < length xs" "(xs ! i, ys ! i) \<in> R"
    and "\<And>j. j < length xs \<Longrightarrow> xs ! j = ys ! j \<or> (xs ! j, ys ! j) \<in> R"
  shows "(xs, ys) \<in> lex R"
  using assms
proof (induction xs ys arbitrary: i rule: list_induct2)
  case (Cons x xs y ys)
  show ?case
  proof (cases "(x, y) \<in> R")
    case True
    then show ?thesis using Cons.hyps by simp
  next
    case False
    then have "x = y" using Cons.prems(3) [of 0] by simp
    moreover obtain j where "i = Suc j" using False Cons.prems(2) by (cases i) auto
    ultimately show ?thesis
      using Cons.IH [of j] Cons.prems(1,2) Cons.prems(3) [of "Suc _"] by force
  qed
qed simp

definition open_requests :: "(string \<times> pc) list \<Rightarrow> nat" where
  "open_requests sl = length (filter (\<lambda>x. \<not> over (snd x)) sl)"

definition pool_rank :: "'d service \<Rightarrow> (nat \<times> nat \<times> nat \<times> nat) list" where
  "pool_rank s = map (\<lambda>x. rank (reg s) (open_requests (slots s)) (snd x)) (slots s)"

lemma open_update:
  assumes "i < length sl" "\<not> over (snd (sl ! i))"
  shows "over (snd x) \<Longrightarrow> open_requests sl = Suc (open_requests (sl[i := x]))"
    "\<not> over (snd x) \<Longrightarrow> open_requests sl = open_requests (sl[i := x])"
  using length_filter_update [OF assms(1), of "\<lambda>x. \<not> over (snd x)" x] assms(2)
  by (simp_all add: open_requests_def)

lemma pool_rank_update:
  assumes i: "i < length (slots s)" and sl: "slots s' = (slots s)[i := (n, p')]"
    and own: "(rank (reg s') (open_requests (slots s')) p', rank (reg s) (open_requests (slots s)) (snd (slots s ! i))) \<in> rank_less"
    and others: "\<And>q. rank (reg s') (open_requests (slots s')) q = rank (reg s) (open_requests (slots s)) q
      \<or> (rank (reg s') (open_requests (slots s')) q, rank (reg s) (open_requests (slots s)) q) \<in> rank_less"
  shows "(pool_rank s', pool_rank s) \<in> lex rank_less"
proof (rule lex_pointwise)
  have len: "length (slots s') = length (slots s)" by (simp add: sl)
  show "length (pool_rank s') = length (pool_rank s)" "i < length (pool_rank s')"
    using i len by (simp_all add: pool_rank_def)
  have at: "slots s' ! i = (n, p')" using i by (simp add: sl)
  show "(pool_rank s' ! i, pool_rank s ! i) \<in> rank_less"
    using own i len at by (simp add: pool_rank_def)
  show "pool_rank s' ! j = pool_rank s ! j \<or> (pool_rank s' ! j, pool_rank s ! j) \<in> rank_less"
    if "j < length (pool_rank s')" for j
  proof (cases "j = i")
    case True
    then show ?thesis using own i len at by (simp add: pool_rank_def)
  next
    case False
    then have "slots s' ! j = slots s ! j" by (simp add: sl)
    then show ?thesis using others [of "snd (slots s ! j)"] that len by (simp add: pool_rank_def)
  qed
qed

lemma advance_rank:
  assumes "pool_ok s" "advance dk env i s = Some s'"
  shows "(pool_rank s', pool_rank s) \<in> lex rank_less"
  using assms(2)
proof (cases rule: advance_cases)
  case (asks n)
  then have "open_requests (slots s') = open_requests (slots s)" using open_update(2) [of i "slots s" "(n, Waiting)"] by simp
  then show ?thesis using asks by (intro pool_rank_update [of i s s' n Waiting]) (auto intro: rank_stage)
next
  case (granted n)
  then have "open_requests (slots s') = open_requests (slots s)" using open_update(2) [of i "slots s" "(n, Recheck)"] by simp
  then show ?thesis using granted by (intro pool_rank_update [of i s s' n Recheck]) (auto intro: rank_stage)
next
  case (runs n p p' r')
  note d = pool_okD [OF assms(1)]
  have pc: "pc_ok (reg s) n p" using d(3) [OF runs(1)] runs(2) by simp
  note tc = acquire_step_change [OF runs(4) d(1) pc runs(3)]
  have sl: "slots s' = (slots s)[i := (n, p')]" and r: "reg s' = r'" using runs(2,5) by simp_all
  have no: "\<not> over (snd (slots s ! i))" using runs(2,3) by (cases p) auto
  have k: "over p' \<Longrightarrow> open_requests (slots s) = Suc (open_requests (slots s'))"
      "\<not> over p' \<Longrightarrow> open_requests (slots s) = open_requests (slots s')"
    using open_update [OF runs(1) no, of "(n, p')"] by (simp_all add: sl)
  show ?thesis
  proof (rule pool_rank_update [OF runs(1) sl])
    show "(rank (reg s') (open_requests (slots s')) p', rank (reg s) (open_requests (slots s)) (snd (slots s ! i))) \<in> rank_less"
      using runner_rank [OF runs(4) d(1) runs(3) k] runs(2) r by simp
    show "rank (reg s') (open_requests (slots s')) q = rank (reg s) (open_requests (slots s)) q
      \<or> (rank (reg s') (open_requests (slots s')) q, rank (reg s) (open_requests (slots s)) q) \<in> rank_less" for q
      unfolding r by (rule others_rank [OF tc shared_okD(2) [OF d(1)] k])
  qed
qed

lemma pool_rank_engine [simp]: "pool_rank (s\<lparr>reg := on_engine f (reg s)\<rparr>) = pool_rank s"
  by (simp add: pool_rank_def rank_def)

lemma request_step_ok:
  assumes "request_step dk env s s'" "pool_ok s"
  shows "pool_ok s'" "(pool_rank s', pool_rank s) \<in> lex rank_less"
proof -
  obtain f i where a: "advance dk env i (s\<lparr>reg := on_engine f (reg s)\<rparr>) = Some s'"
    using assms(1) by (auto simp: request_step_def)
  have ok: "pool_ok (s\<lparr>reg := on_engine f (reg s)\<rparr>)" using pool_ok_reg [OF assms(2)] by blast
  show "pool_ok s'" by (rule pool_ok_advance [OF ok a])
  show "(pool_rank s', pool_rank s) \<in> lex rank_less" using advance_rank [OF ok a] by simp
qed

lemma wf_request_step: "wf {(s', s). pool_ok s \<and> request_step dk env s s'}"
  by (rule wf_subset [OF wf_inv_image [OF wf_lex [OF wf_rank_less], of pool_rank]])
    (auto simp: inv_image_def dest: request_step_ok(2))

text \<open>A request keeps its template and is over only with an answer.\<close>

lemma leads_not_idle: "leads p p' \<Longrightarrow> p' \<noteq> Idle"
  by (induction rule: leads.induct) (simp_all, (case_tac g; simp)?)

definition request_of :: "string \<Rightarrow> string \<times> pc \<Rightarrow> bool" where
  "request_of n x \<longleftrightarrow> fst x = n \<and> snd x \<noteq> Idle"

lemma advance_request:
  assumes "advance dk env i s = Some s'" "j < length (slots s)" "request_of n (slots s ! j)"
  shows "request_of n (slots s' ! j)"
  using assms(1)
proof (cases rule: advance_cases)
  case (runs m p p' r')
  then show ?thesis using assms(2,3) leads_not_idle [OF acquire_step_leads [OF runs(4,3)]]
    by (cases "i = j") (auto simp: request_of_def)
qed (use assms(2,3) in \<open>cases "i = j"; auto simp: request_of_def\<close>)+

lemma request_step_request:
  assumes "request_step dk env s s'" "j < length (slots s)" "request_of n (slots s ! j)"
  shows "j < length (slots s') \<and> request_of n (slots s' ! j)"
proof -
  obtain f i where a: "advance dk env i (s\<lparr>reg := on_engine f (reg s)\<rparr>) = Some s'"
    using assms(1) by (auto simp: request_step_def)
  show ?thesis using advance_request [OF a, of j n] advance_length [OF a] assms(2,3) by simp
qed

lemma requests_continue:
  assumes "(request_step dk env)\<^sup>*\<^sup>* s s'" "pool_ok s"
  shows "pool_ok s' \<and> (\<forall>j n. j < length (slots s) \<longrightarrow> request_of n (slots s ! j) \<longrightarrow>
    j < length (slots s') \<and> request_of n (slots s' ! j))"
  using assms(1)
proof (induction rule: rtranclp_induct)
  case (step u v)
  then show ?case using request_step_ok(1) [OF step(2)] request_step_request [OF step(2)] by blast
qed (simp add: assms(2))

lemma stuck_means_over:
  assumes "pool_ok s" "\<not> (\<exists>s'. request_step dk env s s')" "j < length (slots s)"
  shows "over (snd (slots s ! j))"
proof (rule ccontr)
  assume "\<not> over (snd (slots s ! j))"
  then obtain i s' where "advance dk env i s = Some s'" using no_deadlock [OF assms(1,3)] by blast
  then have "request_step dk env s s'"
    unfolding request_step_def by (intro exI [of _ "\<lambda>d. d"] exI [of _ i]) (simp add: on_engine_id)
  then show False using assms(2) by blast
qed

text \<open>C5: From every reachable state of the pool, with no further arrivals: however the scheduler picks the
  next request and however the Docker engine behaves, the requests cannot run forever, and where no
  request can run any more every one of them has been answered. There is no deadlock on the locks of
  the names and no livelock between the eviction loops of several requests.\<close>

theorem concurrent_requests_answered:
  assumes "registry_ok r" "(service_step dk env)\<^sup>*\<^sup>* (service_new r k) s"
  shows "\<not> (\<exists>run. run 0 = s \<and> (\<forall>t. request_step dk env (run t) (run (Suc t))))
    \<and> (\<forall>s'. (request_step dk env)\<^sup>*\<^sup>* s s' \<longrightarrow> \<not> (\<exists>s''. request_step dk env s' s'') \<longrightarrow>
         (\<forall>j < k. \<forall>n p. slots s ! j = (n, p) \<longrightarrow> p \<noteq> Idle \<longrightarrow> (\<exists>res. slots s' ! j = (n, Finished res))))"
proof -
  have ok: "pool_ok s" by (rule pool_reachable [OF assms(2,1)])
  have "False" if "run 0 = s" "\<And>t. request_step dk env (run t) (run (Suc t))" for run
  proof -
    have "pool_ok (run t)" for t
      by (induction t) (simp add: that(1) ok, blast intro: request_step_ok(1) [OF that(2)])
    then have "(run (Suc t), run t) \<in> {(s', s). pool_ok s \<and> request_step dk env s s'}" for t using that(2) by simp
    then show False using wf_request_step [of dk env] unfolding wf_iff_no_infinite_down_chain by blast
  qed
  moreover have "\<exists>res. slots s' ! j = (n, Finished res)"
    if "(request_step dk env)\<^sup>*\<^sup>* s s'" "\<not> (\<exists>s''. request_step dk env s' s'')" "j < k"
      "slots s ! j = (n, p)" "p \<noteq> Idle" for s' j n p
  proof -
    have "pool_ok s'" "j < length (slots s')" "request_of n (slots s' ! j)"
      using requests_continue [OF that(1) ok] that(3-5) pool_size [OF assms(2)] by (auto simp: request_of_def)
    then show ?thesis using stuck_means_over [OF _ that(2), of j]
      by (cases "slots s' ! j"; cases "snd (slots s' ! j)") (auto simp: request_of_def)
  qed
  ultimately show ?thesis by blast
qed

end
