(* ===== verification/Registry_Solo.thy ===== *)
theory Registry_Solo
  imports Registry_Concurrent
begin

text \<open>
  The steps of a request against the function \<open>acquire\<close> of the sequential model, and what the lock of
  a name is for: one runtime per template.
\<close>

section \<open>Steps of one request\<close>

definition pc_step :: "'d docker \<Rightarrow> env \<Rightarrow> string \<Rightarrow> pc \<times> 'd registry \<Rightarrow> pc \<times> 'd registry \<Rightarrow> bool" where
  "pc_step dk env n x y \<longleftrightarrow> inside (fst x) \<and> acquire_step dk env n (fst x) (snd x) = y"

abbreviation pc_steps :: "'d docker \<Rightarrow> env \<Rightarrow> string \<Rightarrow> pc \<times> 'd registry \<Rightarrow> pc \<times> 'd registry \<Rightarrow> bool" where
  "pc_steps dk env n \<equiv> (pc_step dk env n)\<^sup>*\<^sup>*"

lemma pc_step1: "inside p \<Longrightarrow> acquire_step dk env n p r = y \<Longrightarrow> pc_steps dk env n y z \<Longrightarrow> pc_steps dk env n (p, r) z"
  by (rule converse_rtranclp_into_rtranclp) (simp_all add: pc_step_def)

lemma on_engine_comp: "on_engine f (on_engine g r) = on_engine (\<lambda>d. f (g d)) r"
  by (simp add: on_engine_def)

lemma pc_steps_unpausing:
  "pc_steps dk env n (Unpausing rt cs, r) (Hot_Check (Promote rt), on_engine (unpause_all dk cs) r)"
proof (induction cs arbitrary: r)
  case Nil
  show ?case by (rule pc_step1 [OF _ refl]) (simp_all add: unpause_all_def on_engine_id)
next
  case (Cons c cs)
  show ?case
    using Cons.IH [of "on_engine (\<lambda>d. snd (unpause_container dk c d)) r"]
    by (intro pc_step1 [OF _ refl]) (simp_all add: unpause_all_def on_engine_def)
qed

lemma pc_steps_pausing:
  "pc_steps dk env n (Pausing g v rt cs, r) (Warm_Check g, mark_warm v rt (on_engine (pause_all dk cs) r))"
proof (induction cs arbitrary: r)
  case Nil
  show ?case by (rule pc_step1 [OF _ refl]) (simp_all add: pause_all_def on_engine_id)
next
  case (Cons c cs)
  show ?case
    using Cons.IH [of "on_engine (\<lambda>d. snd (pause_container dk c d)) r"]
    by (intro pc_step1 [OF _ refl]) (simp_all add: pause_all_def on_engine_def)
qed

lemma pc_steps_dropping:
  "pc_steps dk env n (Dropping g cs, r) (Warm_Check g, on_engine (drop_containers dk cs) r)"
proof (induction cs arbitrary: r)
  case Nil
  show ?case by (rule pc_step1 [OF _ refl]) (simp_all add: drop_containers_def on_engine_id)
next
  case (Cons c cs)
  show ?case
    using Cons.IH [of "on_engine (\<lambda>d. snd (remove_container dk c (snd (unpause_container dk c d)))) r"]
    by (intro pc_step1 [OF _ refl], simp, simp, intro pc_step1 [OF _ refl]) (simp_all add: drop_containers_def on_engine_def)
qed

lemma pc_steps_undoing:
  "pc_steps dk env n (Undoing e cs, r)
     (Finished (Inl e), on_engine (\<lambda>d. foldl (\<lambda>d c. remove_container_best_effort dk c d) d cs) r)"
proof (induction cs arbitrary: r)
  case Nil
  show ?case by (rule pc_step1 [OF _ refl]) (simp_all add: on_engine_id)
next
  case (Cons c cs)
  show ?case
    using Cons.IH [of "on_engine (\<lambda>d. remove_container_best_effort dk c d) r"]
    by (intro pc_step1 [OF _ refl]) (simp_all add: on_engine_def)
qed

section \<open>The loops\<close>

lemma evict_warm_one_forget:
  "map_of (runtimes r) v = Some (rt, t) \<Longrightarrow>
   evict_warm_one dk v r = on_engine (drop_containers dk (container_ids rt)) (forget v r)"
  by (simp add: evict_warm_one_def forget_def on_engine_def Let_def)

lemma pc_steps_warm:
  "pc_steps dk env n (Warm_Check g, r) (Hot_Check g, evict_warm_to_cold_if_needed dk r)"
proof (induction dk r rule: evict_warm_to_cold_if_needed.induct)
  case (1 dk r)
  consider "count_by_tier r Warm \<le> warm_limit r \<or> warm_victim r = None"
    | v where "\<not> count_by_tier r Warm \<le> warm_limit r" "warm_victim r = Some v"
    by auto
  then show ?case
  proof cases
    case 1
    then show ?thesis
      by (intro pc_step1 [OF _ refl]) (auto simp: warm_check_def evict_warm_to_cold_if_needed.simps [of dk r])
  next
    case (2 v)
    obtain rt where rt: "map_of (runtimes r) v = Some (rt, Warm)"
      using warm_victim_tier [OF 2(2)] by (auto simp: tier_of_def)
    have "pc_steps dk env n (Warm_Check g, r) (Dropping g (container_ids rt), forget v r)"
      by (rule pc_step1 [OF _ refl], simp, simp, rule pc_step1 [OF _ refl])
        (simp_all add: warm_check_def warm_take_def 2 rt)
    also have "pc_steps dk env n \<dots> (Warm_Check g, evict_warm_one dk v r)"
      unfolding evict_warm_one_forget [OF rt] by (rule pc_steps_dropping)
    also have "pc_steps dk env n \<dots> (Hot_Check g, evict_warm_to_cold_if_needed dk (evict_warm_one dk v r))"
      by (rule "1.IH" [OF 2])
    finally show ?thesis using 2 by (simp add: evict_warm_to_cold_if_needed.simps [of dk r])
  qed
qed

lemma pc_steps_hot:
  "pc_steps dk env n (Hot_Check g, r) (after_room g, evict_hot_to_warm_if_needed_excluding dk n r)"
proof (induction dk n r rule: evict_hot_to_warm_if_needed_excluding.induct)
  case (1 dk n r)
  consider "count_by_tier r Hot < hot_limit r \<or> hot_victim n r = None"
    | v where "\<not> count_by_tier r Hot < hot_limit r" "hot_victim n r = Some v"
    by auto
  then show ?case
  proof cases
    case 1
    then show ?thesis
      by (intro pc_step1 [OF _ refl])
        (auto simp: hot_check_def evict_hot_to_warm_if_needed_excluding.simps [of dk n r])
  next
    case (2 v)
    obtain rt where rt: "map_of (runtimes r) v = Some (rt, Hot)"
      using hot_victim_tier [OF 2(2)] by (auto simp: tier_of_def)
    have "pc_steps dk env n (Hot_Check g, r) (Pausing g v rt (container_ids rt), r)"
      by (rule pc_step1 [OF _ refl], simp, simp, rule pc_step1 [OF _ refl])
        (simp_all add: hot_check_def hot_read_def 2 rt)
    also have "pc_steps dk env n \<dots> (Warm_Check g, mark_warm v rt (on_engine (pause_all dk (container_ids rt)) r))"
      by (rule pc_steps_pausing)
    also have "pc_steps dk env n \<dots> (Hot_Check g, demote dk v r)"
      using pc_steps_warm [of dk env n g "mark_warm v rt (on_engine (pause_all dk (container_ids rt)) r)"]
      by (simp add: demote_def rt mark_warm_def on_engine_def)
    also have "pc_steps dk env n \<dots> (after_room g, evict_hot_to_warm_if_needed_excluding dk n (demote dk v r))"
      by (rule "1.IH" [OF 2])
    finally show ?thesis using 2 by (simp add: evict_hot_to_warm_if_needed_excluding.simps [of dk n r])
  qed
qed

lemma pc_steps_replicas:
  "start_replicas dk env cfg js cids urls (engine_st r) = (res, d) \<Longrightarrow>
   pc_steps dk env n (Replicas cfg js cids urls, r)
     (case res of Inr cu \<Rightarrow> Replicas cfg [] (fst cu) (snd cu) | Inl e \<Rightarrow> Finished (Inl e), r\<lparr>engine_st := d\<rparr>)"
proof (induction js arbitrary: cids urls r)
  case Nil
  then show ?case by auto
next
  case (Cons i js)
  obtain x d1 where st: "start_tools_container dk env cfg i (engine_st r) = (x, d1)" by fastforce
  let ?r = "r\<lparr>engine_st := d1\<rparr>"
  show ?case
  proof (cases x)
    case (Inr cu)
    then have "acquire_step dk env n (Replicas cfg (i # js) cids urls) r
        = (Replicas cfg js (cids @ [fst cu]) (urls @ [snd cu]), ?r)"
      by (simp add: replica_step_def st split: prod.split)
    moreover have "start_replicas dk env cfg js (cids @ [fst cu]) (urls @ [snd cu]) (engine_st ?r) = (res, d)"
      using Cons.prems Inr st by (simp split: prod.splits)
    ultimately show ?thesis using Cons.IH [of "cids @ [fst cu]" "urls @ [snd cu]" ?r] by (intro pc_step1) simp_all
  next
    case (Inl e)
    show ?thesis
    proof (cases "e = Panicked")
      case True
      then show ?thesis using Cons.prems Inl st
        by (intro pc_step1 [OF _ refl]) (auto simp: replica_step_def)
    next
      case False
      then have res: "res = Inl e" "d = foldl (\<lambda>d c. remove_container_best_effort dk c d) d1 cids"
        using Cons.prems Inl st by (cases e; simp)+
      have "acquire_step dk env n (Replicas cfg (i # js) cids urls) r = (Undoing e cids, ?r)"
        using False by (cases e) (simp_all add: replica_step_def st Inl)
      moreover have "pc_steps dk env n (Undoing e cids, ?r) (Finished (Inl e), r\<lparr>engine_st := d\<rparr>)"
        using pc_steps_undoing [of dk env n e cids ?r] by (simp add: res on_engine_def)
      ultimately show ?thesis by (intro pc_step1) (simp_all add: res)
    qed
  qed
qed

lemma pc_steps_promote:
  "pc_steps dk env n (Unpausing rt (container_ids rt), r) (Finished (Inr rt), promote_warm dk n rt r)"
proof -
  let ?r = "on_engine (unpause_all dk (container_ids rt)) r"
  note pc_steps_unpausing
  also note pc_steps_hot
  also have "pc_steps dk env n (after_room (Promote rt), evict_hot_to_warm_if_needed_excluding dk n ?r)
      (Finished (Inr rt), promote_warm dk n rt r)"
    by (rule pc_step1 [OF _ refl]) (simp_all add: promote_warm_def on_engine_def Let_def)
  finally show ?thesis .
qed

lemma pc_steps_cold:
  assumes "cold_prepare dk env n cfg r = (x, r1)"
  shows "pc_steps dk env n (Hot_Check (Start_Cold cfg), r)
    (case x of Inl e \<Rightarrow> (Finished (Inl e), r1)
     | Inr cu \<Rightarrow> (case cold_commit n cu r1 of (rt, r2) \<Rightarrow> (Finished (Inr rt), r2)))"
proof -
  define r0 where "r0 = evict_hot_to_warm_if_needed_excluding dk n r"
  obtain d where d: "start_replicas dk env cfg [0..<max 1 (n_containers cfg)] [] [] (engine_st r0) = (x, d)"
    "r1 = r0\<lparr>engine_st := d\<rparr>"
    using assms by (auto simp: cold_prepare_def r0_def Let_def split: prod.splits)
  have "pc_steps dk env n (Hot_Check (Start_Cold cfg), r) (after_room (Start_Cold cfg), r0)"
    unfolding r0_def by (rule pc_steps_hot)
  also have "pc_steps dk env n \<dots> (case x of Inr cu \<Rightarrow> Replicas cfg [] (fst cu) (snd cu)
      | Inl e \<Rightarrow> Finished (Inl e), r1)"
    using pc_steps_replicas [OF d(1)] d(2) by simp
  also have "pc_steps dk env n \<dots> (case x of Inl e \<Rightarrow> (Finished (Inl e), r1)
      | Inr cu \<Rightarrow> (case cold_commit n cu r1 of (rt, r2) \<Rightarrow> (Finished (Inr rt), r2)))"
  proof (cases x)
    case (Inr cu)
    then show ?thesis by (auto split: prod.split intro!: pc_step1 [OF _ refl])
  qed simp
  finally show ?thesis .
qed

lemma pc_steps_recheck:
  assumes "acquire_slow dk env n r = (res, r')"
  shows "pc_steps dk env n (Recheck, r) (Finished res, r')"
proof (rule pc_step1 [OF _ refl])
  show "pc_steps dk env n (acquire_step dk env n Recheck r) (Finished res, r')"
  proof (cases "map_of (runtimes r) n")
    case (Some e)
    obtain rt t where e: "e = (rt, t)" by (cases e)
    show ?thesis
    proof (cases t)
      case Hot
      then show ?thesis using assms Some e
        by (simp add: recheck_def acquire_slow_def) (auto intro: pc_step1 [OF _ refl])
    next
      case Warm
      then show ?thesis using assms Some e pc_steps_promote [of dk env n rt r]
        by (simp add: recheck_def acquire_slow_def)
    qed
  next
    case None
    show ?thesis
    proof (cases "map_of (configs r) n")
      case None
      then show ?thesis using assms \<open>map_of (runtimes r) n = None\<close> by (simp add: recheck_def acquire_slow_def)
    next
      case (Some cfg)
      obtain x r1 where x: "cold_prepare dk env n cfg r = (x, r1)" by fastforce
      then have "(Finished res, r') = (case x of Inl e \<Rightarrow> (Finished (Inl e), r1)
          | Inr cu \<Rightarrow> (case cold_commit n cu r1 of (rt, r2) \<Rightarrow> (Finished (Inr rt), r2)))"
        using assms None Some by (auto simp: acquire_slow_def split: sum.splits prod.splits)
      then show ?thesis using pc_steps_cold [OF x] None Some by (simp add: recheck_def)
    qed
  qed
qed simp

section \<open>A request that runs alone\<close>

lemma over_not_inside: "over p \<Longrightarrow> \<not> inside p"
  by (cases p) auto

text \<open>The pool with slot \<open>i\<close>, registry and locks replaced.\<close>

definition at_point :: "'d service \<Rightarrow> nat \<Rightarrow> string \<Rightarrow> pc \<Rightarrow> 'd registry \<Rightarrow> lock_table \<Rightarrow> 'd service" where
  "at_point s i n p r l = s\<lparr>reg := r, name_locks := l, slots := (slots s)[i := (n, p)]\<rparr>"

lemma advance_at_point:
  assumes "i < length (slots s)" "inside p" "acquire_step dk env n p r = (p', r')"
  shows "advance dk env i (at_point s i n p r l)
    = Some (at_point s i n p' r' (if over p' then leave_lock i n l else l))"
proof -
  have "\<not> over p" "p \<noteq> Ask_Lock" "p \<noteq> Waiting" using assms(2) over_not_inside by auto
  then show ?thesis using assms by (simp add: advance_def at_point_def move_def)
qed

lemma run_schedule_append:
  "run_schedule dk env (xs @ ys) s = Option.bind (run_schedule dk env xs s) (run_schedule dk env ys)"
  by (induction xs arbitrary: s) (simp_all split: bind_splits)

lemma run_inside:
  assumes "pc_steps dk env n (p, r) (Finished res, r')" "inside p" "i < length (slots s)"
  shows "\<exists>t. run_schedule dk env (replicate t i) (at_point s i n p r l)
    = Some (at_point s i n (Finished res) r' (leave_lock i n l))"
proof -
  have "inside (fst x) \<Longrightarrow> y = (Finished res, r') \<Longrightarrow>
      \<exists>t. run_schedule dk env (replicate t i) (at_point s i n (fst x) (snd x) l)
        = Some (at_point s i n (Finished res) r' (leave_lock i n l))" if "pc_steps dk env n x y" for x y
    using that
  proof (induction rule: converse_rtranclp_induct)
    case (step x z)
    obtain p1 r1 where z: "z = (p1, r1)" by (cases z)
    have adv: "advance dk env i (at_point s i n (fst x) (snd x) l)
        = Some (at_point s i n p1 r1 (if over p1 then leave_lock i n l else l))"
      using step(1) z assms(3) by (intro advance_at_point) (simp_all add: pc_step_def)
    show ?case
    proof (cases "inside p1")
      case True
      then obtain t where "run_schedule dk env (replicate t i) (at_point s i n p1 r1 l)
          = Some (at_point s i n (Finished res) r' (leave_lock i n l))"
        using step.IH step.prems(2) z by auto
      then show ?thesis using adv True over_not_inside [of p1]
        by (intro exI [of _ "Suc t"]) auto
    next
      case False
      then have "z = y" using step(2) z by (auto simp: pc_step_def elim: converse_rtranclpE)
      then show ?thesis using adv z step.prems(2) by (intro exI [of _ "Suc 0"]) simp
    qed
  qed auto
  from this [OF assms(1)] assms(2) show ?thesis by simp
qed

text \<open>C17: A request that runs while no other request holds the lock of its template behaves as
  \<open>acquire\<close> of the sequential model: running its task alone takes finitely many steps, ends with
  exactly that answer, registry and world, frees the lock again and leaves all other slots as they were.
  So the theorems on \<open>acquire\<close> hold for every request the scheduler does not interleave.\<close>

theorem solo_request_is_acquire:
  assumes "i < length (slots s)" "slots s ! i = (n, Enter)" "lock_queue (name_locks s) n = []"
    and "acquire dk env n (reg s) = (res, r')"
  shows "\<exists>t s'. run_schedule dk env (replicate t i) s = Some s' \<and> reg s' = r'
    \<and> slots s' = (slots s)[i := (n, Finished res)] \<and> lock_queue (name_locks s') = lock_queue (name_locks s)"
proof (cases "\<exists>rt. map_of (runtimes (reg s)) n = Some (rt, Hot)")
  case True
  then obtain rt where rt: "map_of (runtimes (reg s)) n = Some (rt, Hot)" by blast
  then have "res = Inr rt" "r' = set_hot n rt (reg s)" using assms(4) by (auto simp: acquire_def)
  then have "advance dk env i s = Some (move i (Finished res) (s\<lparr>reg := r'\<rparr>))"
    using assms(1,2) rt by (simp add: advance_def)
  then show ?thesis
    using assms(1,2) by (intro exI [of _ "Suc 0"] exI [of _ "move i (Finished res) (s\<lparr>reg := r'\<rparr>)"]) simp
next
  case False
  let ?l = "ask_lock i n (name_locks s)"
  have slow: "acquire_slow dk env n (reg s) = (res, r')" using assms(4) by (simp add: acquire_eq_slow)
  have one: "advance dk env i s = Some (move i Ask_Lock s)"
    using assms(1,2) False by (auto simp: advance_def move_def split: option.splits prod.splits tier.splits)
  have two: "advance dk env i (move i Ask_Lock s) = Some (move i Waiting (move i Ask_Lock (s\<lparr>name_locks := ?l\<rparr>)))"
    using assms(1,2) by (simp add: advance_def move_def)
  have three: "advance dk env i (move i Waiting (move i Ask_Lock (s\<lparr>name_locks := ?l\<rparr>)))
      = Some (at_point s i n Recheck (reg s) ?l)"
    using assms(1-3) by (simp add: advance_def move_def at_point_def)
  obtain t where t: "run_schedule dk env (replicate t i) (at_point s i n Recheck (reg s) ?l)
      = Some (at_point s i n (Finished res) r' (leave_lock i n ?l))"
    using run_inside [OF pc_steps_recheck [OF slow] _ assms(1)] by auto
  have "run_schedule dk env (replicate (Suc (Suc (Suc t))) i) s = Some (at_point s i n (Finished res) r' (leave_lock i n ?l))"
    using one two three t by simp
  moreover have "lock_queue (leave_lock i n ?l) = lock_queue (name_locks s)"
    using assms(3) by (intro ext) simp
  ultimately show ?thesis
    by (intro exI [of _ "Suc (Suc (Suc t))"] exI [of _ "at_point s i n (Finished res) r' (leave_lock i n ?l)"])
      (simp add: at_point_def)
qed

end
