(* ===== verification/Registry_Races.thy ===== *)
theory Registry_Races
  imports Config_Props Registry_Progress Registry_Solo Lease_Props
begin

text \<open>
  What the lock of a name achieves when nothing has to be evicted, which guarantees of the
  sequential registry concurrent evictions break, and the witnesses of the theorems on the pool.
\<close>

section \<open>One runtime per template\<close>

text \<open>With room for every template no request looks for a victim.\<close>

fun flight_ok :: "'d registry \<Rightarrow> string \<times> pc \<Rightarrow> bool" where
  "flight_ok r (n, Found_Hot rt) = (map_of (runtimes r) n = Some (rt, Hot))"
| "flight_ok r (n, Finished (Inr rt)) = (map_of (runtimes r) n = Some (rt, Hot))"
| "flight_ok r (n, Hot_Check g) = (\<exists>cfg. g = Start_Cold cfg)"
| "flight_ok r (n, Unpausing rt cs) = False"
| "flight_ok r (n, Hot_Read g v) = False"
| "flight_ok r (n, Pausing g v rt cs) = False"
| "flight_ok r (n, Warm_Check g) = False"
| "flight_ok r (n, Warm_Take g v) = False"
| "flight_ok r (n, Dropping g cs) = False"
| "flight_ok r (n, Removing g c cs) = False"
| "flight_ok r (n, Commit_Warm rt) = False"
| "flight_ok r x = True"

definition all_hot :: "'d registry \<Rightarrow> bool" where
  "all_hot r \<longleftrightarrow> (\<forall>n rt t. map_of (runtimes r) n = Some (rt, t) \<longrightarrow> t = Hot)"

definition roomy :: "'d registry \<Rightarrow> bool" where
  "roomy r \<longleftrightarrow> card (set (keys (configs r))) \<le> hot_limit r"

lemma all_hot_cold: "all_hot r \<Longrightarrow> tier_of r n \<noteq> Some Hot \<Longrightarrow> map_of (runtimes r) n = None"
  by (cases "map_of (runtimes r) n") (auto simp: all_hot_def tier_of_def)

lemma roomy_check:
  assumes "roomy r" "shared_ok r" "room_ok r n g"
  shows "hot_check n g r = after_room g"
proof -
  have "hot_names r \<subseteq> set (keys (configs r)) - {n}"
    using shared_ok_lru [OF assms(2)] shared_okD(6) [OF assms(2)] assms(3)
    by (auto simp: hot_names_def room_ok_def simp del: list.set_map)
  then have "card (hot_names r) \<le> card (set (keys (configs r)) - {n})" by (intro card_mono) simp_all
  also have "\<dots> < card (set (keys (configs r)))"
    using assms(3) by (intro card_Diff1_less) (simp_all add: room_ok_def)
  finally have "count_by_tier r Hot < hot_limit r"
    using assms(1) count_hot_card [OF shared_okD(1) [OF assms(2)]] by (simp add: roomy_def)
  then show ?thesis by (simp add: hot_check_def)
qed

lemma set_hot_again:
  "map_of (runtimes r) n = Some (rt, Hot) \<Longrightarrow> map_of (runtimes (set_hot n rt r)) = map_of (runtimes r)"
  by (rule ext) (simp add: set_hot_def lookup_update)

text \<open>A step keeps the entries, or enters a runtime for a name that had none.\<close>

text \<open>A step keeps the entries, or enters a runtime for a name that had none.\<close>

definition flies :: "string \<Rightarrow> 'd registry \<Rightarrow> pc \<Rightarrow> 'd registry \<Rightarrow> bool" where
  "flies n r p' r' \<longleftrightarrow> flight_ok r' (n, p') \<and> all_hot r'
     \<and> (\<forall>m e. map_of (runtimes r) m = Some e \<longrightarrow> map_of (runtimes r') m = Some e)"

lemma flies_again:
  "all_hot r \<Longrightarrow> map_of (runtimes r) n = Some (rt, Hot) \<Longrightarrow> flies n r (Finished (Inr rt)) (set_hot n rt r)"
  by (simp add: flies_def set_hot_again all_hot_def)

lemma flies_engine: "all_hot r \<Longrightarrow> flight_ok r (n, p') \<Longrightarrow> flies n r p' (on_engine f r)"
  by (cases p' rule: pc.exhaust) (auto simp: flies_def all_hot_def elim!: flight_ok.elims)

lemma flies_enter:
  assumes "all_hot r" "acquire_step dk env n Enter r = (p', r')"
  shows "flies n r p' r'"
proof (cases "map_of (runtimes r) n")
  case None
  then have "p' = Ask_Lock" "r' = r" using assms(2) by auto
  then show ?thesis using flies_engine [OF assms(1), of n Ask_Lock "\<lambda>d. d"] by (simp add: on_engine_id)
next
  case (Some e)
  then obtain rt where e: "map_of (runtimes r) n = Some (rt, Hot)" using assms(1) by (cases e) (auto simp: all_hot_def)
  then have "p' = Finished (Inr rt)" "r' = set_hot n rt r" using assms(2) by auto
  then show ?thesis using flies_again [OF assms(1) e] by simp
qed

lemma flies_replicas:
  assumes "all_hot r" "tier_of r n \<noteq> Some Hot" "acquire_step dk env n (Replicas cfg js cids urls) r = (p', r')"
  shows "flies n r p' r'"
proof (cases js)
  case Nil
  then show ?thesis using all_hot_cold [OF assms(1,2)] assms(1,3)
    by (auto simp: flies_def cold_commit_def Let_def set_hot_def table_simps all_hot_def split: if_splits)
next
  case (Cons i ks)
  then have rs: "replica_step dk env cfg i ks cids urls r = (p', r')" using assms(3) by simp
  then have "flight_ok r (n, p')" by (auto simp: replica_step_def split: prod.splits sum.splits fault.splits)
  then show ?thesis using replica_step_change(1) [OF rs] flies_engine [OF assms(1)] by blast
qed

lemma flight_step:
  assumes st: "acquire_step dk env n p r = (p', r')" and p: "p = Enter \<or> inside p"
    and ok: "shared_ok r" "pc_ok r n p" and h: "all_hot r" "roomy r" "flight_ok r (n, p)"
  shows "flies n r p' r'"
proof (cases p)
  case Enter
  then show ?thesis using flies_enter [OF h(1)] st by blast
next
  case Recheck
  then have "p' = recheck n r" "r' = on_engine (\<lambda>d. d) r" using st by (auto simp: on_engine_id)
  moreover have "flight_ok r (n, recheck n r)" using h(1)
    by (auto simp: recheck_def all_hot_def split: option.splits prod.splits tier.splits)
  ultimately show ?thesis using flies_engine [OF h(1)] by blast
next
  case (Found_Hot rt)
  then show ?thesis using st h flies_again by auto
next
  case (Hot_Check g)
  then have "p' = after_room g" "r' = on_engine (\<lambda>d. d) r"
    using st roomy_check [OF h(2) ok(1)] ok(2) by (auto simp: on_engine_id)
  then show ?thesis using Hot_Check h flies_engine [OF h(1)] by auto
next
  case (Replicas cfg js cids urls)
  then show ?thesis using flies_replicas [OF h(1)] st ok(2) by (auto simp: room_ok_def)
next
  case (Undoing e cs)
  then show ?thesis using st h(1) by (cases cs) (auto simp: flies_def all_hot_def)
qed (use h(3) p in auto)

definition flights_ok :: "'d service \<Rightarrow> bool" where
  "flights_ok s \<longleftrightarrow> all_hot (reg s) \<and> roomy (reg s) \<and> (\<forall>i < length (slots s). flight_ok (reg s) (slots s ! i))"

lemma flight_ok_keep:
  assumes "flight_ok r x" "\<And>m e. map_of (runtimes r) m = Some e \<Longrightarrow> map_of (runtimes r') m = Some e"
  shows "flight_ok r' x"
proof -
  obtain n p where x: "x = (n, p)" by (cases x)
  show ?thesis
  proof (cases p)
    case (Finished res)
    then show ?thesis using assms x by (cases res) auto
  qed (use assms x in auto)
qed

lemma flights_ok_slot:
  assumes "flights_ok s" "slots s' = (slots s)[i := x]" "flight_ok (reg s') x" "all_hot (reg s')" "roomy (reg s')"
    and "\<And>m e. map_of (runtimes (reg s)) m = Some e \<Longrightarrow> map_of (runtimes (reg s')) m = Some e"
  shows "flights_ok s'"
proof -
  have "flight_ok (reg s') (slots s' ! j)" if "j < length (slots s')" for j
  proof (cases "j = i")
    case True
    then show ?thesis using assms(2,3) that by simp
  next
    case False
    then have "flight_ok (reg s) (slots s' ! j)" using assms(1,2) that by (simp add: flights_ok_def)
    then show ?thesis by (rule flight_ok_keep [OF _ assms(6)])
  qed
  then show ?thesis using assms(4,5) by (simp add: flights_ok_def)
qed

lemma flights_ok_advance:
  assumes "flights_ok s" "pool_ok s" "advance dk env i s = Some s'"
  shows "flights_ok s'"
  using assms(3)
proof (cases rule: advance_cases)
  case (asks n)
  then show ?thesis using assms(1) by (intro flights_ok_slot [OF assms(1), of s' i "(n, Waiting)"]) (auto simp: flights_ok_def)
next
  case (granted n)
  then show ?thesis using assms(1) by (intro flights_ok_slot [OF assms(1), of s' i "(n, Recheck)"]) (auto simp: flights_ok_def)
next
  case (runs n p p' r')
  note d = pool_okD [OF assms(2)]
  have pc: "pc_ok (reg s) n p" using d(3) [OF runs(1)] runs(2) by simp
  have h: "all_hot (reg s)" "roomy (reg s)" "flight_ok (reg s) (n, p)"
    using assms(1) runs(1,2) unfolding flights_ok_def by force+
  note tc = acquire_step_change [OF runs(4) d(1) pc runs(3)]
  have "roomy r'" using h(2) table_change_fields [OF tc] by (simp add: roomy_def)
  then show ?thesis
    using flight_step [OF runs(4,3) d(1) pc h, unfolded flies_def] runs
    by (intro flights_ok_slot [OF assms(1), of s' i "(n, p')"]) auto
qed

lemma flights_ok_step: "service_step dk env s s' \<Longrightarrow> pool_ok s \<Longrightarrow> flights_ok s \<Longrightarrow> flights_ok s'"
proof (induction rule: service_step.induct)
  case (step_run i s s')
  then show ?case by (blast intro: flights_ok_advance)
next
  case (step_cancel i s s')
  then have "slots s' = (slots s)[i := (fst (slots s ! i), Idle)]" "reg s' = reg s"
    by (auto simp: cancel_def split: if_splits prod.splits)
  then show ?case using step_cancel(3) by (intro flights_ok_slot [OF step_cancel(3)]) (auto simp: flights_ok_def)
next
  case (step_arrive i n s s')
  then have "slots s' = (slots s)[i := (n, Enter)]" "reg s' = reg s"
    by (auto simp: arrive_def split: if_splits)
  then show ?case using step_arrive(3) by (intro flights_ok_slot [OF step_arrive(3)]) (auto simp: flights_ok_def)
next
  case (step_choose rt s u r')
  then have "runtimes r' = runtimes (reg s)" "configs r' = configs (reg s)" "hot_limit r' = hot_limit (reg s)"
    by (auto simp: pick_daemon_url_def Let_def split: if_splits)
  then show ?case using step_choose(3)
    by (auto simp: flights_ok_def all_hot_def roomy_def intro: flight_ok_keep)
next
  case (step_outside s f)
  then show ?case by (auto simp: flights_ok_def all_hot_def roomy_def intro: flight_ok_keep)
qed


section \<open>Schedules that break what one request at a time keeps\<close>

text \<open>Two requests that have just arrived.\<close>

definition two_requests :: "string \<Rightarrow> string \<Rightarrow> 'd registry \<Rightarrow> 'd service" where
  "two_requests n m r = \<lparr>reg = r, name_locks = [], slots = [(n, Enter), (m, Enter)]\<rparr>"

lemma two_requests_reachable: "(service_step dk env)\<^sup>*\<^sup>* (service_new r 2) (two_requests n m r)"
proof -
  let ?s = "\<lparr>reg = r, name_locks = [], slots = [(n, Enter), ([], Idle)]\<rparr>"
  have "service_step dk env (service_new r 2) ?s"
    by (rule step_arrive [of 0 n]) (simp add: arrive_def service_new_def numeral_2_eq_2)
  moreover have "service_step dk env ?s (two_requests n m r)"
    by (rule step_arrive [of 1 m]) (simp add: arrive_def two_requests_def)
  ultimately show ?thesis by (meson converse_rtranclp_into_rtranclp r_into_rtranclp)
qed

lemma run_schedule_reachable: "run_schedule dk env is s = Some s' \<Longrightarrow> (service_step dk env)\<^sup>*\<^sup>* s s'"
proof (induction "is" arbitrary: s)
  case (Cons i js)
  then obtain u where "advance dk env i s = Some u" "run_schedule dk env js u = Some s'"
    by (auto simp: bind_eq_Some_conv)
  then show ?case using Cons.IH by (meson converse_rtranclp_into_rtranclp step_run)
qed simp

text \<open>Templates a and b are warm.\<close>

definition two_warm :: "nat \<Rightarrow> nat \<Rightarrow> sim registry" where
  "two_warm hot warm =
     \<lparr>engine_st = \<lparr>sim_cs = [(''ca'', Paused), (''cb'', Paused)], sim_ms = 0\<rparr>,
      configs = [(''a'', demo_tpl ''a''), (''b'', demo_tpl ''b'')],
      runtimes = [(''a'', (demo_rt ''ca'' 0, Warm)), (''b'', (demo_rt ''cb'' 1, Warm))],
      lru = [''a'', ''b''], hot_limit = hot, warm_limit = warm, counters = [0, 0]\<rparr>"

text \<open>Both promotions look for room before either enters its template: the bound is reached.\<close>

lemma promotions_overshoot:
  "case run_schedule sim_docker (\<lambda>_. None) [0, 0, 0, 0, 0, 0, 0, 1, 1, 1, 1, 1, 1, 1, 0, 1]
      (two_requests ''a'' ''b'' (two_warm 1 2)) of
     None \<Rightarrow> False
   | Some s \<Rightarrow> count_by_tier (reg s) Hot = 2 \<and> hot_limit (reg s) = 1
       \<and> map snd (slots s) = [Finished (Inr (demo_rt ''ca'' 0)), Finished (Inr (demo_rt ''cb'' 1))]"
  by code_simp

text \<open>
  Template a is warm, b hot, c cold. The request for c demotes b and chooses a to make room among
  the warm ones; before it removes a, the request for a promotes it and is answered. Then the
  containers of the runtime just handed out are removed.
\<close>

definition three_tiers :: "sim registry" where
  "three_tiers = (demo_registry 1 1)\<lparr>configs := [(''a'', demo_tpl ''a''), (''b'', demo_tpl ''b''), (''c'', demo_tpl ''c'')]\<rparr>"

lemma eviction_takes_promoted:
  "case run_schedule sim_docker (\<lambda>_. None)
      ([0, 0, 0, 0, 0, 0, 0, 0, 0] @ [1, 1, 1, 1, 1, 1, 1, 1] @ [0, 0, 0, 0])
      (two_requests ''c'' ''a'' three_tiers) of
     None \<Rightarrow> False
   | Some s \<Rightarrow> slots s ! 1 = (''a'', Finished (Inr (demo_rt ''ca'' 0)))
       \<and> tier_of (reg s) ''a'' = None \<and> sim_cst (engine_st (reg s)) ''ca'' = None"
  by code_simp

text \<open>
  Two requests demote the same hot template: the second enters it as warm after the first has
  removed it. The entry is in no recency list, so it is never evicted again, although the warm tier is over its
  limit; the next request for it is answered with a runtime whose container does not exist.
\<close>

definition one_hot :: "sim registry" where
  "one_hot = \<lparr>engine_st = \<lparr>sim_cs = [(''ca'', Up)], sim_ms = 0\<rparr>,
      configs = [(''a'', demo_tpl ''a''), (''b'', demo_tpl ''b''), (''c'', demo_tpl ''c'')],
      runtimes = [(''a'', (demo_rt ''ca'' 0, Hot))],
      lru = [''a''], hot_limit = 1, warm_limit = 0, counters = [0]\<rparr>"

lemma demoted_twice:
  "case run_schedule sim_docker (\<lambda>_. None)
      ([0, 0, 0, 0, 0, 0] @ [1, 1, 1, 1, 1, 1] @ [0, 0, 0, 0, 0, 0] @ [1, 1])
      (two_requests ''b'' ''c'' one_hot) of
     None \<Rightarrow> False
   | Some s \<Rightarrow> tier_of (reg s) ''a'' = Some Warm \<and> ''a'' \<notin> set (lru (reg s))
       \<and> count_by_tier (reg s) Warm > warm_limit (reg s) \<and> warm_victim (reg s) = None
       \<and> fst (acquire sim_docker (\<lambda>_. None) ''a'' (reg s)) = Inr (demo_rt ''ca'' 0)
       \<and> sim_cst (engine_st (snd (acquire sim_docker (\<lambda>_. None) ''a'' (reg s)))) ''ca'' = None"
  by code_simp

text \<open>
  A client that goes away while its request demotes a template leaves the containers paused and the
  template hot: every later request for it is answered at once, with paused containers.
\<close>

lemma cancelled_demotion:
  "case run_schedule sim_docker (\<lambda>_. None) [0, 0, 0, 0, 0, 0, 0] (two_requests ''b'' ''a'' one_hot) of
     None \<Rightarrow> False
   | Some s \<Rightarrow>
       (case cancel 0 s of
          None \<Rightarrow> False
        | Some u \<Rightarrow> (case acquire sim_docker (\<lambda>_. None) ''a'' (reg u) of (res, r') \<Rightarrow>
            res = Inr (demo_rt ''ca'' 0) \<and> tier_of r' ''a'' = Some Hot
            \<and> sim_cst (engine_st r') ''ca'' = Some Paused))"
  by code_simp

section \<open>Witnesses\<close>

lemma two_warm_ok: "2 \<le> warm \<Longrightarrow> registry_ok (two_warm hot warm)"
  by (auto simp: registry_ok_def tables_ok_def two_warm_def runtime_ok_def demo_rt_def count_by_tier_def)

text \<open>The two promotions again: the limit is exceeded as far as the theorem allows.\<close>

theorem concurrent_registry_invariant_witness:
  "\<exists>s. run_schedule sim_docker (\<lambda>_. None) [0, 0, 0, 0, 0, 0, 0, 1, 1, 1, 1, 1, 1, 1, 0, 1]
      (two_requests ''a'' ''b'' (two_warm 1 2)) = Some s
    \<and> count_by_tier (reg s) Hot = max 1 (hot_limit (reg s)) + (2 - 1)
    \<and> count_by_tier (reg s) Hot \<le> max 1 (hot_limit (reg s)) + (2 - 1) \<and> distinct (lru (reg s))"
proof -
  obtain s where s: "run_schedule sim_docker (\<lambda>_. None) [0, 0, 0, 0, 0, 0, 0, 1, 1, 1, 1, 1, 1, 1, 0, 1]
      (two_requests ''a'' ''b'' (two_warm 1 2)) = Some s" "count_by_tier (reg s) Hot = 2" "hot_limit (reg s) = 1"
    using promotions_overshoot by (auto split: option.splits)
  have "(service_step sim_docker (\<lambda>_. None))\<^sup>*\<^sup>* (service_new (two_warm 1 2) 2) s"
    using two_requests_reachable run_schedule_reachable [OF s(1)] by (rule rtranclp_trans)
  from concurrent_registry_invariant [OF two_warm_ok this] have "distinct (lru (reg s))"
    "count_by_tier (reg s) Hot \<le> max 1 (hot_limit (reg s)) + (2 - 1)" by auto
  then show ?thesis using s by (intro exI [of _ s]) simp
qed

theorem concurrent_requests_answered_witness:
  "\<not> (\<exists>run. run 0 = two_requests ''a'' ''b'' (two_warm 1 2)
     \<and> (\<forall>t. request_step sim_docker (\<lambda>_. None) (run t) (run (Suc t))))"
  by (rule conjunct1 [OF concurrent_requests_answered [OF two_warm_ok two_requests_reachable]]) simp

theorem solo_request_is_acquire_witness:
  "\<exists>t s'. run_schedule sim_docker (\<lambda>_. None) (replicate t 0) (two_requests ''a'' ''b'' (two_warm 1 2)) = Some s'
    \<and> reg s' = snd (acquire sim_docker (\<lambda>_. None) ''a'' (two_warm 1 2))"
proof -
  let ?s = "two_requests ''a'' ''b'' (two_warm 1 2)"
  have s: "0 < length (slots ?s)" "slots ?s ! 0 = (''a'', Enter)" "lock_queue (name_locks ?s) ''a'' = []"
      "acquire sim_docker (\<lambda>_. None) ''a'' (reg ?s) = (fst (acquire sim_docker (\<lambda>_. None) ''a'' (two_warm 1 2)),
         snd (acquire sim_docker (\<lambda>_. None) ''a'' (two_warm 1 2)))"
    by (simp_all add: two_requests_def lock_queue_def name_lock_def)
  from solo_request_is_acquire [OF s] show ?thesis by blast
qed

text \<open>Two requests for the same cold template: the second waits while the first starts it.\<close>

definition one_cold :: "sim registry" where
  "one_cold = registry_new \<lparr>sim_cs = [], sim_ms = 0\<rparr> [(''a'', demo_tpl ''a'')] 1 1"

lemma one_cold_memory: "parse_memory id ''4g'' = Some 4294967296"
proof -
  have "show_nat 4 = ''4''" by code_simp
  then show ?thesis
    using parse_memory_digits [of "''g''" "2 ^ 30" 4 id] by (simp add: memory_units_def wrap_i64_def)
qed

lemma one_cold_start:
  "start_tools_container sim_docker (\<lambda>_. None) (demo_tpl ''a'') 0 \<lparr>sim_cs = [], sim_ms = 0\<rparr>
    = (Inr (''c'', ''http://c:8002''), \<lparr>sim_cs = [(''c'', Up)], sim_ms = 0\<rparr>)"
proof -
  have poll: "health_poll sim_docker url 30000 poll_fuel None d = (Inr (), d)" if "sim_ms d = 0" for url d
  proof -
    have fuel: "poll_fuel = Suc 151" by (simp add: poll_fuel_def)
    show ?thesis unfolding fuel health_poll.simps using that by (simp add: sim_docker_def)
  qed
  have net: "tools_network_name (\<lambda>_. None) = ''mindbox-tools''" by code_simp
  have sel: "lower_table sim_docker = id" "tpl_name (demo_tpl ''a'') = ''a''" "memory_reservation (demo_tpl ''a'') = ''4g''"
    "warmup (demo_tpl ''a'') = default_warmup" by (simp_all add: sim_docker_def demo_tpl_def)
  have calls: "inspect_image sim_docker t s = (Inr (), s)" "inspect_network sim_docker t s = (Inr (), s)"
    "create_container sim_docker t cc s = (Inr (sim_fresh s), sim_set (sim_fresh s) Created s)"
    "start_container sim_docker c s = (Inr (), sim_set c Up s)"
    "inspect_addresses sim_docker c s = (Inr [(''mindbox-tools'', Some c)], s)"
    "clock_ms sim_docker s = sim_ms s" for t cc c s
    by (simp_all add: sim_docker_def)
  show ?thesis
    by (simp add: start_tools_container_def bring_up_def io_try_def io_err_def io_lift_def or_remove_def
        docker_image_exists_def ensure_tools_network_def container_ip_def run_template_warmup_def default_warmup_def
        net sel calls one_cold_memory poll sim_fresh_def sim_set_def Let_def)
qed

lemma shared_start:
  "map_option slots (run_schedule sim_docker (\<lambda>_. None) ([0, 0, 0, 0] @ [1, 1] @ [0, 0, 0] @ [1, 1, 1])
      (two_requests ''a'' ''a'' one_cold))
    = Some [(''a'', Finished (Inr \<lparr>container_ids = [''c''], daemon_urls = [''http://c:8002''], rr_addr = 0\<rparr>)),
            (''a'', Finished (Inr \<lparr>container_ids = [''c''], daemon_urls = [''http://c:8002''], rr_addr = 0\<rparr>))]"
proof -
  have "n_containers (demo_tpl ''a'') = 1" by (simp add: demo_tpl_def)
  then show ?thesis
    by (simp add: two_requests_def one_cold_def registry_new_def advance_def move_def ask_lock_def leave_lock_def
        lock_queue_def name_lock_def recheck_def hot_check_def count_by_tier_def replica_step_def one_cold_start
        cold_commit_def set_hot_def touch_lru_def Let_def)
qed


end
