(* ===== verification/Spec2Isabelle.thy ===== *)
theory Spec2Isabelle
  imports Stream_Buffer Tools_Paths Tools_Edit Daemon_Props Tools_Search Tools_Rootfs Config_Props Forward_Props
    Codec_Props Build_Props Shim_Access Shim_Lifecycle Volume_Props Mount_Props Shim_Liveness Template_Builder
    Deployment Registry_Races
begin

text \<open>
  Mindbox: sandboxes for coding agents, as four Rust programs.

  \<^item> \<open>tools-rust\<close>, the daemon, runs inside a container and owns sessions: a directory and a table of
    child processes each. Its HTTP tools read, write, edit, list and search files, run one command
    (\<open>bash\<close>) or drive long-lived processes (\<open>process\<close>).
  \<^item> \<open>api-rust\<close>, the controller, owns the containers: a registry pages templates between hot
    (containers running), warm (paused) and cold (none), and the \<open>/v2\<close> routes send the calls of a
    session to the daemon that was chosen when the session was created.
  \<^item> \<open>e2b-shim\<close> translates the API of the e2b SDK (sandboxes, processes, files, templates, volumes,
    snapshots) to the \<open>/v2\<close> routes, and keeps sandbox records and volumes on its own disk or in S3.
  \<^item> \<open>template-builder\<close>, a command line tool, builds the container images of the templates.

  A request of the SDK runs through the shim, the controller and the daemon; \<open>Deployment\<close> composes
  the three models in this way.


  \<^bold>\<open>Foundations.\<close> \<open>Mb_Prelude\<close> (machine types, saturating arithmetic, results as sums with the
  combinators of the operator \<open>?\<close>, association tables, and the collections \<open>result_simps\<close> and
  \<open>table_simps\<close>), \<open>Rust_Str\<close> (strings as their UTF-8 bytes: searching, replacing, trimming, lossy
  decoding, number parsing), \<open>Rust_Path\<close> (\<open>std::path\<close> as lists of components), \<open>Fs_Model\<close> (the file
  system as a table from absolute names to nodes, with symbolic links followed up to 40 times;
  directories need entries of their own), \<open>Rust_Json\<close>, \<open>Http_Model\<close>. \<open>Fs_Facts\<close> and \<open>Fs_Create\<close> hold
  the lemmas on paths without links and on what survives the creation of directories.


  \<^bold>\<open>The daemon\<close> (\<open>tools-rust/src/main.rs\<close>, \<open>process.rs\<close>).
  \<open>Stream_Buffer\<close>: the ring buffer \<open>StreamBuffer\<close>. \<open>Tools_Paths\<close>: \<open>resolve_in\<close>. \<open>Tools_Edit\<close>: \<open>slice_lines\<close>
  and \<open>apply_edit_req\<close>. \<open>Tools_State\<close>: \<open>ProcessCfg\<close>, \<open>IsolationCfg\<close>, \<open>AppState\<close>, the process handles and
  the steps of the background tasks (\<open>task_step\<close>: drain, wait, close). \<open>Tools_Process\<close>: the seven actions
  of the \<open>process\<close> tool. \<open>Tools_Daemon\<close>: sessions, file tools, \<open>bash\<close>, reaper, shutdown, \<open>make_state\<close>.
  \<open>Tools_Rootfs\<close>: \<open>prepare_shared_rootfs\<close>. \<open>Tools_Search\<close>: \<open>grep\<close> and \<open>find\<close>. \<open>Tools_Wire\<close>: the JSON bodies
  and \<open>build_router\<close>. The record \<open>world\<close> is the state of the daemon with its files, the handles in a heap
  indexed by addresses, the clock and the trace of system calls. An \<open>.await\<close> is a call of the parameter
  \<open>interlude\<close>: there the background tasks run any number of steps, and the theorems assume nothing
  else of it; timed waits are recorded in \<open>waits\<close>.
  The property theories are \<open>Process_Facts\<close>, \<open>Process_Props\<close> and \<open>Process_Sessions\<close> (end of file, reported
  states, escalation of \<open>stop\<close>, order of input, isolation of sessions, what \<open>start\<close> creates),
  \<open>Daemon_Props\<close> (the invariant of every reachable state, deletion, round trip and confinement of the
  file tools) and \<open>Wire_Props\<close> (the type of the answers).


  \<^bold>\<open>The controller\<close> (\<open>api-rust/src/main.rs\<close>, \<open>tools_forward.rs\<close>).
  \<open>Api_Config\<close>: template files and settings. \<open>Api_Containers\<close>: the start of a container, over the record
  \<open>docker\<close> of what the Docker engine, HTTP and the clock do. \<open>Api_Registry\<close>: the paged registry and the
  start-up. \<open>Tools_Forward\<close>: the \<open>/v2\<close> routes. The health poll is counted by fuel: \<open>poll_fuel\<close> is 152, one
  more than the rounds that fit into 30 seconds, and \<open>acquire_ends\<close> shows that it is never used up.
  \<open>Api_Registry\<close> runs one request after the other. \<open>Registry_Tasks\<close> models the same functions as concurrent
  tasks: a control point \<open>pc\<close> of \<open>acquire\<close> and of the eviction loops per request, one step from one \<open>.await\<close>
  to the next, the lock of a template name as the queue of the tasks that asked for it, clients that go away
  (\<open>cancel\<close>) and new requests (\<open>arrive\<close>). \<open>Registry_Locks\<close>: what a fair lock promises the tasks that ask for
  it, and that the table of locks keeps that promise. \<open>Registry_Concurrent\<close> shows what every interleaving keeps (tables,
  mutual exclusion, the bound on hot templates), \<open>Registry_Progress\<close> that there is neither deadlock nor
  livelock, \<open>Registry_Solo\<close> that a request that is not interleaved is the function \<open>acquire\<close>, and \<open>Registry_Races\<close>
  that no template is started twice when there is room, and the schedules that break what the sequential
  registry guarantees (limits, and that a runtime handed out has running containers).
  Properties: \<open>Config_Props\<close> (settings reach the daemon), \<open>Registry_Props\<close> (tables and limits in every
  registry that requests one after the other reach), \<open>Container_Facts\<close> and \<open>Lease_Props\<close> (which containers run when a runtime is handed
  out, under laws of the Docker engine that \<open>sim_docker\<close> satisfies), \<open>Forward_Props\<close> (which daemon a
  request gets, sticky and deleted sessions).


  \<^bold>\<open>The shim\<close> (\<open>e2b-shim/src/main.rs\<close>).
  \<open>Shim_Codec\<close>: base64, Connect frames, percent encoding, shell quoting, path cleaning. \<open>Shim_State\<close>:
  \<open>AppState\<close>, the outside world as the record \<open>host\<close>, the calls of the daemon, the registry on disk.
  \<open>Shim_Volumes\<close>, \<open>Shim_Mounts\<close>: volumes, their S3 backend and content routes, mounts. \<open>Shim_Sandboxes\<close>,
  \<open>Shim_Process\<close>, \<open>Shim_Templates\<close>: the handlers. \<open>Shim_Routes\<close>: \<open>shim_handle\<close>, one request against the
  state; no answer (\<open>None\<close>) is a panic of the handler. The copy of a volume walks a stack of
  directories and is counted by fuel, one more than the number of nodes on the disk; \<open>Shim_Liveness\<close>
  shows that this is always enough.
  Properties: \<open>Codec_Props\<close>, \<open>Build_Props\<close> (log and outcome of a build from the bytes of its stream),
  \<open>Shim_Access\<close> (who is refused), \<open>Shim_Lifecycle\<close> (sandboxes survive a restart, expiry), \<open>Volume_Props\<close>
  (confinement and round trip of volume content), \<open>Mount_Props\<close> (which mount, and that uploads reach the
  volume), \<open>Shim_Liveness\<close>. \<open>Shim_Demo\<close> is the concrete world of the witnesses.


  \<^bold>\<open>The builder\<close> (\<open>template-builder/src/main.rs\<close>): \<open>Template_Builder\<close>.


  \<^bold>\<open>The composition\<close> \<open>Deployment\<close>: the outside world of the shim is the state of the controller, whose
  outside world is the world of a daemon. A session the shim makes is in a daemon, which the controller
  remembers (\<open>creation_deploys\<close>); then what is uploaded at the shim is what is downloaded again,
  a command of the shim runs once in the daemon of its session, and deleting the sandbox ends the session
  with its processes in the daemon. The hypotheses are that the network
  relays (\<open>controller_at\<close>, \<open>daemon_at\<close>) and that both ends read the JSON the other wrote.


  \<^bold>\<open>Interfaces.\<close> \<open>file_store\<close> (what is written is read back and other files keep their bytes;
  \<open>host_fs\<close> on the file model), \<open>byte_channel\<close> (a bounded channel that reports what it lost; \<open>ring\<close> on
  \<open>StreamBuffer\<close>), \<open>confining_resolver\<close> (\<open>resolver\<close> on \<open>resolve_in\<close>), \<open>handle_relation\<close> (a relation that
  every step of the background tasks keeps is kept by every action; \<open>lifecycle\<close>, \<open>buffers\<close>, \<open>footprint\<close>
  and \<open>input\<close>), \<open>runtime_provider\<close> (what the routes need of the registry; \<open>paged\<close>), \<open>fair_locks\<close> (a lock
  per name, each the queue of the tasks that asked for it; \<open>names\<close> on the table of locks).


  \<^bold>\<open>Not modelled.\<close> The \<open>main\<close> functions beyond the state they build: logging, sockets, the CORS layer,
  ports, signal handling (\<open>drain_all_sessions\<close> itself is modelled). The extractors of the framework are
  modelled only where a body decodes or not. Timeouts of HTTP calls are transport errors. The crates
  for regular expressions, globs, the directory walk, JSON, TOML, protobuf, time zones, S3, Docker and
  seccomp compilation are parameters, as are \<open>ldd\<close>, child processes and the kernel. Requests that
  acquire a template interleave (\<open>Registry_Tasks\<close>; the start of one replica is one step, and the reads of a
  count for the log are left out, as they change nothing), and so do a request of the daemon and its background
  tasks. The other requests of one program run one after the other, apart from a start racing a deletion,
  composed by hand in \<open>Daemon_Props\<close>. Mode bits, owners and time stamps of files are
  not part of the file model. The generated protobuf code (\<open>e2b-shim/build.rs\<close>) and the Python and shell
  tools of the repository are left out.
\<close>

end
